(* ===== verification/Domain_Types.thy ===== *)
theory Domain_Types
  imports Prelude
begin

text \<open>
  The data model of \<open>src/internal/domain/types.go\<close>: the two lifecycle dimensions of a Run, the
  frozen event vocabulary, the event payload and envelope, commands, and the projected State.

  Go's string-valued enumerations are datatypes: one constructor per declared constant, one for
  the zero value (the empty string) where the code tests it, and an \<open>Other\<close> constructor for
  every string that is not a declared constant, so that the default branches of the code keep
  their meaning. The \<open>text\<close> functions give back the string of a value.
\<close>

section \<open>Lifecycle dimensions\<close>

datatype DesiredState =
    DesiredNone | DesiredRunning | DesiredPaused | DesiredCancelled | DesiredOther string

fun DesiredState_text :: "DesiredState \<Rightarrow> string" where
  "DesiredState_text DesiredNone = ''''"
| "DesiredState_text DesiredRunning = ''Running''"
| "DesiredState_text DesiredPaused = ''Paused''"
| "DesiredState_text DesiredCancelled = ''Cancelled''"
| "DesiredState_text (DesiredOther s) = s"

fun DesiredState_Valid :: "DesiredState \<Rightarrow> bool" where
  "DesiredState_Valid DesiredRunning = True"
| "DesiredState_Valid DesiredPaused = True"
| "DesiredState_Valid DesiredCancelled = True"
| "DesiredState_Valid _ = False"

datatype Status =
    StatusNone | StatusQueued | StatusProvisioning | StatusReasoning | StatusActing
  | StatusVerifying | StatusRepairing | StatusWaitingApproval | StatusPaused
  | StatusSucceeded | StatusFailed | StatusCancelled | StatusOther string

fun Terminal :: "Status \<Rightarrow> bool" where
  "Terminal StatusSucceeded = True"
| "Terminal StatusFailed = True"
| "Terminal StatusCancelled = True"
| "Terminal _ = False"

lemma Terminal_iff: "Terminal s \<longleftrightarrow> s \<in> {StatusSucceeded, StatusFailed, StatusCancelled}"
  by (cases s) auto

section \<open>Commands, scopes and outcomes\<close>

datatype CommandType =
    CommandNone | CommandNoop | CommandStartAttempt | CommandProvisionWorkspace
  | CommandRunReasoner | CommandApplyPatch | CommandVerify | CommandSucceedRun
  | CommandFailRun | CommandCancelRun | CommandOther string

fun CommandType_text :: "CommandType \<Rightarrow> string" where
  "CommandType_text CommandNone = ''''"
| "CommandType_text CommandNoop = ''Noop''"
| "CommandType_text CommandStartAttempt = ''StartAttempt''"
| "CommandType_text CommandProvisionWorkspace = ''ProvisionWorkspace''"
| "CommandType_text CommandRunReasoner = ''RunReasoner''"
| "CommandType_text CommandApplyPatch = ''ApplyPatch''"
| "CommandType_text CommandVerify = ''Verify''"
| "CommandType_text CommandSucceedRun = ''SucceedRun''"
| "CommandType_text CommandFailRun = ''FailRun''"
| "CommandType_text CommandCancelRun = ''CancelRun''"
| "CommandType_text (CommandOther s) = s"

datatype IdempotencyScope =
    ScopeNone | IdempotencyScoped | IdempotencyUnsafe | ScopeOther string

fun IdempotencyScope_Valid :: "IdempotencyScope \<Rightarrow> bool" where
  "IdempotencyScope_Valid IdempotencyScoped = True"
| "IdempotencyScope_Valid IdempotencyUnsafe = True"
| "IdempotencyScope_Valid _ = False"

datatype ActionOutcome =
    OutcomeNone | ActionOutcomeFailed | ActionOutcomeAmbiguous | OutcomeOther string

fun ActionOutcome_text :: "ActionOutcome \<Rightarrow> string" where
  "ActionOutcome_text OutcomeNone = ''''"
| "ActionOutcome_text ActionOutcomeFailed = ''failed''"
| "ActionOutcome_text ActionOutcomeAmbiguous = ''ambiguous''"
| "ActionOutcome_text (OutcomeOther s) = s"

record Command =
  cmd_Type :: CommandType
  cmd_RunID :: string
  cmd_ActionID :: string
  cmd_AttemptID :: string

section \<open>Events\<close>

datatype EventType =
    EventRunCreated | EventDesiredStateChanged
  | EventLeaseAcquired | EventLeaseRenewed | EventLeaseExpired
  | EventAttemptStarted | EventWorkspaceProvisionPlanned | EventWorkspaceProvisioned
  | EventReasoningPlanned | EventReasoningCompleted
  | EventToolCallPlanned | EventToolCallCompleted | EventToolCallFailed
  | EventPatchProduced
  | EventVerificationPlanned | EventVerificationPassed | EventVerificationFailed
  | EventRepairScheduled | EventApprovalRequested | EventApprovalResolved
  | EventCheckpointSaved
  | EventActionPlanned | EventActionCompleted | EventActionFailed
  | EventRunSucceeded | EventRunFailed | EventRunCancelled
  | EventNone | EventOther string

record EventData =
  ed_ScenarioID :: string
  ed_SpecHash :: string
  ed_DesiredState :: DesiredState
  ed_AttemptID :: string
  ed_ActionID :: string
  ed_ActionType :: CommandType
  ed_IdempotencyScope :: IdempotencyScope
  ed_ReceiptID :: string
  ed_Outcome :: ActionOutcome
  ed_Output :: string
  ed_OutputDigest :: string
  ed_ArtifactID :: string
  ed_ArtifactDigest :: string
  ed_ToolName :: string
  ed_ToolArguments :: string
  ed_Reason :: string

text \<open>Go's zero value \<open>EventData{}\<close>, the base of every composite literal in the sources.\<close>

definition EventData_zero :: EventData where
  "EventData_zero = \<lparr>
     ed_ScenarioID = '''', ed_SpecHash = '''', ed_DesiredState = DesiredNone,
     ed_AttemptID = '''', ed_ActionID = '''', ed_ActionType = CommandNone,
     ed_IdempotencyScope = ScopeNone, ed_ReceiptID = '''', ed_Outcome = OutcomeNone,
     ed_Output = '''', ed_OutputDigest = '''', ed_ArtifactID = '''', ed_ArtifactDigest = '''',
     ed_ToolName = '''', ed_ToolArguments = '''', ed_Reason = ''''\<rparr>"

record Event =
  ev_RunID :: string
  ev_Seq :: uint64
  ev_Type :: EventType
  ev_PayloadVersion :: goint
  ev_Data :: EventData
  ev_IdempotencyKey :: string
  ev_CausationID :: string
  ev_CorrelationID :: string
  ev_WorkerID :: string
  ev_FencingToken :: uint64
  ev_CreatedAt :: string

definition Event_zero :: Event where
  "Event_zero = \<lparr>
     ev_RunID = '''', ev_Seq = 0, ev_Type = EventNone, ev_PayloadVersion = 0,
     ev_Data = EventData_zero, ev_IdempotencyKey = '''', ev_CausationID = '''',
     ev_CorrelationID = '''', ev_WorkerID = '''', ev_FencingToken = 0, ev_CreatedAt = ''''\<rparr>"

definition CurrentEventPayloadVersion :: goint where
  "CurrentEventPayloadVersion = 1"

section \<open>The projected state\<close>

record Run =
  run_ID :: string
  run_ScenarioID :: string
  run_SpecHash :: string
  run_DesiredState :: DesiredState
  run_ObservedState :: Status
  run_CurrentAttempt :: goint
  run_Version :: uint64
  run_CreatedAt :: string
  run_UpdatedAt :: string

definition Run_zero :: Run where
  "Run_zero = \<lparr>
     run_ID = '''', run_ScenarioID = '''', run_SpecHash = '''',
     run_DesiredState = DesiredNone, run_ObservedState = StatusNone,
     run_CurrentAttempt = 0, run_Version = 0, run_CreatedAt = '''', run_UpdatedAt = ''''\<rparr>"

record State =
  st_Exists :: bool
  st_Run :: Run
  st_AttemptID :: string
  st_ResumeState :: Status
  st_PendingActionID :: string
  st_PendingActionType :: CommandType
  st_PendingAttemptID :: string
  st_PendingActionScope :: IdempotencyScope
  st_LastCompletedActionID :: string
  st_LastReceiptID :: string
  st_ReasoningOutput :: string
  st_ToolName :: string
  st_ToolArguments :: string
  st_PatchProduced :: bool
  st_VerificationPassed :: bool
  st_FailureReason :: string
  st_LastEventType :: EventType

definition InitialState :: State where
  "InitialState = \<lparr>
     st_Exists = False, st_Run = Run_zero, st_AttemptID = '''', st_ResumeState = StatusNone,
     st_PendingActionID = '''', st_PendingActionType = CommandNone, st_PendingAttemptID = '''',
     st_PendingActionScope = ScopeNone, st_LastCompletedActionID = '''', st_LastReceiptID = '''',
     st_ReasoningOutput = '''', st_ToolName = '''', st_ToolArguments = '''',
     st_PatchProduced = False, st_VerificationPassed = False, st_FailureReason = '''',
     st_LastEventType = EventNone\<rparr>"

text \<open>Reading and writing the nested \<open>Run\<close> of a State the way the code spells it.\<close>

abbreviation observed :: "State \<Rightarrow> Status" where
  "observed st \<equiv> run_ObservedState (st_Run st)"

abbreviation desired :: "State \<Rightarrow> DesiredState" where
  "desired st \<equiv> run_DesiredState (st_Run st)"

abbreviation set_observed :: "Status \<Rightarrow> State \<Rightarrow> State" where
  "set_observed s st \<equiv> st\<lparr>st_Run := (st_Run st)\<lparr>run_ObservedState := s\<rparr>\<rparr>"

abbreviation set_desired :: "DesiredState \<Rightarrow> State \<Rightarrow> State" where
  "set_desired d st \<equiv> st\<lparr>st_Run := (st_Run st)\<lparr>run_DesiredState := d\<rparr>\<rparr>"

section \<open>Errors of the domain package\<close>

text \<open>
  The sentinels of \<open>reducer.go\<close>. Every error the package returns wraps one sentinel, or two
  (\<open>"%w: %w"\<close>), which is \<open>ErrJoin\<close>; message texts are not part of the value.
  \<open>domain_Is\<close> is \<open>errors.Is\<close>.
\<close>

datatype DomainError =
    ErrInvalidSequence | ErrDuplicateIdempotencyKey | ErrInvalidTransition
  | ErrTerminalState | ErrUnsupportedEvent | ErrInvalidEvent
  | ErrJoin DomainError DomainError

fun domain_Is :: "DomainError \<Rightarrow> DomainError \<Rightarrow> bool" where
  "domain_Is (ErrJoin a b) s = (ErrJoin a b = s \<or> domain_Is a s \<or> domain_Is b s)"
| "domain_Is e s = (e = s)"

end
