(* ===== verification/Domain_Decide.thy ===== *)
theory Domain_Decide
  imports Domain_Types
begin

text \<open>
  The decision function of \<open>src/internal/domain/decide.go\<close>. SHA-256 is a parameter: \<open>h\<close> maps
  the bytes of a string to the 64 lower-case hexadecimal digits that \<open>fmt.Sprintf("%x", ...)\<close>
  prints for \<open>sha256.Sum256\<close>, so an action id, the digest of the first 16 bytes, is the
  first 32 digits.
\<close>

type_synonym hash = "string \<Rightarrow> string"

definition commandMaterial :: "State \<Rightarrow> CommandType \<Rightarrow> string" where
  "commandMaterial st ct =
     run_ID (st_Run st) @ ''|'' @ CommandType_text ct @ ''|''
       @ show_int (sint (run_CurrentAttempt (st_Run st))) @ ''|'' @ st_AttemptID st"

definition commandFor :: "hash \<Rightarrow> State \<Rightarrow> CommandType \<Rightarrow> Command" where
  "commandFor h st ct = \<lparr>
     cmd_Type = ct,
     cmd_RunID = run_ID (st_Run st),
     cmd_ActionID = take 32 (h (commandMaterial st ct)),
     cmd_AttemptID = st_AttemptID st\<rparr>"

definition noopCommand :: Command where
  "noopCommand = \<lparr>cmd_Type = CommandNoop, cmd_RunID = '''', cmd_ActionID = '''', cmd_AttemptID = ''''\<rparr>"

definition nextAttemptID :: "State \<Rightarrow> string" where
  "nextAttemptID st =
     run_ID (st_Run st) @ '':attempt:'' @ show_int (sint (run_CurrentAttempt (st_Run st) + 1))"

definition keepPending :: "State \<Rightarrow> Command \<Rightarrow> Command" where
  "keepPending st c =
     (if st_PendingActionID st \<noteq> '''' then c\<lparr>cmd_ActionID := st_PendingActionID st\<rparr> else c)"

definition Decide :: "hash \<Rightarrow> State \<Rightarrow> Command" where
  "Decide h st =
     (if \<not> st_Exists st \<or> Terminal (observed st) then noopCommand
      else if desired st = DesiredCancelled then commandFor h st CommandCancelRun
      else if desired st = DesiredPaused \<or> observed st = StatusPaused then noopCommand
      else if observed st = StatusWaitingApproval then noopCommand
      else if st_FailureReason st \<noteq> '''' then commandFor h st CommandFailRun
      else (case observed st of
          StatusQueued \<Rightarrow> (commandFor h st CommandStartAttempt)\<lparr>cmd_AttemptID := nextAttemptID st\<rparr>
        | StatusProvisioning \<Rightarrow> commandFor h st CommandProvisionWorkspace
        | StatusReasoning \<Rightarrow> keepPending st (commandFor h st CommandRunReasoner)
        | StatusActing \<Rightarrow> commandFor h st CommandApplyPatch
        | StatusVerifying \<Rightarrow>
            (if st_VerificationPassed st then commandFor h st CommandSucceedRun
             else keepPending st (commandFor h st CommandVerify))
        | _ \<Rightarrow> noopCommand))"

section \<open>Which command a state asks for\<close>

lemma commandFor_simps [simp]:
  "cmd_Type (commandFor h st ct) = ct"
  "cmd_RunID (commandFor h st ct) = run_ID (st_Run st)"
  "cmd_ActionID (commandFor h st ct) = take 32 (h (commandMaterial st ct))"
  "cmd_AttemptID (commandFor h st ct) = st_AttemptID st"
  by (simp_all add: commandFor_def)

lemma noopCommand_simps [simp]:
  "cmd_Type noopCommand = CommandNoop"
  "cmd_ActionID noopCommand = ''''"
  by (simp_all add: noopCommand_def)

lemma keepPending_simps [simp]:
  "cmd_Type (keepPending st c) = cmd_Type c"
  "cmd_RunID (keepPending st c) = cmd_RunID c"
  "cmd_AttemptID (keepPending st c) = cmd_AttemptID c"
  by (simp_all add: keepPending_def)

lemma Decide_type_cases:
  "cmd_Type (Decide h st) \<in>
     {CommandNoop, CommandStartAttempt, CommandProvisionWorkspace, CommandRunReasoner,
      CommandApplyPatch, CommandVerify, CommandSucceedRun, CommandFailRun, CommandCancelRun}"
  by (auto simp: Decide_def split: Status.splits)

text \<open>
  Each command type pins down the part of the state that the decision looked at. These are the
  facts the reducer's managed-action invariant is built on.
\<close>

lemma Decide_command_requires:
  "cmd_Type (Decide h st) = CommandStartAttempt \<Longrightarrow>
     st_Exists st \<and> observed st = StatusQueued \<and> cmd_AttemptID (Decide h st) = nextAttemptID st"
  "cmd_Type (Decide h st) = CommandProvisionWorkspace \<Longrightarrow> st_Exists st \<and> observed st = StatusProvisioning"
  "cmd_Type (Decide h st) = CommandRunReasoner \<Longrightarrow> st_Exists st \<and> observed st = StatusReasoning"
  "cmd_Type (Decide h st) = CommandApplyPatch \<Longrightarrow> st_Exists st \<and> observed st = StatusActing"
  "cmd_Type (Decide h st) = CommandVerify \<Longrightarrow>
     st_Exists st \<and> observed st = StatusVerifying \<and> \<not> st_VerificationPassed st"
  "cmd_Type (Decide h st) = CommandSucceedRun \<Longrightarrow>
     st_Exists st \<and> observed st = StatusVerifying \<and> st_VerificationPassed st"
  "cmd_Type (Decide h st) = CommandFailRun \<Longrightarrow>
     st_Exists st \<and> st_FailureReason st \<noteq> '''' \<and> \<not> Terminal (observed st)"
  "cmd_Type (Decide h st) = CommandCancelRun \<Longrightarrow>
     st_Exists st \<and> desired st = DesiredCancelled \<and> \<not> Terminal (observed st)"
  by (auto simp: Decide_def split: Status.splits if_splits)

lemma Decide_active:
  assumes "cmd_Type (Decide h st) \<noteq> CommandNoop" and "cmd_Type (Decide h st) \<noteq> CommandCancelRun"
  shows "desired st \<noteq> DesiredPaused \<and> desired st \<noteq> DesiredCancelled \<and> observed st \<noteq> StatusPaused
    \<and> observed st \<noteq> StatusWaitingApproval \<and> \<not> Terminal (observed st)"
  using assms by (auto simp: Decide_def split: Status.splits if_splits)

end
