(* ===== verification/Domain_Reducer.thy ===== *)
theory Domain_Reducer
  imports Domain_Decide
begin

text \<open>
  The pure reducer of \<open>src/internal/domain/reducer.go\<close>, statement by statement: the transition
  table, the handler of each event type, the managed-action handlers, and the two loops
  \<open>Reduce\<close> and \<open>ReduceFromCheckpoint\<close>. A handler returns the new State or the error of the
  branch that rejects the event; the State a Go handler has half written when it returns an error
  is dropped by every caller, so it is not part of the result.
\<close>

section \<open>The transition table\<close>

fun allowedTargets :: "Status \<Rightarrow> Status list" where
  "allowedTargets StatusNone = [StatusQueued]"
| "allowedTargets StatusQueued =
     [StatusProvisioning, StatusPaused, StatusWaitingApproval, StatusFailed, StatusCancelled]"
| "allowedTargets StatusProvisioning =
     [StatusReasoning, StatusPaused, StatusWaitingApproval, StatusFailed, StatusCancelled]"
| "allowedTargets StatusReasoning =
     [StatusActing, StatusPaused, StatusWaitingApproval, StatusFailed, StatusCancelled]"
| "allowedTargets StatusActing =
     [StatusVerifying, StatusPaused, StatusWaitingApproval, StatusFailed, StatusCancelled]"
| "allowedTargets StatusVerifying =
     [StatusSucceeded, StatusRepairing, StatusPaused, StatusWaitingApproval, StatusFailed,
      StatusCancelled]"
| "allowedTargets StatusRepairing =
     [StatusReasoning, StatusWaitingApproval, StatusPaused, StatusFailed, StatusCancelled]"
| "allowedTargets StatusWaitingApproval =
     [StatusReasoning, StatusPaused, StatusFailed, StatusCancelled]"
| "allowedTargets StatusPaused =
     [StatusQueued, StatusProvisioning, StatusReasoning, StatusActing, StatusVerifying,
      StatusRepairing, StatusWaitingApproval, StatusSucceeded, StatusFailed, StatusCancelled]"
| "allowedTargets _ = []"

definition ValidateTransition :: "Status \<Rightarrow> Status \<Rightarrow> DomainError + unit" where
  "ValidateTransition from to =
     (if Terminal from then Inl (ErrJoin ErrTerminalState ErrInvalidTransition)
      else if to \<in> set (allowedTargets from) then Inr ()
      else Inl ErrInvalidTransition)"

definition transition :: "State \<Rightarrow> Status \<Rightarrow> DomainError + State" where
  "transition st to =
     bindE (ValidateTransition (observed st) to) (\<lambda>_. Inr (set_observed to st))"

section \<open>Guards shared by the handlers\<close>

definition requireActiveState :: "State \<Rightarrow> Status \<Rightarrow> DomainError + unit" where
  "requireActiveState st expected =
     (if \<not> st_Exists st then Inl ErrInvalidTransition
      else if desired st \<noteq> DesiredRunning \<or> observed st \<noteq> expected then Inl ErrInvalidTransition
      else Inr ())"

definition requirePlannedResultState :: "State \<Rightarrow> Status \<Rightarrow> DomainError + bool" where
  "requirePlannedResultState st expected =
     (if \<not> st_Exists st then Inl ErrInvalidTransition
      else if desired st = DesiredRunning \<and> observed st = expected then Inr False
      else if desired st = DesiredPaused \<and> observed st = StatusPaused \<and> st_ResumeState st = expected
        then Inr True
      else Inl ErrInvalidTransition)"

definition advancePlannedResult :: "State \<Rightarrow> bool \<Rightarrow> Status \<Rightarrow> DomainError + State" where
  "advancePlannedResult st paused to =
     (if \<not> paused then transition st to
      else bindE (ValidateTransition (st_ResumeState st) to)
             (\<lambda>_. Inr (st\<lparr>st_ResumeState := to\<rparr>)))"

definition requirePendingAction :: "State \<Rightarrow> string \<Rightarrow> DomainError + unit" where
  "requirePendingAction st actionID =
     (if actionID = '''' \<or> st_PendingActionID st = '''' \<or> actionID \<noteq> st_PendingActionID st
      then Inl ErrInvalidTransition else Inr ())"

definition requireManagedPendingAction :: "State \<Rightarrow> string \<Rightarrow> CommandType \<Rightarrow> DomainError + unit" where
  "requireManagedPendingAction st actionID actionType =
     (if actionID = '''' \<or> actionID \<noteq> st_PendingActionID st
         \<or> actionType = CommandNone \<or> actionType \<noteq> st_PendingActionType st
      then Inl ErrInvalidTransition else Inr ())"

definition logicalState :: "State \<Rightarrow> Status" where
  "logicalState st = (if observed st = StatusPaused then st_ResumeState st else observed st)"

definition requireManagedLogicalState :: "State \<Rightarrow> Status \<Rightarrow> DomainError + unit" where
  "requireManagedLogicalState st expected =
     (if logicalState st \<noteq> expected then Inl ErrInvalidTransition else Inr ())"

definition advanceManagedState :: "State \<Rightarrow> Status \<Rightarrow> DomainError + State" where
  "advanceManagedState st to =
     (if observed st = StatusPaused
      then bindE (ValidateTransition (st_ResumeState st) to)
             (\<lambda>_. Inr (st\<lparr>st_ResumeState := to\<rparr>))
      else transition st to)"

definition clearPending :: "State \<Rightarrow> State" where
  "clearPending st = st\<lparr>st_PendingActionID := '''', st_PendingActionType := CommandNone,
     st_PendingAttemptID := '''', st_PendingActionScope := ScopeNone\<rparr>"

section \<open>Lifecycle handlers\<close>

definition applyRunCreated :: "State \<Rightarrow> Event \<Rightarrow> DomainError + State" where
  "applyRunCreated st ev =
     (if st_Exists st then Inl ErrInvalidTransition
      else bindE (ValidateTransition StatusNone StatusQueued) (\<lambda>_.
        Inr (InitialState\<lparr>
          st_Exists := True,
          st_Run := Run_zero\<lparr>
            run_ID := ev_RunID ev,
            run_ScenarioID := ed_ScenarioID (ev_Data ev),
            run_SpecHash := ed_SpecHash (ev_Data ev),
            run_DesiredState := DesiredRunning,
            run_ObservedState := StatusQueued,
            run_CreatedAt := ev_CreatedAt ev\<rparr>\<rparr>)))"

definition applyDesiredState :: "State \<Rightarrow> DesiredState \<Rightarrow> DomainError + State" where
  "applyDesiredState st d =
     (if \<not> DesiredState_Valid d then Inl ErrInvalidEvent
      else if Terminal (observed st) then Inl ErrTerminalState
      else (case d of
          DesiredPaused \<Rightarrow>
            (if desired st = DesiredPaused \<or> observed st = StatusPaused then Inl ErrInvalidTransition
             else if desired st = DesiredCancelled then Inl ErrInvalidTransition
             else bindE (transition (st\<lparr>st_ResumeState := observed st\<rparr>) StatusPaused)
                    (\<lambda>st'. Inr (set_desired DesiredPaused st')))
        | DesiredRunning \<Rightarrow>
            (if desired st \<noteq> DesiredPaused \<or> observed st \<noteq> StatusPaused
                \<or> st_ResumeState st = StatusNone
             then Inl ErrInvalidTransition
             else bindE (transition st (st_ResumeState st))
                    (\<lambda>st'. Inr (set_desired DesiredRunning (st'\<lparr>st_ResumeState := StatusNone\<rparr>))))
        | DesiredCancelled \<Rightarrow>
            (if desired st = DesiredCancelled then Inl ErrInvalidTransition
             else Inr (set_desired DesiredCancelled st))
        | _ \<Rightarrow> Inl ErrInvalidEvent))"

definition applyDesiredStateChanged :: "State \<Rightarrow> Event \<Rightarrow> DomainError + State" where
  "applyDesiredStateChanged st ev =
     (if \<not> st_Exists st then Inl ErrInvalidTransition
      else applyDesiredState st (ed_DesiredState (ev_Data ev)))"

definition applyLeaseEvent :: "State \<Rightarrow> Event \<Rightarrow> DomainError + State" where
  "applyLeaseEvent st ev =
     (if \<not> st_Exists st then Inl ErrInvalidTransition
      else if ev_WorkerID ev = '''' \<or> ev_FencingToken ev = 0 then Inl ErrInvalidEvent
      else Inr st)"

definition applyAttemptStarted :: "State \<Rightarrow> Event \<Rightarrow> DomainError + State" where
  "applyAttemptStarted st ev =
     bindE (requireActiveState st StatusQueued) (\<lambda>_.
       if ed_AttemptID (ev_Data ev) = '''' then Inl ErrInvalidEvent
       else bindE (transition st StatusProvisioning) (\<lambda>st'.
         Inr (st'\<lparr>st_Run := (st_Run st')\<lparr>run_CurrentAttempt := run_CurrentAttempt (st_Run st') + 1\<rparr>,
                 st_AttemptID := ed_AttemptID (ev_Data ev)\<rparr>)))"

definition applyWorkspaceProvisioned :: "State \<Rightarrow> Event \<Rightarrow> DomainError + State" where
  "applyWorkspaceProvisioned st ev =
     bindE (requireActiveState st StatusProvisioning) (\<lambda>_. transition st StatusReasoning)"

definition applyReasoningPlanned :: "State \<Rightarrow> Event \<Rightarrow> DomainError + State" where
  "applyReasoningPlanned st ev =
     bindE (requireActiveState st StatusReasoning) (\<lambda>_.
       if ed_ActionID (ev_Data ev) = '''' then Inl ErrInvalidEvent
       else if st_PendingActionID st \<noteq> '''' then Inl ErrInvalidTransition
       else Inr (st\<lparr>st_PendingActionID := ed_ActionID (ev_Data ev)\<rparr>))"

definition applyReasoningCompleted :: "State \<Rightarrow> Event \<Rightarrow> DomainError + State" where
  "applyReasoningCompleted st ev =
     bindE (requirePlannedResultState st StatusReasoning) (\<lambda>paused.
       bindE (requirePendingAction st (ed_ActionID (ev_Data ev))) (\<lambda>_.
         if ed_ToolName (ev_Data ev) = '''' then Inl ErrInvalidEvent
         else bindE (advancePlannedResult st paused StatusActing) (\<lambda>st'.
           Inr (st'\<lparr>st_PendingActionID := '''',
                   st_ReasoningOutput := ed_Output (ev_Data ev),
                   st_ToolName := ed_ToolName (ev_Data ev),
                   st_ToolArguments := ed_ToolArguments (ev_Data ev)\<rparr>))))"

definition applyToolCallFailed :: "State \<Rightarrow> Event \<Rightarrow> DomainError + State" where
  "applyToolCallFailed st ev =
     bindE (requirePlannedResultState st StatusReasoning) (\<lambda>_.
       bindE (requirePendingAction st (ed_ActionID (ev_Data ev))) (\<lambda>_.
         if ed_Reason (ev_Data ev) = '''' then Inl ErrInvalidEvent
         else Inr (st\<lparr>st_PendingActionID := '''', st_FailureReason := ed_Reason (ev_Data ev)\<rparr>)))"

definition applyPatchProduced :: "State \<Rightarrow> Event \<Rightarrow> DomainError + State" where
  "applyPatchProduced st ev =
     bindE (requireActiveState st StatusActing) (\<lambda>_.
       if ed_ActionID (ev_Data ev) = '''' then Inl ErrInvalidEvent
       else bindE (transition st StatusVerifying) (\<lambda>st'. Inr (st'\<lparr>st_PatchProduced := True\<rparr>)))"

definition applyVerificationPlanned :: "State \<Rightarrow> Event \<Rightarrow> DomainError + State" where
  "applyVerificationPlanned st ev =
     bindE (requireActiveState st StatusVerifying) (\<lambda>_.
       if st_VerificationPassed st then Inl ErrInvalidTransition
       else if ed_ActionID (ev_Data ev) = '''' then Inl ErrInvalidEvent
       else if st_PendingActionID st \<noteq> '''' then Inl ErrInvalidTransition
       else Inr (st\<lparr>st_PendingActionID := ed_ActionID (ev_Data ev)\<rparr>))"

definition applyVerificationPassed :: "State \<Rightarrow> Event \<Rightarrow> DomainError + State" where
  "applyVerificationPassed st ev =
     bindE (requirePlannedResultState st StatusVerifying) (\<lambda>_.
       bindE (requirePendingAction st (ed_ActionID (ev_Data ev))) (\<lambda>_.
         Inr (st\<lparr>st_PendingActionID := '''', st_VerificationPassed := True\<rparr>)))"

definition applyRunSucceeded :: "State \<Rightarrow> Event \<Rightarrow> DomainError + State" where
  "applyRunSucceeded st ev =
     bindE (requireActiveState st StatusVerifying) (\<lambda>_.
       if \<not> st_VerificationPassed st \<or> st_PendingActionID st \<noteq> '''' then Inl ErrInvalidTransition
       else transition st StatusSucceeded)"

definition applyRunFailed :: "State \<Rightarrow> Event \<Rightarrow> DomainError + State" where
  "applyRunFailed st ev =
     (if \<not> st_Exists st then Inl ErrInvalidTransition
      else if desired st \<noteq> DesiredRunning then Inl ErrInvalidTransition
      else (let st1 = (if ed_Reason (ev_Data ev) \<noteq> ''''
                       then st\<lparr>st_FailureReason := ed_Reason (ev_Data ev)\<rparr> else st)
            in if st_FailureReason st1 = '''' then Inl ErrInvalidEvent
               else transition (st1\<lparr>st_PendingActionID := ''''\<rparr>) StatusFailed))"

definition applyRunCancelled :: "State \<Rightarrow> Event \<Rightarrow> DomainError + State" where
  "applyRunCancelled st ev =
     (if \<not> st_Exists st \<or> desired st \<noteq> DesiredCancelled then Inl ErrInvalidTransition
      else transition (st\<lparr>st_PendingActionID := ''''\<rparr>) StatusCancelled)"

section \<open>Managed-action handlers\<close>

definition applyActionPlanned :: "hash \<Rightarrow> State \<Rightarrow> Event \<Rightarrow> DomainError + State" where
  "applyActionPlanned h st ev =
     (let d = ev_Data ev in
      if \<not> st_Exists st then Inl ErrInvalidTransition
      else if ed_ActionID d = '''' \<or> ed_ActionType d = CommandNone
              \<or> \<not> IdempotencyScope_Valid (ed_IdempotencyScope d) then Inl ErrInvalidEvent
      else if st_PendingActionID st \<noteq> '''' then Inl ErrInvalidTransition
      else (let command = Decide h st in
        if cmd_Type command = CommandNoop \<or> cmd_Type command \<noteq> ed_ActionType d
           \<or> cmd_ActionID command \<noteq> ed_ActionID d then Inl ErrInvalidTransition
        else if cmd_Type command = CommandStartAttempt \<and> ed_AttemptID d \<noteq> cmd_AttemptID command
          then Inl ErrInvalidTransition
        else Inr (st\<lparr>st_PendingActionID := ed_ActionID d,
                    st_PendingActionType := ed_ActionType d,
                    st_PendingAttemptID := ed_AttemptID d,
                    st_PendingActionScope := ed_IdempotencyScope d\<rparr>)))"

definition applyCompletedActionResult :: "State \<Rightarrow> EventData \<Rightarrow> DomainError + State" where
  "applyCompletedActionResult st d =
     (case ed_ActionType d of
        CommandStartAttempt \<Rightarrow>
          (if ed_AttemptID d = '''' then Inl ErrInvalidEvent
           else bindE (requireManagedLogicalState st StatusQueued) (\<lambda>_.
             bindE (advanceManagedState st StatusProvisioning) (\<lambda>st'.
               Inr (st'\<lparr>st_Run := (st_Run st')\<lparr>run_CurrentAttempt :=
                           run_CurrentAttempt (st_Run st') + 1\<rparr>,
                       st_AttemptID := ed_AttemptID d\<rparr>))))
      | CommandProvisionWorkspace \<Rightarrow>
          bindE (requireManagedLogicalState st StatusProvisioning)
            (\<lambda>_. advanceManagedState st StatusReasoning)
      | CommandRunReasoner \<Rightarrow>
          bindE (requireManagedLogicalState st StatusReasoning) (\<lambda>_.
            if ed_ToolName d = '''' then Inl ErrInvalidEvent
            else bindE (advanceManagedState st StatusActing) (\<lambda>st'.
              Inr (st'\<lparr>st_ReasoningOutput := ed_Output d,
                      st_ToolName := ed_ToolName d,
                      st_ToolArguments := ed_ToolArguments d\<rparr>)))
      | CommandApplyPatch \<Rightarrow>
          bindE (requireManagedLogicalState st StatusActing) (\<lambda>_.
            bindE (advanceManagedState st StatusVerifying) (\<lambda>st'.
              Inr (st'\<lparr>st_PatchProduced := True\<rparr>)))
      | CommandVerify \<Rightarrow>
          bindE (requireManagedLogicalState st StatusVerifying)
            (\<lambda>_. Inr (st\<lparr>st_VerificationPassed := True\<rparr>))
      | CommandSucceedRun \<Rightarrow>
          bindE (requireManagedLogicalState st StatusVerifying) (\<lambda>_.
            if \<not> st_VerificationPassed st then Inl ErrInvalidTransition
            else advanceManagedState st StatusSucceeded)
      | CommandFailRun \<Rightarrow>
          (if st_FailureReason st = '''' \<and> ed_Reason d = '''' then Inl ErrInvalidEvent
           else advanceManagedState
                  (if ed_Reason d \<noteq> '''' then st\<lparr>st_FailureReason := ed_Reason d\<rparr> else st)
                  StatusFailed)
      | CommandCancelRun \<Rightarrow>
          (if desired st \<noteq> DesiredCancelled then Inl ErrInvalidTransition
           else advanceManagedState st StatusCancelled)
      | _ \<Rightarrow> Inl ErrInvalidEvent)"

definition applyActionCompleted :: "State \<Rightarrow> Event \<Rightarrow> DomainError + State" where
  "applyActionCompleted st ev =
     (let d = ev_Data ev in
      if ed_ReceiptID d = '''' then Inl ErrInvalidEvent
      else bindE (requireManagedPendingAction st (ed_ActionID d) (ed_ActionType d)) (\<lambda>_.
        bindE (if desired st = DesiredCancelled \<and> ed_ActionType d \<noteq> CommandCancelRun
               then Inr st else applyCompletedActionResult st d) (\<lambda>st'.
          Inr ((clearPending st')\<lparr>st_LastCompletedActionID := ed_ActionID d,
                                 st_LastReceiptID := ed_ReceiptID d\<rparr>))))"

definition applyActionFailed :: "State \<Rightarrow> Event \<Rightarrow> DomainError + State" where
  "applyActionFailed st ev =
     (let d = ev_Data ev in
      bindE (requireManagedPendingAction st (ed_ActionID d) (ed_ActionType d)) (\<lambda>_.
        if ed_Reason d = '''' then Inl ErrInvalidEvent
        else if ed_Outcome d \<noteq> ActionOutcomeFailed \<and> ed_Outcome d \<noteq> ActionOutcomeAmbiguous
          then Inl ErrInvalidEvent
        else (let st' = (clearPending st)\<lparr>st_FailureReason := ed_Reason d\<rparr> in
          if ed_Outcome d = ActionOutcomeAmbiguous \<and> desired st' \<noteq> DesiredCancelled
          then advanceManagedState st' StatusWaitingApproval
          else Inr st')))"

definition ValidateActionCompletion :: "State \<Rightarrow> EventData \<Rightarrow> DomainError + unit" where
  "ValidateActionCompletion st d =
     bindE (applyActionCompleted st (Event_zero\<lparr>ev_Data := d\<rparr>)) (\<lambda>_. Inr ())"

definition ValidateManagedActionOutput ::
    "CommandType \<Rightarrow> string \<Rightarrow> EventData \<Rightarrow> DomainError + unit" where
  "ValidateManagedActionOutput actionType plannedAttemptID output =
     (case actionType of
        CommandStartAttempt \<Rightarrow>
          (if ed_AttemptID output = '''' \<or> ed_AttemptID output \<noteq> plannedAttemptID
           then Inl ErrInvalidEvent else Inr ())
      | CommandRunReasoner \<Rightarrow> (if ed_ToolName output = '''' then Inl ErrInvalidEvent else Inr ())
      | CommandFailRun \<Rightarrow> (if ed_Reason output = '''' then Inl ErrInvalidEvent else Inr ())
      | _ \<Rightarrow> Inr ())"

section \<open>Dispatch and the two loops\<close>

fun legacyLifecycleResultEvent :: "EventType \<Rightarrow> bool" where
  "legacyLifecycleResultEvent EventAttemptStarted = True"
| "legacyLifecycleResultEvent EventWorkspaceProvisionPlanned = True"
| "legacyLifecycleResultEvent EventWorkspaceProvisioned = True"
| "legacyLifecycleResultEvent EventReasoningPlanned = True"
| "legacyLifecycleResultEvent EventReasoningCompleted = True"
| "legacyLifecycleResultEvent EventToolCallPlanned = True"
| "legacyLifecycleResultEvent EventToolCallCompleted = True"
| "legacyLifecycleResultEvent EventToolCallFailed = True"
| "legacyLifecycleResultEvent EventPatchProduced = True"
| "legacyLifecycleResultEvent EventVerificationPlanned = True"
| "legacyLifecycleResultEvent EventVerificationPassed = True"
| "legacyLifecycleResultEvent EventVerificationFailed = True"
| "legacyLifecycleResultEvent EventRepairScheduled = True"
| "legacyLifecycleResultEvent EventApprovalRequested = True"
| "legacyLifecycleResultEvent EventApprovalResolved = True"
| "legacyLifecycleResultEvent EventCheckpointSaved = True"
| "legacyLifecycleResultEvent EventRunSucceeded = True"
| "legacyLifecycleResultEvent EventRunFailed = True"
| "legacyLifecycleResultEvent EventRunCancelled = True"
| "legacyLifecycleResultEvent _ = False"

definition applyEvent :: "hash \<Rightarrow> State \<Rightarrow> Event \<Rightarrow> DomainError + State" where
  "applyEvent h st ev =
     (if st_PendingActionType st \<noteq> CommandNone \<and> legacyLifecycleResultEvent (ev_Type ev)
      then Inl ErrInvalidTransition
      else (case ev_Type ev of
          EventRunCreated \<Rightarrow> applyRunCreated st ev
        | EventDesiredStateChanged \<Rightarrow> applyDesiredStateChanged st ev
        | EventLeaseAcquired \<Rightarrow> applyLeaseEvent st ev
        | EventLeaseRenewed \<Rightarrow> applyLeaseEvent st ev
        | EventLeaseExpired \<Rightarrow> applyLeaseEvent st ev
        | EventActionPlanned \<Rightarrow> applyActionPlanned h st ev
        | EventActionCompleted \<Rightarrow> applyActionCompleted st ev
        | EventActionFailed \<Rightarrow> applyActionFailed st ev
        | EventAttemptStarted \<Rightarrow> applyAttemptStarted st ev
        | EventWorkspaceProvisioned \<Rightarrow> applyWorkspaceProvisioned st ev
        | EventReasoningPlanned \<Rightarrow> applyReasoningPlanned st ev
        | EventReasoningCompleted \<Rightarrow> applyReasoningCompleted st ev
        | EventToolCallFailed \<Rightarrow> applyToolCallFailed st ev
        | EventPatchProduced \<Rightarrow> applyPatchProduced st ev
        | EventVerificationPlanned \<Rightarrow> applyVerificationPlanned st ev
        | EventVerificationPassed \<Rightarrow> applyVerificationPassed st ev
        | EventRunSucceeded \<Rightarrow> applyRunSucceeded st ev
        | EventRunFailed \<Rightarrow> applyRunFailed st ev
        | EventRunCancelled \<Rightarrow> applyRunCancelled st ev
        | _ \<Rightarrow> Inl ErrUnsupportedEvent))"

text \<open>The bookkeeping both loops do after a handler accepted the event.\<close>

definition stampEvent :: "State \<Rightarrow> Event \<Rightarrow> State" where
  "stampEvent st ev = st\<lparr>
     st_Run := (st_Run st)\<lparr>
       run_Version := ev_Seq ev,
       run_UpdatedAt := (if ev_CreatedAt ev \<noteq> '''' then ev_CreatedAt ev
                         else run_UpdatedAt (st_Run st))\<rparr>,
     st_LastEventType := ev_Type ev\<rparr>"

text \<open>
  The loop of \<open>Reduce\<close>: \<open>index\<close> is the loop index, \<open>keys\<close> the set of idempotency keys
  seen so far.
\<close>

fun reduceLoop ::
    "hash \<Rightarrow> nat \<Rightarrow> string set \<Rightarrow> State \<Rightarrow> Event list \<Rightarrow> DomainError + State" where
  "reduceLoop h index keys st [] = Inr st"
| "reduceLoop h index keys st (ev # events) =
     (if ev_Seq ev \<noteq> of_nat (index + 1) then Inl ErrInvalidSequence
      else if ev_RunID ev = '''' then Inl ErrInvalidEvent
      else if ev_IdempotencyKey ev = '''' then Inl ErrInvalidEvent
      else if ev_PayloadVersion ev \<noteq> CurrentEventPayloadVersion then Inl ErrInvalidEvent
      else if ev_IdempotencyKey ev \<in> keys then Inl ErrDuplicateIdempotencyKey
      else if st_Exists st \<and> ev_RunID ev \<noteq> run_ID (st_Run st) then Inl ErrInvalidEvent
      else if st_Exists st \<and> Terminal (observed st) then Inl ErrTerminalState
      else bindE (applyEvent h st ev) (\<lambda>st'.
        reduceLoop h (index + 1) (insert (ev_IdempotencyKey ev) keys) (stampEvent st' ev) events))"

definition Reduce :: "hash \<Rightarrow> Event list \<Rightarrow> DomainError + State" where
  "Reduce h events = reduceLoop h 0 {} InitialState events"

text \<open>The loop of \<open>ReduceFromCheckpoint\<close>, with \<open>base\<close> the version of the checkpoint.\<close>

fun checkpointLoop ::
    "hash \<Rightarrow> uint64 \<Rightarrow> nat \<Rightarrow> string set \<Rightarrow> State \<Rightarrow> Event list \<Rightarrow> DomainError + State" where
  "checkpointLoop h base index keys st [] = Inr st"
| "checkpointLoop h base index keys st (ev # events) =
     (if ev_Seq ev \<noteq> base + of_nat index + 1 then Inl ErrInvalidSequence
      else if ev_RunID ev \<noteq> run_ID (st_Run st) then Inl ErrInvalidEvent
      else if ev_IdempotencyKey ev = '''' then Inl ErrInvalidEvent
      else if ev_PayloadVersion ev \<noteq> CurrentEventPayloadVersion then Inl ErrInvalidEvent
      else if ev_IdempotencyKey ev \<in> keys then Inl ErrDuplicateIdempotencyKey
      else if Terminal (observed st) then Inl ErrTerminalState
      else bindE (applyEvent h st ev) (\<lambda>st'.
        checkpointLoop h base (index + 1) (insert (ev_IdempotencyKey ev) keys)
          (stampEvent st' ev) events))"

definition ReduceFromCheckpoint :: "hash \<Rightarrow> State \<Rightarrow> Event list \<Rightarrow> DomainError + State" where
  "ReduceFromCheckpoint h checkpoint events =
     (if \<not> st_Exists checkpoint \<or> run_ID (st_Run checkpoint) = ''''
         \<or> run_Version (st_Run checkpoint) = 0
      then Inl ErrInvalidEvent
      else checkpointLoop h (run_Version (st_Run checkpoint)) 0 {} checkpoint events)"

end
