(* ===== verification/Domain_Invariants.thy ===== *)
theory Domain_Invariants
  imports Domain_Reducer
begin

text \<open>
  What the reducer keeps true. \<open>accepts\<close> is the set of event logs that \<open>Reduce\<close> accepts, as
  an inductive predicate with one rule per accepted event, so that facts about every reachable
  State are proved by rule induction. \<open>state_inv\<close> is the invariant of every State that a
  non-empty accepted log projects to: operator intent and observed state agree
  (\<open>intent_ok\<close>), the evidence recorded in the State matches its logical phase
  (\<open>phase_ok\<close>), and a pending action belongs to that phase (\<open>pending_ok\<close>). There is one
  preservation lemma per event handler.
\<close>

section \<open>Accepted logs\<close>

lemma reduceLoop_append:
  "reduceLoop h i K st (xs @ ys) =
     bindE (reduceLoop h i K st xs)
       (\<lambda>st'. reduceLoop h (i + length xs) (K \<union> ev_IdempotencyKey ` set xs) st' ys)"
proof (induction xs arbitrary: i K st)
  case Nil
  then show ?case by simp
next
  case (Cons x xs)
  then show ?case
    by (cases "applyEvent h st x") (simp_all add: insert_commute Un_insert_left)
qed

lemma Reduce_Nil [simp]: "Reduce h [] = Inr InitialState"
  by (simp add: Reduce_def)

lemma Reduce_append:
  "Reduce h (xs @ ys) =
     bindE (Reduce h xs)
       (\<lambda>st. reduceLoop h (length xs) (ev_IdempotencyKey ` set xs) st ys)"
  by (simp add: Reduce_def reduceLoop_append)

definition envelope_ok :: "Event list \<Rightarrow> State \<Rightarrow> Event \<Rightarrow> bool" where
  "envelope_ok es st ev \<longleftrightarrow>
     ev_Seq ev = of_nat (length es + 1) \<and> ev_RunID ev \<noteq> '''' \<and> ev_IdempotencyKey ev \<noteq> ''''
     \<and> ev_PayloadVersion ev = CurrentEventPayloadVersion
     \<and> ev_IdempotencyKey ev \<notin> ev_IdempotencyKey ` set es
     \<and> (st_Exists st \<longrightarrow> ev_RunID ev = run_ID (st_Run st) \<and> \<not> Terminal (observed st))"

inductive accepts :: "hash \<Rightarrow> Event list \<Rightarrow> State \<Rightarrow> bool" for h where
  accepts_Nil: "accepts h [] InitialState"
| accepts_snoc: "accepts h es st \<Longrightarrow> envelope_ok es st ev \<Longrightarrow> applyEvent h st ev = Inr st' \<Longrightarrow>
     accepts h (es @ [ev]) (stampEvent st' ev)"

lemma reduceLoop_single:
  "reduceLoop h (length es) (ev_IdempotencyKey ` set es) st [ev] = Inr st'' \<longleftrightarrow>
     envelope_ok es st ev \<and> (\<exists>st'. applyEvent h st ev = Inr st' \<and> st'' = stampEvent st' ev)"
  by (auto simp: envelope_ok_def result_simps)

lemma Reduce_accepts: "Reduce h es = Inr st \<longleftrightarrow> accepts h es st"
proof
  show "Reduce h es = Inr st \<Longrightarrow> accepts h es st"
  proof (induction es arbitrary: st rule: rev_induct)
    case Nil
    then show ?case by (simp add: accepts_Nil)
  next
    case (snoc ev es)
    then obtain st0 st' where "Reduce h es = Inr st0" "envelope_ok es st0 ev"
      "applyEvent h st0 ev = Inr st'" "st = stampEvent st' ev"
      by (auto simp: Reduce_append result_simps reduceLoop_single simp del: reduceLoop.simps)
    with snoc.IH show ?case by (blast intro: accepts_snoc)
  qed
next
  show "accepts h es st \<Longrightarrow> Reduce h es = Inr st"
    by (induction rule: accepts.induct)
       (simp_all add: Reduce_append reduceLoop_single del: reduceLoop.simps)
qed

section \<open>The invariant\<close>

text \<open>
  Operator intent and observation agree: a Run is observed as paused exactly while it is paused
  or was cancelled from a pause.
\<close>

definition intent_ok :: "State \<Rightarrow> bool" where
  "intent_ok st \<longleftrightarrow> st_Exists st \<and> run_ID (st_Run st) \<noteq> ''''
     \<and> desired st \<in> {DesiredRunning, DesiredPaused, DesiredCancelled}
     \<and> (desired st = DesiredPaused \<longrightarrow> observed st = StatusPaused)
     \<and> (desired st = DesiredRunning \<longrightarrow> observed st \<noteq> StatusPaused)"

text \<open>A Run has at most one attempt, and evidence is only gathered inside it, in order.\<close>

definition attempt_ok :: "State \<Rightarrow> bool" where
  "attempt_ok st \<longleftrightarrow>
     run_CurrentAttempt (st_Run st) = 0 \<and> st_AttemptID st = '''' \<and> st_ToolName st = ''''
       \<and> \<not> st_PatchProduced st \<and> \<not> st_VerificationPassed st
     \<or> run_CurrentAttempt (st_Run st) = 1 \<and> st_AttemptID st \<noteq> ''''
       \<and> (st_PatchProduced st \<longrightarrow> st_ToolName st \<noteq> '''')
       \<and> (st_VerificationPassed st \<longrightarrow> st_PatchProduced st)"

text \<open>The evidence each logical state rests on; the states missing here are unreachable.\<close>

fun phase_ok :: "Status \<Rightarrow> State \<Rightarrow> bool" where
  "phase_ok StatusQueued st = (run_CurrentAttempt (st_Run st) = 0 \<and> attempt_ok st)"
| "phase_ok StatusProvisioning st =
     (run_CurrentAttempt (st_Run st) = 1 \<and> st_ToolName st = '''' \<and> attempt_ok st)"
| "phase_ok StatusReasoning st =
     (run_CurrentAttempt (st_Run st) = 1 \<and> st_ToolName st = '''' \<and> attempt_ok st)"
| "phase_ok StatusActing st =
     (run_CurrentAttempt (st_Run st) = 1 \<and> st_ToolName st \<noteq> '''' \<and> \<not> st_PatchProduced st
      \<and> attempt_ok st)"
| "phase_ok StatusVerifying st = (st_PatchProduced st \<and> attempt_ok st)"
| "phase_ok StatusSucceeded st = (st_VerificationPassed st \<and> attempt_ok st)"
| "phase_ok StatusFailed st = (st_FailureReason st \<noteq> '''' \<and> attempt_ok st)"
| "phase_ok StatusWaitingApproval st = (st_FailureReason st \<noteq> '''' \<and> attempt_ok st)"
| "phase_ok StatusCancelled st = (desired st = DesiredCancelled \<and> attempt_ok st)"
| "phase_ok _ st = False"

text \<open>The phase a pending managed action was decided in and still belongs to.\<close>

fun pending_phase :: "CommandType \<Rightarrow> State \<Rightarrow> bool" where
  "pending_phase CommandStartAttempt st = (logicalState st = StatusQueued)"
| "pending_phase CommandProvisionWorkspace st = (logicalState st = StatusProvisioning)"
| "pending_phase CommandRunReasoner st = (logicalState st = StatusReasoning)"
| "pending_phase CommandApplyPatch st = (logicalState st = StatusActing)"
| "pending_phase CommandVerify st = (logicalState st = StatusVerifying)"
| "pending_phase CommandSucceedRun st =
     (logicalState st = StatusVerifying \<and> st_VerificationPassed st)"
| "pending_phase CommandFailRun st =
     (\<not> Terminal (logicalState st) \<and> logicalState st \<noteq> StatusWaitingApproval \<and> st_FailureReason st \<noteq> '''')"
| "pending_phase CommandCancelRun st = (\<not> Terminal (observed st) \<and> desired st = DesiredCancelled)"
| "pending_phase _ st = False"

text \<open>
  A managed action is pending with its id, type and scope; an action id without a type is a
  planned step of the compatibility path, which exists for reasoning and verification only.
\<close>

definition pending_ok :: "State \<Rightarrow> bool" where
  "pending_ok st \<longleftrightarrow>
     (if st_PendingActionType st = CommandNone
      then st_PendingAttemptID st = '''' \<and> st_PendingActionScope st = ScopeNone
        \<and> (st_PendingActionID st \<noteq> '''' \<longrightarrow> logicalState st \<in> {StatusReasoning, StatusVerifying})
      else st_PendingActionID st \<noteq> '''' \<and> IdempotencyScope_Valid (st_PendingActionScope st)
        \<and> pending_phase (st_PendingActionType st) st)"

definition state_inv :: "State \<Rightarrow> bool" where
  "state_inv st \<longleftrightarrow> intent_ok st \<and> phase_ok (logicalState st) st \<and> pending_ok st"

lemma phase_ok_attempt: "phase_ok L st \<Longrightarrow> attempt_ok st"
  by (induction L st rule: phase_ok.induct) auto

lemma phase_ok_live: "phase_ok L st \<Longrightarrow> L \<noteq> StatusPaused \<and> L \<noteq> StatusNone"
  by (cases L) auto

text \<open>Moving the logical state, the one effect all advancing handlers share.\<close>

definition moveTo :: "Status \<Rightarrow> State \<Rightarrow> State" where
  "moveTo to st = (if observed st = StatusPaused then st\<lparr>st_ResumeState := to\<rparr> else set_observed to st)"

lemma moveTo_simps [simp]:
  "st_Exists (moveTo to st) = st_Exists st"
  "run_ID (st_Run (moveTo to st)) = run_ID (st_Run st)"
  "desired (moveTo to st) = desired st"
  "run_CurrentAttempt (st_Run (moveTo to st)) = run_CurrentAttempt (st_Run st)"
  "st_AttemptID (moveTo to st) = st_AttemptID st"
  "st_ToolName (moveTo to st) = st_ToolName st"
  "st_PatchProduced (moveTo to st) = st_PatchProduced st"
  "st_VerificationPassed (moveTo to st) = st_VerificationPassed st"
  "st_FailureReason (moveTo to st) = st_FailureReason st"
  "st_PendingActionID (moveTo to st) = st_PendingActionID st"
  "st_PendingActionType (moveTo to st) = st_PendingActionType st"
  "st_PendingAttemptID (moveTo to st) = st_PendingAttemptID st"
  "st_PendingActionScope (moveTo to st) = st_PendingActionScope st"
  by (simp_all add: moveTo_def)

lemma moveTo_logical [simp]: "to \<noteq> StatusPaused \<Longrightarrow> logicalState (moveTo to st) = to"
  by (simp add: moveTo_def logicalState_def)

lemma moveTo_observed: "to \<noteq> StatusPaused \<Longrightarrow> observed (moveTo to st) = StatusPaused \<longleftrightarrow> observed st = StatusPaused"
  by (simp add: moveTo_def)

lemma advanceManagedState_iff [result_simps]:
  "advanceManagedState st to = Inr st' \<longleftrightarrow>
     \<not> Terminal (logicalState st) \<and> to \<in> set (allowedTargets (logicalState st)) \<and> st' = moveTo to st"
  by (auto simp: advanceManagedState_def transition_def ValidateTransition_def moveTo_def
      logicalState_def result_simps)

lemma transition_iff [result_simps]:
  "transition st to = Inr st' \<longleftrightarrow>
     \<not> Terminal (observed st) \<and> to \<in> set (allowedTargets (observed st)) \<and> st' = set_observed to st"
  by (auto simp: transition_def ValidateTransition_def result_simps)

lemma requirePlanned_iff [result_simps]:
  "x \<noteq> StatusPaused \<Longrightarrow> requirePlannedResultState st x = Inr p \<longleftrightarrow>
     st_Exists st \<and> logicalState st = x \<and> p = (observed st = StatusPaused)
     \<and> desired st = (if p then DesiredPaused else DesiredRunning)"
  by (cases "observed st = StatusPaused")
     (auto simp: requirePlannedResultState_def logicalState_def)

lemma advancePlannedResult_iff [result_simps]:
  "advancePlannedResult st (observed st = StatusPaused) to = advanceManagedState st to"
  by (simp add: advancePlannedResult_def advanceManagedState_def)

lemma requireManaged_iff [result_simps]:
  "requireManagedLogicalState st x = Inr u \<longleftrightarrow> logicalState st = x"
  by (auto simp: requireManagedLogicalState_def)

lemma requireManagedPendingAction_iff [result_simps]:
  "requireManagedPendingAction st i t = Inr u \<longleftrightarrow>
     i \<noteq> '''' \<and> i = st_PendingActionID st \<and> t \<noteq> CommandNone \<and> t = st_PendingActionType st"
  by (auto simp: requireManagedPendingAction_def)

lemma requireActiveState_iff [result_simps]:
  "requireActiveState st x = Inr u \<longleftrightarrow> st_Exists st \<and> desired st = DesiredRunning \<and> observed st = x"
  by (auto simp: requireActiveState_def)

lemma requirePendingAction_iff [result_simps]:
  "requirePendingAction st i = Inr u \<longleftrightarrow> i \<noteq> '''' \<and> st_PendingActionID st = i"
  by (auto simp: requirePendingAction_def)

lemma logicalState_not_paused: "observed st \<noteq> StatusPaused \<Longrightarrow> logicalState st = observed st"
  by (simp add: logicalState_def)

lemma clearPending_simps [simp]:
  "st_Exists (clearPending st) = st_Exists st"
  "st_Run (clearPending st) = st_Run st"
  "st_AttemptID (clearPending st) = st_AttemptID st"
  "st_ResumeState (clearPending st) = st_ResumeState st"
  "st_ToolName (clearPending st) = st_ToolName st"
  "st_PatchProduced (clearPending st) = st_PatchProduced st"
  "st_VerificationPassed (clearPending st) = st_VerificationPassed st"
  "st_FailureReason (clearPending st) = st_FailureReason st"
  "st_PendingActionID (clearPending st) = ''''"
  "st_PendingActionType (clearPending st) = CommandNone"
  "st_PendingAttemptID (clearPending st) = ''''"
  "st_PendingActionScope (clearPending st) = ScopeNone"
  by (simp_all add: clearPending_def)

text \<open>How the parts of the invariant see a record update: only the named fields matter.\<close>

lemma logicalState_update [simp]:
  "logicalState (st\<lparr>st_AttemptID := a\<rparr>) = logicalState st"
  "logicalState (st\<lparr>st_PendingActionID := a\<rparr>) = logicalState st"
  "logicalState (st\<lparr>st_PendingActionType := t\<rparr>) = logicalState st"
  "logicalState (st\<lparr>st_PendingAttemptID := a\<rparr>) = logicalState st"
  "logicalState (st\<lparr>st_PendingActionScope := s\<rparr>) = logicalState st"
  "logicalState (st\<lparr>st_LastCompletedActionID := a\<rparr>) = logicalState st"
  "logicalState (st\<lparr>st_LastReceiptID := a\<rparr>) = logicalState st"
  "logicalState (st\<lparr>st_ReasoningOutput := a\<rparr>) = logicalState st"
  "logicalState (st\<lparr>st_ToolName := a\<rparr>) = logicalState st"
  "logicalState (st\<lparr>st_ToolArguments := a\<rparr>) = logicalState st"
  "logicalState (st\<lparr>st_PatchProduced := b\<rparr>) = logicalState st"
  "logicalState (st\<lparr>st_VerificationPassed := b\<rparr>) = logicalState st"
  "logicalState (st\<lparr>st_FailureReason := a\<rparr>) = logicalState st"
  "logicalState (clearPending st) = logicalState st"
  by (simp_all add: logicalState_def)

lemma logicalState_run [simp]:
  "run_ObservedState r = observed st \<Longrightarrow> logicalState (st\<lparr>st_Run := r\<rparr>) = logicalState st"
  by (simp add: logicalState_def)


lemma attempt_ok_update [simp]:
  "attempt_ok (st\<lparr>st_PendingActionID := a\<rparr>) = attempt_ok st"
  "attempt_ok (st\<lparr>st_PendingActionType := t\<rparr>) = attempt_ok st"
  "attempt_ok (st\<lparr>st_PendingAttemptID := a\<rparr>) = attempt_ok st"
  "attempt_ok (st\<lparr>st_PendingActionScope := s\<rparr>) = attempt_ok st"
  "attempt_ok (st\<lparr>st_LastCompletedActionID := a\<rparr>) = attempt_ok st"
  "attempt_ok (st\<lparr>st_LastReceiptID := a\<rparr>) = attempt_ok st"
  "attempt_ok (st\<lparr>st_ReasoningOutput := a\<rparr>) = attempt_ok st"
  "attempt_ok (st\<lparr>st_ToolArguments := a\<rparr>) = attempt_ok st"
  "attempt_ok (st\<lparr>st_FailureReason := a\<rparr>) = attempt_ok st"
  "attempt_ok (st\<lparr>st_ResumeState := x\<rparr>) = attempt_ok st"
  "attempt_ok (clearPending st) = attempt_ok st"
  "attempt_ok (moveTo to st) = attempt_ok st"
  by (simp_all add: attempt_ok_def)

lemma attempt_ok_run [simp]:
  "run_CurrentAttempt r = run_CurrentAttempt (st_Run st) \<Longrightarrow> attempt_ok (st\<lparr>st_Run := r\<rparr>) = attempt_ok st"
  by (simp add: attempt_ok_def)

lemma intent_ok_update [simp]:
  "intent_ok (st\<lparr>st_PendingActionID := a\<rparr>) = intent_ok st"
  "intent_ok (st\<lparr>st_PendingActionType := t\<rparr>) = intent_ok st"
  "intent_ok (st\<lparr>st_PendingAttemptID := a\<rparr>) = intent_ok st"
  "intent_ok (st\<lparr>st_PendingActionScope := s\<rparr>) = intent_ok st"
  "intent_ok (st\<lparr>st_LastCompletedActionID := a\<rparr>) = intent_ok st"
  "intent_ok (st\<lparr>st_LastReceiptID := a\<rparr>) = intent_ok st"
  "intent_ok (st\<lparr>st_ReasoningOutput := a\<rparr>) = intent_ok st"
  "intent_ok (st\<lparr>st_ToolArguments := a\<rparr>) = intent_ok st"
  "intent_ok (st\<lparr>st_FailureReason := a\<rparr>) = intent_ok st"
  "intent_ok (st\<lparr>st_ResumeState := x\<rparr>) = intent_ok st"
  "intent_ok (st\<lparr>st_AttemptID := a\<rparr>) = intent_ok st"
  "intent_ok (st\<lparr>st_ToolName := a\<rparr>) = intent_ok st"
  "intent_ok (st\<lparr>st_PatchProduced := b\<rparr>) = intent_ok st"
  "intent_ok (st\<lparr>st_VerificationPassed := b\<rparr>) = intent_ok st"
  "intent_ok (clearPending st) = intent_ok st"
  by (simp_all add: intent_ok_def)

lemma intent_ok_attempt [simp]:
  "intent_ok (st\<lparr>st_Run := (st_Run st)\<lparr>run_CurrentAttempt := n\<rparr>\<rparr>) = intent_ok st"
  by (simp add: intent_ok_def)

lemma intent_ok_moveTo [simp]: "to \<noteq> StatusPaused \<Longrightarrow> intent_ok (moveTo to st) = intent_ok st"
  by (simp add: intent_ok_def moveTo_observed)

lemma phase_ok_update [simp]:
  "phase_ok L (st\<lparr>st_PendingActionID := a\<rparr>) = phase_ok L st"
  "phase_ok L (st\<lparr>st_PendingActionType := t\<rparr>) = phase_ok L st"
  "phase_ok L (st\<lparr>st_PendingAttemptID := a\<rparr>) = phase_ok L st"
  "phase_ok L (st\<lparr>st_PendingActionScope := s\<rparr>) = phase_ok L st"
  "phase_ok L (st\<lparr>st_LastCompletedActionID := a\<rparr>) = phase_ok L st"
  "phase_ok L (st\<lparr>st_LastReceiptID := a\<rparr>) = phase_ok L st"
  "phase_ok L (st\<lparr>st_ReasoningOutput := a\<rparr>) = phase_ok L st"
  "phase_ok L (st\<lparr>st_ToolArguments := a\<rparr>) = phase_ok L st"
  "phase_ok L (st\<lparr>st_ResumeState := x\<rparr>) = phase_ok L st"
  "phase_ok L (clearPending st) = phase_ok L st"
  by (cases L; simp)+

section \<open>Every handler keeps the invariant\<close>

lemma result_inv:
  assumes res: "applyCompletedActionResult st d = Inr st'"
    and inv: "intent_ok st" "phase_ok (logicalState st) st"
    and pend: "pending_ok st" "ed_ActionType d = st_PendingActionType st" "st_PendingActionType st \<noteq> CommandNone"
  shows "intent_ok st' \<and> phase_ok (logicalState st') st'"
proof (cases "ed_ActionType d")
  case CommandStartAttempt
  with res inv show ?thesis
    by (auto simp: applyCompletedActionResult_def result_simps attempt_ok_def)
next
  case CommandProvisionWorkspace
  with res inv show ?thesis
    by (auto simp: applyCompletedActionResult_def result_simps)
next
  case CommandRunReasoner
  with res inv show ?thesis
    by (auto simp: applyCompletedActionResult_def result_simps attempt_ok_def)
next
  case CommandApplyPatch
  with res inv show ?thesis
    by (auto simp: applyCompletedActionResult_def result_simps attempt_ok_def)
next
  case CommandVerify
  with res inv show ?thesis
    by (auto simp: applyCompletedActionResult_def result_simps attempt_ok_def)
next
  case CommandSucceedRun
  with res inv show ?thesis
    by (auto simp: applyCompletedActionResult_def result_simps)
next
  case CommandFailRun
  with res inv phase_ok_attempt [OF inv(2)] show ?thesis
    by (auto simp: applyCompletedActionResult_def result_simps split: if_splits)
next
  case CommandCancelRun
  with res inv phase_ok_attempt [OF inv(2)] show ?thesis
    by (auto simp: applyCompletedActionResult_def result_simps split: if_splits)
qed (use pend in \<open>auto simp: pending_ok_def\<close>)

lemma pending_ok_idle:
  "st_PendingActionType st = CommandNone \<Longrightarrow> st_PendingAttemptID st = '''' \<Longrightarrow>
   st_PendingActionScope st = ScopeNone \<Longrightarrow> st_PendingActionID st = '''' \<Longrightarrow> pending_ok st"
  by (simp add: pending_ok_def)

lemma ActionCompleted_inv:
  "applyActionCompleted st ev = Inr st' \<Longrightarrow> state_inv st \<Longrightarrow> state_inv st'"
  by (auto simp: applyActionCompleted_def Let_def result_simps state_inv_def
      intro!: pending_ok_idle dest: result_inv split: if_splits)

lemma phase_ok_failure [intro]:
  "phase_ok L st \<Longrightarrow> r \<noteq> '''' \<Longrightarrow> phase_ok L (st\<lparr>st_FailureReason := r\<rparr>)"
  by (cases L) auto

lemma ActionFailed_inv:
  "applyActionFailed st ev = Inr st' \<Longrightarrow> state_inv st \<Longrightarrow> state_inv st'"
  by (auto simp: applyActionFailed_def Let_def result_simps state_inv_def
        intro!: pending_ok_idle phase_ok_failure dest: phase_ok_attempt split: if_splits)

lemma Decide_pending_phase:
  assumes "intent_ok st" "phase_ok (logicalState st) st" "cmd_Type (Decide h st) \<noteq> CommandNoop"
  shows "pending_phase (cmd_Type (Decide h st)) st"
proof (cases "desired st = DesiredCancelled")
  case True
  with assms show ?thesis by (auto simp: Decide_def split: if_splits)
next
  case False
  with assms have np: "observed st \<noteq> StatusPaused" by (auto simp: Decide_def split: if_splits)
  with False assms show ?thesis
    by (auto simp: Decide_def logicalState_not_paused split: if_splits Status.splits)
qed

lemma Decide_not_none: "cmd_Type (Decide h st) \<noteq> CommandNone"
  using Decide_type_cases [of h st] by auto

lemma pending_phase_update [simp]:
  "pending_phase t (st\<lparr>st_PendingActionID := a\<rparr>) = pending_phase t st"
  "pending_phase t (st\<lparr>st_PendingActionType := t'\<rparr>) = pending_phase t st"
  "pending_phase t (st\<lparr>st_PendingAttemptID := a\<rparr>) = pending_phase t st"
  "pending_phase t (st\<lparr>st_PendingActionScope := s\<rparr>) = pending_phase t st"
  by (cases t; simp)+

lemma ActionPlanned_inv:
  "applyActionPlanned h st ev = Inr st' \<Longrightarrow> state_inv st \<Longrightarrow> state_inv st'"
  using Decide_pending_phase [of st h] 
  by (auto simp: applyActionPlanned_def Let_def result_simps state_inv_def pending_ok_def split: if_splits)

lemma LeaseEvent_inv: "applyLeaseEvent st ev = Inr st' \<Longrightarrow> state_inv st \<Longrightarrow> state_inv st'"
  by (auto simp: applyLeaseEvent_def split: if_splits)

lemma RunCreated_inv:
  "applyRunCreated st ev = Inr st' \<Longrightarrow> ev_RunID ev \<noteq> '''' \<Longrightarrow> state_inv st'"
  by (auto simp: applyRunCreated_def state_inv_def InitialState_def Run_zero_def result_simps
     intent_ok_def attempt_ok_def pending_ok_def logicalState_def)

lemma phase_ok_desired:
  "phase_ok L st \<Longrightarrow> L \<noteq> StatusCancelled \<or> d = DesiredCancelled \<Longrightarrow> phase_ok L (set_desired d st)"
  by (cases L) auto

lemma phase_ok_observed [simp]: "phase_ok L (set_observed s st) = phase_ok L st"
  by (cases L) auto

lemma pending_ok_same_phase:
  assumes "pending_ok st" "logicalState st' = logicalState st"
    "st_VerificationPassed st' = st_VerificationPassed st" "st_FailureReason st' = st_FailureReason st"
    "st_PendingActionID st' = st_PendingActionID st" "st_PendingActionType st' = st_PendingActionType st"
    "st_PendingAttemptID st' = st_PendingAttemptID st" "st_PendingActionScope st' = st_PendingActionScope st"
    "st_PendingActionType st = CommandCancelRun \<longrightarrow> \<not> Terminal (observed st') \<and> desired st' = DesiredCancelled"
  shows "pending_ok st'"
  using assms by (cases "st_PendingActionType st") (simp_all add: pending_ok_def)

lemma pending_cancel_intent:
  "pending_ok st \<Longrightarrow> st_PendingActionType st = CommandCancelRun \<Longrightarrow> desired st = DesiredCancelled"
  by (simp add: pending_ok_def)

lemma state_inv_desired:
  assumes inv: "state_inv st" and L: "logicalState st' = logicalState st"
    and st': "st' = set_desired d (set_observed s (st\<lparr>st_ResumeState := r\<rparr>))"
    and d: "d \<in> {DesiredRunning, DesiredPaused, DesiredCancelled}"
      "d = DesiredPaused \<longrightarrow> s = StatusPaused" "d = DesiredRunning \<longrightarrow> s \<noteq> StatusPaused"
      "d \<noteq> DesiredCancelled \<longrightarrow> desired st \<noteq> DesiredCancelled"
      "d = DesiredCancelled \<longrightarrow> \<not> Terminal s"
  shows "state_inv st'"
proof -
  have "phase_ok (logicalState st) st'"
    using inv d by (cases "logicalState st") (auto simp: st' state_inv_def attempt_ok_def)
  moreover have "intent_ok st'" using inv d by (auto simp: st' state_inv_def intent_ok_def)
  moreover have "pending_ok st'"
    by (rule pending_ok_same_phase [of st])
       (use inv d L pending_cancel_intent [of st] in \<open>auto simp: st' state_inv_def\<close>)
  ultimately show ?thesis using L by (simp add: state_inv_def)
qed

lemma DesiredState_inv:
  assumes app: "applyDesiredState st d = Inr st'" and inv: "state_inv st"
  shows "state_inv st'"
proof (cases d)
  case DesiredPaused
  with app inv have "desired st = DesiredRunning" "observed st \<noteq> StatusPaused"
    "st' = set_desired DesiredPaused (set_observed StatusPaused (st\<lparr>st_ResumeState := observed st\<rparr>))"
    by (auto simp: applyDesiredState_def result_simps state_inv_def intent_ok_def split: if_splits)
  with inv show ?thesis
    by (intro state_inv_desired [OF inv]) (auto simp: logicalState_def)
next
  case DesiredRunning
  with app inv have "desired st = DesiredPaused" "observed st = StatusPaused"
    and st': "st' = set_desired DesiredRunning (set_observed (st_ResumeState st) (st\<lparr>st_ResumeState := StatusNone\<rparr>))"
    by (auto simp: applyDesiredState_def result_simps split: if_splits)
  moreover from calculation inv have "st_ResumeState st \<noteq> StatusPaused"
    by (auto simp: state_inv_def logicalState_def dest: phase_ok_live)
  ultimately show ?thesis
    by (intro state_inv_desired [OF inv _ st']) (auto simp: logicalState_def)
next
  case DesiredCancelled
  with app have "\<not> Terminal (observed st)" and st': "st' = set_desired DesiredCancelled st"
    by (auto simp: applyDesiredState_def split: if_splits)
  then show ?thesis
    by (intro state_inv_desired [OF inv, of _ _ "observed st" "st_ResumeState st"]) (auto simp: logicalState_def)
qed (use app in \<open>auto simp: applyDesiredState_def\<close>)

lemma AttemptStarted_inv:
  "applyAttemptStarted st ev = Inr st' \<Longrightarrow> st_PendingActionType st = CommandNone \<Longrightarrow> state_inv st \<Longrightarrow> state_inv st'"
  by (auto simp: applyAttemptStarted_def result_simps state_inv_def intent_ok_def pending_ok_def attempt_ok_def logicalState_def)

lemma WorkspaceProvisioned_inv:
  "applyWorkspaceProvisioned st ev = Inr st' \<Longrightarrow> st_PendingActionType st = CommandNone \<Longrightarrow> state_inv st \<Longrightarrow> state_inv st'"
  by (auto simp: applyWorkspaceProvisioned_def result_simps state_inv_def intent_ok_def pending_ok_def logicalState_def)

lemma ReasoningPlanned_inv:
  "applyReasoningPlanned st ev = Inr st' \<Longrightarrow> st_PendingActionType st = CommandNone \<Longrightarrow> state_inv st \<Longrightarrow> state_inv st'"
  by (auto simp: applyReasoningPlanned_def result_simps state_inv_def pending_ok_def logicalState_not_paused)

lemma ReasoningCompleted_inv:
  "applyReasoningCompleted st ev = Inr st' \<Longrightarrow> st_PendingActionType st = CommandNone \<Longrightarrow> state_inv st \<Longrightarrow> state_inv st'"
  by (auto simp: applyReasoningCompleted_def result_simps state_inv_def pending_ok_def attempt_ok_def)

lemma ToolCallFailed_inv:
  "applyToolCallFailed st ev = Inr st' \<Longrightarrow> st_PendingActionType st = CommandNone \<Longrightarrow> state_inv st \<Longrightarrow> state_inv st'"
  by (auto simp: applyToolCallFailed_def result_simps state_inv_def pending_ok_def)

lemma PatchProduced_inv:
  "applyPatchProduced st ev = Inr st' \<Longrightarrow> st_PendingActionType st = CommandNone \<Longrightarrow> state_inv st \<Longrightarrow> state_inv st'"
  by (auto simp: applyPatchProduced_def result_simps state_inv_def intent_ok_def pending_ok_def logicalState_def attempt_ok_def)

lemma VerificationPlanned_inv:
  "applyVerificationPlanned st ev = Inr st' \<Longrightarrow> st_PendingActionType st = CommandNone \<Longrightarrow> state_inv st \<Longrightarrow> state_inv st'"
  by (auto simp: applyVerificationPlanned_def result_simps state_inv_def pending_ok_def logicalState_not_paused)

lemma VerificationPassed_inv:
  "applyVerificationPassed st ev = Inr st' \<Longrightarrow> st_PendingActionType st = CommandNone \<Longrightarrow> state_inv st \<Longrightarrow> state_inv st'"
  by (auto simp: applyVerificationPassed_def result_simps state_inv_def pending_ok_def attempt_ok_def)

lemma RunSucceeded_inv:
  "applyRunSucceeded st ev = Inr st' \<Longrightarrow> st_PendingActionType st = CommandNone \<Longrightarrow> state_inv st \<Longrightarrow> state_inv st'"
  by (auto simp: applyRunSucceeded_def result_simps state_inv_def intent_ok_def pending_ok_def logicalState_def)

lemma RunFailed_inv:
  "applyRunFailed st ev = Inr st' \<Longrightarrow> st_PendingActionType st = CommandNone \<Longrightarrow> state_inv st \<Longrightarrow> state_inv st'"
  by (auto simp: applyRunFailed_def Let_def result_simps state_inv_def intent_ok_def pending_ok_def logicalState_def dest: phase_ok_attempt split: if_splits)

lemma RunCancelled_inv:
  "applyRunCancelled st ev = Inr st' \<Longrightarrow> st_PendingActionType st = CommandNone \<Longrightarrow> state_inv st \<Longrightarrow> state_inv st'"
  by (auto simp: applyRunCancelled_def Let_def result_simps state_inv_def intent_ok_def pending_ok_def logicalState_def dest: phase_ok_attempt split: if_splits)

lemma DesiredStateChanged_inv:
  "applyDesiredStateChanged st ev = Inr st' \<Longrightarrow> state_inv st \<Longrightarrow> state_inv st'"
  by (auto simp: applyDesiredStateChanged_def split: if_splits intro: DesiredState_inv)

lemma RunCreated_again: "applyRunCreated st ev = Inr st' \<Longrightarrow> state_inv st \<Longrightarrow> state_inv st'"
  by (auto simp: applyRunCreated_def state_inv_def intent_ok_def)

lemmas handler_invs = RunCreated_again DesiredStateChanged_inv LeaseEvent_inv ActionPlanned_inv
  ActionCompleted_inv ActionFailed_inv AttemptStarted_inv WorkspaceProvisioned_inv
  ReasoningPlanned_inv ReasoningCompleted_inv ToolCallFailed_inv PatchProduced_inv
  VerificationPlanned_inv VerificationPassed_inv RunSucceeded_inv RunFailed_inv RunCancelled_inv

lemma applyEvent_inv:
  assumes app: "applyEvent h st ev = Inr st'" and inv: "state_inv st"
  shows "state_inv st'"
  using assms
  by (cases "ev_Type ev"; simp add: applyEvent_def split: if_split_asm; blast intro: handler_invs)

lemma stampEvent_simps [simp]:
  "st_Exists (stampEvent st ev) = st_Exists st"
  "desired (stampEvent st ev) = desired st"
  "observed (stampEvent st ev) = observed st"
  "run_ID (st_Run (stampEvent st ev)) = run_ID (st_Run st)"
  "run_CurrentAttempt (st_Run (stampEvent st ev)) = run_CurrentAttempt (st_Run st)"
  "run_Version (st_Run (stampEvent st ev)) = ev_Seq ev"
  "st_ResumeState (stampEvent st ev) = st_ResumeState st"
  "st_AttemptID (stampEvent st ev) = st_AttemptID st"
  "st_ToolName (stampEvent st ev) = st_ToolName st"
  "st_PatchProduced (stampEvent st ev) = st_PatchProduced st"
  "st_VerificationPassed (stampEvent st ev) = st_VerificationPassed st"
  "st_FailureReason (stampEvent st ev) = st_FailureReason st"
  "st_PendingActionID (stampEvent st ev) = st_PendingActionID st"
  "st_PendingActionType (stampEvent st ev) = st_PendingActionType st"
  "st_PendingAttemptID (stampEvent st ev) = st_PendingAttemptID st"
  "st_PendingActionScope (stampEvent st ev) = st_PendingActionScope st"
  "st_LastEventType (stampEvent st ev) = ev_Type ev"
  by (simp_all add: stampEvent_def)

lemma stampEvent_logical [simp]: "logicalState (stampEvent st ev) = logicalState st"
  by (simp add: logicalState_def)

lemma stampEvent_inv [simp]: "state_inv (stampEvent st ev) = state_inv st"
proof -
  have "phase_ok L (stampEvent st ev) = phase_ok L st" for L by (cases L) (simp_all add: attempt_ok_def)
  moreover have "pending_ok (stampEvent st ev) = pending_ok st"
    by (cases "st_PendingActionType st") (simp_all add: pending_ok_def)
  ultimately show ?thesis by (simp add: state_inv_def intent_ok_def)
qed

end
