(* ===== verification/Domain_Evidence.thy ===== *)
theory Domain_Evidence
  imports Domain_Invariants
begin

text \<open>
  Facts about every accepted log: identity and version of the projected State, and the evidence
  theorem behind a successful Run. \<open>milestone\<close> names the lifecycle step whose result an event
  records; \<open>claimed\<close> is how many steps a State claims to have behind it; every handler either
  claims no more than before or records exactly the next step of \<open>lifecycle\<close>.
\<close>

section \<open>The first event\<close>

lemma applyEvent_initial:
  "\<not> st_Exists st \<Longrightarrow> st_PendingActionID st = '''' \<Longrightarrow> applyEvent h st ev = Inr st' \<Longrightarrow>
     ev_Type ev = EventRunCreated \<and> applyRunCreated st ev = Inr st'"
  by (cases "ev_Type ev")
     (auto simp: applyEvent_def applyDesiredStateChanged_def applyLeaseEvent_def
       applyActionPlanned_def applyActionCompleted_def applyActionFailed_def Let_def
       applyAttemptStarted_def applyWorkspaceProvisioned_def applyReasoningPlanned_def
       applyReasoningCompleted_def applyToolCallFailed_def applyPatchProduced_def
       applyVerificationPlanned_def applyVerificationPassed_def applyRunSucceeded_def
       applyRunFailed_def applyRunCancelled_def result_simps split: if_splits)

lemmas lifecycle_defs = applyAttemptStarted_def applyWorkspaceProvisioned_def applyReasoningPlanned_def
       applyReasoningCompleted_def applyToolCallFailed_def applyPatchProduced_def
       applyVerificationPlanned_def applyVerificationPassed_def applyRunSucceeded_def
       applyRunFailed_def applyRunCancelled_def
lemmas managed_defs = applyActionPlanned_def applyActionCompleted_def applyActionFailed_def

lemma applyCompletedActionResult_identity:
  "applyCompletedActionResult st d = Inr st' \<Longrightarrow>
    st_Exists st' = st_Exists st \<and> run_ID (st_Run st') = run_ID (st_Run st) \<and> desired st' = desired st"
  by (cases "ed_ActionType d")
     (auto simp: applyCompletedActionResult_def result_simps split: if_splits)

lemma applyDesiredState_identity:
  "applyDesiredState st d = Inr st' \<Longrightarrow>
    st_Exists st' = st_Exists st \<and> run_ID (st_Run st') = run_ID (st_Run st)"
  by (cases d) (auto simp: applyDesiredState_def result_simps split: if_splits)

lemma applyEvent_identity:
  "st_Exists st \<Longrightarrow> applyEvent h st ev = Inr st' \<Longrightarrow>
     st_Exists st' \<and> run_ID (st_Run st') = run_ID (st_Run st)"
  by (cases "ev_Type ev")
     (auto simp: applyEvent_def applyRunCreated_def applyDesiredStateChanged_def applyLeaseEvent_def
       lifecycle_defs managed_defs Let_def result_simps split: if_splits
       dest: applyCompletedActionResult_identity applyDesiredState_identity)


lemma InitialState_simps [simp]:
  "st_Exists InitialState = False" "st_PendingActionID InitialState = ''''"
  "run_Version (st_Run InitialState) = 0"
  by (simp_all add: InitialState_def Run_zero_def)

lemma applyRunCreated_ID:
  "applyRunCreated st ev = Inr st' \<Longrightarrow> st_Exists st' \<and> run_ID (st_Run st') = ev_RunID ev"
  by (auto simp: applyRunCreated_def result_simps split: if_splits)

text \<open>What every accepted log and its State satisfy, by rule induction over \<open>accepts\<close>.\<close>

lemma accepts_nonempty:
  "accepts h es st \<Longrightarrow> if es = [] then st = InitialState
     else state_inv st \<and> (\<forall>ev\<in>set es. ev_RunID ev = run_ID (st_Run st))"
proof (induction rule: accepts.induct)
  case accepts_Nil
  then show ?case by simp
next
  case (accepts_snoc es st ev st')
  show ?case
  proof (cases "es = []")
    case True
    with accepts_snoc applyEvent_initial [of st h ev st'] have "applyRunCreated st ev = Inr st'" by simp
    moreover from accepts_snoc have "ev_RunID ev \<noteq> ''''" by (simp add: envelope_ok_def)
    ultimately show ?thesis using True RunCreated_inv applyRunCreated_ID by fastforce
  next
    case False
    with accepts_snoc have inv: "state_inv st" and ids: "\<forall>ev\<in>set es. ev_RunID ev = run_ID (st_Run st)" by auto
    then have ex: "st_Exists st" by (simp add: state_inv_def intent_ok_def)
    with accepts_snoc have "ev_RunID ev = run_ID (st_Run st)" by (simp add: envelope_ok_def)
    with ids applyEvent_identity [OF ex accepts_snoc.hyps(3)]
      applyEvent_inv [OF accepts_snoc.hyps(3) inv] show ?thesis by simp
  qed
qed

lemma accepts_exists: "accepts h es st \<Longrightarrow> st_Exists st \<longleftrightarrow> es \<noteq> []"
  using accepts_nonempty [of h es st] by (auto simp: state_inv_def intent_ok_def split: if_splits)

lemma accepts_inv: "accepts h es st \<Longrightarrow> st_Exists st \<Longrightarrow> state_inv st"
  using accepts_nonempty [of h es st] accepts_exists [of h es st] by simp

lemma accepts_version: "accepts h es st \<Longrightarrow> run_Version (st_Run st) = of_nat (length es)"
  by (induction rule: accepts.induct) (simp_all add: envelope_ok_def)

lemma accepts_log:
  "accepts h es st \<Longrightarrow> distinct (map ev_IdempotencyKey es)
     \<and> map ev_Seq es = map of_nat [1..<length es + 1]"
  by (induction rule: accepts.induct) (auto simp: envelope_ok_def)

section \<open>Evidence behind a successful Run\<close>

text \<open>The step of the lifecycle whose result an event records, on either path.\<close>

fun milestone :: "Event \<Rightarrow> CommandType list" where
  "milestone ev = (case ev_Type ev of
      EventActionCompleted \<Rightarrow> [ed_ActionType (ev_Data ev)]
    | EventAttemptStarted \<Rightarrow> [CommandStartAttempt]
    | EventWorkspaceProvisioned \<Rightarrow> [CommandProvisionWorkspace]
    | EventReasoningCompleted \<Rightarrow> [CommandRunReasoner]
    | EventPatchProduced \<Rightarrow> [CommandApplyPatch]
    | EventVerificationPassed \<Rightarrow> [CommandVerify]
    | EventRunSucceeded \<Rightarrow> [CommandSucceedRun]
    | _ \<Rightarrow> [])"

declare milestone.simps [simp del]

abbreviation trail :: "Event list \<Rightarrow> CommandType list" where
  "trail es \<equiv> concat (map milestone es)"

definition lifecycle :: "CommandType list" where
  "lifecycle = [CommandStartAttempt, CommandProvisionWorkspace, CommandRunReasoner,
     CommandApplyPatch, CommandVerify, CommandSucceedRun]"

text \<open>How much of the lifecycle a State claims to have behind it.\<close>

definition claimed :: "State \<Rightarrow> nat" where
  "claimed st =
     (if logicalState st = StatusSucceeded then 6
      else if st_VerificationPassed st then 5
      else if st_PatchProduced st then 4
      else if logicalState st = StatusActing then 3
      else if logicalState st = StatusReasoning then 2
      else if logicalState st = StatusProvisioning then 1
      else 0)"

definition evidenced :: "State \<Rightarrow> CommandType list \<Rightarrow> bool" where
  "evidenced st M \<longleftrightarrow> subseq (take (claimed st) lifecycle) M"

lemma evidenced_weaken: "evidenced st M \<Longrightarrow> claimed st' \<le> claimed st \<Longrightarrow> evidenced st' (M @ N)"
proof -
  assume e: "evidenced st M" and le: "claimed st' \<le> claimed st"
  have "prefix (take (claimed st') lifecycle) (take (claimed st) lifecycle)"
    using le by (metis min.absorb1 take_is_prefix take_take)
  with e show ?thesis unfolding evidenced_def
    by (meson prefix_imp_subseq prefix_snocI subseq_order.trans)
qed

lemma lifecycle_length [simp]: "length lifecycle = 6"
  by (simp add: lifecycle_def)

lemma evidenced_extend:
  "evidenced st M \<Longrightarrow> claimed st' = Suc (claimed st) \<Longrightarrow> claimed st < 6 \<Longrightarrow>
   evidenced st' (M @ [lifecycle ! claimed st])"
  unfolding evidenced_def
  by (simp add: take_Suc_conv_app_nth lifecycle_length subseq_snocI)

lemma lifecycle_nth:
  "lifecycle ! 0 = CommandStartAttempt" "lifecycle ! Suc 0 = CommandProvisionWorkspace"
  "lifecycle ! 2 = CommandRunReasoner" "lifecycle ! 3 = CommandApplyPatch"
  "lifecycle ! 4 = CommandVerify" "lifecycle ! 5 = CommandSucceedRun"
  by (simp_all add: lifecycle_def)

definition keeps_evidence :: "State \<Rightarrow> State \<Rightarrow> CommandType list \<Rightarrow> bool" where
  "keeps_evidence st st' N \<longleftrightarrow> claimed st' \<le> claimed st
     \<or> claimed st < 6 \<and> claimed st' = Suc (claimed st) \<and> N = [lifecycle ! claimed st]"

lemma evidenced_step: "evidenced st M \<Longrightarrow> keeps_evidence st st' N \<Longrightarrow> evidenced st' (M @ N)"
  unfolding keeps_evidence_def using evidenced_weaken evidenced_extend by blast

lemma result_evidence:
  assumes res: "applyCompletedActionResult st d = Inr st'"
    and inv: "phase_ok (logicalState st) st"
  shows "keeps_evidence st (clearPending st') [ed_ActionType d]"
  using assms
  by (cases "ed_ActionType d")
     (auto simp: applyCompletedActionResult_def result_simps keeps_evidence_def claimed_def attempt_ok_def lifecycle_nth
       split: if_splits)


lemma claimed_update [simp]:
  "claimed (st\<lparr>st_PendingActionID := a\<rparr>) = claimed st"
  "claimed (st\<lparr>st_PendingActionType := t\<rparr>) = claimed st"
  "claimed (st\<lparr>st_PendingAttemptID := a\<rparr>) = claimed st"
  "claimed (st\<lparr>st_PendingActionScope := s\<rparr>) = claimed st"
  "claimed (st\<lparr>st_LastCompletedActionID := a\<rparr>) = claimed st"
  "claimed (st\<lparr>st_LastReceiptID := a\<rparr>) = claimed st"
  "claimed (st\<lparr>st_FailureReason := a\<rparr>) = claimed st"
  "claimed (clearPending st) = claimed st"
  "claimed (stampEvent st ev) = claimed st"
  by (simp_all add: claimed_def)

lemma keeps_evidence_refl [simp]: "claimed st' = claimed st \<Longrightarrow> keeps_evidence st st' N"
  by (simp add: keeps_evidence_def)

lemma claimed_cong:
  "logicalState st' = logicalState st \<Longrightarrow> st_VerificationPassed st' = st_VerificationPassed st \<Longrightarrow>
   st_PatchProduced st' = st_PatchProduced st \<Longrightarrow> claimed st' = claimed st"
  by (simp add: claimed_def)

lemma applyDesiredState_logical:
  "applyDesiredState st d = Inr st' \<Longrightarrow> logicalState st \<noteq> StatusPaused \<Longrightarrow> logicalState st' = logicalState st"
  by (cases d) (auto simp: applyDesiredState_def bindE_Inr_iff transition_iff logicalState_def split: if_splits)

lemma applyDesiredState_fields:
  "applyDesiredState st d = Inr st' \<Longrightarrow> st_VerificationPassed st' = st_VerificationPassed st
     \<and> st_PatchProduced st' = st_PatchProduced st"
  by (cases d) (auto simp: applyDesiredState_def bindE_Inr_iff transition_iff split: if_splits)

lemma DesiredState_evidence:
  "applyDesiredState st d = Inr st' \<Longrightarrow> logicalState st \<noteq> StatusPaused \<Longrightarrow> keeps_evidence st st' N"
  using claimed_cong applyDesiredState_logical applyDesiredState_fields by (metis keeps_evidence_refl)

lemma AttemptStarted_evidence:
  "applyAttemptStarted st ev = Inr st' \<Longrightarrow> phase_ok (logicalState st) st \<Longrightarrow> keeps_evidence st st' [CommandStartAttempt]"
  by (auto simp: applyAttemptStarted_def result_simps keeps_evidence_def claimed_def attempt_ok_def lifecycle_nth
      logicalState_def)

lemma WorkspaceProvisioned_evidence:
  "applyWorkspaceProvisioned st ev = Inr st' \<Longrightarrow> phase_ok (logicalState st) st \<Longrightarrow> keeps_evidence st st' [CommandProvisionWorkspace]"
  by (auto simp: applyWorkspaceProvisioned_def result_simps keeps_evidence_def claimed_def attempt_ok_def lifecycle_nth
      logicalState_def)

lemma ReasoningCompleted_evidence:
  "applyReasoningCompleted st ev = Inr st' \<Longrightarrow> phase_ok (logicalState st) st \<Longrightarrow> keeps_evidence st st' [CommandRunReasoner]"
  by (auto simp: applyReasoningCompleted_def result_simps keeps_evidence_def claimed_def attempt_ok_def lifecycle_nth)

lemma PatchProduced_evidence:
  "applyPatchProduced st ev = Inr st' \<Longrightarrow> phase_ok (logicalState st) st \<Longrightarrow> keeps_evidence st st' [CommandApplyPatch]"
  by (auto simp: applyPatchProduced_def result_simps keeps_evidence_def claimed_def attempt_ok_def lifecycle_nth
      logicalState_def)

lemma VerificationPassed_evidence:
  "applyVerificationPassed st ev = Inr st' \<Longrightarrow> phase_ok (logicalState st) st \<Longrightarrow> keeps_evidence st st' [CommandVerify]"
  by (auto simp: applyVerificationPassed_def result_simps keeps_evidence_def claimed_def attempt_ok_def lifecycle_nth)

lemma RunSucceeded_evidence:
  "applyRunSucceeded st ev = Inr st' \<Longrightarrow> phase_ok (logicalState st) st \<Longrightarrow> keeps_evidence st st' [CommandSucceedRun]"
  by (auto simp: applyRunSucceeded_def result_simps keeps_evidence_def claimed_def attempt_ok_def lifecycle_nth
      logicalState_def)

lemma claimed_stopped:
  "logicalState st' \<in> {StatusFailed, StatusCancelled, StatusWaitingApproval} \<Longrightarrow>
   st_VerificationPassed st' = st_VerificationPassed st \<Longrightarrow> st_PatchProduced st' = st_PatchProduced st \<Longrightarrow>
   keeps_evidence st st' N"
  by (auto simp: claimed_def keeps_evidence_def)

lemma RunFailed_evidence: "applyRunFailed st ev = Inr st' \<Longrightarrow> keeps_evidence st st' N"
  by (rule claimed_stopped) (auto simp: applyRunFailed_def Let_def transition_iff logicalState_def split: if_splits)

lemma RunCancelled_evidence: "applyRunCancelled st ev = Inr st' \<Longrightarrow> keeps_evidence st st' N"
  by (rule claimed_stopped) (auto simp: applyRunCancelled_def Let_def transition_iff logicalState_def split: if_splits)

lemma ActionPlanned_evidence:
  "applyActionPlanned h st ev = Inr st' \<Longrightarrow> keeps_evidence st st' N"
  by (auto simp: applyActionPlanned_def Let_def split: if_splits)

lemma ActionCompleted_evidence:
  assumes "applyActionCompleted st ev = Inr st'" "phase_ok (logicalState st) st"
  shows "keeps_evidence st st' [ed_ActionType (ev_Data ev)]"
proof (cases "desired st = DesiredCancelled \<and> ed_ActionType (ev_Data ev) \<noteq> CommandCancelRun")
  case True
  with assms show ?thesis by (auto simp: applyActionCompleted_def Let_def result_simps)
next
  case False
  with assms obtain st1 where "applyCompletedActionResult st (ev_Data ev) = Inr st1" "claimed st' = claimed st1"
    by (auto simp: applyActionCompleted_def Let_def bindE_Inr_iff split: if_splits)
  with result_evidence assms show ?thesis by (fastforce simp: keeps_evidence_def)
qed

lemma ActionFailed_evidence:
  assumes "applyActionFailed st ev = Inr st'"
  shows "keeps_evidence st st' N"
proof -
  let ?st = "(clearPending st)\<lparr>st_FailureReason := ed_Reason (ev_Data ev)\<rparr>"
  from assms have "st' = ?st \<or> st' = moveTo StatusWaitingApproval ?st"
    by (auto simp: applyActionFailed_def Let_def bindE_Inr_iff advanceManagedState_iff split: if_splits)
  then show ?thesis by (auto intro: claimed_stopped)
qed

lemmas handler_evidence = AttemptStarted_evidence WorkspaceProvisioned_evidence ReasoningCompleted_evidence
  PatchProduced_evidence VerificationPassed_evidence RunSucceeded_evidence RunFailed_evidence
  RunCancelled_evidence ActionPlanned_evidence ActionCompleted_evidence ActionFailed_evidence

lemma silent_evidence:
  "applyDesiredStateChanged st ev = Inr st' \<Longrightarrow> phase_ok (logicalState st) st \<Longrightarrow> keeps_evidence st st' N"
  "applyLeaseEvent st ev = Inr st' \<Longrightarrow> keeps_evidence st st' N"
  "applyReasoningPlanned st ev = Inr st' \<Longrightarrow> keeps_evidence st st' N"
  "applyVerificationPlanned st ev = Inr st' \<Longrightarrow> keeps_evidence st st' N"
  "applyToolCallFailed st ev = Inr st' \<Longrightarrow> keeps_evidence st st' N"
  by (auto simp: applyDesiredStateChanged_def applyLeaseEvent_def applyReasoningPlanned_def
     applyVerificationPlanned_def applyToolCallFailed_def bindE_Inr_iff split: if_splits
     dest: phase_ok_live intro: DesiredState_evidence)

lemma applyEvent_evidence:
  assumes "applyEvent h st ev = Inr st'" "state_inv st"
  shows "keeps_evidence st st' (milestone ev)"
proof -
  from assms have P: "phase_ok (logicalState st) st" and "st_Exists st"
    by (simp_all add: state_inv_def intent_ok_def)
  then have "applyRunCreated st ev \<noteq> Inr st'" by (simp add: applyRunCreated_def)
  with assms(1) P show ?thesis
    by (cases "ev_Type ev"; simp add: applyEvent_def milestone.simps split: if_split_asm;
        blast intro: handler_evidence silent_evidence)
qed

lemma accepts_evidence: "accepts h es st \<Longrightarrow> evidenced st (trail es)"
proof (induction rule: accepts.induct)
  case accepts_Nil
  then show ?case by (simp add: evidenced_def claimed_def InitialState_def logicalState_def Run_zero_def)
next
  case (accepts_snoc es st ev st')
  show ?case
  proof (cases "st_Exists st")
    case True
    with accepts_snoc accepts_inv have "keeps_evidence st st' (milestone ev)"
      by (blast intro: applyEvent_evidence)
    with accepts_snoc.IH have "evidenced st' (trail es @ milestone ev)" by (rule evidenced_step)
    then show ?thesis by (simp add: evidenced_def)
  next
    case False
    with accepts_snoc accepts_exists have "es = []" by blast
    with accepts_snoc.hyps(1) have "st = InitialState" using accepts_nonempty by fastforce
    with accepts_snoc applyEvent_initial [of st h ev st'] have "applyRunCreated st ev = Inr st'" by simp
    then have "claimed st' = 0"
      by (auto simp: applyRunCreated_def result_simps claimed_def logicalState_def InitialState_def split: if_splits)
    then show ?thesis by (simp add: evidenced_def)
  qed
qed

end
