(* ===== verification/Domain_Properties.thy ===== *)
theory Domain_Properties
  imports Domain_Evidence
begin

text \<open>
  The properties of the decision function and of the reducer, with the lemmas they share:
  equivalence of the checkpointed loop with the full replay, unambiguous command material,
  stability of the intent to cancel, and resolution of pending actions.
\<close>

section \<open>Checkpoints\<close>

lemma checkpointLoop_iff:
  assumes "st_Exists st" "run_ID (st_Run st) \<noteq> ''''" "K0 \<inter> ev_IdempotencyKey ` set fs = {}"
  shows "checkpointLoop h (of_nat n) i K st fs = Inr st' \<longleftrightarrow> reduceLoop h (n + i) (K0 \<union> K) st fs = Inr st'"
  using assms
proof (induction fs arbitrary: i K st)
  case Nil
  then show ?case by simp
next
  case (Cons ev fs)
  show ?case
  proof (cases "applyEvent h st ev")
    case (Inl e)
    with Cons.prems show ?thesis by (auto simp: result_simps algebra_simps)
  next
    case (Inr st1)
    let ?s = "stampEvent st1 ev"
    from applyEvent_identity [OF Cons.prems(1) Inr] Cons.prems
    have "st_Exists ?s" "run_ID (st_Run ?s) \<noteq> ''''" "K0 \<inter> ev_IdempotencyKey ` set fs = {}" by auto
    note IH = Cons.IH [OF this, of "Suc i" "insert (ev_IdempotencyKey ev) K"]
    with Inr Cons.prems show ?thesis by (auto simp: algebra_simps)
  qed
qed

lemma checkpoint_resume:
  assumes "accepts h es st" "es \<noteq> []" "length es < 2 ^ 64"
    and "ev_IdempotencyKey ` set es \<inter> ev_IdempotencyKey ` set fs = {}"
  shows "ReduceFromCheckpoint h st fs = Inr st' \<longleftrightarrow> Reduce h (es @ fs) = Inr st'"
proof -
  from assms accepts_inv accepts_exists have ex: "st_Exists st" "run_ID (st_Run st) \<noteq> ''''"
    by (auto simp: state_inv_def intent_ok_def)
  have v: "run_Version (st_Run st) = of_nat (length es)" using assms accepts_version by blast
  have "(of_nat (length es) :: uint64) \<noteq> 0"
    using assms(2,3) by (simp add: word_of_nat_eq_0_iff nat_dvd_not_less)
  with ex v have "ReduceFromCheckpoint h st fs = checkpointLoop h (of_nat (length es)) 0 {} st fs"
    by (simp add: ReduceFromCheckpoint_def)
  moreover have "Reduce h (es @ fs) = reduceLoop h (length es) (ev_IdempotencyKey ` set es) st fs"
    using assms(1) by (simp add: Reduce_append Reduce_accepts [symmetric])
  ultimately show ?thesis
    using checkpointLoop_iff [OF ex assms(4), of h "length es" 0 "{}"] by simp
qed

section \<open>Managed actions\<close>

lemma planned_iff_decided:
  assumes "st_Exists st"
  shows "applyActionPlanned h st ev = Inr st' \<longleftrightarrow>
     st_PendingActionID st = '''' \<and> ed_ActionID (ev_Data ev) \<noteq> '''' \<and> IdempotencyScope_Valid (ed_IdempotencyScope (ev_Data ev))
     \<and> cmd_Type (Decide h st) \<noteq> CommandNoop
     \<and> cmd_Type (Decide h st) = ed_ActionType (ev_Data ev) \<and> cmd_ActionID (Decide h st) = ed_ActionID (ev_Data ev)
     \<and> (ed_ActionType (ev_Data ev) = CommandStartAttempt \<longrightarrow> ed_AttemptID (ev_Data ev) = nextAttemptID st)
     \<and> st' = st\<lparr>st_PendingActionID := cmd_ActionID (Decide h st), st_PendingActionType := cmd_Type (Decide h st),
                st_PendingAttemptID := ed_AttemptID (ev_Data ev), st_PendingActionScope := ed_IdempotencyScope (ev_Data ev)\<rparr>"
  using assms Decide_command_requires(1) [of h st] Decide_not_none [of h st]
  by (auto simp: applyActionPlanned_def Let_def split: if_splits)

text \<open>The text of a command id: distinct for distinct command types of one Run and attempt.\<close>

lemma CommandType_text_plain:
  "\<forall>s. t \<noteq> CommandOther s \<Longrightarrow> CHR ''|'' \<notin> set (CommandType_text t)"
  by (cases t) auto

lemma bar_split:
  "xs @ CHR ''|'' # as = ys @ CHR ''|'' # bs \<Longrightarrow> CHR ''|'' \<notin> set xs \<Longrightarrow> CHR ''|'' \<notin> set ys \<Longrightarrow> xs = ys"
proof (induction xs arbitrary: ys)
  case Nil
  then show ?case by (cases ys) auto
next
  case (Cons x xs)
  then show ?case by (cases ys) auto
qed

lemma CommandType_text_inject:
  "\<forall>s. t \<noteq> CommandOther s \<Longrightarrow> \<forall>s. u \<noteq> CommandOther s \<Longrightarrow> CommandType_text t = CommandType_text u \<longleftrightarrow> t = u"
  by (cases t; cases u) auto

lemma show_nat_digits: "c \<in> set (show_nat n) \<Longrightarrow> (of_char c :: nat) \<in> {48..57}"
proof (induction n rule: show_nat.induct)
  case (1 n)
  then show ?case by (subst (asm) (2) show_nat.simps) (auto split: if_splits simp: of_char_of)
qed

lemma show_int_plain: "CHR ''|'' \<notin> set (show_int i)"
  using show_nat_digits [of "CHR ''|''"] by (auto simp: show_int_def)

lemma show_int_inject: "show_int i = show_int j \<longleftrightarrow> i = j"
proof -
  have "show_nat m \<noteq> CHR ''-'' # s" for m s using show_nat_digits [of "CHR ''-''" m] by auto
  then show ?thesis by (auto simp: show_int_def dest: sym split: if_splits)
qed

lemma commandMaterial_inject:
  assumes "run_ID (st_Run st) = run_ID (st_Run st')"
    and "\<forall>s. t \<noteq> CommandOther s" "\<forall>s. u \<noteq> CommandOther s"
  shows "commandMaterial st t = commandMaterial st' u \<longleftrightarrow>
    t = u \<and> run_CurrentAttempt (st_Run st) = run_CurrentAttempt (st_Run st') \<and> st_AttemptID st = st_AttemptID st'"
    (is "?l \<longleftrightarrow> ?r")
proof
  assume ?l
  with assms(1) have e: "CommandType_text t @ CHR ''|'' # show_int (sint (run_CurrentAttempt (st_Run st))) @ CHR ''|'' # st_AttemptID st
     = CommandType_text u @ CHR ''|'' # show_int (sint (run_CurrentAttempt (st_Run st'))) @ CHR ''|'' # st_AttemptID st'"
    by (simp add: commandMaterial_def)
  then have t: "CommandType_text t = CommandType_text u"
    by (rule bar_split [OF _ CommandType_text_plain [OF assms(2)] CommandType_text_plain [OF assms(3)]])
  with e have f: "show_int (sint (run_CurrentAttempt (st_Run st))) @ CHR ''|'' # st_AttemptID st
     = show_int (sint (run_CurrentAttempt (st_Run st'))) @ CHR ''|'' # st_AttemptID st'" by simp
  then have "show_int (sint (run_CurrentAttempt (st_Run st))) = show_int (sint (run_CurrentAttempt (st_Run st')))"
    by (rule bar_split [OF _ show_int_plain show_int_plain])
  with f t CommandType_text_inject assms(2,3) show ?r by (auto simp: show_int_inject intro: signed_word_eqI)
next
  show "?r \<Longrightarrow> ?l" using assms by (simp add: commandMaterial_def)
qed

section \<open>Intent\<close>

lemma Decide_noop_inv:
  assumes "state_inv st"
  shows "cmd_Type (Decide h st) = CommandNoop \<longleftrightarrow>
     Terminal (observed st) \<or> desired st = DesiredPaused
     \<or> observed st = StatusWaitingApproval \<and> desired st \<noteq> DesiredCancelled"
proof (cases "observed st = StatusPaused")
  case True
  with assms show ?thesis by (auto simp: Decide_def state_inv_def intent_ok_def)
next
  case False
  with assms have "phase_ok (observed st) st" "intent_ok st"
    by (auto simp: state_inv_def logicalState_not_paused)
  with False show ?thesis by (cases "observed st") (auto simp: Decide_def intent_ok_def)
qed

lemma result_cancelled:
  "applyCompletedActionResult st d = Inr st' \<Longrightarrow> ed_ActionType d = CommandCancelRun \<Longrightarrow>
     observed st' = observed st \<or> observed st' = StatusCancelled"
  by (auto simp: applyCompletedActionResult_def result_simps moveTo_def split: if_splits)

lemma applyEvent_cancelled:
  assumes "applyEvent h st ev = Inr st'" "st_Exists st" "desired st = DesiredCancelled"
  shows "desired st' = DesiredCancelled \<and> (observed st' = observed st \<or> observed st' = StatusCancelled)"
proof (cases "ev_Type ev")
  case EventActionCompleted
  with assms show ?thesis
    by (cases "ed_ActionType (ev_Data ev) = CommandCancelRun")
       (auto simp: applyEvent_def applyActionCompleted_def Let_def bindE_Inr_iff split: if_splits
        dest: applyCompletedActionResult_identity result_cancelled)
next
  case EventDesiredStateChanged
  with assms show ?thesis
    by (cases "ed_DesiredState (ev_Data ev)")
       (auto simp: applyEvent_def applyDesiredStateChanged_def applyDesiredState_def split: if_splits)
qed (use assms in \<open>auto simp: applyEvent_def applyRunCreated_def applyLeaseEvent_def
      lifecycle_defs applyActionPlanned_def applyActionFailed_def Let_def bindE_Inr_iff
      requireActiveState_iff requirePlanned_iff requirePendingAction_iff transition_iff split: if_splits\<close>)

text \<open>A cancellation that was completed while the Run was paused.\<close>

definition cancelled_in_pause :: "State \<Rightarrow> bool" where
  "cancelled_in_pause st \<longleftrightarrow> st_Exists st \<and> desired st = DesiredCancelled
     \<and> observed st = StatusPaused \<and> st_ResumeState st = StatusCancelled"

lemma applyEvent_cancelled_in_pause:
  assumes "applyEvent h st ev = Inr st'" "cancelled_in_pause st" "\<not> legacyLifecycleResultEvent (ev_Type ev)"
  shows "cancelled_in_pause st'"
proof (cases "ev_Type ev")
  case EventActionCompleted
  with assms show ?thesis
    by (cases "ed_ActionType (ev_Data ev) = CommandCancelRun")
       (auto simp: cancelled_in_pause_def applyEvent_def applyActionCompleted_def Let_def bindE_Inr_iff
         applyCompletedActionResult_def advanceManagedState_iff logicalState_def split: if_splits)
next
  case EventDesiredStateChanged
  with assms show ?thesis
    by (cases "ed_DesiredState (ev_Data ev)")
       (auto simp: cancelled_in_pause_def applyEvent_def applyDesiredStateChanged_def applyDesiredState_def split: if_splits)
qed (use assms in \<open>auto simp: cancelled_in_pause_def applyEvent_def applyRunCreated_def applyLeaseEvent_def
      applyActionPlanned_def applyActionFailed_def Let_def bindE_Inr_iff split: if_splits\<close>)

lemma accepts_append:
  assumes "accepts h es st"
  shows "accepts h (es @ fs) st' \<longleftrightarrow> reduceLoop h (length es) (ev_IdempotencyKey ` set es) st fs = Inr st'"
  using assms by (simp add: Reduce_accepts [symmetric] Reduce_append)

inductive_simps accepts_snoc_simps: "accepts h (es @ [ev]) st'"

lemma accepts_snoc_iff:
  "accepts h (es @ [ev]) st' \<longleftrightarrow>
     (\<exists>st st1. accepts h es st \<and> envelope_ok es st ev \<and> applyEvent h st ev = Inr st1 \<and> st' = stampEvent st1 ev)"
  by (auto simp: accepts_snoc_simps)

lemma accepts_prefix: "accepts h (es @ fs) st' \<Longrightarrow> \<exists>st. accepts h es st"
  by (induction fs arbitrary: st' rule: rev_induct) (auto simp: accepts_snoc_iff simp flip: append_assoc)

lemma accepts_unique: "accepts h es st \<Longrightarrow> accepts h es st' \<Longrightarrow> st = st'"
  by (simp add: Reduce_accepts [symmetric])

lemma accepts_stable:
  assumes step: "\<And>st ev st'. P st \<Longrightarrow> st_Exists st \<Longrightarrow> state_inv st \<Longrightarrow> \<not> Terminal (observed st) \<Longrightarrow> Q ev \<Longrightarrow>
     applyEvent h st ev = Inr st' \<Longrightarrow> P (stampEvent st' ev)"
    and "accepts h es st" "es \<noteq> []" "P st" "accepts h (es @ fs) st'" "\<forall>ev\<in>set fs. Q ev"
  shows "P st'"
  using assms(5,6)
proof (induction fs arbitrary: st' rule: rev_induct)
  case Nil
  with assms accepts_unique show ?case by fastforce
next
  case (snoc ev fs)
  then obtain st0 st1 where s: "accepts h (es @ fs) st0" "envelope_ok (es @ fs) st0 ev" "applyEvent h st0 ev = Inr st1" "st' = stampEvent st1 ev"
    by (auto simp: accepts_snoc_iff simp flip: append_assoc)
  with snoc have "P st0" by simp
  moreover have "st_Exists st0" "state_inv st0"
    using s(1) assms(3) accepts_exists accepts_inv by blast+
  ultimately show ?case using step s snoc.prems by (auto simp: envelope_ok_def)
qed

lemma accepts_terminal:
  assumes "accepts h es st" "Terminal (observed st)"
  shows "\<not> accepts h (es @ [ev]) st'"
proof
  assume "accepts h (es @ [ev]) st'"
  with assms accepts_unique obtain st1 where "envelope_ok es st ev"
    by (auto simp: accepts_snoc_iff)
  moreover have "es \<noteq> []" using assms accepts_nonempty [of h es st] by (auto simp: InitialState_def Run_zero_def)
  then have "st_Exists st" using assms accepts_exists by blast
  ultimately show False using assms by (simp add: envelope_ok_def)
qed

section \<open>Pending actions\<close>

definition same_pending :: "State \<Rightarrow> State \<Rightarrow> bool" where
  "same_pending st st' \<longleftrightarrow> st_PendingActionID st' = st_PendingActionID st \<and> st_PendingActionType st' = st_PendingActionType st
     \<and> st_PendingAttemptID st' = st_PendingAttemptID st \<and> st_PendingActionScope st' = st_PendingActionScope st"

lemma same_pending_refl [simp]: "same_pending st st"
  by (simp add: same_pending_def)

lemma applyDesiredState_pending: "applyDesiredState st d = Inr st' \<Longrightarrow> same_pending st st'"
  by (cases d) (auto simp: same_pending_def applyDesiredState_def bindE_Inr_iff transition_iff split: if_splits)

lemma applyEvent_pending:
  assumes "applyEvent h st ev = Inr st'" "state_inv st" "st_PendingActionType st \<noteq> CommandNone"
  shows "same_pending st st' \<or>
     ev_Type ev \<in> {EventActionCompleted, EventActionFailed}
     \<and> ed_ActionID (ev_Data ev) = st_PendingActionID st \<and> ed_ActionType (ev_Data ev) = st_PendingActionType st
     \<and> (if ev_Type ev = EventActionCompleted then ed_ReceiptID (ev_Data ev) \<noteq> '''' else ed_Reason (ev_Data ev) \<noteq> '''')"
proof -
  from assms(2,3) have "st_PendingActionID st \<noteq> ''''" "st_Exists st" by (simp_all add: state_inv_def pending_ok_def intent_ok_def)
  with assms(1,3) show ?thesis
    by (cases "ev_Type ev")
       (auto simp: applyEvent_def applyRunCreated_def applyLeaseEvent_def applyDesiredStateChanged_def
          managed_defs Let_def bindE_Inr_iff requireManagedPendingAction_iff same_pending_refl split: if_splits
        dest: applyDesiredState_pending)
qed


lemma Reduce_inv: "Reduce h es = Inr st \<Longrightarrow> es \<noteq> [] \<Longrightarrow> state_inv st"
  using accepts_exists accepts_inv by (simp add: Reduce_accepts)

section \<open>Sample logs\<close>

definition sampleEvent :: "nat \<Rightarrow> EventType \<Rightarrow> EventData \<Rightarrow> Event" where
  "sampleEvent n t d = Event_zero\<lparr>ev_RunID := ''run-1'', ev_Seq := of_nat n, ev_Type := t,
     ev_PayloadVersion := 1, ev_Data := d, ev_IdempotencyKey := ''k'' @ show_nat n\<rparr>"

definition sampleLog :: "Event list" where
  "sampleLog =
    [sampleEvent 1 EventRunCreated (EventData_zero\<lparr>ed_ScenarioID := ''demo''\<rparr>),
     sampleEvent 2 EventAttemptStarted (EventData_zero\<lparr>ed_AttemptID := ''run-1:attempt:1''\<rparr>),
     sampleEvent 3 EventWorkspaceProvisioned EventData_zero,
     sampleEvent 4 EventReasoningPlanned (EventData_zero\<lparr>ed_ActionID := ''a''\<rparr>),
     sampleEvent 5 EventReasoningCompleted (EventData_zero\<lparr>ed_ActionID := ''a'', ed_ToolName := ''apply_patch''\<rparr>),
     sampleEvent 6 EventPatchProduced (EventData_zero\<lparr>ed_ActionID := ''b''\<rparr>),
     sampleEvent 7 EventVerificationPlanned (EventData_zero\<lparr>ed_ActionID := ''c''\<rparr>),
     sampleEvent 8 EventVerificationPassed (EventData_zero\<lparr>ed_ActionID := ''c''\<rparr>),
     sampleEvent 9 EventRunSucceeded EventData_zero]"

definition sampleState :: "Event list \<Rightarrow> State" where
  "sampleState es = (case Reduce (\<lambda>s. s) es of Inr st \<Rightarrow> st | Inl _ \<Rightarrow> InitialState)"

lemma sampleLog_accepted: "Reduce (\<lambda>s. s) sampleLog = Inr (sampleState sampleLog)"
  "observed (sampleState sampleLog) = StatusSucceeded"
  by code_simp+

section \<open>Properties of the reducer\<close>

text \<open>
  (C1) Well-formedness of every projection. A log that \<open>Reduce\<close> accepts has sequence numbers
  1, 2, ..., pairwise distinct idempotency keys and a single Run id; the projected State exists
  exactly when the log is non-empty, carries the log's length as its version and satisfies the
  invariant \<open>state_inv\<close>: intent and observed state agree, the recorded evidence matches the
  phase, at most one attempt was started, and a pending action belongs to the current phase.
\<close>

theorem Reduce_invariant:
  assumes "Reduce h es = Inr st"
  shows "(st_Exists st \<longleftrightarrow> es \<noteq> [])
    \<and> (es \<noteq> [] \<longrightarrow> state_inv st \<and> (\<forall>ev\<in>set es. ev_RunID ev = run_ID (st_Run st)))
    \<and> run_Version (st_Run st) = of_nat (length es)
    \<and> distinct (map ev_IdempotencyKey es) \<and> map ev_Seq es = map of_nat [1..<length es + 1]"
proof -
  from assms have a: "accepts h es st" by (simp add: Reduce_accepts)
  from accepts_nonempty [OF a] accepts_exists [OF a] accepts_version [OF a] accepts_log [OF a]
  show ?thesis by (simp split: if_splits)
qed

theorem Reduce_invariant_witness:
  "state_inv (sampleState sampleLog) \<and> run_Version (st_Run (sampleState sampleLog)) = of_nat (length sampleLog)
   \<and> run_Version (st_Run (sampleState sampleLog)) = 9"
proof -
  have "length sampleLog = 9" by (simp add: sampleLog_def)
  then show ?thesis using Reduce_invariant [OF sampleLog_accepted(1)] by auto
qed

text \<open>
  (C3) A Run is only ever observed as Succeeded on evidence: its log holds, in this order, the
  recorded start of an attempt, the provisioned workspace, the reasoner's result, the patch, the
  passed verification and the success event, on the managed path or on the compatibility path.
\<close>

theorem Reduce_success_evidence:
  assumes "Reduce h es = Inr st" "observed st = StatusSucceeded"
  shows "subseq [CommandStartAttempt, CommandProvisionWorkspace, CommandRunReasoner,
     CommandApplyPatch, CommandVerify, CommandSucceedRun] (concat (map milestone es))"
proof -
  from assms accepts_evidence have "evidenced st (trail es)" by (simp add: Reduce_accepts)
  moreover from assms have "claimed st = 6" by (simp add: claimed_def logicalState_def)
  ultimately show ?thesis by (simp add: evidenced_def lifecycle_def)
qed

theorem Reduce_success_evidence_witness:
  "subseq [CommandStartAttempt, CommandProvisionWorkspace, CommandRunReasoner,
     CommandApplyPatch, CommandVerify, CommandSucceedRun] (concat (map milestone sampleLog))"
  by (rule Reduce_success_evidence [OF sampleLog_accepted])

text \<open>
  Terminal states absorb. Once a log projects to Succeeded, Failed or Cancelled, no extension
  of it is accepted; an extension whose envelope is in order fails with \<open>ErrTerminalState\<close>.
\<close>

theorem Reduce_terminal_absorbing:
  assumes "Reduce h es = Inr st" "Terminal (observed st)"
  shows "(\<forall>st'. Reduce h (es @ ev # fs) \<noteq> Inr st') \<and>
    (ev_Seq ev = of_nat (length es + 1) \<and> ev_RunID ev = run_ID (st_Run st) \<and> ev_IdempotencyKey ev \<noteq> ''''
     \<and> ev_PayloadVersion ev = CurrentEventPayloadVersion
     \<and> ev_IdempotencyKey ev \<notin> ev_IdempotencyKey ` set es
       \<longrightarrow> Reduce h (es @ ev # fs) = Inl ErrTerminalState)"
proof
  show "\<forall>st'. Reduce h (es @ ev # fs) \<noteq> Inr st'"
    using assms accepts_terminal accepts_prefix [of h "es @ [ev]" fs]
    by (fastforce simp: Reduce_accepts)
  have "st_Exists st" "run_ID (st_Run st) \<noteq> ''''"
    using assms accepts_nonempty [of h es st]
    by (auto simp: Reduce_accepts InitialState_def Run_zero_def state_inv_def intent_ok_def split: if_splits)
  then show "ev_Seq ev = of_nat (length es + 1) \<and> ev_RunID ev = run_ID (st_Run st) \<and> ev_IdempotencyKey ev \<noteq> ''''
     \<and> ev_PayloadVersion ev = CurrentEventPayloadVersion
     \<and> ev_IdempotencyKey ev \<notin> ev_IdempotencyKey ` set es
       \<longrightarrow> Reduce h (es @ ev # fs) = Inl ErrTerminalState"
    using assms by (simp add: Reduce_append)
qed

theorem Reduce_terminal_absorbing_witness:
  "Reduce (\<lambda>s. s) (sampleLog @ [sampleEvent 10 EventRunCancelled EventData_zero]) = Inl ErrTerminalState"
proof -
  have "run_ID (st_Run (sampleState sampleLog)) = ''run-1''" by code_simp
  moreover have "''k10'' \<notin> ev_IdempotencyKey ` set sampleLog" by code_simp
  moreover have "ev_IdempotencyKey (sampleEvent 10 EventRunCancelled EventData_zero) = ''k10''" by code_simp
  moreover have "length sampleLog = 9" by (simp add: sampleLog_def)
  ultimately show ?thesis
    using Reduce_terminal_absorbing [OF sampleLog_accepted(1), of "sampleEvent 10 EventRunCancelled EventData_zero" "[]"]
      sampleLog_accepted(2)
    by (simp add: sampleEvent_def CurrentEventPayloadVersion_def)
qed

text \<open>
  Reading a checkpoint is as good as reading the log. Resuming from the State of a non-empty
  accepted log accepts exactly the continuations that \<open>Reduce\<close> accepts after that log, and
  projects the same State. \<open>ReduceFromCheckpoint\<close> only sees the tail, so the keys of the tail
  are assumed fresh, which the store's unique index on (run, idempotency key) provides; a Run's
  version fits 64 bits.
\<close>

theorem ReduceFromCheckpoint_equiv:
  assumes "Reduce h es = Inr st" "es \<noteq> []" "length es < 2 ^ 64"
    and "ev_IdempotencyKey ` set es \<inter> ev_IdempotencyKey ` set fs = {}"
  shows "ReduceFromCheckpoint h st fs = Inr st' \<longleftrightarrow> Reduce h (es @ fs) = Inr st'"
  using assms checkpoint_resume by (simp add: Reduce_accepts)

theorem ReduceFromCheckpoint_equiv_witness:
  "ReduceFromCheckpoint (\<lambda>s. s) (sampleState (take 5 sampleLog)) (drop 5 sampleLog) = Inr (sampleState sampleLog)"
proof -
  have "Reduce (\<lambda>s. s) (take 5 sampleLog) = Inr (sampleState (take 5 sampleLog))" by code_simp
  moreover have "take 5 sampleLog \<noteq> [] \<and> length (take 5 sampleLog) < 2 ^ 64" by (simp add: sampleLog_def)
  moreover have "ev_IdempotencyKey ` set (take 5 sampleLog) \<inter> ev_IdempotencyKey ` set (drop 5 sampleLog) = {}" by code_simp
  ultimately show ?thesis
    using ReduceFromCheckpoint_equiv [of "\<lambda>s. s" "take 5 sampleLog" _ "drop 5 sampleLog" "sampleState sampleLog"]
      sampleLog_accepted(1) by simp
qed


text \<open>
  Cancellation is final. Once the log records the intent to cancel, no continuation takes it
  back, and the observed state only ever stays as it is or becomes Cancelled: a late result of an
  action that was in flight, success and failure included, has no effect on the lifecycle.
\<close>

theorem Reduce_cancel_final:
  assumes "Reduce h es = Inr st" "desired st = DesiredCancelled" "Reduce h (es @ fs) = Inr st'"
  shows "desired st' = DesiredCancelled \<and> (observed st' = observed st \<or> observed st' = StatusCancelled)"
proof -
  let ?P = "\<lambda>s. desired s = DesiredCancelled \<and> (observed s = observed st \<or> observed s = StatusCancelled)"
  have ne: "es \<noteq> []" using assms by (auto simp: InitialState_def Run_zero_def)
  show ?thesis
  proof (rule accepts_stable [where P = ?P and Q = "\<lambda>_. True" and h = h and es = es and st = st and fs = fs])
    show "?P (stampEvent s' ev)" if "?P s" "st_Exists s" "applyEvent h s ev = Inr s'" for s ev s'
      using applyEvent_cancelled [OF that(3,2)] that(1) by auto
  qed (use assms ne in \<open>simp_all add: Reduce_accepts\<close>)
qed

definition cancelLog :: "Event list" where
  "cancelLog =
    [sampleEvent 1 EventRunCreated (EventData_zero\<lparr>ed_ScenarioID := ''demo''\<rparr>),
     sampleEvent 2 EventDesiredStateChanged (EventData_zero\<lparr>ed_DesiredState := DesiredPaused\<rparr>),
     sampleEvent 3 EventDesiredStateChanged (EventData_zero\<lparr>ed_DesiredState := DesiredCancelled\<rparr>),
     sampleEvent 4 EventActionPlanned (EventData_zero\<lparr>
       ed_ActionID := take 32 ''run-1|CancelRun|0|'', ed_ActionType := CommandCancelRun,
       ed_IdempotencyScope := IdempotencyScoped\<rparr>),
     sampleEvent 5 EventActionCompleted (EventData_zero\<lparr>
       ed_ActionID := take 32 ''run-1|CancelRun|0|'', ed_ActionType := CommandCancelRun,
       ed_ReceiptID := ''r''\<rparr>)]"

lemma cancelLog_accepted: "Reduce (\<lambda>s. s) cancelLog = Inr (sampleState cancelLog)"
  "Reduce (\<lambda>s. s) (take 3 cancelLog) = Inr (sampleState (take 3 cancelLog))"
  "desired (sampleState (take 3 cancelLog)) = DesiredCancelled"
  "desired (sampleState cancelLog) = DesiredCancelled"
  "observed (sampleState cancelLog) = StatusPaused" "logicalState (sampleState cancelLog) = StatusCancelled"
  by code_simp+

theorem Reduce_cancel_final_witness:
  "desired (sampleState cancelLog) = DesiredCancelled
   \<and> (observed (sampleState cancelLog) = observed (sampleState (take 3 cancelLog))
      \<or> observed (sampleState cancelLog) = StatusCancelled)"
  using Reduce_cancel_final [OF cancelLog_accepted(2,3), of "drop 3 cancelLog"] cancelLog_accepted(1)
  by (simp only: append_take_drop_id)

text \<open>
  A planned managed action is resolved by its own result and by nothing else: while an action
  is pending, every accepted event leaves it pending unchanged, or is the completion (with a
  receipt id) or the failure (with a reason) of exactly that action id and type.
\<close>

theorem Reduce_pending_resolution:
  assumes "Reduce h es = Inr st" "st_PendingActionType st \<noteq> CommandNone" "Reduce h (es @ [ev]) = Inr st'"
  shows "same_pending st st' \<or>
     ev_Type ev \<in> {EventActionCompleted, EventActionFailed}
     \<and> ed_ActionID (ev_Data ev) = st_PendingActionID st \<and> ed_ActionType (ev_Data ev) = st_PendingActionType st
     \<and> (if ev_Type ev = EventActionCompleted then ed_ReceiptID (ev_Data ev) \<noteq> ''''
        else ed_Reason (ev_Data ev) \<noteq> '''')"
proof -
  have "es \<noteq> []" using assms by (auto simp: InitialState_def)
  with assms Reduce_inv have "state_inv st" by blast
  moreover obtain st1 where "applyEvent h st ev = Inr st1" "st' = stampEvent st1 ev"
    using assms by (auto simp: Reduce_append bindE_Inr_iff split: if_splits)
  ultimately show ?thesis using applyEvent_pending [of h st ev st1] assms(2)
    by (auto simp: same_pending_def)
qed

theorem Reduce_pending_resolution_witness:
  "ed_ActionID (ev_Data (cancelLog ! 4)) = st_PendingActionID (sampleState (take 4 cancelLog))"
proof -
  have "Reduce (\<lambda>s. s) (take 4 cancelLog) = Inr (sampleState (take 4 cancelLog))"
    "st_PendingActionType (sampleState (take 4 cancelLog)) \<noteq> CommandNone"
    "Reduce (\<lambda>s. s) (take 4 cancelLog @ [cancelLog ! 4]) = Inr (sampleState cancelLog)"
    "\<not> same_pending (sampleState (take 4 cancelLog)) (sampleState cancelLog)"
    by code_simp+
  then show ?thesis using Reduce_pending_resolution by blast
qed

text \<open>
  Planning follows the decision. On an existing Run an \<open>ActionPlanned\<close> event is accepted
  exactly when nothing is pending, its scope is one of the two known ones and it names the type and
  id of the command that \<open>Decide\<close> returns for the current State (and, for a new attempt, the next
  attempt id); it then makes precisely that command pending and changes nothing else.
\<close>

theorem ActionPlanned_iff_Decide:
  assumes "st_Exists st"
  shows "applyActionPlanned h st ev = Inr st' \<longleftrightarrow>
     st_PendingActionID st = '''' \<and> ed_ActionID (ev_Data ev) \<noteq> ''''
     \<and> IdempotencyScope_Valid (ed_IdempotencyScope (ev_Data ev))
     \<and> cmd_Type (Decide h st) \<noteq> CommandNoop
     \<and> cmd_Type (Decide h st) = ed_ActionType (ev_Data ev)
     \<and> cmd_ActionID (Decide h st) = ed_ActionID (ev_Data ev)
     \<and> (ed_ActionType (ev_Data ev) = CommandStartAttempt \<longrightarrow> ed_AttemptID (ev_Data ev) = nextAttemptID st)
     \<and> st' = st\<lparr>st_PendingActionID := cmd_ActionID (Decide h st),
                st_PendingActionType := cmd_Type (Decide h st),
                st_PendingAttemptID := ed_AttemptID (ev_Data ev),
                st_PendingActionScope := ed_IdempotencyScope (ev_Data ev)\<rparr>"
  using assms by (rule planned_iff_decided)

theorem ActionPlanned_iff_Decide_witness:
  "applyActionPlanned (\<lambda>s. s) (sampleState (take 3 cancelLog)) (cancelLog ! 4) = Inl ErrInvalidEvent
   \<and> cmd_ActionID (Decide (\<lambda>s. s) (sampleState (take 3 cancelLog))) = ed_ActionID (ev_Data (cancelLog ! 3))"
proof -
  have e: "st_Exists (sampleState (take 3 cancelLog))"
    "\<exists>st'. applyActionPlanned (\<lambda>s. s) (sampleState (take 3 cancelLog)) (cancelLog ! 3) = Inr st'"
    "applyActionPlanned (\<lambda>s. s) (sampleState (take 3 cancelLog)) (cancelLog ! 4) = Inl ErrInvalidEvent"
    by (code_simp, (rule exI, code_simp), code_simp)
  then show ?thesis using ActionPlanned_iff_Decide [OF e(1), of "\<lambda>s. s" "cancelLog ! 3"] by blast
qed

text \<open>
  When the controller rests. For the State of any accepted, non-empty log \<open>Decide\<close> answers
  Noop exactly when the Run is terminal, paused, or waiting for an approval without an intent to
  cancel. No other reachable State is a dead end.
\<close>

theorem Decide_noop_iff:
  assumes "Reduce h es = Inr st" "es \<noteq> []"
  shows "cmd_Type (Decide h st) = CommandNoop \<longleftrightarrow>
     Terminal (observed st) \<or> desired st = DesiredPaused
     \<or> observed st = StatusWaitingApproval \<and> desired st \<noteq> DesiredCancelled"
  by (rule Decide_noop_inv) (rule Reduce_inv [OF assms])

theorem Decide_noop_iff_witness:
  "cmd_Type (Decide (\<lambda>s. s) (sampleState sampleLog)) = CommandNoop"
  using Decide_noop_iff [OF sampleLog_accepted(1)] sampleLog_accepted(2)
  by (simp add: sampleLog_def [THEN arg_cong, of "\<lambda>x. x = []"])

text \<open>
  Pausing loses nothing. Pausing a reachable running Run is accepted, shows Paused and keeps
  the phase in \<open>ResumeState\<close>; resuming restores the State it had before the pause.
\<close>

theorem pause_resume_roundtrip:
  assumes "Reduce h es = Inr st" "es \<noteq> []" "desired st = DesiredRunning" "\<not> Terminal (observed st)"
  shows "\<exists>st'. applyDesiredState st DesiredPaused = Inr st' \<and> observed st' = StatusPaused
    \<and> cmd_Type (Decide h st') = CommandNoop
    \<and> applyDesiredState st' DesiredRunning = Inr (st\<lparr>st_ResumeState := StatusNone\<rparr>)"
proof -
  have inv: "intent_ok st" "phase_ok (observed st) st"
    using Reduce_inv [OF assms(1,2)] assms(3) by (auto simp: state_inv_def intent_ok_def logicalState_def)
  let ?s = "set_desired DesiredPaused (set_observed StatusPaused (st\<lparr>st_ResumeState := observed st\<rparr>))"
  have "applyDesiredState st DesiredPaused = Inr ?s"
    using inv assms(3,4)
    by (cases "observed st") (auto simp: applyDesiredState_def bindE_Inr_iff transition_iff intent_ok_def)
  moreover have "applyDesiredState ?s DesiredRunning = Inr (st\<lparr>st_ResumeState := StatusNone\<rparr>)"
    using inv assms(3,4) by (cases "observed st") (auto simp: applyDesiredState_def bindE_Inr_iff transition_iff)
  ultimately show ?thesis by (intro exI [of _ ?s]) (simp add: Decide_def)
qed

theorem pause_resume_roundtrip_witness:
  "\<exists>st'. applyDesiredState (sampleState (take 5 sampleLog)) DesiredPaused = Inr st' \<and> observed st' = StatusPaused"
proof -
  have "Reduce (\<lambda>s. s) (take 5 sampleLog) = Inr (sampleState (take 5 sampleLog))"
    "desired (sampleState (take 5 sampleLog)) = DesiredRunning"
    "\<not> Terminal (observed (sampleState (take 5 sampleLog)))" by code_simp+
  moreover have "take 5 sampleLog \<noteq> []" by (simp add: sampleLog_def)
  ultimately show ?thesis using pause_resume_roundtrip by blast
qed

text \<open>
  Command ids are derived from unambiguous material. For commands of one Run, the text that
  is hashed into the action id determines the command type, the attempt number and the attempt id:
  two commands that differ in any of them can only share an id by a collision of the digest.
\<close>

theorem commandMaterial_unambiguous:
  assumes "run_ID (st_Run st) = run_ID (st_Run st')"
    and "\<forall>s. t \<noteq> CommandOther s" "\<forall>s. u \<noteq> CommandOther s"
  shows "commandMaterial st t = commandMaterial st' u \<longleftrightarrow>
    t = u \<and> run_CurrentAttempt (st_Run st) = run_CurrentAttempt (st_Run st') \<and> st_AttemptID st = st_AttemptID st'"
  using assms by (rule commandMaterial_inject)

theorem commandMaterial_unambiguous_witness:
  "commandMaterial (sampleState sampleLog) CommandVerify \<noteq> commandMaterial (sampleState sampleLog) CommandApplyPatch"
  using commandMaterial_unambiguous [of "sampleState sampleLog" "sampleState sampleLog" CommandVerify CommandApplyPatch]
  by simp


text \<open>
  (C38) A limit of the managed path. A managed cancellation that completes while the Run is paused
  records Cancelled only as the state to resume to; from then on no sequence of managed, lease or
  intent events makes the Run terminal: it stays Paused for ever, and the controller keeps asking
  for the cancellation. (The compatibility event \<open>RunCancelled\<close> would end it, but a managed Run
  rejects that event.)
\<close>

theorem paused_cancellation_never_terminal:
  assumes "Reduce h es = Inr st" "es \<noteq> []" "cancelled_in_pause st"
    and "Reduce h (es @ fs) = Inr st'" "\<forall>ev\<in>set fs. \<not> legacyLifecycleResultEvent (ev_Type ev)"
  shows "observed st' = StatusPaused \<and> cmd_Type (Decide h st') = CommandCancelRun"
proof -
  have "cancelled_in_pause st'"
  proof (rule accepts_stable [where P = cancelled_in_pause and Q = "\<lambda>ev. \<not> legacyLifecycleResultEvent (ev_Type ev)"
        and h = h and es = es and st = st and fs = fs])
    show "cancelled_in_pause (stampEvent s' ev)"
      if "cancelled_in_pause s" "\<not> legacyLifecycleResultEvent (ev_Type ev)" "applyEvent h s ev = Inr s'" for s ev s'
      using applyEvent_cancelled_in_pause [OF that(3,1,2)] by (simp add: cancelled_in_pause_def)
  qed (use assms in \<open>simp_all add: Reduce_accepts\<close>)
  then show ?thesis by (simp add: cancelled_in_pause_def Decide_def)
qed

theorem paused_cancellation_never_terminal_witness:
  "observed (sampleState cancelLog) = StatusPaused \<and> cmd_Type (Decide (\<lambda>s. s) (sampleState cancelLog)) = CommandCancelRun"
proof -
  have "cancelled_in_pause (sampleState cancelLog)" by code_simp
  moreover have "cancelLog \<noteq> []" by (simp add: cancelLog_def)
  ultimately show ?thesis
    using paused_cancellation_never_terminal [OF cancelLog_accepted(1) _ _, of "[]"] cancelLog_accepted(1) by simp
qed

end
