(* ===== verification/Store_Validation.thy ===== *)
theory Store_Validation
  imports Domain_Properties
begin

text \<open>
  The credential screen of \<open>src/internal/store/validation.go\<close> and the error vocabulary of
  \<open>src/internal/store/store.go\<close>. Strings are byte strings. The four credential patterns are
  written in a small regular-expression datatype with an executable matcher; \<open>strings.ToLower\<close>,
  \<open>strings.Fields\<close> and \<open>strings.Trim\<close> are modelled on bytes. What \<open>encoding/json\<close> decodes
  a string to and whether \<open>net/url\<close> finds a scheme and a password in a word are parameters.
\<close>

section \<open>Errors of the store package\<close>

record FencingTokenError =
  fte_RunID :: string
  fte_WorkerID :: string
  fte_FencingToken :: uint64
  fte_CurrentWorker :: string
  fte_CurrentToken :: uint64
  fte_Expired :: bool

record VersionConflictError =
  vce_RunID :: string
  vce_Expected :: uint64
  vce_Actual :: uint64

text \<open>
  \<open>ErrContext\<close> is \<open>ctx.Err()\<close>, \<open>ErrDatabase\<close> an error of the database driver or of a
  constraint, \<open>ErrStorage\<close> a file-system error, \<open>ErrDomain\<close> an error of the domain package
  passed on unchanged and \<open>ErrArgument\<close> a rejected argument without a sentinel.
\<close>

datatype StoreError =
    ErrRunNotFound | ErrInvalidAppend | ErrVersionConflict VersionConflictError
  | ErrIdempotencyConflict | ErrSensitivePayload | ErrStaleFencingToken FencingTokenError
  | ErrMissingActionReceipt | ErrActionReceiptMismatch | ErrManagedRunLegacyEvent
  | ErrArtifactNotFound | ErrArtifactIntegrity
  | ErrContext | ErrDatabase | ErrStorage | ErrArgument | ErrDomain DomainError

section \<open>Byte-level string functions\<close>

definition char_between :: "char \<Rightarrow> char \<Rightarrow> char \<Rightarrow> bool" where
  "char_between lo hi c \<longleftrightarrow> (of_char lo :: nat) \<le> of_char c \<and> (of_char c :: nat) \<le> of_char hi"

text \<open>Evaluation compares the codes as binary integers.\<close>

lemma char_between_code [code]:
  "char_between lo hi c \<longleftrightarrow> (of_char lo :: int) \<le> of_char c \<and> (of_char c :: int) \<le> of_char hi"
proof -
  have e: "(of_char x :: int) = int (of_char x)" for x by (simp add: of_nat_of_char)
  show ?thesis by (simp add: char_between_def e)
qed

abbreviation is_lower :: "char \<Rightarrow> bool" where "is_lower \<equiv> char_between CHR ''a'' CHR ''z''"
abbreviation is_upper :: "char \<Rightarrow> bool" where "is_upper \<equiv> char_between CHR ''A'' CHR ''Z''"
abbreviation is_digit :: "char \<Rightarrow> bool" where "is_digit \<equiv> char_between CHR ''0'' CHR ''9''"

definition lower_char :: "char \<Rightarrow> char" where
  "lower_char c = (if is_upper c then char_of ((of_char c :: nat) + 32) else c)"

text \<open>
  \<open>strings.ToLower\<close>: ASCII letters, and the two other code points whose lower case is an ASCII
  letter, the Kelvin sign (E2 84 AA) and the dotted capital I (C4 B0). Every other non-ASCII code
  point stays non-ASCII, which is all its uses here depend on; it is left as it is.
\<close>

fun ToLower :: "string \<Rightarrow> string" where
  "ToLower (a # b # c # s) =
     (if a = CHR 0xE2 \<and> b = CHR 0x84 \<and> c = CHR 0xAA then CHR ''k'' # ToLower s
      else if a = CHR 0xC4 \<and> b = CHR 0xB0 then CHR ''i'' # ToLower (c # s)
      else lower_char a # ToLower (b # c # s))"
| "ToLower [a, b] =
     (if a = CHR 0xC4 \<and> b = CHR 0xB0 then ''i'' else [lower_char a, lower_char b])"
| "ToLower s = map lower_char s"

text \<open>
  \<open>unicode.IsSpace\<close>: the number of bytes of the space at the head of a string, 0 when there is
  none (the ASCII spaces, U+0085, U+00A0, U+1680, U+2000 to U+200A, U+2028, U+2029, U+202F, U+205F
  and U+3000).
\<close>

fun space_len :: "string \<Rightarrow> nat" where
  "space_len [] = 0"
| "space_len (a # s) =
     (if a \<in> {CHR '' '', CHR 0x09, CHR 0x0A, CHR 0x0B, CHR 0x0C, CHR 0x0D} then 1
      else case s of
        b # s' \<Rightarrow>
          (if a = CHR 0xC2 \<and> (b = CHR 0x85 \<or> b = CHR 0xA0) then 2
           else case s' of
             c # _ \<Rightarrow>
               (if a = CHR 0xE1 \<and> b = CHR 0x9A \<and> c = CHR 0x80
                  \<or> a = CHR 0xE2 \<and> b = CHR 0x80 \<and>
                      (char_between (CHR 0x80) (CHR 0x8A) c \<or> c = CHR 0xA8 \<or> c = CHR 0xA9 \<or> c = CHR 0xAF)
                  \<or> a = CHR 0xE2 \<and> b = CHR 0x81 \<and> c = CHR 0x9F
                  \<or> a = CHR 0xE3 \<and> b = CHR 0x80 \<and> c = CHR 0x80
                then 3 else 0)
           | [] \<Rightarrow> 0)
      | [] \<Rightarrow> 0)"

text \<open>\<open>strings.Fields\<close>; the accumulator is the current word, reversed.\<close>

function fields_from :: "string \<Rightarrow> string \<Rightarrow> string list" where
  "fields_from acc [] = (if acc = [] then [] else [rev acc])"
| "fields_from acc (c # s) =
     (let n = space_len (c # s) in
      if n = 0 then fields_from (c # acc) s
      else (if acc = [] then [] else [rev acc]) @ fields_from [] (drop n (c # s)))"
  by pat_completeness auto
termination
  by (relation "measure (\<lambda>(acc, s). length s)") auto

definition Fields :: "string \<Rightarrow> string list" where
  "Fields s = fields_from [] s"

text \<open>\<open>strings.Trim\<close> with a cutset of ASCII characters.\<close>

definition Trim :: "string \<Rightarrow> string \<Rightarrow> string" where
  "Trim s cs = rev (dropWhile (\<lambda>c. c \<in> set cs) (rev (dropWhile (\<lambda>c. c \<in> set cs) s)))"

section \<open>Regular expressions\<close>

text \<open>
  The fragment the patterns use: a repeated character class with a minimum and an optional maximum
  count, alternation, sequence and the ASCII word boundary. \<open>ends r s i\<close> are the positions at
  which a match of \<open>r\<close> that starts at position \<open>i\<close> of \<open>s\<close> can end.
\<close>

datatype regexp =
    Empty
  | Rep "string \<Rightarrow> nat" nat "nat option"
  | WordBoundary
  | Seq regexp regexp
  | Alt regexp regexp

definition is_word :: "char \<Rightarrow> bool" where
  "is_word c \<longleftrightarrow> is_lower c \<or> is_upper c \<or> is_digit c \<or> c = CHR ''_''"

definition word_at :: "string \<Rightarrow> nat \<Rightarrow> bool" where
  "word_at s i \<longleftrightarrow> i < length s \<and> is_word (s ! i)"

text \<open>
  \<open>rep_ends f n i s\<close> are the ends of repetitions with their counts: \<open>f\<close> gives the number of
  bytes of the class member at the head of a suffix (0: none), \<open>n\<close> bounds the number of rounds.
\<close>

fun rep_ends :: "(string \<Rightarrow> nat) \<Rightarrow> nat \<Rightarrow> nat \<Rightarrow> string \<Rightarrow> (nat \<times> nat) list" where
  "rep_ends f 0 i s = [(0, i)]"
| "rep_ends f (Suc n) i s =
     (0, i) # (let w = f (drop i s) in
       if w = 0 then [] else map (\<lambda>(k, e). (Suc k, e)) (rep_ends f n (i + w) s))"

fun ends :: "regexp \<Rightarrow> string \<Rightarrow> nat \<Rightarrow> nat list" where
  "ends Empty s i = [i]"
| "ends (Rep f lo hi) s i =
     map snd (filter (\<lambda>(k, e). lo \<le> k)
       (rep_ends f (case hi of None \<Rightarrow> length s | Some n \<Rightarrow> n) i s))"
| "ends WordBoundary s i =
     (if word_at s i \<noteq> (0 < i \<and> word_at s (i - 1)) then [i] else [])"
| "ends (Seq a b) s i = concat (map (ends b s) (ends a s i))"
| "ends (Alt a b) s i = ends a s i @ ends b s i"

definition MatchString :: "regexp \<Rightarrow> string \<Rightarrow> bool" where
  "MatchString r s \<longleftrightarrow> list_ex (\<lambda>i. ends r s i \<noteq> []) [0..<Suc (length s)]"

text \<open>
  A class, case-sensitive or, as after \<open>(?i)\<close>, up to simple case folding, which also relates
  \<open>s\<close> to the long s (C5 BF) and \<open>k\<close> to the Kelvin sign.
\<close>

definition upper_char :: "char \<Rightarrow> char" where
  "upper_char c = (if is_lower c then char_of ((of_char c :: nat) - 32) else c)"

definition class_len :: "(char \<Rightarrow> bool) \<Rightarrow> string \<Rightarrow> nat" where
  "class_len P s = (case s of [] \<Rightarrow> 0 | c # _ \<Rightarrow> if P c then 1 else 0)"

definition class_len_i :: "(char \<Rightarrow> bool) \<Rightarrow> string \<Rightarrow> nat" where
  "class_len_i P s = (case s of [] \<Rightarrow> 0 | c # t \<Rightarrow>
     if P c \<or> P (lower_char c) \<or> P (upper_char c) then 1
     else if (P CHR ''s'' \<or> P CHR ''S'') \<and> has_prefix s [CHR 0xC5, CHR 0xBF] then 2
     else if (P CHR ''k'' \<or> P CHR ''K'') \<and> has_prefix s [CHR 0xE2, CHR 0x84, CHR 0xAA] then 3
     else 0)"

definition lit :: "((char \<Rightarrow> bool) \<Rightarrow> string \<Rightarrow> nat) \<Rightarrow> string \<Rightarrow> regexp" where
  "lit cl l = foldr (\<lambda>c r. Seq (Rep (cl (\<lambda>x. x = c)) 1 (Some 1)) r) l Empty"

definition alts :: "regexp list \<Rightarrow> regexp" where
  "alts rs = foldr Alt (butlast rs) (last rs)"

fun seqs :: "regexp list \<Rightarrow> regexp" where
  "seqs [] = Empty"
| "seqs (r # rs) = Seq r (seqs rs)"

definition regexp_space :: "char \<Rightarrow> bool" where
  "regexp_space c \<longleftrightarrow> c \<in> {CHR '' '', CHR 0x09, CHR 0x0A, CHR 0x0C, CHR 0x0D}"

definition credentialPatterns :: "regexp list" where
  "credentialPatterns =
    [seqs [WordBoundary, lit class_len_i ''sk-'',
       alts [lit class_len_i ''proj-'', lit class_len_i ''svcacct-'', Empty],
       Rep (class_len_i (\<lambda>c. is_lower c \<or> is_digit c \<or> c = CHR ''_'' \<or> c = CHR ''-'')) 16 None,
       WordBoundary],
     seqs [WordBoundary, lit class_len ''AKIA'',
       Rep (class_len (\<lambda>c. is_digit c \<or> is_upper c)) 16 (Some 16), WordBoundary],
     seqs [WordBoundary,
       alts (map (lit class_len_i)
         [''aws_secret_access_key'', ''service_token'', ''api_key'', ''access_token'',
          ''refresh_token'', ''client_secret'', ''database_url'']),
       Rep (class_len regexp_space) 0 None, lit class_len ''='',
       Rep (class_len regexp_space) 0 None,
       Rep (class_len (\<lambda>c. \<not> regexp_space c)) 1 None],
     seqs [lit class_len_i ''-----BEGIN '',
       Rep (class_len_i (\<lambda>c. is_upper c \<or> is_digit c \<or> c = CHR '' '')) 0 None,
       lit class_len_i ''PRIVATE KEY-----'']]"

section \<open>Markers, keys and URLs\<close>

definition sensitiveMarkers :: "string list" where
  "sensitiveMarkers =
    [''openai_api_key='', ''anthropic_api_key='', ''database_url=postgres://'',
     ''authorization: bearer '', CHR 0x22 # ''api_key'' @ CHR 0x22 # '':'',
     CHR 0x22 # ''password'' @ CHR 0x22 # '':'', CHR 0x22 # ''access_token'' @ CHR 0x22 # '':'',
     CHR 0x22 # ''refresh_token'' @ CHR 0x22 # '':'', CHR 0x22 # ''private_key'' @ CHR 0x22 # '':'',
     CHR 0x22 # ''client_secret'' @ CHR 0x22 # '':'']"

definition hasSensitiveMarker :: "string \<Rightarrow> bool" where
  "hasSensitiveMarker value = list_ex (\<lambda>m. contains (ToLower value) m) sensitiveMarkers"

text \<open>
  The loop of \<open>normalizeSensitiveKey\<close>: \<open>out\<close> is the builder, reversed, and \<open>sep\<close> the flag
  \<open>lastWasSeparator\<close>.
\<close>

fun normalizeLoop :: "string \<Rightarrow> bool \<Rightarrow> string \<Rightarrow> string" where
  "normalizeLoop out sep [] = rev out"
| "normalizeLoop out sep (c # s) =
     (if is_lower c \<or> is_digit c then normalizeLoop (c # out) False s
      else if out \<noteq> [] \<and> \<not> sep then normalizeLoop (CHR ''_'' # out) True s
      else normalizeLoop out sep s)"

definition normalizeSensitiveKey :: "string \<Rightarrow> string" where
  "normalizeSensitiveKey key = Trim (normalizeLoop [] False (ToLower key)) ''_''"

definition sensitiveKey :: "string \<Rightarrow> bool" where
  "sensitiveKey key =
     (let normalized = normalizeSensitiveKey key in
      normalized \<in> set
        [''api_key'', ''apikey'', ''password'', ''passwd'', ''credential'', ''credentials'',
         ''authorization'', ''access_token'', ''refresh_token'', ''private_key'',
         ''database_url'', ''secret'', ''client_secret'', ''token'', ''env'', ''environment'',
         ''openai_api_key'', ''anthropic_api_key'', ''aws_secret_access_key'', ''service_token'']
      \<or> has_suffix normalized ''_api_key'' \<or> has_suffix normalized ''_password''
      \<or> has_suffix normalized ''_credential'' \<or> has_suffix normalized ''_secret'')"

section \<open>Nested JSON\<close>

text \<open>
  The values \<open>json.Unmarshal\<close> puts into an \<open>any\<close>. The two parameters: \<open>p_unmarshal\<close>
  decodes a text (\<open>None\<close>: not valid JSON), \<open>p_passwordURL\<close> tells whether \<open>url.Parse\<close>
  accepts a word and finds a scheme and user information with a password in it.
\<close>

datatype Json = JObject "(string \<times> Json) list" | JArray "Json list" | JString string | JScalar

record parsers =
  p_unmarshal :: "string \<Rightarrow> Json option"
  p_passwordURL :: "string \<Rightarrow> bool"

definition hasCredentialURL :: "parsers \<Rightarrow> string \<Rightarrow> bool" where
  "hasCredentialURL P value =
     list_ex (\<lambda>field. p_passwordURL P (Trim field [CHR 0x22, CHR 0x27, CHR ''('', CHR '')'', CHR '','', CHR '';'']))
       (Fields value)"

definition hasSensitiveValue :: "parsers \<Rightarrow> string \<Rightarrow> bool" where
  "hasSensitiveValue P value \<longleftrightarrow>
     hasSensitiveMarker value \<or> hasCredentialURL P value
     \<or> list_ex (\<lambda>r. MatchString r value) credentialPatterns"

definition maxSensitiveJSONDepth :: nat where
  "maxSensitiveJSONDepth = 32"

lemma list_ex_cong' [fundef_cong]:
  "xs = ys \<Longrightarrow> (\<And>x. x \<in> set ys \<Longrightarrow> f x = g x) \<Longrightarrow> list_ex f xs = list_ex g ys"
  by (rule list_ex_cong)

function (sequential) hasSensitiveJSONAtDepth :: "parsers \<Rightarrow> Json \<Rightarrow> nat \<Rightarrow> bool"
  and hasSensitiveString :: "parsers \<Rightarrow> string \<Rightarrow> nat \<Rightarrow> bool" where
  "hasSensitiveJSONAtDepth P value depth =
     (if depth \<ge> maxSensitiveJSONDepth then True
      else case value of
          JObject members \<Rightarrow>
            list_ex (\<lambda>(key, child). sensitiveKey key \<or> hasSensitiveJSONAtDepth P child (depth + 1)) members
        | JArray children \<Rightarrow> list_ex (\<lambda>child. hasSensitiveJSONAtDepth P child (depth + 1)) children
        | JString typed \<Rightarrow> hasSensitiveString P typed (depth + 1)
        | JScalar \<Rightarrow> False)"
| "hasSensitiveString P value depth =
     (if hasSensitiveValue P value then True
      else if depth \<ge> maxSensitiveJSONDepth then True
      else case p_unmarshal P value of
          None \<Rightarrow> False
        | Some decoded \<Rightarrow> hasSensitiveJSONAtDepth P decoded (depth + 1))"
  by pat_completeness auto
termination
  by (relation "measure (case_sum (\<lambda>(_, _, d). maxSensitiveJSONDepth - d) (\<lambda>(_, _, d). maxSensitiveJSONDepth - d))")
     (auto)


declare hasSensitiveJSONAtDepth.simps [simp del] hasSensitiveString.simps [simp del]

section \<open>Screening an event\<close>

fun IdempotencyScope_text :: "IdempotencyScope \<Rightarrow> string" where
  "IdempotencyScope_text ScopeNone = ''''"
| "IdempotencyScope_text IdempotencyScoped = ''scoped-idempotent''"
| "IdempotencyScope_text IdempotencyUnsafe = ''unsafe''"
| "IdempotencyScope_text (ScopeOther s) = s"

text \<open>The string fields of \<open>EventData\<close> in declaration order, as \<open>reflect\<close> enumerates them.\<close>

definition EventData_fields :: "EventData \<Rightarrow> string list" where
  "EventData_fields d =
    [ed_ScenarioID d, ed_SpecHash d, DesiredState_text (ed_DesiredState d), ed_AttemptID d,
     ed_ActionID d, CommandType_text (ed_ActionType d), IdempotencyScope_text (ed_IdempotencyScope d),
     ed_ReceiptID d, ActionOutcome_text (ed_Outcome d), ed_Output d, ed_OutputDigest d,
     ed_ArtifactID d, ed_ArtifactDigest d, ed_ToolName d, ed_ToolArguments d, ed_Reason d]"

definition containsCredentialMaterial :: "parsers \<Rightarrow> EventData \<Rightarrow> bool" where
  "containsCredentialMaterial P d = list_ex (\<lambda>f. hasSensitiveString P f 0) (EventData_fields d)"

definition ValidateEventData :: "parsers \<Rightarrow> EventData \<Rightarrow> StoreError + unit" where
  "ValidateEventData P d =
     (if containsCredentialMaterial P d then Inl ErrSensitivePayload else Inr ())"

definition validateAppendInput :: "parsers \<Rightarrow> Event \<Rightarrow> StoreError + unit" where
  "validateAppendInput P ev =
     (if ev_RunID ev = '''' \<or> ev_IdempotencyKey ev = '''' \<or> ev_Seq ev \<noteq> 0 then Inl ErrInvalidAppend
      else mapErr (\<lambda>_. ErrSensitivePayload) (ValidateEventData P (ev_Data ev)))"

lemma validateAppendInput_iff [result_simps]:
  "validateAppendInput P ev = Inr u \<longleftrightarrow>
     ev_RunID ev \<noteq> '''' \<and> ev_IdempotencyKey ev \<noteq> '''' \<and> ev_Seq ev = 0
     \<and> \<not> containsCredentialMaterial P (ev_Data ev)"
  by (auto simp: validateAppendInput_def ValidateEventData_def)

section \<open>What the screen guarantees\<close>

text \<open>
  Everything a text reveals once embedded JSON is decoded, however deep: the object keys and the
  string values, including those of JSON texts that are themselves string values.
\<close>

inductive reveals_key :: "parsers \<Rightarrow> Json \<Rightarrow> string \<Rightarrow> bool" for P where
  key_here: "(k, c) \<in> set ms \<Longrightarrow> reveals_key P (JObject ms) k"
| key_member: "(k', c) \<in> set ms \<Longrightarrow> reveals_key P c k \<Longrightarrow> reveals_key P (JObject ms) k"
| key_element: "c \<in> set cs \<Longrightarrow> reveals_key P c k \<Longrightarrow> reveals_key P (JArray cs) k"
| key_text: "p_unmarshal P t = Some j \<Longrightarrow> reveals_key P j k \<Longrightarrow> reveals_key P (JString t) k"

inductive reveals_text :: "parsers \<Rightarrow> Json \<Rightarrow> string \<Rightarrow> bool" for P where
  text_here: "reveals_text P (JString t) t"
| text_member: "(k', c) \<in> set ms \<Longrightarrow> reveals_text P c t \<Longrightarrow> reveals_text P (JObject ms) t"
| text_element: "c \<in> set cs \<Longrightarrow> reveals_text P c t \<Longrightarrow> reveals_text P (JArray cs) t"
| text_text: "p_unmarshal P t' = Some j \<Longrightarrow> reveals_text P j t \<Longrightarrow> reveals_text P (JString t') t"

lemma screened_object:
  "\<not> hasSensitiveJSONAtDepth P (JObject ms) d \<Longrightarrow> (k, c) \<in> set ms \<Longrightarrow>
     \<not> sensitiveKey k \<and> \<not> hasSensitiveJSONAtDepth P c (d + 1)"
  by (subst (asm) hasSensitiveJSONAtDepth.simps) (auto simp: list_ex_iff split: if_splits)

lemma screened_array:
  "\<not> hasSensitiveJSONAtDepth P (JArray cs) d \<Longrightarrow> c \<in> set cs \<Longrightarrow> \<not> hasSensitiveJSONAtDepth P c (d + 1)"
  by (subst (asm) hasSensitiveJSONAtDepth.simps) (auto simp: list_ex_iff split: if_splits)

lemma screened_string:
  "\<not> hasSensitiveString P t d \<Longrightarrow>
     \<not> hasSensitiveValue P t \<and> (\<forall>j. p_unmarshal P t = Some j \<longrightarrow> \<not> hasSensitiveJSONAtDepth P j (d + 1))"
  by (subst (asm) hasSensitiveString.simps) (auto split: if_splits)

lemma screened_text:
  "\<not> hasSensitiveJSONAtDepth P (JString t) d \<Longrightarrow> \<not> hasSensitiveString P t (d + 1)"
  by (subst (asm) hasSensitiveJSONAtDepth.simps) (auto split: if_splits)

lemma reveals_key_screened:
  "reveals_key P j k \<Longrightarrow> \<not> hasSensitiveJSONAtDepth P j d \<Longrightarrow> \<not> sensitiveKey k"
proof (induction arbitrary: d rule: reveals_key.induct)
  case (key_text t j k)
  then show ?case using screened_text screened_string by blast
qed (blast dest: screened_object screened_array)+

lemma reveals_text_screened:
  "reveals_text P j t \<Longrightarrow> \<not> hasSensitiveJSONAtDepth P j d \<Longrightarrow> \<not> hasSensitiveValue P t"
proof (induction arbitrary: d rule: reveals_text.induct)
  case (text_here t)
  then show ?case using screened_text screened_string by blast
next
  case (text_text t' j t)
  then show ?case using screened_text screened_string by blast
qed (blast dest: screened_object screened_array)+

text \<open>
  (C36) What the screen of an append lets pass. If an event passes \<open>validateAppendInput\<close>, then its
  RunID and idempotency key are set, it carries no sequence number of its own, and no string field of
  its payload holds a credential marker, a URL with a password or one of the credential patterns;
  neither does any string value, nor any object key a sensitive name, that appears at any depth in JSON
  encoded in such a field, including JSON texts nested inside JSON strings. The recursion stops at depth
  32 by rejecting, never by accepting.
\<close>

theorem append_input_screened:
  assumes "validateAppendInput P ev = Inr ()"
  shows "ev_RunID ev \<noteq> '''' \<and> ev_IdempotencyKey ev \<noteq> '''' \<and> ev_Seq ev = 0
    \<and> (\<forall>f\<in>set (EventData_fields (ev_Data ev)). \<not> hasSensitiveValue P f
        \<and> (\<forall>j. p_unmarshal P f = Some j \<longrightarrow>
             (\<forall>k. reveals_key P j k \<longrightarrow> \<not> sensitiveKey k)
           \<and> (\<forall>t. reveals_text P j t \<longrightarrow> \<not> hasSensitiveValue P t)))"
proof -
  have "\<not> hasSensitiveString P f 0" if "f \<in> set (EventData_fields (ev_Data ev))" for f
    using assms that by (auto simp: validateAppendInput_iff containsCredentialMaterial_def list_ex_iff)
  then have "\<forall>f\<in>set (EventData_fields (ev_Data ev)). \<not> hasSensitiveValue P f
      \<and> (\<forall>j. p_unmarshal P f = Some j \<longrightarrow>
           (\<forall>k. reveals_key P j k \<longrightarrow> \<not> sensitiveKey k) \<and> (\<forall>t. reveals_text P j t \<longrightarrow> \<not> hasSensitiveValue P t))"
    using screened_string reveals_key_screened reveals_text_screened by blast
  with assms show ?thesis by (simp add: validateAppendInput_iff)
qed

definition sampleParsers :: parsers where
  "sampleParsers = \<lparr>
     p_unmarshal = (\<lambda>s. if s = ''o'' then Some (JObject [(''note'', JString ''o2''), (''n'', JScalar)])
        else if s = ''o2'' then Some (JArray [JString ''plain'']) else None),
     p_passwordURL = (\<lambda>_. False)\<rparr>"

definition sampleAppend :: Event where
  "sampleAppend = Event_zero\<lparr>ev_RunID := ''run-1'', ev_IdempotencyKey := ''k1'',
     ev_Type := EventRunCreated, ev_Data := EventData_zero\<lparr>ed_Output := ''o''\<rparr>\<rparr>"

theorem append_input_screened_witness:
  "validateAppendInput sampleParsers sampleAppend = Inr () \<and> \<not> sensitiveKey ''note'' \<and> \<not> hasSensitiveValue sampleParsers ''plain''"
proof -
  have a: "validateAppendInput sampleParsers sampleAppend = Inr ()" by code_simp
  have f: "''o'' \<in> set (EventData_fields (ev_Data sampleAppend))" by code_simp
  let ?j = "JObject [(''note'', JString ''o2''), (''n'', JScalar)]"
  have u: "p_unmarshal sampleParsers ''o'' = Some ?j"
    "p_unmarshal sampleParsers ''o2'' = Some (JArray [JString ''plain''])"
    by (simp_all add: sampleParsers_def)
  have "reveals_text sampleParsers (JString ''o2'') ''plain''"
    by (rule text_text [OF u(2) text_element [OF _ text_here]]) simp
  then have "reveals_text sampleParsers ?j ''plain''" by (rule text_member [rotated]) simp
  moreover have "reveals_key sampleParsers ?j ''note''" by (rule key_here [of _ "JString ''o2''"]) simp
  ultimately show ?thesis using append_input_screened [OF a] f u(1) a by blast
qed

lemma pattern_examples:
  "MatchString (credentialPatterns ! 1) ''x AKIA0123456789ABCDEF y''"
  "\<not> MatchString (credentialPatterns ! 1) ''xAKIA0123456789ABCDEFy''"
  "MatchString (credentialPatterns ! 2) ''API_KEY = v''"
  "sensitiveKey ''OpenAI-API-Key''" "\<not> sensitiveKey ''tokens''"
  by code_simp+

end
