(* ===== verification/Event_Store.thy ===== *)
theory Event_Store
  imports Store_Validation
begin

text \<open>
  The \<open>EventStore\<close> interface of \<open>src/internal/store/store.go\<close> as a locale. Its parameters are
  the authoritative log a store state holds for each Run, an invariant and the append operation; the
  choices of the environment (a cancelled context, database faults, clock readings) are an extra
  argument. The laws are the contract the two implementations share: an append leaves every log as it
  is or extends the log of its Run by one event that answers the request. What clients build on is
  proved here once: logs are append-only, an acknowledged event is never lost, a key is appended at
  most once, terminal Runs are frozen. The in-memory and the PostgreSQL store both interpret it.
\<close>

section \<open>Append results\<close>

record AppendResult =
  ar_Event :: Event
  ar_Appended :: bool

definition defaultPayloadVersion :: "Event \<Rightarrow> Event" where
  "defaultPayloadVersion ev =
     (if ev_PayloadVersion ev = 0 then ev\<lparr>ev_PayloadVersion := CurrentEventPayloadVersion\<rparr> else ev)"

definition sameIdempotentEvent :: "Event \<Rightarrow> Event \<Rightarrow> bool" where
  "sameIdempotentEvent existing replay \<longleftrightarrow>
     existing\<lparr>ev_Seq := 0, ev_CreatedAt := ''''\<rparr>
       = (defaultPayloadVersion replay)\<lparr>ev_Seq := 0, ev_CreatedAt := ''''\<rparr>"

lemma sameIdempotentEvent_fields:
  assumes "sameIdempotentEvent a b"
  shows "ev_RunID a = ev_RunID b" "ev_Type a = ev_Type b" "ev_Data a = ev_Data b"
    "ev_IdempotencyKey a = ev_IdempotencyKey b" "ev_WorkerID a = ev_WorkerID b"
    "ev_FencingToken a = ev_FencingToken b"
  using assms by (cases a; cases b; simp add: sameIdempotentEvent_def defaultPayloadVersion_def split: if_splits)+

lemma sameIdempotentEvent_stamped [simp]:
  "sameIdempotentEvent ((defaultPayloadVersion ev)\<lparr>ev_Seq := n, ev_CreatedAt := t\<rparr>) ev"
  "sameIdempotentEvent ((defaultPayloadVersion ev)\<lparr>ev_Seq := n\<rparr>) ev"
  by (simp_all add: sameIdempotentEvent_def)

lemma defaultPayloadVersion_fields [simp]:
  "ev_RunID (defaultPayloadVersion ev) = ev_RunID ev"
  "ev_Type (defaultPayloadVersion ev) = ev_Type ev"
  "ev_Data (defaultPayloadVersion ev) = ev_Data ev"
  "ev_IdempotencyKey (defaultPayloadVersion ev) = ev_IdempotencyKey ev"
  "ev_WorkerID (defaultPayloadVersion ev) = ev_WorkerID ev"
  "ev_FencingToken (defaultPayloadVersion ev) = ev_FencingToken ev"
  "ev_Seq (defaultPayloadVersion ev) = ev_Seq ev"
  by (simp_all add: defaultPayloadVersion_def)

lemma defaultPayloadVersion_idem [simp]:
  "defaultPayloadVersion (defaultPayloadVersion ev) = defaultPayloadVersion ev"
  by (simp add: defaultPayloadVersion_def CurrentEventPayloadVersion_def)

section \<open>The contract\<close>

locale event_store =
  fixes h :: hash
    and log :: "'s \<Rightarrow> string \<Rightarrow> Event list"
    and ok :: "'s \<Rightarrow> bool"
    and append :: "'x \<Rightarrow> uint64 \<Rightarrow> Event \<Rightarrow> 's \<Rightarrow> 's \<times> (StoreError + AppendResult)"
  assumes append_ok: "ok s \<Longrightarrow> append x v e s = (s', r) \<Longrightarrow> ok s'"
    and ok_log: "ok s \<Longrightarrow> \<exists>st. Reduce h (log s run) = Inr st"
    and append_log: "ok s \<Longrightarrow> append x v e s = (s', r) \<Longrightarrow>
      log s' = log s \<or>
      (\<exists>e'. log s' = (log s)(ev_RunID e := log s (ev_RunID e) @ [e']) \<and> sameIdempotentEvent e' e
         \<and> v = of_nat (length (log s (ev_RunID e))) \<and> (r = Inr \<lparr>ar_Event = e', ar_Appended = True\<rparr> \<or> (\<exists>err. r = Inl err)))"
    and append_result: "ok s \<Longrightarrow> append x v e s = (s', Inr res) \<Longrightarrow>
      ar_Event res \<in> set (log s' (ev_RunID e)) \<and> sameIdempotentEvent (ar_Event res) e
      \<and> (ar_Appended res \<longleftrightarrow> log s' \<noteq> log s)"
begin

definition requests :: "('x \<times> uint64 \<times> Event) list \<Rightarrow> 's \<Rightarrow> 's" where
  "requests rs s = fold (\<lambda>(x, v, e) s. fst (append x v e s)) rs s"

lemma requests_Cons: "requests ((x, v, e) # rs) s = requests rs (fst (append x v e s))"
  by (simp add: requests_def)

lemma requests_Nil: "requests [] s = s"
  by (simp add: requests_def)

lemma append_prefix: "ok s \<Longrightarrow> append x v e s = (s', r) \<Longrightarrow> prefix (log s run) (log s' run)"
  using append_log by fastforce

lemma requests_ok: "ok s \<Longrightarrow> ok (requests rs s)"
proof (induction rs arbitrary: s)
  case (Cons q rs)
  obtain x v e where q: "q = (x, v, e)" by (cases q)
  with Cons show ?case using append_ok by (metis requests_Cons prod.collapse)
qed (simp add: requests_Nil)

lemma requests_prefix: "ok s \<Longrightarrow> prefix (log s run) (log (requests rs s) run)"
proof (induction rs arbitrary: s)
  case (Cons q rs)
  obtain x v e where q: "q = (x, v, e)" by (cases q)
  obtain s' r where a: "append x v e s = (s', r)" by fastforce
  with Cons have "ok s'" using append_ok by blast
  with Cons.IH have "prefix (log s' run) (log (requests rs s') run)" by blast
  with append_prefix [OF Cons.prems a, of run] show ?case
    by (auto simp: q a requests_Cons intro: prefix_order.trans)
qed (simp add: requests_Nil)

text \<open>An acknowledged append survives whatever is requested later.\<close>

lemma acknowledged_durable:
  assumes "ok s" "append x v e s = (s', Inr res)"
  shows "ar_Event res \<in> set (log (requests rs s') (ev_RunID e))"
  using append_result [OF assms] requests_prefix [OF append_ok [OF assms]]
  by (meson set_mono_prefix subsetD)

text \<open>The keys of every log are pairwise distinct, so a key is appended at most once.\<close>

lemma log_keys_distinct: "ok s \<Longrightarrow> distinct (map ev_IdempotencyKey (log s run))"
  using ok_log accepts_log by (metis Reduce_accepts)

lemma retry_same_event:
  assumes ok: "ok s" and a1: "append x v e s = (s', Inr res)"
    and a2: "append x' v' e (requests rs s') = (s'', Inr res')"
  shows "ar_Event res' = ar_Event res \<and> \<not> ar_Appended res' \<and> log s'' = log (requests rs s')"
proof -
  let ?t = "requests rs s'"
  have okt: "ok ?t" using requests_ok append_ok [OF ok a1] by blast
  have in1: "ar_Event res \<in> set (log ?t (ev_RunID e))" by (rule acknowledged_durable [OF ok a1])
  have k1: "ev_IdempotencyKey (ar_Event res) = ev_IdempotencyKey e"
    using append_result [OF ok a1] sameIdempotentEvent_fields by blast
  have in2: "ar_Event res' \<in> set (log s'' (ev_RunID e))" "sameIdempotentEvent (ar_Event res') e"
    using append_result [OF okt a2] by blast+
  have k2: "ev_IdempotencyKey (ar_Event res') = ev_IdempotencyKey e"
    using in2 sameIdempotentEvent_fields by blast
  have d: "distinct (map ev_IdempotencyKey (log s'' (ev_RunID e)))"
    using log_keys_distinct append_ok [OF okt a2] by blast
  have "ar_Event res \<in> set (log s'' (ev_RunID e))"
    using in1 append_prefix [OF okt a2] by (meson set_mono_prefix subsetD)
  with in2 k1 k2 d have same: "ar_Event res' = ar_Event res"
    by (metis distinct_map inj_onD)
  have "log s'' = log ?t"
  proof (rule ccontr)
    assume "log s'' \<noteq> log ?t"
    with append_log [OF okt a2] obtain e' where
      e': "log s'' = (log ?t)(ev_RunID e := log ?t (ev_RunID e) @ [e'])" "sameIdempotentEvent e' e" by blast
    with d have "ev_IdempotencyKey e' \<notin> ev_IdempotencyKey ` set (log ?t (ev_RunID e))" by simp
    moreover have "ev_IdempotencyKey e' = ev_IdempotencyKey (ar_Event res)"
      using k1 sameIdempotentEvent_fields(4) [OF e'(2)] by simp
    ultimately show False using in1 by auto
  qed
  with append_result [OF okt a2] same show ?thesis by blast
qed

text \<open>A terminal Run never changes again.\<close>

lemma terminal_append_frozen:
  assumes ok: "ok s" and st: "Reduce h (log s run) = Inr st" "Terminal (observed st)"
    and a: "append x v e s = (s', r)"
  shows "log s' run = log s run"
proof (rule ccontr)
  assume "log s' run \<noteq> log s run"
  with append_log [OF ok a] obtain e' where "log s' run = log s run @ [e']" by (metis fun_upd_apply)
  then obtain st' where "accepts h (log s run @ [e']) st'"
    using ok_log [OF append_ok [OF ok a], of run] by (auto simp: Reduce_accepts)
  with accepts_terminal st show False by (auto simp: Reduce_accepts)
qed

lemma terminal_frozen:
  assumes "ok s" "Reduce h (log s run) = Inr st" "Terminal (observed st)"
  shows "log (requests rs s) run = log s run"
  using assms(1,2)
proof (induction rs arbitrary: s)
  case (Cons q rs)
  obtain x v e where q: "q = (x, v, e)" by (cases q)
  obtain s' r where a: "append x v e s = (s', r)" by fastforce
  have "log s' run = log s run" using terminal_append_frozen [OF Cons.prems assms(3) a] .
  with Cons append_ok [OF Cons.prems(1) a] show ?case by (simp add: q a requests_Cons)
qed (simp add: requests_Nil)

text \<open>Of two appends that expect the same version of a Run at most one extends the log.\<close>

lemma same_version_once:
  assumes ok: "ok s" and a1: "append x v e s = (s', r)" and grow: "log s' (ev_RunID e) \<noteq> log s (ev_RunID e)"
    and small: "length (log (requests rs s') (ev_RunID e)) < 2 ^ 64"
    and same: "ev_RunID e' = ev_RunID e" and a2: "append x' v e' (requests rs s') = (s'', r')"
  shows "log s'' (ev_RunID e) = log (requests rs s') (ev_RunID e)"
proof (rule ccontr)
  let ?t = "requests rs s'" and ?n = "\<lambda>s. length (log s (ev_RunID e))"
  assume g: "log s'' (ev_RunID e) \<noteq> log ?t (ev_RunID e)"
  have okt: "ok ?t" using requests_ok append_ok [OF ok a1] by blast
  have v1: "v = of_nat (?n s)" and n1: "?n s' = Suc (?n s)"
    using append_log [OF ok a1] grow by auto
  have v2: "v = of_nat (?n ?t)" using append_log [OF okt a2] g same by auto
  have "?n s' \<le> ?n ?t" using requests_prefix [OF append_ok [OF ok a1], of "ev_RunID e" rs] prefix_length_le by blast
  moreover from this n1 small have "?n s < 2 ^ 64" by linarith
  then have "unat (of_nat (?n s) :: uint64) = ?n s" "unat (of_nat (?n ?t) :: uint64) = ?n ?t"
    using small by (simp_all add: unat_of_nat)
  with v1 v2 have "?n s = ?n ?t" by simp
  ultimately show False using n1 by simp
qed

end

end
