(* ===== verification/Store_Memory.thy ===== *)
theory Store_Memory
  imports Event_Store
begin

text \<open>
  The in-memory event store of \<open>src/internal/store/memory.go\<close>. Every operation holds the store's
  mutex from its first access to the maps to its return, so an operation is one atomic step on
  the pair of maps. \<open>done\<close> says that the context was already cancelled.
\<close>

section \<open>State and operations\<close>

record MemoryEventStore =
  mem_events :: "string \<rightharpoonup> Event list"
  mem_keys :: "string \<rightharpoonup> (string \<rightharpoonup> nat)"

definition NewMemoryEventStore :: MemoryEventStore where
  "NewMemoryEventStore = \<lparr>mem_events = Map.empty, mem_keys = Map.empty\<rparr>"

definition mem_Load :: "bool \<Rightarrow> string \<Rightarrow> MemoryEventStore \<Rightarrow> StoreError + Event list" where
  "mem_Load done runID store =
     (if done then Inl ErrContext
      else case mem_events store runID of None \<Rightarrow> Inl ErrRunNotFound | Some events \<Rightarrow> Inr events)"

definition mem_Rebuild :: "hash \<Rightarrow> bool \<Rightarrow> string \<Rightarrow> MemoryEventStore \<Rightarrow> StoreError + State" where
  "mem_Rebuild h done runID store =
     bindE (mem_Load done runID store) (\<lambda>events. mapErr ErrDomain (Reduce h events))"

text \<open>Indexing a Go map of maps: a missing outer map reads as an empty one.\<close>

definition mem_keyIndex :: "MemoryEventStore \<Rightarrow> string \<Rightarrow> string \<Rightarrow> nat option" where
  "mem_keyIndex store runID key =
     (case mem_keys store runID of None \<Rightarrow> None | Some m \<Rightarrow> m key)"

definition mem_log :: "MemoryEventStore \<Rightarrow> string \<Rightarrow> Event list" where
  "mem_log store runID = (case mem_events store runID of None \<Rightarrow> [] | Some es \<Rightarrow> es)"

text \<open>Making a validated candidate log visible and indexing its last event.\<close>

definition mem_publish :: "Event \<Rightarrow> Event list \<Rightarrow> MemoryEventStore \<Rightarrow> MemoryEventStore" where
  "mem_publish event candidate store = store\<lparr>
     mem_events := (mem_events store)(ev_RunID event \<mapsto> candidate),
     mem_keys := (mem_keys store)(ev_RunID event \<mapsto>
       (case mem_keys store (ev_RunID event) of None \<Rightarrow> Map.empty | Some m \<Rightarrow> m)
         (ev_IdempotencyKey event \<mapsto> length candidate - 1))\<rparr>"

definition mem_Append :: "hash \<Rightarrow> parsers \<Rightarrow> bool \<Rightarrow> uint64 \<Rightarrow> Event \<Rightarrow> MemoryEventStore \<Rightarrow>
    MemoryEventStore \<times> (StoreError + AppendResult)" where
  "mem_Append h P done expectedVersion request store =
     (if done then (store, Inl ErrContext)
      else case validateAppendInput P request of Inl e \<Rightarrow> (store, Inl e) | Inr _ \<Rightarrow>
        (let event = defaultPayloadVersion request; current = mem_log store (ev_RunID event) in
         case mem_keyIndex store (ev_RunID event) (ev_IdempotencyKey event) of
           Some index \<Rightarrow>
             (let existing = current ! index in
              if \<not> sameIdempotentEvent existing event then (store, Inl ErrIdempotencyConflict)
              else (store, Inr \<lparr>ar_Event = existing, ar_Appended = False\<rparr>))
         | None \<Rightarrow>
             if of_nat (length current) \<noteq> expectedVersion
             then (store, Inl (ErrVersionConflict \<lparr>vce_RunID = ev_RunID event,
                     vce_Expected = expectedVersion, vce_Actual = of_nat (length current)\<rparr>))
             else
               (let event = event\<lparr>ev_Seq := of_nat (length current + 1)\<rparr>;
                    candidate = current @ [event] in
                case Reduce h candidate of Inl e \<Rightarrow> (store, Inl (ErrDomain e)) | Inr _ \<Rightarrow>
                  (mem_publish event candidate store,
                   Inr \<lparr>ar_Event = event, ar_Appended = True\<rparr>))))"

section \<open>Invariant\<close>

text \<open>
  Every stored log is non-empty and reducible, holds events of its own Run only, and the key index
  lists exactly the positions of its events.
\<close>

definition mem_inv :: "hash \<Rightarrow> MemoryEventStore \<Rightarrow> bool" where
  "mem_inv h store \<longleftrightarrow>
     (\<forall>run. mem_events store run \<noteq> Some [])
     \<and> (\<forall>run. (\<exists>st. Reduce h (mem_log store run) = Inr st) \<and> (\<forall>ev\<in>set (mem_log store run). ev_RunID ev = run))
     \<and> (\<forall>run k i. mem_keyIndex store run k = Some i \<longleftrightarrow>
           i < length (mem_log store run) \<and> ev_IdempotencyKey (mem_log store run ! i) = k)"

lemma mem_inv_new: "mem_inv h NewMemoryEventStore"
  by (simp add: mem_inv_def NewMemoryEventStore_def mem_log_def mem_keyIndex_def)

text \<open>The two outcomes of an append: nothing changed, or one event was added.\<close>

definition mem_added :: "hash \<Rightarrow> uint64 \<Rightarrow> Event \<Rightarrow> MemoryEventStore \<Rightarrow> Event \<Rightarrow> bool" where
  "mem_added h v request store event \<longleftrightarrow>
     event = (defaultPayloadVersion request)\<lparr>ev_Seq := of_nat (length (mem_log store (ev_RunID request)) + 1)\<rparr>
     \<and> v = of_nat (length (mem_log store (ev_RunID request)))
     \<and> mem_keyIndex store (ev_RunID request) (ev_IdempotencyKey request) = None
     \<and> (\<exists>st. Reduce h (mem_log store (ev_RunID request) @ [event]) = Inr st)"

lemma mem_publish_simps:
  "mem_log (mem_publish event candidate s) = (mem_log s)(ev_RunID event := candidate)"
  "mem_keyIndex (mem_publish event candidate s) = (mem_keyIndex s)(ev_RunID event :=
     (mem_keyIndex s (ev_RunID event))(ev_IdempotencyKey event \<mapsto> length candidate - 1))"
  "mem_events (mem_publish event candidate s) = (mem_events s)(ev_RunID event \<mapsto> candidate)"
  by (auto simp: mem_publish_def mem_log_def mem_keyIndex_def fun_eq_iff split: option.splits)

abbreviation mem_stamp :: "MemoryEventStore \<Rightarrow> Event \<Rightarrow> Event" where
  "mem_stamp s e \<equiv> (defaultPayloadVersion e)\<lparr>ev_Seq := of_nat (length (mem_log s (ev_RunID e)) + 1)\<rparr>"

lemma mem_Append_shape:
  assumes "mem_Append h P done v e s = (s', r)"
  shows "s' = s \<and> (\<forall>res. r = Inr res \<longrightarrow> \<not> ar_Appended res)
    \<or> mem_added h v e s (mem_stamp s e) \<and> r = Inr \<lparr>ar_Event = mem_stamp s e, ar_Appended = True\<rparr>
      \<and> s' = mem_publish (mem_stamp s e) (mem_log s (ev_RunID e) @ [mem_stamp s e]) s"
  using assms unfolding mem_Append_def Let_def mem_added_def
  by (simp split: if_split_asm sum.split_asm option.split_asm) fastforce+

lemma mem_Append_cases:
  assumes "mem_Append h P done v e s = (s', r)"
  obtains (unchanged) "s' = s" "\<forall>res. r = Inr res \<longrightarrow> \<not> ar_Appended res"
  | (added) event where "mem_added h v e s event" "r = Inr \<lparr>ar_Event = event, ar_Appended = True\<rparr>"
      "s' = mem_publish event (mem_log s (ev_RunID e) @ [event]) s"
  using mem_Append_shape [OF assms] by blast

lemma mem_keyIndex_iff:
  "mem_inv h s \<Longrightarrow> mem_keyIndex s run k = Some i \<longleftrightarrow>
     i < length (mem_log s run) \<and> ev_IdempotencyKey (mem_log s run ! i) = k"
  by (simp add: mem_inv_def)

lemma mem_added_fields:
  assumes "mem_added h v e s event"
  shows "ev_RunID event = ev_RunID e" "ev_IdempotencyKey event = ev_IdempotencyKey e"
    "sameIdempotentEvent event e"
  using assms by (simp_all add: mem_added_def)

lemma mem_Append_replay:
  assumes "mem_Append h P done v e s = (s', Inr res)" "\<not> ar_Appended res"
  obtains i where "s' = s" "mem_keyIndex s (ev_RunID e) (ev_IdempotencyKey e) = Some i"
    "ar_Event res = mem_log s (ev_RunID e) ! i" "sameIdempotentEvent (ar_Event res) (defaultPayloadVersion e)"
  using assms by (auto simp: mem_Append_def Let_def split: if_splits sum.splits option.splits)


lemma mem_inv_publish:
  assumes inv: "mem_inv h s" and add: "mem_added h v e s event"
  shows "mem_inv h (mem_publish event (mem_log s (ev_RunID e) @ [event]) s)"
proof -
  note [simp] = mem_publish_simps mem_added_fields [OF add]
  obtain st where "Reduce h (mem_log s (ev_RunID e) @ [event]) = Inr st"
    using add by (auto simp: mem_added_def)
  moreover have "mem_keyIndex s (ev_RunID e) (ev_IdempotencyKey e) = None"
    using add by (simp add: mem_added_def)
  then have "\<forall>i<length (mem_log s (ev_RunID e)). ev_IdempotencyKey (mem_log s (ev_RunID e) ! i) \<noteq> ev_IdempotencyKey e"
    using mem_keyIndex_iff [OF inv] by (metis option.distinct(1))
  ultimately show ?thesis
    using inv by (auto simp: mem_inv_def nth_append less_Suc_eq)
qed

section \<open>The in-memory store is an event store\<close>

interpretation mem: event_store h mem_log "mem_inv h" "mem_Append h P"
  for h P
proof
  fix s x v e s' r
  assume inv: "mem_inv h s" and app: "mem_Append h P x v e s = (s', r)"
  show "mem_inv h s'" using app
    by (cases rule: mem_Append_cases) (simp_all add: inv mem_inv_publish)
  show "mem_log s' = mem_log s \<or>
      (\<exists>e'. mem_log s' = (mem_log s)(ev_RunID e := mem_log s (ev_RunID e) @ [e']) \<and> sameIdempotentEvent e' e
         \<and> v = of_nat (length (mem_log s (ev_RunID e))) \<and> (r = Inr \<lparr>ar_Event = e', ar_Appended = True\<rparr> \<or> (\<exists>err. r = Inl err)))"
    using app
  proof (cases rule: mem_Append_cases)
    case (added event)
    with mem_added_fields [OF added(1)] show ?thesis
      by (auto simp: mem_publish_simps mem_added_def intro!: disjI2 exI [of _ event])
  qed simp
next
  fix s x v e s' res
  assume inv: "mem_inv h s" and app: "mem_Append h P x v e s = (s', Inr res)"
  show "ar_Event res \<in> set (mem_log s' (ev_RunID e)) \<and> sameIdempotentEvent (ar_Event res) e
      \<and> (ar_Appended res \<longleftrightarrow> mem_log s' \<noteq> mem_log s)"
    using app
  proof (cases rule: mem_Append_cases)
    case unchanged
    then have na: "\<not> ar_Appended res" by simp
    with app show ?thesis
      by (rule mem_Append_replay)
         (use na mem_keyIndex_iff [OF inv] in \<open>auto simp: sameIdempotentEvent_def\<close>)
  next
    case (added event)
    then show ?thesis
      using mem_added_fields [OF added(1)] by (auto simp: mem_publish_simps fun_eq_iff)
  qed
qed (simp add: mem_inv_def)


section \<open>Properties of the in-memory store\<close>

text \<open>A client session: a sequence of append requests, whatever their outcome.\<close>

definition mem_session :: "hash \<Rightarrow> parsers \<Rightarrow> (bool \<times> uint64 \<times> Event) list \<Rightarrow> MemoryEventStore \<Rightarrow> MemoryEventStore" where
  "mem_session h P rs s = fold (\<lambda>(x, v, e) s. fst (mem_Append h P x v e s)) rs s"

lemma mem_session_requests: "mem_session h P = mem.requests h P"
  by (simp add: fun_eq_iff mem_session_def mem.requests_def)

lemma mem_session_inv: "mem_inv h s \<Longrightarrow> mem_inv h (mem_session h P rs s)"
  by (simp add: mem_session_requests mem.requests_ok)

text \<open>
  The contract of \<open>MemoryEventStore.Append\<close> on every branch, in any state reachable by
  appends from an empty store. A failed append changes nothing. A replay (not appended) changes
  nothing and returns the stored event of that key, equal to the request up to sequence number and
  timestamp. A physical append happens only at the expected version, extends the log of that Run by
  the request with the next sequence number, touches no other Run, and leaves a log that
  \<open>Rebuild\<close> reduces.
\<close>

theorem mem_Append_contract:
  assumes s: "s = mem_session h P rs NewMemoryEventStore"
    and a: "mem_Append h P done v e s = (s', r)"
  shows "(case r of
      Inl _ \<Rightarrow> s' = s
    | Inr res \<Rightarrow>
        sameIdempotentEvent (ar_Event res) e \<and> ar_Event res \<in> set (mem_log s' (ev_RunID e)) \<and>
        (if ar_Appended res
         then v = of_nat (length (mem_log s (ev_RunID e)))
           \<and> ev_Seq (ar_Event res) = v + 1
           \<and> mem_log s' = (mem_log s)(ev_RunID e := mem_log s (ev_RunID e) @ [ar_Event res])
           \<and> (\<exists>st. mem_Rebuild h False (ev_RunID e) s' = Inr st)
         else s' = s))"
proof -
  have inv: "mem_inv h s" unfolding s by (rule mem_session_inv [OF mem_inv_new])
  from a show ?thesis
  proof (cases rule: mem_Append_cases)
    case unchanged
    with mem.append_result [OF inv] a show ?thesis by (cases r) auto
  next
    case (added event)
    then obtain st where st: "Reduce h (mem_log s (ev_RunID e) @ [event]) = Inr st"
      by (auto simp: mem_added_def)
    have "mem_Rebuild h False (ev_RunID e) s' = Inr st"
      using st mem_added_fields [OF added(1)]
      by (simp add: mem_Rebuild_def mem_Load_def added(3) mem_publish_simps)
    with added mem_added_fields [OF added(1)] show ?thesis
      by (auto simp: mem_publish_simps mem_added_def)
  qed
qed

theorem mem_Append_contract_witness:
  "mem_log (fst (mem_Append (\<lambda>s. s) sampleParsers False 0 sampleAppend NewMemoryEventStore)) ''run-1''
     = [sampleAppend\<lparr>ev_Seq := 1, ev_PayloadVersion := 1\<rparr>]"
proof -
  let ?a = "mem_Append (\<lambda>s. s) sampleParsers False 0 sampleAppend NewMemoryEventStore"
  have "snd ?a = Inr \<lparr>ar_Event = sampleAppend\<lparr>ev_Seq := 1, ev_PayloadVersion := 1\<rparr>, ar_Appended = True\<rparr>"
    by code_simp
  then have a: "?a = (fst ?a, Inr \<lparr>ar_Event = sampleAppend\<lparr>ev_Seq := 1, ev_PayloadVersion := 1\<rparr>, ar_Appended = True\<rparr>)"
    by (simp add: prod_eq_iff)
  have n: "NewMemoryEventStore = mem_session (\<lambda>s. s) sampleParsers [] NewMemoryEventStore"
    by (simp add: mem_session_def)
  have "mem_log (fst ?a) = (mem_log NewMemoryEventStore)(ev_RunID sampleAppend :=
      mem_log NewMemoryEventStore (ev_RunID sampleAppend) @ [sampleAppend\<lparr>ev_Seq := 1, ev_PayloadVersion := 1\<rparr>])"
    using mem_Append_contract [OF n a] by simp
  then show ?thesis by (simp add: sampleAppend_def mem_log_def NewMemoryEventStore_def)
qed

text \<open>
  Retrying is safe. Once an append was acknowledged, repeating the same request later, after
  any other requests and with any expected version, never adds a second event: if it is
  acknowledged again, it returns the very event of the first time, not appended.
\<close>

theorem mem_Append_retry:
  assumes "s = mem_session h P rs NewMemoryEventStore"
    and "mem_Append h P x v e s = (s1, Inr res)"
    and "mem_Append h P x' v' e (mem_session h P rs' s1) = (s2, Inr res')"
  shows "ar_Event res' = ar_Event res \<and> \<not> ar_Appended res' \<and> mem_log s2 = mem_log (mem_session h P rs' s1)"
  using mem.retry_same_event [of h s P x v e s1 res x' v' rs' s2 res'] assms mem_session_inv [OF mem_inv_new]
  by (simp add: mem_session_requests)

theorem mem_Append_retry_witness:
  "let a = mem_Append (\<lambda>s. s) sampleParsers False 0 sampleAppend NewMemoryEventStore;
       b = mem_Append (\<lambda>s. s) sampleParsers False 7 sampleAppend (fst a)
   in mem_log (fst b) = mem_log (fst a)"
proof -
  let ?a = "mem_Append (\<lambda>s. s) sampleParsers False 0 sampleAppend NewMemoryEventStore"
  let ?b = "mem_Append (\<lambda>s. s) sampleParsers False 7 sampleAppend (fst ?a)"
  let ?e = "sampleAppend\<lparr>ev_Seq := 1, ev_PayloadVersion := 1\<rparr>"
  have "snd ?a = Inr \<lparr>ar_Event = ?e, ar_Appended = True\<rparr>" "snd ?b = Inr \<lparr>ar_Event = ?e, ar_Appended = False\<rparr>"
    by code_simp+
  then have "?a = (fst ?a, Inr \<lparr>ar_Event = ?e, ar_Appended = True\<rparr>)"
    "mem_Append (\<lambda>s. s) sampleParsers False 7 sampleAppend (mem_session (\<lambda>s. s) sampleParsers [] (fst ?a))
       = (fst ?b, Inr \<lparr>ar_Event = ?e, ar_Appended = False\<rparr>)"
    by (simp_all add: prod_eq_iff mem_session_def)
  from mem_Append_retry [OF _ this, of "[]"] show ?thesis by (simp add: mem_session_def Let_def)
qed

end
