(* ===== verification/Domain_Receipt.thy ===== *)
theory Domain_Receipt
  imports Event_Store
begin

text \<open>
  The receipt evidence contract of \<open>src/internal/domain/receipt.go\<close>, and the record of what the
  persistent components take from outside the repository. \<open>env\<close> bundles SHA-256, the encodings of
  \<open>encoding/json\<close> with the jsonb columns that hold them, the time format and PostgreSQL's interval
  arithmetic; no property depends on more of it than the named conditions say.
\<close>

section \<open>The environment\<close>

text \<open>
  \<open>env_json\<close>, \<open>env_stateJson\<close> and \<open>env_eventsJson\<close> are \<open>json.Marshal\<close> on a payload, a
  State and an event sequence. \<open>env_jsonb d\<close> is the payload one reads back from a jsonb column
  into which the encoding of \<open>d\<close> was written, \<open>None\<close> when the database refuses it (jsonb has
  no NUL character); \<open>env_stateJsonb\<close> is the same for a State. \<open>env_time\<close> formats a time
  (microseconds) as RFC 3339. \<open>env_interval\<close> is \<open>make_interval(secs => ttl.Seconds())\<close> in
  microseconds for a \<open>time.Duration\<close> in nanoseconds.
\<close>

record env =
  env_hash :: hash
  env_parsers :: parsers
  env_json :: "EventData \<Rightarrow> string"
  env_jsonb :: "EventData \<Rightarrow> EventData option"
  env_stateJson :: "State \<Rightarrow> string"
  env_stateJsonb :: "State \<Rightarrow> State option"
  env_eventsJson :: "Event list \<Rightarrow> string"
  env_time :: "int \<Rightarrow> string"
  env_interval :: "int \<Rightarrow> int"

text \<open>
  What the stores rely on: a payload (of valid UTF-8 strings) that a jsonb column accepts comes back
  unchanged, and adding a positive duration to a time gives a later time.
\<close>

definition lossless_jsonb :: "env \<Rightarrow> bool" where
  "lossless_jsonb E \<longleftrightarrow> (\<forall>d d'. env_jsonb E d = Some d' \<longrightarrow> d' = d)"

definition positive_interval :: "env \<Rightarrow> bool" where
  "positive_interval E \<longleftrightarrow> (\<forall>ttl > 0. env_interval E ttl \<ge> 0)"

section \<open>Receipt evidence\<close>

definition Phase3ReceiptArtifactType :: string where
  "Phase3ReceiptArtifactType = ''phase-3-action-receipt''"

definition is_hex :: "char \<Rightarrow> bool" where
  "is_hex c \<longleftrightarrow> is_digit c \<or> char_between CHR ''a'' CHR ''f'' c"

text \<open>The pattern \<open>^sha256:[0-9a-f]{64}$\<close>.\<close>

definition sha256DigestPattern :: "string \<Rightarrow> bool" where
  "sha256DigestPattern s \<longleftrightarrow>
     has_prefix s ''sha256:'' \<and> length s = 71 \<and> list_all is_hex (drop 7 s)"

definition DigestEventData :: "env \<Rightarrow> EventData \<Rightarrow> string" where
  "DigestEventData E d = ''sha256:'' @ env_hash E (env_json E d)"

definition ExpectedActionArtifactID :: "string \<Rightarrow> string" where
  "ExpectedActionArtifactID actionID = ''action-'' @ actionID"

definition ValidateManagedReceiptEvidence ::
    "env \<Rightarrow> CommandType \<Rightarrow> string \<Rightarrow> string \<Rightarrow> EventData \<Rightarrow> string \<Rightarrow> string \<Rightarrow> string \<Rightarrow> DomainError + unit" where
  "ValidateManagedReceiptEvidence E actionType actionID plannedAttemptID output
       outputDigest artifactID artifactDigest =
     bindE (ValidateManagedActionOutput actionType plannedAttemptID output) (\<lambda>_.
       if outputDigest = '''' \<or> outputDigest \<noteq> DigestEventData E output then Inl ErrInvalidEvent
       else if actionType = CommandApplyPatch then
         (if artifactID = '''' \<or> artifactID \<noteq> ExpectedActionArtifactID actionID then Inl ErrInvalidEvent
          else if \<not> sha256DigestPattern artifactDigest then Inl ErrInvalidEvent
          else Inr ())
       else if artifactID \<noteq> '''' \<or> artifactDigest \<noteq> '''' then Inl ErrInvalidEvent
       else Inr ())"

lemma ValidateManagedReceiptEvidence_iff [result_simps]:
  "ValidateManagedReceiptEvidence E t a att out od ai ad = Inr u \<longleftrightarrow>
     ValidateManagedActionOutput t att out = Inr () \<and> od = DigestEventData E out
     \<and> (if t = CommandApplyPatch then ai = ''action-'' @ a \<and> sha256DigestPattern ad
        else ai = '''' \<and> ad = '''')"
  by (auto simp: ValidateManagedReceiptEvidence_def result_simps DigestEventData_def ExpectedActionArtifactID_def)

end
