(* ===== verification/Pg_Database.thy ===== *)
theory Pg_Database
  imports Domain_Receipt
begin

text \<open>
  The PostgreSQL schema of \<open>src/migrations\<close> as far as the program reads and writes it, with the
  directory of Artifact bytes next to it, and transactions. Tables with a text primary key are maps;
  \<open>events\<close>, \<open>attempts\<close> and \<open>action_receipts\<close>, which have further keys or are read in an
  order, are lists of rows. A primary
  key, unique, check or foreign-key constraint that a statement can violate is a test in the
  statement; its violation is \<open>ErrDatabase\<close>. Times are microseconds; a bigint column is an \<open>int\<close>.

  A transaction runs as one atomic step. That is the isolation the code establishes by its locks: an
  append holds the Run row \<open>FOR UPDATE\<close>, the lease row \<open>FOR SHARE\<close> and, like a lease
  acquisition, the advisory lock of the Run until it ends; reads that must agree use one
  repeatable-read snapshot. The moments at which a transaction reads the clock are arguments, since
  waiting for a lock may let time pass between them.
\<close>

section \<open>Rows\<close>

record CheckpointRow =
  cp_seq :: int
  cp_state :: "State option"
  cp_state_digest :: string
  cp_event_digest :: string
  cp_created_at :: int

record RunRow =
  rr_scenario_id :: string
  rr_spec_hash :: string
  rr_desired_state :: DesiredState
  rr_observed_state :: Status
  rr_current_attempt :: int
  rr_version :: int
  rr_created_at :: int
  rr_updated_at :: int
  rr_checkpoint :: "CheckpointRow option"

record EventRow =
  er_run_id :: string
  er_seq :: int
  er_event_type :: EventType
  er_payload_version :: int
  er_payload :: EventData
  er_idempotency_key :: string
  er_causation_id :: "string option"
  er_correlation_id :: "string option"
  er_worker_id :: "string option"
  er_fencing_token :: "int option"
  er_created_at :: int

record AttemptRow =
  at_attempt_id :: string
  at_run_id :: string
  at_number :: int
  at_reason :: "string option"
  at_started_at :: int

record ArtifactRow =
  af_run_id :: string
  af_attempt_id :: "string option"
  af_artifact_type :: string
  af_digest :: string
  af_path :: string
  af_size :: int
  af_created_at :: int

record LeaseRow =
  lr_worker_id :: string
  lr_fencing_token :: int
  lr_expires_at :: int
  lr_heartbeat_at :: int

record WorkerRow =
  wr_registered_at :: int
  wr_heartbeat_at :: int

record ReceiptRow =
  rc_receipt_id :: string
  rc_run_id :: string
  rc_action_id :: string
  rc_action_type :: CommandType
  rc_idempotency_scope :: IdempotencyScope
  rc_output :: EventData
  rc_output_digest :: "string option"
  rc_artifact_id :: "string option"
  rc_artifact_digest :: "string option"
  rc_cost_units :: int
  rc_worker_id :: string
  rc_fencing_token :: int
  rc_created_at :: int

text \<open>The durable state: the tables, and the Artifact directory as a map from paths to bytes.\<close>

record Storage =
  sg_runs :: "string \<rightharpoonup> RunRow"
  sg_events :: "EventRow list"
  sg_attempts :: "AttemptRow list"
  sg_artifacts :: "string \<rightharpoonup> ArtifactRow"
  sg_leases :: "string \<rightharpoonup> LeaseRow"
  sg_workers :: "string \<rightharpoonup> WorkerRow"
  sg_receipts :: "ReceiptRow list"
  sg_files :: "string \<rightharpoonup> string"

definition emptyStorage :: Storage where
  "emptyStorage = \<lparr>sg_runs = Map.empty, sg_events = [], sg_attempts = [],
     sg_artifacts = Map.empty, sg_leases = Map.empty, sg_workers = Map.empty, sg_receipts = [],
     sg_files = Map.empty\<rparr>"

section \<open>Transactions\<close>

text \<open>
  \<open>PgFail\<close>: some statement, the begin or the commit failed before the transaction took effect.
  \<open>PgCommitLost\<close>: the commit took effect but its acknowledgement did not arrive. A body returns
  its result with the new state to commit, or with \<open>None\<close> when it returns without committing.
\<close>

datatype PgFault = PgOk | PgFail | PgCommitLost

definition pg_transact :: "'e \<Rightarrow> PgFault \<Rightarrow> Storage \<Rightarrow> ('e + Storage option \<times> 'r) \<Rightarrow> Storage \<times> ('e + 'r)" where
  "pg_transact dbErr fault s body =
     (if fault = PgFail then (s, Inl dbErr)
      else case body of
          Inl e \<Rightarrow> (s, Inl e)
        | Inr (None, r) \<Rightarrow> (s, Inr r)
        | Inr (Some s', r) \<Rightarrow> (s', if fault = PgCommitLost then Inl dbErr else Inr r))"

text \<open>A read-only query has no state to lose.\<close>

definition pg_read :: "'e \<Rightarrow> PgFault \<Rightarrow> ('e + 'r) \<Rightarrow> 'e + 'r" where
  "pg_read dbErr fault body = (if fault \<noteq> PgOk then Inl dbErr else body)"

lemma pg_transact_cases:
  assumes "pg_transact dbErr fault s body = (s', r)"
  obtains (error) e where "s' = s" "r = Inl e"
  | (no_commit) x where "body = Inr (None, x)" "s' = s" "r = Inr x"
  | (committed) x where "body = Inr (Some s', x)" "r = Inr x \<or> r = Inl dbErr" "fault = PgOk \<longrightarrow> r = Inr x"
  using assms
  by (cases fault; cases body; auto simp: pg_transact_def split: sum.splits option.splits prod.splits)

section \<open>Statements on the events table\<close>

definition nullableText :: "string \<Rightarrow> string option" where
  "nullableText value = (if value = '''' then None else Some value)"

definition nullableUint64 :: "uint64 \<Rightarrow> int option" where
  "nullableUint64 value = (if value = 0 then None else Some (sint value))"

definition dereferenceText :: "string option \<Rightarrow> string" where
  "dereferenceText value = (case value of None \<Rightarrow> '''' | Some s \<Rightarrow> s)"

lemma dereference_nullable [simp]: "dereferenceText (nullableText s) = s"
  by (simp add: dereferenceText_def nullableText_def)

definition scanPostgresEvent :: "env \<Rightarrow> EventRow \<Rightarrow> Event" where
  "scanPostgresEvent E row = \<lparr>
     ev_RunID = er_run_id row, ev_Seq = word_of_int (er_seq row), ev_Type = er_event_type row,
     ev_PayloadVersion = word_of_int (er_payload_version row), ev_Data = er_payload row,
     ev_IdempotencyKey = er_idempotency_key row,
     ev_CausationID = dereferenceText (er_causation_id row),
     ev_CorrelationID = dereferenceText (er_correlation_id row),
     ev_WorkerID = dereferenceText (er_worker_id row),
     ev_FencingToken = (case er_fencing_token row of None \<Rightarrow> 0 | Some n \<Rightarrow> word_of_int n),
     ev_CreatedAt = env_time E (er_created_at row)\<rparr>"

definition run_rows :: "Storage \<Rightarrow> string \<Rightarrow> EventRow list" where
  "run_rows s runID = sort_key er_seq (filter (\<lambda>row. er_run_id row = runID) (sg_events s))"

definition loadPostgresEvents :: "env \<Rightarrow> Storage \<Rightarrow> string \<Rightarrow> Event list" where
  "loadPostgresEvents E s runID = map (scanPostgresEvent E) (run_rows s runID)"

definition loadEventByIdempotencyKey :: "env \<Rightarrow> Storage \<Rightarrow> string \<Rightarrow> string \<Rightarrow> Event option" where
  "loadEventByIdempotencyKey E s runID key =
     map_option (scanPostgresEvent E)
       (find (\<lambda>row. er_run_id row = runID \<and> er_idempotency_key row = key) (sg_events s))"

end
