(* ===== verification/Store_Artifact.thy ===== *)
theory Store_Artifact
  imports Pg_Database
begin

text \<open>
  The Artifact store of \<open>src/internal/store/artifact.go\<close>: bytes are published under a
  content-addressed name first and registered in the \<open>artifacts\<close> table only afterwards, and
  verification re-hashes the published bytes. Temporary files live under names of their own and are
  removed on every error path, so they are not part of the directory's map.
\<close>

section \<open>Paths\<close>

text \<open>\<open>filepath.Clean\<close> and \<open>filepath.Rel\<close> on Unix paths, by components.\<close>

fun split_slash :: "string \<Rightarrow> string \<Rightarrow> string list" where
  "split_slash acc [] = [rev acc]"
| "split_slash acc (c # s) =
     (if c = CHR ''/'' then rev acc # split_slash [] s else split_slash (c # acc) s)"

text \<open>The components of a rooted path, with \<open>.\<close>, \<open>..\<close> and empty components resolved.\<close>

fun resolve :: "string list \<Rightarrow> string list \<Rightarrow> string list" where
  "resolve done [] = rev done"
| "resolve done (c # cs) =
     (if c = '''' \<or> c = ''.'' then resolve done cs
      else if c = ''..'' then resolve (tl done) cs
      else resolve (c # done) cs)"

definition components :: "string \<Rightarrow> string list" where
  "components path = resolve [] (split_slash [] path)"

definition IsAbs :: "string \<Rightarrow> bool" where
  "IsAbs path = has_prefix path ''/''"

fun join_slash :: "string list \<Rightarrow> string" where
  "join_slash [] = ''''"
| "join_slash [c] = c"
| "join_slash (c # cs) = c @ ''/'' @ join_slash cs"

definition rooted :: "string list \<Rightarrow> string" where
  "rooted cs = ''/'' @ join_slash cs"

fun strip_common :: "string list \<Rightarrow> string list \<Rightarrow> string list \<times> string list" where
  "strip_common (a # as) (b # bs) = (if a = b then strip_common as bs else (a # as, b # bs))"
| "strip_common as bs = (as, bs)"

text \<open>\<open>filepath.Rel\<close> from a rooted base; a relative target cannot be made relative to it.\<close>

definition Rel :: "string \<Rightarrow> string \<Rightarrow> string option" where
  "Rel base target =
     (if \<not> IsAbs target then None
      else case strip_common (components base) (components target) of (up, down) \<Rightarrow>
        (let cs = replicate (length up) ''..'' @ down in
         Some (if cs = [] then ''.'' else join_slash cs)))"

section \<open>Records and operations\<close>

record ArtifactInput =
  ai_ID :: string
  ai_RunID :: string
  ai_AttemptID :: string
  ai_Type :: string
  ai_Content :: "string option"

record ArtifactRecord =
  ar_ID :: string
  ar_RunID :: string
  ar_AttemptID :: string
  ar_Type :: string
  ar_Digest :: string
  ar_Path :: string
  ar_Size :: int
  ar_CreatedAt :: string

definition artifactChar :: "char \<Rightarrow> bool" where
  "artifactChar c \<longleftrightarrow> is_lower c \<or> is_upper c \<or> is_digit c \<or> c \<in> {CHR ''-'', CHR ''_'', CHR ''.''}"

definition validArtifactIdentifier :: "string \<Rightarrow> bool" where
  "validArtifactIdentifier value \<longleftrightarrow>
     value \<noteq> '''' \<and> value \<noteq> ''.'' \<and> value \<noteq> ''..'' \<and> \<not> contains value ''..'' \<and> list_all artifactChar value"

definition scanArtifact :: "env \<Rightarrow> string \<Rightarrow> ArtifactRow \<Rightarrow> ArtifactRecord" where
  "scanArtifact E artifactID row = \<lparr>
     ar_ID = artifactID, ar_RunID = af_run_id row, ar_AttemptID = dereferenceText (af_attempt_id row),
     ar_Type = af_artifact_type row, ar_Digest = af_digest row, ar_Path = af_path row,
     ar_Size = af_size row, ar_CreatedAt = env_time E (af_created_at row)\<rparr>"

definition art_Get :: "env \<Rightarrow> PgFault \<Rightarrow> string \<Rightarrow> Storage \<Rightarrow> StoreError + ArtifactRecord" where
  "art_Get E fault artifactID s =
     pg_read ErrDatabase fault
       (case sg_artifacts s artifactID of
          None \<Rightarrow> Inl ErrArtifactNotFound
        | Some row \<Rightarrow> Inr (scanArtifact E artifactID row))"

definition verifyArtifactRecordBytes :: "env \<Rightarrow> Storage \<Rightarrow> ArtifactRecord \<Rightarrow> StoreError + unit" where
  "verifyArtifactRecordBytes E s rec =
     (case sg_files s (ar_Path rec) of
        None \<Rightarrow> Inl ErrArtifactIntegrity
      | Some bytes \<Rightarrow>
          if ''sha256:'' @ env_hash E bytes \<noteq> ar_Digest rec \<or> int (length bytes) \<noteq> ar_Size rec
          then Inl ErrArtifactIntegrity else Inr ())"

definition outsideRoot :: "string option \<Rightarrow> bool" where
  "outsideRoot relative =
     (case relative of
        None \<Rightarrow> True
      | Some path \<Rightarrow> path = ''.'' \<or> path = ''..'' \<or> IsAbs path \<or> has_prefix path ''../'')"

definition art_Verify :: "env \<Rightarrow> bool \<Rightarrow> PgFault \<Rightarrow> string \<Rightarrow> string \<Rightarrow> Storage \<Rightarrow> StoreError + ArtifactRecord" where
  "art_Verify E done fault root artifactID s =
     (if done then Inl ErrContext
      else bindE (art_Get E fault artifactID s) (\<lambda>rec.
        if outsideRoot (Rel root (ar_Path rec)) then Inl ErrArtifactIntegrity
        else bindE (verifyArtifactRecordBytes E s rec) (\<lambda>_. Inr rec)))"

text \<open>
  The insertion of \<open>Write\<close>. The statement is its own transaction. \<open>None\<close> is the answer
  \<open>pgx.ErrNoRows\<close> of \<open>ON CONFLICT DO NOTHING RETURNING\<close> when the id is taken.
\<close>

definition attempt_fk :: "Storage \<Rightarrow> string \<Rightarrow> string option \<Rightarrow> bool" where
  "attempt_fk s runID attempt =
     (case attempt of None \<Rightarrow> True
      | Some a \<Rightarrow> (\<exists>row\<in>set (sg_attempts s). at_attempt_id row = a \<and> at_run_id row = runID))"

definition insertArtifact :: "string \<Rightarrow> ArtifactRow \<Rightarrow> Storage \<Rightarrow> StoreError + Storage option \<times> int option" where
  "insertArtifact artifactID row s =
     (if \<not> sha256DigestPattern (af_digest row) then Inl ErrDatabase
      else if sg_artifacts s artifactID \<noteq> None then Inr (None, None)
      else if sg_runs s (af_run_id row) = None \<or> \<not> attempt_fk s (af_run_id row) (af_attempt_id row)
        then Inl ErrDatabase
      else Inr (Some (s\<lparr>sg_artifacts := (sg_artifacts s)(artifactID \<mapsto> row)\<rparr>), Some (af_created_at row)))"

record WriteChoices =
  wc_done :: bool
  wc_fileError :: bool
  wc_insert :: PgFault
  wc_load :: PgFault
  wc_now :: int

definition art_finalPath :: "env \<Rightarrow> string \<Rightarrow> string \<Rightarrow> string \<Rightarrow> string" where
  "art_finalPath E root artifactID content =
     rooted (components (root @ ''/'' @ artifactID @ ''-'' @ env_hash E content))"

definition art_row :: "env \<Rightarrow> string \<Rightarrow> ArtifactInput \<Rightarrow> string \<Rightarrow> int \<Rightarrow> ArtifactRow" where
  "art_row E root input content now = \<lparr>
     af_run_id = ai_RunID input, af_attempt_id = nullableText (ai_AttemptID input),
     af_artifact_type = ai_Type input, af_digest = ''sha256:'' @ env_hash E content,
     af_path = art_finalPath E root (ai_ID input) content, af_size = int (length content),
     af_created_at = now\<rparr>"

definition art_Write :: "env \<Rightarrow> WriteChoices \<Rightarrow> string \<Rightarrow> ArtifactInput \<Rightarrow> Storage \<Rightarrow>
    Storage \<times> (StoreError + ArtifactRecord)" where
  "art_Write E c root input s =
     (if wc_done c then (s, Inl ErrContext)
      else case ai_Content input of
        None \<Rightarrow> (s, Inl ErrArgument)
      | Some content \<Rightarrow>
          if \<not> validArtifactIdentifier (ai_ID input) \<or> ai_RunID input = '''' \<or> ai_Type input = ''''
          then (s, Inl ErrArgument)
          else if wc_fileError c then (s, Inl ErrStorage)
          else
            (let row = art_row E root input content (wc_now c);
                 published = s\<lparr>sg_files := (sg_files s)(af_path row \<mapsto> content)\<rparr> in
             case pg_transact ErrDatabase (wc_insert c) published
                    (insertArtifact (ai_ID input) row published) of
               (s', Inl e) \<Rightarrow> (s', Inl e)
             | (s', Inr (Some _)) \<Rightarrow> (s', Inr (scanArtifact E (ai_ID input) row))
             | (s', Inr None) \<Rightarrow>
                 (case art_Get E (wc_load c) (ai_ID input) s' of
                    Inl e \<Rightarrow> (s', Inl e)
                  | Inr existing \<Rightarrow>
                      if ar_RunID existing \<noteq> ai_RunID input \<or> ar_AttemptID existing \<noteq> ai_AttemptID input
                         \<or> ar_Type existing \<noteq> ai_Type input \<or> ar_Digest existing \<noteq> af_digest row
                         \<or> ar_Path existing \<noteq> af_path row \<or> ar_Size existing \<noteq> af_size row
                      then (s', Inl ErrIdempotencyConflict)
                      else (s', Inr existing))))"


section \<open>Path facts\<close>

definition plain :: "string \<Rightarrow> bool" where
  "plain c \<longleftrightarrow> c \<noteq> '''' \<and> c \<noteq> ''.'' \<and> c \<noteq> ''..'' \<and> CHR ''/'' \<notin> set c"

lemma split_slash_plain: "CHR ''/'' \<notin> set s \<Longrightarrow> split_slash acc s = [rev acc @ s]"
  by (induction s arbitrary: acc) auto

lemma split_slash_append:
  "split_slash acc (s @ CHR ''/'' # t) = split_slash acc s @ split_slash [] t"
  by (induction s arbitrary: acc) auto

lemma split_slash_no_slash:
  "CHR ''/'' \<notin> set acc \<Longrightarrow> c \<in> set (split_slash acc s) \<Longrightarrow> CHR ''/'' \<notin> set c"
proof (induction s arbitrary: acc)
  case (Cons x s)
  then show ?case
    using Cons.IH [of "[]"] Cons.IH [of "x # acc"] by (auto split: if_splits)
qed simp

lemma resolve_snoc: "plain c \<Longrightarrow> resolve d (cs @ [c]) = resolve d cs @ [c]"
  by (induction d cs rule: resolve.induct) (auto simp: plain_def)

lemma resolve_plain: "list_all plain cs \<Longrightarrow> resolve d cs = rev d @ cs"
  by (induction d cs rule: resolve.induct) (auto simp: plain_def)

lemma resolve_all_plain:
  "list_all plain d \<Longrightarrow> \<forall>c\<in>set cs. CHR ''/'' \<notin> set c \<Longrightarrow> list_all plain (resolve d cs)"
proof (induction d cs rule: resolve.induct)
  case (2 d c cs)
  moreover have "list_all plain (tl d)" using 2(4) by (cases d) auto
  ultimately show ?case by (auto simp: plain_def [of c])
qed (simp add: list_all_iff)

lemma components_plain: "list_all plain (components path)"
  unfolding components_def
  by (rule resolve_all_plain) (use split_slash_no_slash [of "[]"] in auto)

lemma components_child: "plain c \<Longrightarrow> components (root @ CHR ''/'' # c) = components root @ [c]"
  by (simp add: components_def split_slash_append split_slash_plain plain_def [THEN iffD1] resolve_snoc)

lemma split_join: "list_all plain cs \<Longrightarrow> cs \<noteq> [] \<Longrightarrow> split_slash [] (join_slash cs) = cs"
  by (induction cs rule: join_slash.induct)
     (simp_all add: split_slash_append split_slash_plain plain_def)

lemma components_rooted: "list_all plain cs \<Longrightarrow> components (rooted cs) = cs"
proof (cases "cs = []")
  case False
  assume p: "list_all plain cs"
  have "split_slash [] (rooted cs) = [''''] @ split_slash [] (join_slash cs)"
    by (simp add: rooted_def)
  with split_join [OF p False] resolve_plain [OF p] show ?thesis by (simp add: components_def)
qed (simp add: components_def rooted_def)

lemma strip_common_prefix: "strip_common xs (xs @ ys) = ([], ys)"
  by (induction xs) auto

lemma rooted_abs: "IsAbs (rooted cs)"
  by (simp add: IsAbs_def rooted_def has_prefix_def)

lemma Rel_child:
  assumes "plain c"
  shows "Rel root (rooted (components (root @ ''/'' @ c))) = Some c"
proof -
  have "list_all plain (components root @ [c])" using assms components_plain by simp
  then show ?thesis
    using assms
    by (simp add: Rel_def components_child components_rooted strip_common_prefix rooted_abs)
qed

lemma inside_root: "plain c \<Longrightarrow> \<not> outsideRoot (Some c)"
  by (auto simp: outsideRoot_def IsAbs_def has_prefix_iff plain_def)

lemma artifact_name_plain:
  assumes "validArtifactIdentifier i" "sha256DigestPattern (''sha256:'' @ x)"
  shows "plain (i @ ''-'' @ x)"
proof -
  have "CHR ''/'' \<notin> set i"
    using assms(1) by (auto simp: validArtifactIdentifier_def list_all_iff artifactChar_def char_between_def)
  moreover have "CHR ''/'' \<notin> set x" "length x = 64"
    using assms(2) by (auto simp: sha256DigestPattern_def list_all_iff is_hex_def char_between_def)
  moreover from this have "length (i @ ''-'' @ x) \<noteq> length ''.''" "length (i @ ''-'' @ x) \<noteq> length ''..''" by simp_all
  ultimately show ?thesis unfolding plain_def by (auto simp del: length_append)
qed

section \<open>Writing and verifying\<close>

lemma art_Write_success:
  assumes "art_Write E c root input s = (s', Inr rec)"
  obtains content where "ai_Content input = Some content" "validArtifactIdentifier (ai_ID input)"
    "sha256DigestPattern (''sha256:'' @ env_hash E content)"
    "sg_files s' = (sg_files s)(art_finalPath E root (ai_ID input) content \<mapsto> content)"
    "art_Get E PgOk (ai_ID input) s' = Inr rec"
    "ar_Path rec = art_finalPath E root (ai_ID input) content"
    "ar_Digest rec = ''sha256:'' @ env_hash E content" "ar_Size rec = int (length content)"
    "ar_RunID rec = ai_RunID input" "ar_AttemptID rec = ai_AttemptID input" "ar_Type rec = ai_Type input"
proof -
  from assms obtain content where c: "ai_Content input = Some content" "validArtifactIdentifier (ai_ID input)"
    by (auto simp: art_Write_def split: if_splits option.splits)
  with assms that show thesis
    by (auto simp: art_Write_def Let_def pg_transact_def insertArtifact_def art_Get_def pg_read_def
        art_row_def scanArtifact_def split: if_splits option.splits sum.splits prod.splits)
qed


lemma art_Write_verifies:
  assumes "art_Write E c root input s = (s', Inr rec)"
  shows "art_Verify E False PgOk root (ai_ID input) s' = Inr rec"
proof -
  from assms obtain content where w: "validArtifactIdentifier (ai_ID input)"
    "sha256DigestPattern (''sha256:'' @ env_hash E content)"
    "sg_files s' = (sg_files s)(art_finalPath E root (ai_ID input) content \<mapsto> content)"
    "art_Get E PgOk (ai_ID input) s' = Inr rec" "ar_Path rec = art_finalPath E root (ai_ID input) content"
    "ar_Digest rec = ''sha256:'' @ env_hash E content" "ar_Size rec = int (length content)"
    by (rule art_Write_success)
  have "plain (ai_ID input @ ''-'' @ env_hash E content)" using w(1,2) by (rule artifact_name_plain)
  then have "Rel root (ar_Path rec) = Some (ai_ID input @ ''-'' @ env_hash E content)"
    and "\<not> outsideRoot (Some (ai_ID input @ ''-'' @ env_hash E content))"
    using Rel_child inside_root by (simp_all add: w(5) art_finalPath_def)
  then show ?thesis using w by (simp add: art_Verify_def verifyArtifactRecordBytes_def)
qed

text \<open>
  (C37) What \<open>Write\<close> acknowledges, \<open>Verify\<close> confirms. After a successful \<open>Write\<close>, first or
  repeated, the published file holds the input's bytes, and \<open>Verify\<close> with the same root finds the
  path inside the root, re-hashes the bytes and returns the same record, whose Run, attempt, type,
  digest and size are those of the input. No property of SHA-256 is used: the table's digest check
  already guarantees the shape of the file name.
\<close>

theorem artifact_write_then_verify:
  assumes "art_Write E c root input s = (s', Inr rec)"
  shows "art_Verify E False PgOk root (ai_ID input) s' = Inr rec
    \<and> sg_files s' (ar_Path rec) = ai_Content input
    \<and> ar_RunID rec = ai_RunID input \<and> ar_AttemptID rec = ai_AttemptID input \<and> ar_Type rec = ai_Type input
    \<and> (\<forall>content. ai_Content input = Some content \<longrightarrow>
         ar_Digest rec = ''sha256:'' @ env_hash E content \<and> ar_Size rec = int (length content))"
  using assms
proof (rule art_Write_success)
  fix content
  assume "ai_Content input = Some content"
    "sg_files s' = (sg_files s)(art_finalPath E root (ai_ID input) content \<mapsto> content)"
    "ar_Path rec = art_finalPath E root (ai_ID input) content"
    "ar_Digest rec = ''sha256:'' @ env_hash E content" "ar_Size rec = int (length content)"
    "ar_RunID rec = ai_RunID input" "ar_AttemptID rec = ai_AttemptID input" "ar_Type rec = ai_Type input"
  with art_Write_verifies [OF assms] show ?thesis by simp
qed

definition sampleEnv :: env where
  "sampleEnv = \<lparr>
     env_hash = (\<lambda>x. replicate 62 CHR ''a'' @ (if length x < 10 then ''00'' else ''01'')),
     env_parsers = sampleParsers, env_json = ed_Output, env_jsonb = (\<lambda>d. Some d),
     env_stateJson = (\<lambda>st. run_ID (st_Run st)), env_stateJsonb = (\<lambda>st. Some st),
     env_eventsJson = (\<lambda>es. show_nat (length es)), env_time = show_int,
     env_interval = (\<lambda>ttl. ttl div 1000)\<rparr>"

definition sampleRunRow :: RunRow where
  "sampleRunRow = \<lparr>rr_scenario_id = ''demo'', rr_spec_hash = '''', rr_desired_state = DesiredRunning,
     rr_observed_state = StatusQueued, rr_current_attempt = 0, rr_version = 0, rr_created_at = 1,
     rr_updated_at = 1, rr_checkpoint = None\<rparr>"

definition sampleArtifact :: ArtifactInput where
  "sampleArtifact = \<lparr>ai_ID = ''action-1'', ai_RunID = ''run-1'', ai_AttemptID = '''',
     ai_Type = ''patch'', ai_Content = Some ''diff''\<rparr>"

definition sampleWriteChoices :: WriteChoices where
  "sampleWriteChoices = \<lparr>wc_done = False, wc_fileError = False, wc_insert = PgOk, wc_load = PgOk, wc_now = 5\<rparr>"

theorem artifact_write_then_verify_witness:
  "let w = art_Write sampleEnv sampleWriteChoices ''/var/artifacts'' sampleArtifact
             (emptyStorage\<lparr>sg_runs := [''run-1'' \<mapsto> sampleRunRow]\<rparr>)
   in \<exists>rec. snd w = Inr rec
        \<and> art_Verify sampleEnv False PgOk ''/var/artifacts'' ''action-1'' (fst w) = Inr rec"
proof -
  let ?w = "art_Write sampleEnv sampleWriteChoices ''/var/artifacts'' sampleArtifact
             (emptyStorage\<lparr>sg_runs := [''run-1'' \<mapsto> sampleRunRow]\<rparr>)"
  have "case snd ?w of Inr _ \<Rightarrow> True | Inl _ \<Rightarrow> False" by code_simp
  then obtain rec where "?w = (fst ?w, Inr rec)" by (cases ?w) (auto split: sum.splits)
  from artifact_write_then_verify [OF this] show ?thesis
    using \<open>?w = (fst ?w, Inr rec)\<close> by (metis ArtifactInput.select_convs(1) sampleArtifact_def snd_conv)
qed

end
