(* ===== verification/Store_Postgres.thy ===== *)
theory Store_Postgres
  imports Store_Artifact
begin

text \<open>
  The PostgreSQL event store of \<open>src/internal/store/postgres.go\<close>: loading, checkpointed rebuild,
  the fenced append transaction with its receipt validation, and saving a checkpoint.
\<close>

section \<open>Reading\<close>

definition pg_Load :: "env \<Rightarrow> PgFault \<Rightarrow> string \<Rightarrow> Storage \<Rightarrow> StoreError + Event list" where
  "pg_Load E fault runID s =
     pg_read ErrDatabase fault
       (let events = loadPostgresEvents E s runID in
        if events = [] \<and> sg_runs s runID = None then Inl ErrRunNotFound else Inr events)"

definition digestBytes :: "env \<Rightarrow> string \<Rightarrow> string" where
  "digestBytes E content = ''sha256:'' @ env_hash E content"

definition digestEventSequence :: "env \<Rightarrow> Event list \<Rightarrow> string" where
  "digestEventSequence E events = digestBytes E (env_eventsJson E events)"

text \<open>
  The checkpoint columns are all null or all set (\<open>runs_checkpoint_complete\<close>); \<open>cp_state\<close> is
  \<open>None\<close> when the column's JSON does not decode to a State.
\<close>

definition rebuildFromCheckpoint :: "env \<Rightarrow> string \<Rightarrow> CheckpointRow option \<Rightarrow> Event list \<Rightarrow> DomainError + State" where
  "rebuildFromCheckpoint E runID columns events =
     (case columns of
        None \<Rightarrow> Reduce (env_hash E) events
      | Some cp \<Rightarrow>
          if cp_seq cp \<le> 0 \<or> nat (cp_seq cp) > length events then Reduce (env_hash E) events
          else
            (let seq = nat (cp_seq cp) in
             if ev_Seq (events ! (seq - 1)) \<noteq> of_nat seq then Reduce (env_hash E) events
             else case cp_state cp of
                None \<Rightarrow> Reduce (env_hash E) events
              | Some checkpoint \<Rightarrow>
                  if digestBytes E (env_stateJson E checkpoint) \<noteq> cp_state_digest cp
                     \<or> run_ID (st_Run checkpoint) \<noteq> runID
                     \<or> run_Version (st_Run checkpoint) \<noteq> of_nat seq
                     \<or> digestEventSequence E (take seq events) \<noteq> cp_event_digest cp
                  then Reduce (env_hash E) events
                  else case Reduce (env_hash E) (take seq events) of
                     Inl _ \<Rightarrow> Reduce (env_hash E) events
                   | Inr authoritativePrefix \<Rightarrow>
                       if checkpoint \<noteq> authoritativePrefix then Reduce (env_hash E) events
                       else case ReduceFromCheckpoint (env_hash E) checkpoint (drop seq events) of
                          Inl _ \<Rightarrow> Reduce (env_hash E) events
                        | Inr rebuilt \<Rightarrow> Inr rebuilt))"

definition pg_Rebuild :: "env \<Rightarrow> PgFault \<Rightarrow> string \<Rightarrow> Storage \<Rightarrow> StoreError + State" where
  "pg_Rebuild E fault runID s =
     bindE (pg_read ErrDatabase fault
         (case sg_runs s runID of
            None \<Rightarrow> Inl ErrRunNotFound
          | Some row \<Rightarrow> Inr (rr_checkpoint row, loadPostgresEvents E s runID)))
       (\<lambda>(columns, events). mapErr ErrDomain (rebuildFromCheckpoint E runID columns events))"

definition pg_IsManagedRun :: "PgFault \<Rightarrow> string \<Rightarrow> Storage \<Rightarrow> StoreError + bool" where
  "pg_IsManagedRun fault runID s =
     (if runID = '''' then Inl ErrInvalidAppend
      else pg_read ErrDatabase fault (Inr (sg_leases s runID \<noteq> None)))"

section \<open>Guards of an append\<close>

fun leaseSensitiveType :: "EventType \<Rightarrow> bool" where
  "leaseSensitiveType EventLeaseAcquired = True"
| "leaseSensitiveType EventLeaseRenewed = True"
| "leaseSensitiveType EventLeaseExpired = True"
| "leaseSensitiveType EventActionPlanned = True"
| "leaseSensitiveType EventActionCompleted = True"
| "leaseSensitiveType EventActionFailed = True"
| "leaseSensitiveType _ = False"

definition leaseSensitiveEvent :: "Event \<Rightarrow> bool" where
  "leaseSensitiveEvent ev \<longleftrightarrow>
     leaseSensitiveType (ev_Type ev) \<or> ev_WorkerID ev \<noteq> '''' \<or> ev_FencingToken ev \<noteq> 0"

fun legacyLifecycleEvent :: "EventType \<Rightarrow> bool" where
  "legacyLifecycleEvent EventAttemptStarted = True"
| "legacyLifecycleEvent EventWorkspaceProvisionPlanned = True"
| "legacyLifecycleEvent EventWorkspaceProvisioned = True"
| "legacyLifecycleEvent EventReasoningPlanned = True"
| "legacyLifecycleEvent EventReasoningCompleted = True"
| "legacyLifecycleEvent EventToolCallPlanned = True"
| "legacyLifecycleEvent EventToolCallCompleted = True"
| "legacyLifecycleEvent EventToolCallFailed = True"
| "legacyLifecycleEvent EventPatchProduced = True"
| "legacyLifecycleEvent EventVerificationPlanned = True"
| "legacyLifecycleEvent EventVerificationPassed = True"
| "legacyLifecycleEvent EventVerificationFailed = True"
| "legacyLifecycleEvent EventRepairScheduled = True"
| "legacyLifecycleEvent EventApprovalRequested = True"
| "legacyLifecycleEvent EventApprovalResolved = True"
| "legacyLifecycleEvent EventCheckpointSaved = True"
| "legacyLifecycleEvent EventRunSucceeded = True"
| "legacyLifecycleEvent EventRunFailed = True"
| "legacyLifecycleEvent EventRunCancelled = True"
| "legacyLifecycleEvent _ = False"

definition presentedFencing :: "Event \<Rightarrow> FencingTokenError" where
  "presentedFencing ev = \<lparr>fte_RunID = ev_RunID ev, fte_WorkerID = ev_WorkerID ev,
     fte_FencingToken = ev_FencingToken ev, fte_CurrentWorker = '''', fte_CurrentToken = 0,
     fte_Expired = False\<rparr>"

definition validateFencingToken :: "Storage \<Rightarrow> int \<Rightarrow> Event \<Rightarrow> StoreError + unit" where
  "validateFencingToken s now ev =
     (if ev_WorkerID ev = '''' \<or> ev_FencingToken ev = 0 \<or> ev_FencingToken ev > max_int64
      then Inl (ErrStaleFencingToken (presentedFencing ev))
      else case sg_leases s (ev_RunID ev) of
        None \<Rightarrow> Inl (ErrStaleFencingToken (presentedFencing ev))
      | Some lease \<Rightarrow>
          (let expired = \<not> lr_expires_at lease > now;
               currentToken = word_of_int (lr_fencing_token lease) in
           if expired \<or> lr_worker_id lease \<noteq> ev_WorkerID ev \<or> currentToken \<noteq> ev_FencingToken ev
           then Inl (ErrStaleFencingToken ((presentedFencing ev)\<lparr>
                  fte_CurrentWorker := lr_worker_id lease, fte_CurrentToken := currentToken,
                  fte_Expired := expired\<rparr>))
           else Inr ()))"

text \<open>
  The query for the latest \<open>ActionPlanned\<close> row of an action, with its \<open>attempt_id\<close>. A key that
  the JSON omits reads as null and compares to nothing.
\<close>

definition plannedAttempt :: "Storage \<Rightarrow> string \<Rightarrow> string \<Rightarrow> CommandType \<Rightarrow> string option" where
  "plannedAttempt s runID actionID actionType =
     (case filter (\<lambda>row. er_event_type row = EventActionPlanned
                \<and> actionID \<noteq> '''' \<and> ed_ActionID (er_payload row) = actionID
                \<and> actionType \<noteq> CommandNone \<and> ed_ActionType (er_payload row) = actionType)
             (run_rows s runID) of
        [] \<Rightarrow> None
      | rows \<Rightarrow> Some (ed_AttemptID (er_payload (last rows))))"

definition findReceipt :: "Storage \<Rightarrow> Event \<Rightarrow> ReceiptRow option" where
  "findReceipt s ev =
     find (\<lambda>row. rc_run_id row = ev_RunID ev \<and> rc_action_id row = ed_ActionID (ev_Data ev)
             \<and> rc_receipt_id row = ed_ReceiptID (ev_Data ev)
             \<and> rc_action_type row = ed_ActionType (ev_Data ev))
       (sg_receipts s)"

definition validateReceiptArtifact :: "env \<Rightarrow> Storage \<Rightarrow> Event \<Rightarrow> string \<Rightarrow> string \<Rightarrow> string \<Rightarrow> StoreError + unit" where
  "validateReceiptArtifact E s ev plannedAttemptID artifactID artifactDigest =
     (if artifactID = '''' then Inr ()
      else case sg_artifacts s artifactID of
        None \<Rightarrow> Inl ErrActionReceiptMismatch
      | Some row \<Rightarrow>
          (let artifact = scanArtifact E artifactID row in
           if ar_RunID artifact \<noteq> ev_RunID ev \<or> ar_AttemptID artifact \<noteq> plannedAttemptID
              \<or> ar_Type artifact \<noteq> Phase3ReceiptArtifactType \<or> ar_Digest artifact \<noteq> artifactDigest
           then Inl ErrActionReceiptMismatch
           else verifyArtifactRecordBytes E s artifact))"

text \<open>The completion payload that a receipt row entitles to.\<close>

definition receiptPayload :: "ReceiptRow \<Rightarrow> Event \<Rightarrow> EventData" where
  "receiptPayload row ev = (rc_output row)\<lparr>
     ed_ActionID := ed_ActionID (ev_Data ev), ed_ActionType := ed_ActionType (ev_Data ev),
     ed_IdempotencyScope := rc_idempotency_scope row, ed_ReceiptID := ed_ReceiptID (ev_Data ev),
     ed_OutputDigest := dereferenceText (rc_output_digest row),
     ed_ArtifactID := dereferenceText (rc_artifact_id row),
     ed_ArtifactDigest := dereferenceText (rc_artifact_digest row)\<rparr>"

definition validateActionReceipt :: "env \<Rightarrow> Storage \<Rightarrow> Event \<Rightarrow> StoreError + unit" where
  "validateActionReceipt E s ev =
     (if ed_ReceiptID (ev_Data ev) = '''' \<or> ed_ActionID (ev_Data ev) = '''' then Inl ErrMissingActionReceipt
      else case findReceipt s ev of
        None \<Rightarrow> Inl ErrMissingActionReceipt
      | Some row \<Rightarrow>
          (case plannedAttempt s (ev_RunID ev) (ed_ActionID (ev_Data ev)) (ed_ActionType (ev_Data ev)) of
             None \<Rightarrow> Inl ErrActionReceiptMismatch
           | Some plannedAttemptID \<Rightarrow>
               bindE (mapErr (\<lambda>_. ErrActionReceiptMismatch)
                   (ValidateManagedReceiptEvidence E (ed_ActionType (ev_Data ev)) (ed_ActionID (ev_Data ev))
                      plannedAttemptID (rc_output row) (dereferenceText (rc_output_digest row))
                      (dereferenceText (rc_artifact_id row)) (dereferenceText (rc_artifact_digest row)))) (\<lambda>_.
               bindE (validateReceiptArtifact E s ev plannedAttemptID
                   (dereferenceText (rc_artifact_id row)) (dereferenceText (rc_artifact_digest row))) (\<lambda>_.
               if receiptPayload row ev \<noteq> ev_Data ev then Inl ErrActionReceiptMismatch else Inr ()))))"

section \<open>Statements of an append\<close>

definition createRunRow :: "Event \<Rightarrow> int \<Rightarrow> Storage \<Rightarrow> Storage" where
  "createRunRow ev now s =
     (if ev_Type ev = EventRunCreated \<and> sg_runs s (ev_RunID ev) = None
      then s\<lparr>sg_runs := (sg_runs s)(ev_RunID ev \<mapsto> \<lparr>
             rr_scenario_id = ed_ScenarioID (ev_Data ev), rr_spec_hash = ed_SpecHash (ev_Data ev),
             rr_desired_state = DesiredRunning, rr_observed_state = StatusQueued,
             rr_current_attempt = 0, rr_version = 0, rr_created_at = now, rr_updated_at = now,
             rr_checkpoint = None\<rparr>)\<rparr>
      else s)"

definition eventRow :: "env \<Rightarrow> Event \<Rightarrow> int \<Rightarrow> EventRow option" where
  "eventRow E ev now =
     map_option (\<lambda>payload. \<lparr>
       er_run_id = ev_RunID ev, er_seq = sint (ev_Seq ev), er_event_type = ev_Type ev,
       er_payload_version = sint (ev_PayloadVersion ev), er_payload = payload,
       er_idempotency_key = ev_IdempotencyKey ev, er_causation_id = nullableText (ev_CausationID ev),
       er_correlation_id = nullableText (ev_CorrelationID ev), er_worker_id = nullableText (ev_WorkerID ev),
       er_fencing_token = nullableUint64 (ev_FencingToken ev), er_created_at = now\<rparr>)
     (env_jsonb E (ev_Data ev))"

text \<open>
  The insert with its constraints: positive sequence number and payload version, a token that is
  null or not negative, an existing Run, and the two unique indexes.
\<close>

definition insertEvent :: "env \<Rightarrow> Event \<Rightarrow> int \<Rightarrow> Storage \<Rightarrow> StoreError + Storage" where
  "insertEvent E ev now s =
     (case eventRow E ev now of
        None \<Rightarrow> Inl ErrDatabase
      | Some row \<Rightarrow>
          if er_seq row \<le> 0 \<or> er_payload_version row \<le> 0
             \<or> (case er_fencing_token row of None \<Rightarrow> False | Some n \<Rightarrow> n < 0)
             \<or> sg_runs s (er_run_id row) = None
             \<or> (\<exists>r\<in>set (sg_events s). er_run_id r = er_run_id row
                  \<and> (er_seq r = er_seq row \<or> er_idempotency_key r = er_idempotency_key row))
          then Inl ErrDatabase
          else Inr (s\<lparr>sg_events := sg_events s @ [row]\<rparr>))"

text \<open>The attempt row, with its primary key and the unique index on (run, number).\<close>

definition insertAttempt :: "Event \<Rightarrow> State \<Rightarrow> int \<Rightarrow> Storage \<Rightarrow> StoreError + Storage" where
  "insertAttempt ev st now s =
     (if ev_Type ev = EventAttemptStarted
         \<or> ev_Type ev = EventActionCompleted \<and> ed_ActionType (ev_Data ev) = CommandStartAttempt
           \<and> sint (run_CurrentAttempt (st_Run st)) > 0
      then
        (let number = sint (run_CurrentAttempt (st_Run st)) in
         if number \<le> 0
            \<or> (\<exists>row\<in>set (sg_attempts s). at_attempt_id row = ed_AttemptID (ev_Data ev)
                 \<or> at_run_id row = ev_RunID ev \<and> at_number row = number)
         then Inl ErrDatabase
         else Inr (s\<lparr>sg_attempts := sg_attempts s @ [\<lparr>
                at_attempt_id = ed_AttemptID (ev_Data ev), at_run_id = ev_RunID ev, at_number = number,
                at_reason = nullableText (ed_Reason (ev_Data ev)), at_started_at = now\<rparr>]\<rparr>))
      else Inr s)"

definition updateRunRow :: "Event \<Rightarrow> State \<Rightarrow> int \<Rightarrow> int \<Rightarrow> uint64 \<Rightarrow> Storage \<Rightarrow> StoreError + Storage" where
  "updateRunRow ev st now actualVersion expectedVersion s =
     (case sg_runs s (ev_RunID ev) of
        Some row \<Rightarrow>
          if rr_version row = actualVersion then
            (if sint (run_CurrentAttempt (st_Run st)) < 0 \<or> sint (run_Version (st_Run st)) < 0
             then Inl ErrDatabase
             else Inr (s\<lparr>sg_runs := (sg_runs s)(ev_RunID ev \<mapsto> row\<lparr>
               rr_scenario_id := run_ScenarioID (st_Run st), rr_spec_hash := run_SpecHash (st_Run st),
               rr_desired_state := desired st, rr_observed_state := observed st,
               rr_current_attempt := sint (run_CurrentAttempt (st_Run st)),
               rr_version := sint (run_Version (st_Run st)), rr_updated_at := now\<rparr>)\<rparr>))
          else Inl (ErrVersionConflict \<lparr>vce_RunID = ev_RunID ev, vce_Expected = expectedVersion,
                  vce_Actual = word_of_int actualVersion\<rparr>)
      | None \<Rightarrow> Inl (ErrVersionConflict \<lparr>vce_RunID = ev_RunID ev, vce_Expected = expectedVersion,
                  vce_Actual = word_of_int actualVersion\<rparr>))"


section \<open>Append\<close>

text \<open>
  What the environment decides for one append: whether the context was cancelled, the fate of the
  transaction and the four clock readings, in the order the code takes them (at the start, at the
  two fencing checks, and after all locks).
\<close>

record AppendChoices =
  ac_done :: bool
  ac_fault :: PgFault
  ac_start :: int
  ac_fence1 :: int
  ac_fence2 :: int
  ac_now :: int

definition pg_managedRun :: "Event \<Rightarrow> Storage \<Rightarrow> bool" where
  "pg_managedRun ev s \<longleftrightarrow>
     ev_Type ev \<noteq> EventRunCreated \<and> ev_Type ev \<noteq> EventDesiredStateChanged
     \<and> sg_leases s (ev_RunID ev) \<noteq> None"

definition requiresFencing :: "Event \<Rightarrow> Storage \<Rightarrow> bool" where
  "requiresFencing ev s \<longleftrightarrow> leaseSensitiveEvent ev \<or> pg_managedRun ev s"

definition checkFencing :: "Storage \<Rightarrow> int \<Rightarrow> Event \<Rightarrow> StoreError + unit" where
  "checkFencing s now ev = (if requiresFencing ev s then validateFencingToken s now ev else Inr ())"

text \<open>The second half of the transaction: the candidate log, the three statements.\<close>

definition commitEvent :: "env \<Rightarrow> uint64 \<Rightarrow> int \<Rightarrow> int \<Rightarrow> Event \<Rightarrow> Storage \<Rightarrow> StoreError + Storage option \<times> AppendResult" where
  "commitEvent E expectedVersion actualVersion now ev s =
     (let event = ev\<lparr>ev_Seq := expectedVersion + 1, ev_CreatedAt := env_time E now\<rparr>;
          candidate = loadPostgresEvents E s (ev_RunID ev) @ [event] in
      bindE (mapErr ErrDomain (Reduce (env_hash E) candidate)) (\<lambda>st.
      bindE (insertEvent E event now s) (\<lambda>s1.
      bindE (insertAttempt event st now s1) (\<lambda>s2.
      bindE (updateRunRow event st now actualVersion expectedVersion s2) (\<lambda>s3.
      Inr (Some s3, \<lparr>ar_Event = event, ar_Appended = True\<rparr>))))))"

definition appendBody :: "env \<Rightarrow> AppendChoices \<Rightarrow> uint64 \<Rightarrow> Event \<Rightarrow> Storage \<Rightarrow> StoreError + Storage option \<times> AppendResult" where
  "appendBody E c expectedVersion ev s0 =
     (let s = createRunRow ev (ac_start c) s0 in
      bindE (checkFencing s (ac_fence1 c) ev) (\<lambda>_.
      if pg_managedRun ev s \<and> legacyLifecycleEvent (ev_Type ev) then Inl ErrManagedRunLegacyEvent
      else case sg_runs s (ev_RunID ev) of
        None \<Rightarrow> Inl ErrRunNotFound
      | Some row \<Rightarrow>
          bindE (checkFencing s (ac_fence2 c) ev) (\<lambda>_.
          case loadEventByIdempotencyKey E s (ev_RunID ev) (ev_IdempotencyKey ev) of
            Some existing \<Rightarrow>
              (if \<not> sameIdempotentEvent existing ev then Inl ErrIdempotencyConflict
               else Inr (None, \<lparr>ar_Event = existing, ar_Appended = False\<rparr>))
          | None \<Rightarrow>
              if word_of_int (rr_version row) \<noteq> expectedVersion
              then Inl (ErrVersionConflict \<lparr>vce_RunID = ev_RunID ev, vce_Expected = expectedVersion,
                     vce_Actual = word_of_int (rr_version row)\<rparr>)
              else bindE (if ev_Type ev = EventActionCompleted then validateActionReceipt E s ev else Inr ()) (\<lambda>_.
                commitEvent E expectedVersion (rr_version row) (ac_now c) ev s))))"

definition pg_Append :: "env \<Rightarrow> AppendChoices \<Rightarrow> uint64 \<Rightarrow> Event \<Rightarrow> Storage \<Rightarrow> Storage \<times> (StoreError + AppendResult)" where
  "pg_Append E c expectedVersion request s =
     (if ac_done c then (s, Inl ErrContext)
      else if expectedVersion > max_int64 then (s, Inl ErrInvalidAppend)
      else case validateAppendInput (env_parsers E) request of
        Inl e \<Rightarrow> (s, Inl e)
      | Inr _ \<Rightarrow> pg_transact ErrDatabase (ac_fault c) s
                   (appendBody E c expectedVersion (defaultPayloadVersion request) s))"

section \<open>Checkpoints\<close>

record Checkpoint =
  ck_Seq :: uint64
  ck_State :: State
  ck_CreatedAt :: string

definition checkpointBody :: "env \<Rightarrow> int \<Rightarrow> string \<Rightarrow> uint64 \<Rightarrow> Storage \<Rightarrow> StoreError + Storage option \<times> Checkpoint" where
  "checkpointBody E now runID expectedVersion s =
     (case sg_runs s runID of
        None \<Rightarrow> Inl ErrRunNotFound
      | Some row \<Rightarrow>
          (let conflict = (\<lambda>actual. Inl (ErrVersionConflict \<lparr>vce_RunID = runID,
                 vce_Expected = expectedVersion, vce_Actual = actual\<rparr>)) in
           if word_of_int (rr_version row) \<noteq> expectedVersion then conflict (word_of_int (rr_version row))
           else
             (let events = loadPostgresEvents E s runID in
              bindE (mapErr ErrDomain (Reduce (env_hash E) events)) (\<lambda>st.
              if run_Version (st_Run st) \<noteq> expectedVersion then conflict (run_Version (st_Run st))
              else case env_stateJsonb E st of
                None \<Rightarrow> Inl ErrDatabase
              | Some stored \<Rightarrow>
                  Inr (Some (s\<lparr>sg_runs := (sg_runs s)(runID \<mapsto> row\<lparr>rr_checkpoint := Some \<lparr>
                         cp_seq = sint expectedVersion, cp_state = Some stored,
                         cp_state_digest = digestBytes E (env_stateJson E st),
                         cp_event_digest = digestEventSequence E events,
                         cp_created_at = now\<rparr>\<rparr>)\<rparr>),
                       \<lparr>ck_Seq = expectedVersion, ck_State = st, ck_CreatedAt = env_time E now\<rparr>)))))"

definition SaveCheckpoint :: "env \<Rightarrow> PgFault \<Rightarrow> int \<Rightarrow> string \<Rightarrow> uint64 \<Rightarrow> Storage \<Rightarrow> Storage \<times> (StoreError + Checkpoint)" where
  "SaveCheckpoint E fault now runID expectedVersion s =
     (if runID = '''' \<or> expectedVersion = 0 \<or> expectedVersion > max_int64 then (s, Inl ErrInvalidAppend)
      else pg_transact ErrDatabase fault s (checkpointBody E now runID expectedVersion s))"

end
