(* ===== verification/Store_Postgres_Props.thy ===== *)
theory Store_Postgres_Props
  imports Store_Postgres
begin

text \<open>
  Correctness of the PostgreSQL store: the invariant that ties the derived Run rows to the event log,
  its preservation by \<open>pg_Append\<close> and \<open>SaveCheckpoint\<close>, the interpretation of the event-store
  contract, the fencing guarantee and the independence of \<open>Rebuild\<close> from the checkpoint columns.
\<close>

section \<open>Invariant\<close>

abbreviation rows_of :: "Storage \<Rightarrow> string \<Rightarrow> EventRow list" where
  "rows_of s run \<equiv> filter (\<lambda>row. er_run_id row = run) (sg_events s)"

text \<open>The columns of a Run row that are derived from the log.\<close>

definition projects :: "RunRow \<Rightarrow> State \<Rightarrow> bool" where
  "projects row st \<longleftrightarrow>
     rr_scenario_id row = run_ScenarioID (st_Run st) \<and> rr_spec_hash row = run_SpecHash (st_Run st)
     \<and> rr_desired_state row = desired st \<and> rr_observed_state row = observed st
     \<and> rr_current_attempt row = sint (run_CurrentAttempt (st_Run st))
     \<and> rr_version row = sint (run_Version (st_Run st))"

definition row_ok :: "env \<Rightarrow> Storage \<Rightarrow> string \<Rightarrow> RunRow \<Rightarrow> bool" where
  "row_ok E s run row \<longleftrightarrow>
     (\<exists>st. Reduce (env_hash E) (loadPostgresEvents E s run) = Inr st \<and> projects row st)
     \<and> rows_of s run \<noteq> [] \<and> rr_version row = int (length (rows_of s run)) \<and> rr_version row < 2 ^ 63"

definition seqs_ok :: "Storage \<Rightarrow> string \<Rightarrow> bool" where
  "seqs_ok s run \<longleftrightarrow> map er_seq (rows_of s run) = map int [1..<Suc (length (rows_of s run))]"

definition pg_inv :: "env \<Rightarrow> Storage \<Rightarrow> bool" where
  "pg_inv E s \<longleftrightarrow>
     (\<forall>run row. sg_runs s run = Some row \<longrightarrow> row_ok E s run row)
     \<and> (\<forall>run. sg_runs s run = None \<longrightarrow> rows_of s run = [])
     \<and> (\<forall>run. seqs_ok s run)"

lemma pg_inv_empty: "pg_inv E emptyStorage"
  by (simp add: pg_inv_def emptyStorage_def seqs_ok_def)

lemma run_rows_sorted: "seqs_ok s run \<Longrightarrow> run_rows s run = rows_of s run"
proof -
  assume "seqs_ok s run"
  then have "sorted (map er_seq (rows_of s run))" 
    by (simp add: seqs_ok_def sorted_map del: upt_Suc)
  then show ?thesis by (simp add: run_rows_def sort_key_id_if_sorted)
qed


lemma load_rows: "pg_inv E s \<Longrightarrow> loadPostgresEvents E s run = map (scanPostgresEvent E) (rows_of s run)"
  by (simp add: loadPostgresEvents_def pg_inv_def run_rows_sorted)

lemma load_cong: "sg_events s' = sg_events s \<Longrightarrow> loadPostgresEvents E s' = loadPostgresEvents E s"
  by (simp add: fun_eq_iff loadPostgresEvents_def run_rows_def)

lemma load_reducible: "pg_inv E s \<Longrightarrow> \<exists>st. Reduce (env_hash E) (loadPostgresEvents E s run) = Inr st"
proof (cases "sg_runs s run")
  case None
  assume "pg_inv E s"
  with None have "loadPostgresEvents E s run = []" by (simp add: load_rows) (simp add: pg_inv_def)
  then show ?thesis by simp
next
  case (Some row)
  assume "pg_inv E s"
  with Some have "row_ok E s run row" by (simp add: pg_inv_def)
  then show ?thesis by (auto simp: row_ok_def)
qed

text \<open>What a stored row reads back as.\<close>

lemma scan_eventRow:
  assumes "lossless_jsonb E" "eventRow E ev now = Some row" "ev_CreatedAt ev = env_time E now"
  shows "scanPostgresEvent E row = ev"
proof -
  from assms obtain p where "env_jsonb E (ev_Data ev) = Some p" by (auto simp: eventRow_def)
  moreover from this assms have "p = ev_Data ev" by (simp add: lossless_jsonb_def)
  ultimately show ?thesis
    using assms by (cases ev) (auto simp: eventRow_def scanPostgresEvent_def nullableUint64_def)
qed

section \<open>One committed event\<close>

lemma insertEvent_iff:
  "insertEvent E ev now s = Inr s' \<longleftrightarrow>
     (\<exists>row. eventRow E ev now = Some row \<and> s' = s\<lparr>sg_events := sg_events s @ [row]\<rparr>
       \<and> er_seq row > 0 \<and> sg_runs s (er_run_id row) \<noteq> None
       \<and> er_payload_version row > 0 \<and> (case er_fencing_token row of None \<Rightarrow> True | Some n \<Rightarrow> n \<ge> 0)
       \<and> \<not> (\<exists>r\<in>set (sg_events s). er_run_id r = er_run_id row
             \<and> (er_seq r = er_seq row \<or> er_idempotency_key r = er_idempotency_key row)))"
  by (auto simp: insertEvent_def not_le split: option.splits if_splits)

lemma insertAttempt_frame:
  "insertAttempt ev st now s = Inr s' \<Longrightarrow>
     sg_events s' = sg_events s \<and> sg_runs s' = sg_runs s \<and> sg_leases s' = sg_leases s
     \<and> sg_receipts s' = sg_receipts s \<and> sg_workers s' = sg_workers s \<and> sg_artifacts s' = sg_artifacts s
     \<and> sg_files s' = sg_files s"
  by (auto simp: insertAttempt_def Let_def split: if_splits)

lemma updateRunRow_iff:
  "updateRunRow ev st now av v s = Inr s' \<longleftrightarrow>
     (\<exists>row. sg_runs s (ev_RunID ev) = Some row \<and> rr_version row = av
       \<and> sint (run_CurrentAttempt (st_Run st)) \<ge> 0 \<and> sint (run_Version (st_Run st)) \<ge> 0
       \<and> s' = s\<lparr>sg_runs := (sg_runs s)(ev_RunID ev \<mapsto> row\<lparr>
               rr_scenario_id := run_ScenarioID (st_Run st), rr_spec_hash := run_SpecHash (st_Run st),
               rr_desired_state := desired st, rr_observed_state := observed st,
               rr_current_attempt := sint (run_CurrentAttempt (st_Run st)),
               rr_version := sint (run_Version (st_Run st)), rr_updated_at := now\<rparr>)\<rparr>)"
  by (auto simp: updateRunRow_def split: option.splits if_splits)

text \<open>The effect of a successful \<open>commitEvent\<close>, in terms of the new event and the new row.\<close>

lemma commitEvent_effect:
  assumes "commitEvent E v av now ev s = Inr (os, res)"
  obtains s' row old new st where "os = Some s'" "res = \<lparr>ar_Event = ev\<lparr>ev_Seq := v + 1, ev_CreatedAt := env_time E now\<rparr>, ar_Appended = True\<rparr>"
    "Reduce (env_hash E) (loadPostgresEvents E s (ev_RunID ev) @ [ar_Event res]) = Inr st"
    "eventRow E (ar_Event res) now = Some row" "er_seq row > 0"
    "sg_events s' = sg_events s @ [row]" "sg_runs s (ev_RunID ev) = Some old" "rr_version old = av"
    "sg_runs s' = (sg_runs s)(ev_RunID ev \<mapsto> new)" "projects new st"
    "sg_leases s' = sg_leases s" "sg_receipts s' = sg_receipts s" "sg_workers s' = sg_workers s"
proof -
  let ?e = "ev\<lparr>ev_Seq := v + 1, ev_CreatedAt := env_time E now\<rparr>"
  from assms obtain st s1 s2 s3 where
    r: "Reduce (env_hash E) (loadPostgresEvents E s (ev_RunID ev) @ [?e]) = Inr st"
    and i: "insertEvent E ?e now s = Inr s1" and a: "insertAttempt ?e st now s1 = Inr s2"
    and u: "updateRunRow ?e st now av v s2 = Inr s3" and o: "os = Some s3" "res = \<lparr>ar_Event = ?e, ar_Appended = True\<rparr>"
    by (auto simp: commitEvent_def Let_def bindE_Inr_iff mapErr_Inr_iff)
  from i obtain row where row: "eventRow E ?e now = Some row" "s1 = s\<lparr>sg_events := sg_events s @ [row]\<rparr>" "er_seq row > 0"
    by (auto simp: insertEvent_iff)
  from u obtain old where old: "sg_runs s2 (ev_RunID ev) = Some old" "rr_version old = av"
    and s3: "s3 = s2\<lparr>sg_runs := (sg_runs s2)(ev_RunID ev \<mapsto> old\<lparr>
               rr_scenario_id := run_ScenarioID (st_Run st), rr_spec_hash := run_SpecHash (st_Run st),
               rr_desired_state := desired st, rr_observed_state := observed st,
               rr_current_attempt := sint (run_CurrentAttempt (st_Run st)),
               rr_version := sint (run_Version (st_Run st)), rr_updated_at := now\<rparr>)\<rparr>"
    by (auto simp: updateRunRow_iff)
  note f = insertAttempt_frame [OF a]
  show thesis
    by (rule that [of s3 st row old]) (use r row old s3 f o in \<open>auto simp: projects_def\<close>)
qed


lemma createRunRow_frame:
  "sg_events (createRunRow ev t s) = sg_events s" "sg_leases (createRunRow ev t s) = sg_leases s"
  "sg_receipts (createRunRow ev t s) = sg_receipts s" "sg_artifacts (createRunRow ev t s) = sg_artifacts s"
  "sg_files (createRunRow ev t s) = sg_files s" "sg_workers (createRunRow ev t s) = sg_workers s"
  "run \<noteq> ev_RunID ev \<Longrightarrow> sg_runs (createRunRow ev t s) run = sg_runs s run"
  by (simp_all add: createRunRow_def)

lemma created_version:
  assumes "pg_inv E s0" "sg_runs (createRunRow ev t s0) (ev_RunID ev) = Some old"
  shows "rr_version old = int (length (rows_of s0 (ev_RunID ev)))"
proof (cases "sg_runs s0 (ev_RunID ev)")
  case None
  with assms have "rr_version old = 0" by (auto simp: createRunRow_def split: if_splits)
  with None assms(1) show ?thesis by (simp add: pg_inv_def)
next
  case (Some row)
  with assms show ?thesis by (auto simp: createRunRow_def pg_inv_def row_ok_def)
qed

lemma next_version:
  fixes n :: nat and v :: uint64
  assumes "v = of_nat n" "sint (v + 1) > 0" "n < 2 ^ 63"
  shows "sint (v + 1) = int (Suc n)" "n + 1 < 2 ^ 63"
proof -
  have e: "v + 1 = (of_nat (Suc n) :: uint64)" using assms(1) by simp
  show "n + 1 < 2 ^ 63"
  proof (rule ccontr)
    assume "\<not> n + 1 < 2 ^ 63"
    with assms(3) have "Suc n = 2 ^ 63" by simp
    with e have "v + 1 = (9223372036854775808 :: uint64)" by simp
    with assms(2) show False by simp
  qed
  then show "sint (v + 1) = int (Suc n)"
    unfolding e by (simp add: signed_of_nat signed_take_bit_int_eq_self del: of_nat_Suc)
qed


lemma rows_of_snoc:
  "sg_events s' = sg_events s @ [row] \<Longrightarrow>
     rows_of s' run = rows_of s run @ (if er_run_id row = run then [row] else [])"
  by simp

lemma eventRow_fields:
  "eventRow E ev now = Some row \<Longrightarrow> er_run_id row = ev_RunID ev \<and> er_seq row = sint (ev_Seq ev)"
  by (auto simp: eventRow_def)

lemma pg_inv_rows_bound:
  "pg_inv E s \<Longrightarrow> length (rows_of s run) < 2 ^ 63"
  by (cases "sg_runs s run") (fastforce simp: pg_inv_def row_ok_def)+

lemma seqs_ok_snoc:
  assumes "seqs_ok s run" "rows_of s' run = rows_of s run @ [row]" "er_seq row = int (Suc (length (rows_of s run)))"
  shows "seqs_ok s' run"
  using assms by (simp add: seqs_ok_def)

lemma commit_log:
  assumes loss: "lossless_jsonb E" and inv: "pg_inv E s0"
    and c: "commitEvent E v av now ev (createRunRow ev t s0) = Inr (Some s', res)" and v: "v = word_of_int av"
  shows "v = of_nat (length (loadPostgresEvents E s0 (ev_RunID ev)))"
    and "\<forall>run. seqs_ok s' run"
    and "loadPostgresEvents E s' = (loadPostgresEvents E s0)(ev_RunID ev := loadPostgresEvents E s0 (ev_RunID ev) @ [ar_Event res])"
    and "length (rows_of s' (ev_RunID ev)) < 2 ^ 63"
proof -
  let ?r = "ev_RunID ev" and ?n = "length (rows_of s0 (ev_RunID ev))"
  from c obtain row old where row: "eventRow E (ar_Event res) now = Some row" "er_seq row > 0"
    and ev: "sg_events s' = sg_events s0 @ [row]" and old: "sg_runs (createRunRow ev t s0) ?r = Some old" "rr_version old = av"
    and res: "ar_Event res = ev\<lparr>ev_Seq := v + 1, ev_CreatedAt := env_time E now\<rparr>"
    by (rule commitEvent_effect) (simp add: createRunRow_frame)
  have vn: "v = of_nat ?n" using created_version [OF inv old(1)] old(2) v by simp
  then show "v = of_nat (length (loadPostgresEvents E s0 ?r))" by (simp add: load_rows [OF inv])
  note f = eventRow_fields [OF row(1)]
  have "sint (v + 1) > 0" using row(2) f res by simp
  from next_version [OF vn this pg_inv_rows_bound [OF inv]]
  have seq: "er_seq row = int (Suc ?n)" and bound: "?n + 1 < 2 ^ 63" using f res by simp_all
  have rid: "er_run_id row = ?r" using f res by simp
  have rows: "rows_of s' run = rows_of s0 run @ (if run = ?r then [row] else [])" for run
    using ev rid by simp
  show "length (rows_of s' ?r) < 2 ^ 63" using bound rows by simp
  have so: "seqs_ok s0 run" for run using inv by (simp add: pg_inv_def)
  show sq: "\<forall>run. seqs_ok s' run"
  proof
    fix run
    show "seqs_ok s' run"
      by (cases "run = ?r") (use so [of run] seq rows [of run] in \<open>auto simp: seqs_ok_def\<close>)
  qed
  have "scanPostgresEvent E row = ar_Event res"
    using loss row(1) by (rule scan_eventRow) (simp add: res)
  moreover have "loadPostgresEvents E s' run = map (scanPostgresEvent E) (rows_of s' run)" for run
    using sq by (simp add: loadPostgresEvents_def run_rows_sorted)
  ultimately show "loadPostgresEvents E s' = (loadPostgresEvents E s0)(?r := loadPostgresEvents E s0 ?r @ [ar_Event res])"
    using rows by (auto simp: fun_eq_iff load_rows [OF inv])
qed

lemma commit_inv:
  assumes loss: "lossless_jsonb E" and inv: "pg_inv E s0"
    and c: "commitEvent E v av now ev (createRunRow ev t s0) = Inr (Some s', res)" and v: "v = word_of_int av"
  shows "pg_inv E s'"
proof -
  let ?r = "ev_RunID ev"
  note L = commit_log [OF assms]
  from c obtain row old new st where
    red: "Reduce (env_hash E) (loadPostgresEvents E s0 ?r @ [ar_Event res]) = Inr st"
    and row: "eventRow E (ar_Event res) now = Some row"
    and ev: "sg_events s' = sg_events s0 @ [row]" and old: "sg_runs (createRunRow ev t s0) ?r = Some old"
    and new: "sg_runs s' = (sg_runs (createRunRow ev t s0))(?r \<mapsto> new)" "projects new st"
    and res: "ar_Event res = ev\<lparr>ev_Seq := v + 1, ev_CreatedAt := env_time E now\<rparr>"
    by (rule commitEvent_effect) (simp add: createRunRow_frame load_cong [OF createRunRow_frame(1)])
  have rid: "er_run_id row = ?r" using eventRow_fields [OF row] res by simp
  have rows: "rows_of s' run = rows_of s0 run @ (if run = ?r then [row] else [])" for run
    using ev rid by simp
  have "run_Version (st_Run st) = of_nat (Suc (length (rows_of s0 ?r)))"
    using red accepts_version by (fastforce simp: Reduce_accepts load_rows [OF inv])
  then have "sint (run_Version (st_Run st)) = int (length (rows_of s' ?r))"
    using L(4) rows [of ?r] by (simp add: signed_of_nat signed_take_bit_int_eq_self del: of_nat_Suc)
  then have "row_ok E s' ?r new"
    using new(2) red L(3,4) rows [of ?r] by (auto simp: row_ok_def projects_def)
  moreover have "row_ok E s' run r" if "sg_runs s0 run = Some r" "run \<noteq> ?r" for run r
  proof -
    have "row_ok E s0 run r" using inv that(1) by (simp add: pg_inv_def)
    then show ?thesis using that(2) L(3) rows [of run] by (simp add: row_ok_def)
  qed
  ultimately show ?thesis
    using inv L(2) rows by (auto simp: pg_inv_def new(1) createRunRow_frame(7))
qed


section \<open>The append transaction\<close>

lemma appendBody_shape:
  assumes "appendBody E c v ev s = Inr (os, res)"
  shows "os = None \<and> \<not> ar_Appended res
      \<and> loadEventByIdempotencyKey E s (ev_RunID ev) (ev_IdempotencyKey ev) = Some (ar_Event res)
      \<and> sameIdempotentEvent (ar_Event res) ev
    \<or> (\<exists>av. commitEvent E v av (ac_now c) ev (createRunRow ev (ac_start c) s) = Inr (os, res) \<and> v = word_of_int av)"
proof -
  have l: "loadEventByIdempotencyKey E (createRunRow ev t s) = loadEventByIdempotencyKey E s" for t
    by (simp add: fun_eq_iff loadEventByIdempotencyKey_def createRunRow_frame)
  from assms show ?thesis
    by (simp add: appendBody_def Let_def bindE_Inr_iff l split: option.split_asm if_split_asm) force+
qed

lemma appendBody_guards:
  assumes "appendBody E c v ev s = Inr (os, res)"
  shows "checkFencing s (ac_fence1 c) ev = Inr ()" "checkFencing s (ac_fence2 c) ev = Inr ()"
    "\<not> (pg_managedRun ev s \<and> legacyLifecycleEvent (ev_Type ev))"
    "ar_Appended res \<Longrightarrow> ev_Type ev = EventActionCompleted \<Longrightarrow>
       validateActionReceipt E (createRunRow ev (ac_start c) s) ev = Inr ()"
proof -
  have f: "checkFencing (createRunRow ev t s) = checkFencing s" "pg_managedRun ev (createRunRow ev t s) = pg_managedRun ev s" for t
    by (simp_all add: fun_eq_iff checkFencing_def requiresFencing_def pg_managedRun_def validateFencingToken_def createRunRow_frame)
  show "checkFencing s (ac_fence1 c) ev = Inr ()" "checkFencing s (ac_fence2 c) ev = Inr ()"
    "\<not> (pg_managedRun ev s \<and> legacyLifecycleEvent (ev_Type ev))"
    "ar_Appended res \<Longrightarrow> ev_Type ev = EventActionCompleted \<Longrightarrow>
       validateActionReceipt E (createRunRow ev (ac_start c) s) ev = Inr ()"
    using assms
    by (auto simp: appendBody_def Let_def bindE_Inr_iff f split: option.splits if_splits)
qed

lemma pg_Append_cases:
  assumes "pg_Append E c v e s = (s', r)"
  obtains (unchanged) "s' = s" "\<exists>err. r = Inl err"
  | (replay) res where "s' = s" "r = Inr res" "\<not> ar_Appended res"
      "loadEventByIdempotencyKey E s (ev_RunID e) (ev_IdempotencyKey e) = Some (ar_Event res)"
      "sameIdempotentEvent (ar_Event res) (defaultPayloadVersion e)"
  | (committed) av res where
      "appendBody E c v (defaultPayloadVersion e) s = Inr (Some s', res)"
      "commitEvent E v av (ac_now c) (defaultPayloadVersion e) (createRunRow (defaultPayloadVersion e) (ac_start c) s) = Inr (Some s', res)"
      "v = word_of_int av" "r = Inr res \<or> (\<exists>err. r = Inl err)" "ac_fault c = PgOk \<longrightarrow> r = Inr res"
proof -
  consider "s' = s \<and> (\<exists>err. r = Inl err)"
    | "pg_transact ErrDatabase (ac_fault c) s (appendBody E c v (defaultPayloadVersion e) s) = (s', r)"
    using assms by (auto simp: pg_Append_def split: if_splits sum.splits)
  then show thesis
  proof cases
    case 2
    then show thesis
    proof (cases rule: pg_transact_cases)
      case (no_commit x)
      with appendBody_shape [OF no_commit(1)] show thesis
        by (intro replay [of x]) (auto dest!: commitEvent_effect)
    next
      case (committed x)
      with appendBody_shape [OF committed(1)] obtain av where
        "commitEvent E v av (ac_now c) (defaultPayloadVersion e) (createRunRow (defaultPayloadVersion e) (ac_start c) s) = Inr (Some s', x)"
        "v = word_of_int av" by auto
      with committed that(3) show thesis by blast
    qed (use unchanged in auto)
  qed (use unchanged in auto)
qed


lemma load_by_key_in_log:
  assumes "pg_inv E s" "loadEventByIdempotencyKey E s run k = Some e"
  shows "e \<in> set (loadPostgresEvents E s run)" "ev_IdempotencyKey e = k"
  using assms find_eq_SomeD
  by (fastforce simp: load_rows loadEventByIdempotencyKey_def, fastforce simp: loadEventByIdempotencyKey_def scanPostgresEvent_def)

lemma load_by_key_found:
  assumes "pg_inv E s" "e \<in> set (loadPostgresEvents E s run)"
  shows "loadEventByIdempotencyKey E s run (ev_IdempotencyKey e) = Some e"
proof -
  from assms obtain row where row: "row \<in> set (rows_of s run)" "e = scanPostgresEvent E row"
    by (auto simp: load_rows)
  then have "find (\<lambda>row. er_run_id row = run \<and> er_idempotency_key row = ev_IdempotencyKey e) (sg_events s) \<noteq> None"
    by (auto simp: find_eq_None_iff scanPostgresEvent_def)
  then obtain e' where e': "loadEventByIdempotencyKey E s run (ev_IdempotencyKey e) = Some e'"
    by (auto simp: loadEventByIdempotencyKey_def)
  have "distinct (map ev_IdempotencyKey (loadPostgresEvents E s run))"
    using load_reducible [OF assms(1)] accepts_log by (metis Reduce_accepts)
  with load_by_key_in_log [OF assms(1) e'] assms(2) have "e' = e" by (metis distinct_map inj_onD)
  with e' show ?thesis by simp
qed

section \<open>The PostgreSQL store is an event store\<close>

definition pg_ok :: "env \<Rightarrow> Storage \<Rightarrow> bool" where
  "pg_ok E s \<longleftrightarrow> lossless_jsonb E \<and> pg_inv E s"

interpretation pg: event_store "env_hash E" "loadPostgresEvents E" "pg_ok E" "pg_Append E"
  for E
proof
  fix s x v e s' r
  assume ok: "pg_ok E s" and app: "pg_Append E x v e s = (s', r)"
  show "pg_ok E s'" using app
  proof (cases rule: pg_Append_cases)
    case (committed av res)
    with ok commit_inv show ?thesis by (auto simp: pg_ok_def)
  qed (use ok in simp_all)
  show "loadPostgresEvents E s' = loadPostgresEvents E s \<or>
      (\<exists>e'. loadPostgresEvents E s' = (loadPostgresEvents E s)(ev_RunID e := loadPostgresEvents E s (ev_RunID e) @ [e'])
         \<and> sameIdempotentEvent e' e
         \<and> v = of_nat (length (loadPostgresEvents E s (ev_RunID e)))
         \<and> (r = Inr \<lparr>ar_Event = e', ar_Appended = True\<rparr> \<or> (\<exists>err. r = Inl err)))"
    using app
  proof (cases rule: pg_Append_cases)
    case (committed av res)
    from ok have l: "lossless_jsonb E" "pg_inv E s" by (simp_all add: pg_ok_def)
    from committed(2) have "res = \<lparr>ar_Event = (defaultPayloadVersion e)\<lparr>ev_Seq := v + 1, ev_CreatedAt := env_time E (ac_now x)\<rparr>, ar_Appended = True\<rparr>"
      by (rule commitEvent_effect)
    with commit_log(1,3) [OF l committed(2,3)] committed(4) show ?thesis by auto
  qed simp_all
next
  fix s x v e s' res
  assume ok: "pg_ok E s" and app: "pg_Append E x v e s = (s', Inr res)"
  then have l: "lossless_jsonb E" "pg_inv E s" by (simp_all add: pg_ok_def)
  show "ar_Event res \<in> set (loadPostgresEvents E s' (ev_RunID e)) \<and> sameIdempotentEvent (ar_Event res) e
      \<and> (ar_Appended res \<longleftrightarrow> loadPostgresEvents E s' \<noteq> loadPostgresEvents E s)"
    using app
  proof (cases rule: pg_Append_cases)
    case (replay res')
    with load_by_key_in_log [OF l(2) replay(4)] show ?thesis by (simp add: sameIdempotentEvent_def)
  next
    case (committed av res')
    from committed(2) have "res' = \<lparr>ar_Event = (defaultPayloadVersion e)\<lparr>ev_Seq := v + 1, ev_CreatedAt := env_time E (ac_now x)\<rparr>, ar_Appended = True\<rparr>"
      by (rule commitEvent_effect)
    with commit_log(3) [OF l committed(2,3)] committed(4) show ?thesis by (auto simp: fun_eq_iff)
  qed simp
next
  fix s run
  assume "pg_ok E s"
  then show "\<exists>st. Reduce (env_hash E) (loadPostgresEvents E s run) = Inr st"
    using load_reducible by (simp add: pg_ok_def)
qed

section \<open>Checkpoints never matter\<close>

lemma rebuild_ignores_checkpoint:
  assumes "distinct (map ev_IdempotencyKey events)" "length events < 2 ^ 64"
  shows "rebuildFromCheckpoint E run cols events = Reduce (env_hash E) events"
proof (cases cols)
  case (Some cp)
  let ?seq = "nat (cp_seq cp)" and ?h = "env_hash E"
  have keys: "ev_IdempotencyKey ` set (take ?seq events) \<inter> ev_IdempotencyKey ` set (drop ?seq events) = {}"
    using assms(1) by (metis append_take_drop_id distinct_append list.set_map map_append)
  have "Reduce ?h events = Inr rebuilt"
    if "cp_seq cp > 0" "?seq \<le> length events" "Reduce ?h (take ?seq events) = Inr cpst"
      "ReduceFromCheckpoint ?h cpst (drop ?seq events) = Inr rebuilt" for cpst rebuilt
  proof -
    have "take ?seq events \<noteq> []" "length (take ?seq events) < 2 ^ 64" using that assms(2) by auto
    with checkpoint_resume [of ?h "take ?seq events" cpst "drop ?seq events" rebuilt] that keys show ?thesis
      by (simp add: Reduce_accepts [symmetric])
  qed
  then show ?thesis
    by (auto simp: Some rebuildFromCheckpoint_def Let_def split: option.split sum.split)
qed (simp add: rebuildFromCheckpoint_def)

lemma pg_Rebuild_reduces:
  assumes "pg_inv E s"
  shows "pg_Rebuild E PgOk run s =
    (if sg_runs s run = None then Inl ErrRunNotFound
     else mapErr ErrDomain (Reduce (env_hash E) (loadPostgresEvents E s run)))"
proof -
  have "distinct (map ev_IdempotencyKey (loadPostgresEvents E s run))"
    using load_reducible [OF assms] accepts_log by (metis Reduce_accepts)
  moreover have "length (loadPostgresEvents E s run) < 2 ^ 64"
    using pg_inv_rows_bound [OF assms, of run] by (simp add: load_rows [OF assms])
  ultimately show ?thesis
    by (cases "sg_runs s run") (simp_all add: pg_Rebuild_def pg_read_def rebuild_ignores_checkpoint)
qed

end
