(* ===== verification/Lease_Manager.thy ===== *)
theory Lease_Manager
  imports Store_Postgres_Props
begin

text \<open>
  The PostgreSQL lease manager of \<open>src/internal/lease\<close>: worker registration, leases with fencing
  tokens, and durable action receipts. Every operation is one transaction on the same storage as the
  event log. A statement that has no explicit transaction is one of its own.
\<close>

section \<open>Data\<close>

record Worker =
  wk_ID :: string
  wk_RegisteredAt :: int
  wk_HeartbeatAt :: int

record Lease =
  ls_RunID :: string
  ls_WorkerID :: string
  ls_FencingToken :: uint64
  ls_ExpiresAt :: int
  ls_HeartbeatAt :: int

record AcquireResult =
  aq_Lease :: Lease
  aq_Acquired :: bool
  aq_TookOver :: bool

record ActionReceipt =
  rt_ID :: string
  rt_RunID :: string
  rt_ActionID :: string
  rt_ActionType :: CommandType
  rt_IdempotencyScope :: IdempotencyScope
  rt_Output :: EventData
  rt_OutputDigest :: string
  rt_ArtifactID :: string
  rt_ArtifactDigest :: string
  rt_CostUnits :: int
  rt_WorkerID :: string
  rt_FencingToken :: uint64
  rt_CreatedAt :: int

record ReceiptResult =
  rs_Receipt :: ActionReceipt
  rs_Recorded :: bool

datatype LeaseCause = CauseLeaseHeld | CauseLeaseExpired | CauseStaleLease

record LeaseErrorInfo =
  le_RunID :: string
  le_WorkerID :: string
  le_FencingToken :: uint64
  le_CurrentWorker :: string
  le_CurrentToken :: uint64
  le_Cause :: LeaseCause

datatype LeaseError =
    ErrInvalidLease | ErrWorkerNotFound | ErrWorkerRegistered | ErrLeaseNotFound
  | ErrLegacyExecutionInProgress | ErrReceiptNotFound | ErrReceiptConflict | ErrReceiptWithoutPlan
  | LeaseError LeaseErrorInfo | LeaseStoreError StoreError | LeaseDomainError DomainError | LeaseDatabase

section \<open>Workers\<close>

definition scanWorker :: "string \<Rightarrow> WorkerRow \<Rightarrow> Worker" where
  "scanWorker workerID row = \<lparr>wk_ID = workerID, wk_RegisteredAt = wr_registered_at row,
     wk_HeartbeatAt = wr_heartbeat_at row\<rparr>"

definition Register :: "PgFault \<Rightarrow> int \<Rightarrow> string \<Rightarrow> Storage \<Rightarrow> Storage \<times> (LeaseError + Worker)" where
  "Register fault now workerID s =
     (if workerID = '''' then (s, Inl ErrInvalidLease)
      else pg_transact LeaseDatabase fault s
        (if sg_workers s workerID \<noteq> None then Inl ErrWorkerRegistered
         else (let row = \<lparr>wr_registered_at = now, wr_heartbeat_at = now\<rparr> in
           Inr (Some (s\<lparr>sg_workers := (sg_workers s)(workerID \<mapsto> row)\<rparr>), scanWorker workerID row))))"

definition LookupWorker :: "PgFault \<Rightarrow> string \<Rightarrow> Storage \<Rightarrow> LeaseError + Worker" where
  "LookupWorker fault workerID s =
     (if workerID = '''' then Inl ErrInvalidLease
      else pg_read LeaseDatabase fault
        (case sg_workers s workerID of
           None \<Rightarrow> Inl ErrWorkerNotFound | Some row \<Rightarrow> Inr (scanWorker workerID row)))"

definition Heartbeat :: "PgFault \<Rightarrow> int \<Rightarrow> string \<Rightarrow> Storage \<Rightarrow> Storage \<times> (LeaseError + Worker)" where
  "Heartbeat fault now workerID s =
     (if workerID = '''' then (s, Inl ErrInvalidLease)
      else pg_transact LeaseDatabase fault s
        (case sg_workers s workerID of
           None \<Rightarrow> Inl ErrWorkerNotFound
         | Some row \<Rightarrow>
             (let row = row\<lparr>wr_heartbeat_at := now\<rparr> in
              Inr (Some (s\<lparr>sg_workers := (sg_workers s)(workerID \<mapsto> row)\<rparr>), scanWorker workerID row))))"

section \<open>Leases\<close>

definition scanLease :: "string \<Rightarrow> LeaseRow \<Rightarrow> Lease" where
  "scanLease runID row = \<lparr>ls_RunID = runID, ls_WorkerID = lr_worker_id row,
     ls_FencingToken = word_of_int (lr_fencing_token row), ls_ExpiresAt = lr_expires_at row,
     ls_HeartbeatAt = lr_heartbeat_at row\<rparr>"

definition loadLease :: "Storage \<Rightarrow> string \<Rightarrow> Lease option" where
  "loadLease s runID = map_option (scanLease runID) (sg_leases s runID)"

text \<open>
  \<open>unresolvedLegacyAction\<close>: the latest planned reasoning or verification step that no later event
  resolves. A missing \<open>action_id\<close> reads as null: it equals nothing, and scanning it into a
  string is an error.
\<close>

definition resolvesLegacy :: "EventRow \<Rightarrow> EventRow \<Rightarrow> bool" where
  "resolvesLegacy planned result \<longleftrightarrow>
     er_seq result > er_seq planned
     \<and> (er_event_type result \<in> {EventRunFailed, EventRunCancelled}
        \<or> ed_ActionID (er_payload result) \<noteq> ''''
          \<and> ed_ActionID (er_payload result) = ed_ActionID (er_payload planned)
          \<and> (er_event_type planned = EventReasoningPlanned
               \<and> er_event_type result \<in> {EventReasoningCompleted, EventToolCallFailed}
             \<or> er_event_type planned = EventVerificationPlanned
               \<and> er_event_type result \<in> {EventVerificationPassed, EventVerificationFailed}))"

definition unresolvedLegacyAction :: "Storage \<Rightarrow> string \<Rightarrow> LeaseError + string option" where
  "unresolvedLegacyAction s runID =
     (case filter (\<lambda>planned. er_event_type planned \<in> {EventReasoningPlanned, EventVerificationPlanned}
                 \<and> \<not> list_ex (resolvesLegacy planned) (run_rows s runID))
             (run_rows s runID) of
        [] \<Rightarrow> Inr None
      | rows \<Rightarrow>
          (let actionID = ed_ActionID (er_payload (last rows)) in
           if actionID = '''' then Inl LeaseDatabase else Inr (Some actionID)))"

text \<open>The clock is read once for the expiry and once for the heartbeat.\<close>

definition leaseRow :: "env \<Rightarrow> string \<Rightarrow> uint64 \<Rightarrow> int \<Rightarrow> int \<Rightarrow> int \<Rightarrow> LeaseRow" where
  "leaseRow E workerID token ttl now beat = \<lparr>lr_worker_id = workerID, lr_fencing_token = sint token,
     lr_expires_at = now + env_interval E ttl, lr_heartbeat_at = beat\<rparr>"

record AcquireChoices =
  aqc_fault :: PgFault
  aqc_read :: int
  aqc_write :: int
  aqc_beat :: int

text \<open>\<open>insertLease\<close> and \<open>updateExpiredLease\<close> with their constraints.\<close>

definition putLease :: "env \<Rightarrow> AcquireChoices \<Rightarrow> string \<Rightarrow> string \<Rightarrow> uint64 \<Rightarrow> int \<Rightarrow> Storage \<Rightarrow> LeaseError + Storage \<times> Lease" where
  "putLease E c runID workerID token ttl s =
     (let row = leaseRow E workerID token ttl (aqc_write c) (aqc_beat c) in
      if lr_fencing_token row \<le> 0 \<or> sg_workers s workerID = None \<or> sg_runs s runID = None then Inl LeaseDatabase
      else Inr (s\<lparr>sg_leases := (sg_leases s)(runID \<mapsto> row)\<rparr>, scanLease runID row))"

definition acquireBody :: "env \<Rightarrow> AcquireChoices \<Rightarrow> string \<Rightarrow> string \<Rightarrow> int \<Rightarrow> Storage \<Rightarrow> LeaseError + Storage option \<times> AcquireResult" where
  "acquireBody E c runID workerID ttl s =
     (if sg_workers s workerID = None then Inl ErrWorkerNotFound
      else if sg_runs s runID = None then Inl (LeaseStoreError ErrRunNotFound)
      else case loadLease s runID of
        None \<Rightarrow>
          bindE (unresolvedLegacyAction s runID) (\<lambda>pending.
          if pending \<noteq> None then Inl ErrLegacyExecutionInProgress
          else bindE (putLease E c runID workerID 1 ttl s) (\<lambda>(s', created).
            Inr (Some s', \<lparr>aq_Lease = created, aq_Acquired = True, aq_TookOver = False\<rparr>)))
      | Some current \<Rightarrow>
          if ls_ExpiresAt current > aqc_read c then
            (if ls_WorkerID current = workerID
             then Inr (Some s, \<lparr>aq_Lease = current, aq_Acquired = False, aq_TookOver = False\<rparr>)
             else Inl (LeaseError \<lparr>le_RunID = runID, le_WorkerID = workerID, le_FencingToken = 0,
                    le_CurrentWorker = ls_WorkerID current, le_CurrentToken = ls_FencingToken current,
                    le_Cause = CauseLeaseHeld\<rparr>))
          else if ls_FencingToken current \<ge> max_int64 then Inl ErrInvalidLease
          else bindE (putLease E c runID workerID (ls_FencingToken current + 1) ttl s) (\<lambda>(s', taken).
            Inr (Some s', \<lparr>aq_Lease = taken, aq_Acquired = True, aq_TookOver = True\<rparr>)))"

definition Acquire :: "env \<Rightarrow> AcquireChoices \<Rightarrow> string \<Rightarrow> string \<Rightarrow> int \<Rightarrow> Storage \<Rightarrow> Storage \<times> (LeaseError + AcquireResult)" where
  "Acquire E c runID workerID ttl s =
     (if runID = '''' \<or> workerID = '''' \<or> ttl \<le> 0 then (s, Inl ErrInvalidLease)
      else pg_transact LeaseDatabase (aqc_fault c) s (acquireBody E c runID workerID ttl s))"

definition validatePresentedLease :: "Lease \<Rightarrow> LeaseError + unit" where
  "validatePresentedLease presented =
     (if ls_RunID presented = '''' \<or> ls_WorkerID presented = '''' \<or> ls_FencingToken presented = 0
         \<or> ls_FencingToken presented > max_int64
      then Inl ErrInvalidLease else Inr ())"

definition leaseAuthorityError :: "Lease \<Rightarrow> Lease \<Rightarrow> bool \<Rightarrow> LeaseError" where
  "leaseAuthorityError presented current expired =
     LeaseError \<lparr>le_RunID = ls_RunID presented, le_WorkerID = ls_WorkerID presented,
       le_FencingToken = ls_FencingToken presented, le_CurrentWorker = ls_WorkerID current,
       le_CurrentToken = ls_FencingToken current,
       le_Cause = (if ls_WorkerID current = ls_WorkerID presented
                     \<and> ls_FencingToken current = ls_FencingToken presented \<and> expired
                   then CauseLeaseExpired else CauseStaleLease)\<rparr>"

text \<open>The check shared by \<open>Renew\<close>, \<open>Validate\<close> and \<open>validateLeaseInTx\<close>.\<close>

definition validateLeaseInTx :: "int \<Rightarrow> Lease \<Rightarrow> Storage \<Rightarrow> LeaseError + Lease" where
  "validateLeaseInTx now presented s =
     (case loadLease s (ls_RunID presented) of
        None \<Rightarrow> Inl ErrLeaseNotFound
      | Some current \<Rightarrow>
          (let expired = \<not> ls_ExpiresAt current > now in
           if ls_WorkerID current \<noteq> ls_WorkerID presented
              \<or> ls_FencingToken current \<noteq> ls_FencingToken presented \<or> expired
           then Inl (leaseAuthorityError presented current expired)
           else Inr current))"

definition Renew :: "env \<Rightarrow> PgFault \<Rightarrow> int \<Rightarrow> Lease \<Rightarrow> int \<Rightarrow> Storage \<Rightarrow> Storage \<times> (LeaseError + Lease)" where
  "Renew E fault now presented ttl s =
     (case validatePresentedLease presented of
        Inl e \<Rightarrow> (s, Inl e)
      | Inr _ \<Rightarrow>
          if ttl \<le> 0 then (s, Inl ErrInvalidLease)
          else pg_transact LeaseDatabase fault s
            (bindE (validateLeaseInTx now presented s) (\<lambda>_.
              case sg_leases s (ls_RunID presented) of
                None \<Rightarrow> Inl ErrLeaseNotFound
              | Some row \<Rightarrow>
                  (let row = row\<lparr>lr_expires_at := now + env_interval E ttl, lr_heartbeat_at := now\<rparr> in
                   Inr (Some (s\<lparr>sg_leases := (sg_leases s)(ls_RunID presented \<mapsto> row)\<rparr>),
                        scanLease (ls_RunID presented) row)))))"

definition Current :: "PgFault \<Rightarrow> string \<Rightarrow> Storage \<Rightarrow> LeaseError + Lease" where
  "Current fault runID s =
     (if runID = '''' then Inl ErrInvalidLease
      else pg_read LeaseDatabase fault
        (case loadLease s runID of None \<Rightarrow> Inl ErrLeaseNotFound | Some l \<Rightarrow> Inr l))"

definition Validate :: "PgFault \<Rightarrow> int \<Rightarrow> Lease \<Rightarrow> Storage \<Rightarrow> LeaseError + unit" where
  "Validate fault now presented s =
     bindE (validatePresentedLease presented) (\<lambda>_.
       pg_read LeaseDatabase fault (bindE (validateLeaseInTx now presented s) (\<lambda>_. Inr ())))"


section \<open>Receipts\<close>

definition scanReceipt :: "ReceiptRow \<Rightarrow> ActionReceipt" where
  "scanReceipt row = \<lparr>rt_ID = rc_receipt_id row, rt_RunID = rc_run_id row,
     rt_ActionID = rc_action_id row, rt_ActionType = rc_action_type row,
     rt_IdempotencyScope = rc_idempotency_scope row, rt_Output = rc_output row,
     rt_OutputDigest = dereferenceText (rc_output_digest row),
     rt_ArtifactID = dereferenceText (rc_artifact_id row),
     rt_ArtifactDigest = dereferenceText (rc_artifact_digest row), rt_CostUnits = rc_cost_units row,
     rt_WorkerID = rc_worker_id row, rt_FencingToken = word_of_int (rc_fencing_token row),
     rt_CreatedAt = rc_created_at row\<rparr>"

definition lookupReceiptWithQuerier :: "Storage \<Rightarrow> string \<Rightarrow> string \<Rightarrow> ActionReceipt option" where
  "lookupReceiptWithQuerier s runID actionID =
     map_option scanReceipt
       (find (\<lambda>row. rc_run_id row = runID \<and> rc_action_id row = actionID) (sg_receipts s))"

definition LookupReceipt :: "PgFault \<Rightarrow> string \<Rightarrow> string \<Rightarrow> Storage \<Rightarrow> LeaseError + ActionReceipt" where
  "LookupReceipt fault runID actionID s =
     pg_read LeaseDatabase fault
       (case lookupReceiptWithQuerier s runID actionID of
          None \<Rightarrow> Inl ErrReceiptNotFound | Some receipt \<Rightarrow> Inr receipt)"

definition sameReceipt :: "ActionReceipt \<Rightarrow> ActionReceipt \<Rightarrow> bool" where
  "sameReceipt existing replay \<longleftrightarrow>
     existing = replay\<lparr>rt_WorkerID := rt_WorkerID existing,
       rt_FencingToken := rt_FencingToken existing, rt_CreatedAt := rt_CreatedAt existing\<rparr>"

text \<open>The planned action a receipt is for: still without a result, of the same type and scope.\<close>

definition pendingPlan :: "Storage \<Rightarrow> ActionReceipt \<Rightarrow> string option" where
  "pendingPlan s receipt =
     (let rows = run_rows s (rt_RunID receipt) in
      if list_ex (\<lambda>row. er_event_type row \<in> {EventActionCompleted, EventActionFailed}
           \<and> ed_ActionID (er_payload row) = rt_ActionID receipt) rows
      then None
      else case filter (\<lambda>row. er_event_type row = EventActionPlanned
               \<and> ed_ActionID (er_payload row) = rt_ActionID receipt
               \<and> ed_ActionType (er_payload row) = rt_ActionType receipt
               \<and> ed_IdempotencyScope (er_payload row) = rt_IdempotencyScope receipt) rows of
          [] \<Rightarrow> None
        | plans \<Rightarrow> Some (ed_AttemptID (er_payload (last plans))))"

definition receiptRow :: "env \<Rightarrow> int \<Rightarrow> Lease \<Rightarrow> ActionReceipt \<Rightarrow> ReceiptRow option" where
  "receiptRow E now presented receipt =
     map_option (\<lambda>output. \<lparr>
       rc_receipt_id = rt_ID receipt, rc_run_id = rt_RunID receipt, rc_action_id = rt_ActionID receipt,
       rc_action_type = rt_ActionType receipt, rc_idempotency_scope = rt_IdempotencyScope receipt,
       rc_output = output, rc_output_digest = nullableText (rt_OutputDigest receipt),
       rc_artifact_id = nullableText (rt_ArtifactID receipt),
       rc_artifact_digest = nullableText (rt_ArtifactDigest receipt),
       rc_cost_units = rt_CostUnits receipt, rc_worker_id = ls_WorkerID presented,
       rc_fencing_token = sint (ls_FencingToken presented), rc_created_at = now\<rparr>)
     (env_jsonb E (rt_Output receipt))"

text \<open>
  The constraints of \<open>action_receipts\<close>: primary key, the unique indexes on (run, action) and
  (run, artifact), the foreign keys to runs, workers and artifacts, and the check constraints.
\<close>

definition receiptConstraints :: "Storage \<Rightarrow> ReceiptRow \<Rightarrow> bool" where
  "receiptConstraints s row \<longleftrightarrow>
     sg_runs s (rc_run_id row) \<noteq> None \<and> sg_workers s (rc_worker_id row) \<noteq> None
     \<and> IdempotencyScope_Valid (rc_idempotency_scope row)
     \<and> (case rc_output_digest row of None \<Rightarrow> True | Some d \<Rightarrow> sha256DigestPattern d)
     \<and> (case rc_artifact_id row of
          None \<Rightarrow> rc_artifact_digest row = None
        | Some a \<Rightarrow> sg_artifacts s a \<noteq> None
            \<and> (case rc_artifact_digest row of None \<Rightarrow> False | Some d \<Rightarrow> sha256DigestPattern d))
     \<and> rc_cost_units row \<ge> 0 \<and> rc_fencing_token row > 0
     \<and> \<not> (\<exists>r\<in>set (sg_receipts s). rc_receipt_id r = rc_receipt_id row
           \<or> rc_run_id r = rc_run_id row \<and> rc_action_id r = rc_action_id row
           \<or> rc_run_id r = rc_run_id row \<and> rc_artifact_id row \<noteq> None \<and> rc_artifact_id r = rc_artifact_id row)"

definition insertReceipt :: "env \<Rightarrow> int \<Rightarrow> Lease \<Rightarrow> ActionReceipt \<Rightarrow> Storage \<Rightarrow> LeaseError + Storage option \<times> ReceiptResult" where
  "insertReceipt E now presented receipt s =
     (case receiptRow E now presented receipt of
        None \<Rightarrow> Inl LeaseDatabase
      | Some row \<Rightarrow>
          if \<not> receiptConstraints s row then Inl LeaseDatabase
          else Inr (Some (s\<lparr>sg_receipts := sg_receipts s @ [row]\<rparr>),
                 \<lparr>rs_Receipt = receipt\<lparr>rt_WorkerID := ls_WorkerID presented,
                    rt_FencingToken := ls_FencingToken presented, rt_CreatedAt := now\<rparr>,
                  rs_Recorded = True\<rparr>))"

definition receiptBody :: "env \<Rightarrow> int \<Rightarrow> int \<Rightarrow> Lease \<Rightarrow> ActionReceipt \<Rightarrow> Storage \<Rightarrow> LeaseError + Storage option \<times> ReceiptResult" where
  "receiptBody E now writeNow presented receipt s =
     bindE (validateLeaseInTx now presented s) (\<lambda>_.
       case lookupReceiptWithQuerier s (rt_RunID receipt) (rt_ActionID receipt) of
         Some existing \<Rightarrow>
           if \<not> sameReceipt existing receipt then Inl ErrReceiptConflict
           else Inr (Some s, \<lparr>rs_Receipt = existing, rs_Recorded = False\<rparr>)
       | None \<Rightarrow>
           (case pendingPlan s receipt of
              None \<Rightarrow> Inl ErrReceiptWithoutPlan
            | Some plannedAttemptID \<Rightarrow>
                bindE (mapErr LeaseDomainError
                    (ValidateManagedReceiptEvidence E (rt_ActionType receipt) (rt_ActionID receipt)
                       plannedAttemptID (rt_Output receipt) (rt_OutputDigest receipt)
                       (rt_ArtifactID receipt) (rt_ArtifactDigest receipt)))
                  (\<lambda>_. insertReceipt E writeNow presented receipt s)))"

definition RecordReceipt :: "env \<Rightarrow> PgFault \<Rightarrow> int \<Rightarrow> int \<Rightarrow> Lease \<Rightarrow> ActionReceipt \<Rightarrow> Storage \<Rightarrow> Storage \<times> (LeaseError + ReceiptResult)" where
  "RecordReceipt E fault now writeNow presented receipt s =
     (case validatePresentedLease presented of
        Inl e \<Rightarrow> (s, Inl e)
      | Inr _ \<Rightarrow>
          if rt_RunID receipt = '''' \<or> rt_RunID receipt \<noteq> ls_RunID presented \<or> rt_ActionID receipt = ''''
             \<or> rt_ActionType receipt = CommandNone \<or> \<not> IdempotencyScope_Valid (rt_IdempotencyScope receipt)
             \<or> rt_CostUnits receipt < 0
          then (s, Inl ErrInvalidLease)
          else case ValidateEventData (env_parsers E) (rt_Output receipt) of
            Inl e \<Rightarrow> (s, Inl (LeaseStoreError e))
          | Inr _ \<Rightarrow>
              (let receipt = (if rt_ID receipt = '''' then receipt\<lparr>rt_ID := rt_RunID receipt @ '':'' @ rt_ActionID receipt\<rparr>
                              else receipt) in
               pg_transact LeaseDatabase fault s (receiptBody E now writeNow presented receipt s)))"

end
