(* ===== verification/Storage_System.thy ===== *)
theory Storage_System
  imports Lease_Manager
begin

text \<open>
  The durable storage under all its writers. \<open>storage_step\<close> is one transaction of any worker,
  controller or operator, with every choice of arguments, clock readings and faults; \<open>reachable\<close>
  are the storages that some interleaving of such transactions leads to from the empty database. The
  invariants here span the event store, the lease manager and the Artifact store: derived rows match
  the log, fencing tokens only grow, fenced events are ordered by token, and completions rest on
  receipts.
\<close>

section \<open>Interleavings\<close>

inductive storage_step :: "env \<Rightarrow> Storage \<Rightarrow> Storage \<Rightarrow> bool" for E where
  step_append: "pg_Append E c v ev s = (s', r) \<Longrightarrow> storage_step E s s'"
| step_checkpoint: "SaveCheckpoint E fault now run v s = (s', r) \<Longrightarrow> storage_step E s s'"
| step_artifact: "art_Write E wc root input s = (s', r) \<Longrightarrow> storage_step E s s'"
| step_register: "Register fault now w s = (s', r) \<Longrightarrow> storage_step E s s'"
| step_heartbeat: "Heartbeat fault now w s = (s', r) \<Longrightarrow> storage_step E s s'"
| step_acquire: "Acquire E ac run w ttl s = (s', r) \<Longrightarrow> storage_step E s s'"
| step_renew: "Renew E fault now l ttl s = (s', r) \<Longrightarrow> storage_step E s s'"
| step_receipt: "RecordReceipt E fault now wnow l rc s = (s', r) \<Longrightarrow> storage_step E s s'"

inductive reachable :: "env \<Rightarrow> Storage \<Rightarrow> bool" for E where
  reachable_empty: "reachable E emptyStorage"
| reachable_step: "reachable E s \<Longrightarrow> storage_step E s s' \<Longrightarrow> reachable E s'"

inductive storage_steps :: "env \<Rightarrow> Storage \<Rightarrow> Storage \<Rightarrow> bool" for E where
  steps_refl: "storage_steps E s s"
| steps_step: "storage_steps E s s' \<Longrightarrow> storage_step E s' s'' \<Longrightarrow> storage_steps E s s''"

lemma reachable_steps: "storage_steps E s s' \<Longrightarrow> reachable E s \<Longrightarrow> reachable E s'"
  by (induction rule: storage_steps.induct) (auto intro: reachable_step)

section \<open>What each operation touches\<close>

lemma pg_transact_state:
  "pg_transact d f s body = (s', r) \<Longrightarrow> s' = s \<or> (\<exists>x. body = Inr (Some s', x))"
  by (erule pg_transact_cases) auto

lemma Checkpoint_effect:
  assumes "SaveCheckpoint E fault now run v s = (s', r)"
  shows "s' = s \<or> (\<exists>row cp. sg_runs s run = Some row
      \<and> s' = s\<lparr>sg_runs := (sg_runs s)(run \<mapsto> row\<lparr>rr_checkpoint := cp\<rparr>)\<rparr>)"
  using assms
  by (auto simp: SaveCheckpoint_def checkpointBody_def Let_def bindE_Inr_iff split: if_splits option.splits
      dest!: pg_transact_state)

lemma art_Write_effect:
  assumes "art_Write E c root input s = (s', r)"
  shows "sg_events s' = sg_events s \<and> sg_runs s' = sg_runs s \<and> sg_leases s' = sg_leases s
    \<and> sg_workers s' = sg_workers s \<and> sg_receipts s' = sg_receipts s \<and> sg_attempts s' = sg_attempts s
    \<and> map_le (sg_artifacts s) (sg_artifacts s')"
proof -
  have ins: "sg_events t' = sg_events t \<and> sg_runs t' = sg_runs t \<and> sg_leases t' = sg_leases t
    \<and> sg_workers t' = sg_workers t \<and> sg_receipts t' = sg_receipts t \<and> sg_attempts t' = sg_attempts t
    \<and> map_le (sg_artifacts t) (sg_artifacts t')"
    if "pg_transact ErrDatabase f t (insertArtifact i row t) = (t', q)" for f i row t t' q
    using that by (auto simp: insertArtifact_def map_le_def split: if_splits dest!: pg_transact_state)
  show ?thesis
    using assms
    by (auto simp: art_Write_def Let_def split: if_splits option.splits prod.splits sum.splits dest!: ins)
qed

lemma Register_effect:
  "Register fault now w s = (s', r) \<Longrightarrow>
     s' = s \<or> sg_workers s w = None \<and> (\<exists>row. s' = s\<lparr>sg_workers := (sg_workers s)(w \<mapsto> row)\<rparr>)"
  by (auto simp: Register_def Let_def split: if_splits dest!: pg_transact_state)

lemma Heartbeat_effect:
  "Heartbeat fault now w s = (s', r) \<Longrightarrow>
     s' = s \<or> (\<exists>row. s' = s\<lparr>sg_workers := (sg_workers s)(w \<mapsto> row)\<rparr>)"
  by (auto simp: Heartbeat_def Let_def split: if_splits option.splits dest!: pg_transact_state)

text \<open>A lease row moves by renewal (same owner and token) or by takeover (a larger token).\<close>

definition lease_next :: "LeaseRow option \<Rightarrow> LeaseRow option \<Rightarrow> bool" where
  "lease_next old new \<longleftrightarrow>
     (case new of
        None \<Rightarrow> old = None
      | Some n \<Rightarrow>
          (case old of
             None \<Rightarrow> lr_fencing_token n = 1
           | Some p \<Rightarrow> lr_worker_id n = lr_worker_id p \<and> lr_fencing_token n = lr_fencing_token p
               \<or> lr_fencing_token n = lr_fencing_token p + 1))"

lemma lease_next_refl [simp]: "lease_next l l"
  by (simp add: lease_next_def split: option.split)

lemma lease_next_same:
  "lr_worker_id n = lr_worker_id p \<Longrightarrow> lr_fencing_token n = lr_fencing_token p \<Longrightarrow> lease_next (Some p) (Some n)"
  by (simp add: lease_next_def)

definition lease_inv :: "Storage \<Rightarrow> bool" where
  "lease_inv s \<longleftrightarrow> (\<forall>run l. sg_leases s run = Some l \<longrightarrow>
     0 < lr_fencing_token l \<and> lr_fencing_token l < 2 ^ 63
     \<and> sg_runs s run \<noteq> None \<and> sg_workers s (lr_worker_id l) \<noteq> None)"

lemma token_word: "0 < t \<Longrightarrow> t < 2 ^ 63 \<Longrightarrow> sint (word_of_int t :: uint64) = t"
  by (simp add: signed_of_int signed_take_bit_int_eq_self)

lemma token_succ:
  assumes "0 < t" "t < 2 ^ 63" "\<not> (word_of_int t :: uint64) \<ge> max_int64"
  shows "sint (word_of_int t + 1 :: uint64) = t + 1"
proof -
  have "t \<noteq> 9223372036854775807" using assms(3) by auto
  with assms(1,2) have "0 < t + 1" "t + 1 < 2 ^ 63" by auto
  moreover have "word_of_int t + 1 = (word_of_int (t + 1) :: uint64)" by simp
  ultimately show ?thesis using token_word by metis
qed

lemma Acquire_effect:
  assumes "Acquire E c run w ttl s = (s', r)" "lease_inv s"
  shows "s' = s \<or> (\<exists>row. s' = s\<lparr>sg_leases := (sg_leases s)(run \<mapsto> row)\<rparr> \<and> lease_next (sg_leases s run) (Some row)
     \<and> 0 < lr_fencing_token row \<and> lr_fencing_token row < 2 ^ 63 \<and> sg_runs s run \<noteq> None
     \<and> sg_workers s (lr_worker_id row) \<noteq> None)"
proof -
  from assms(1) consider "s' = s" | x where "acquireBody E c run w ttl s = Inr (Some s', x)"
    by (auto simp: Acquire_def split: if_splits dest!: pg_transact_state)
  then show ?thesis
  proof cases
    case 2
    show ?thesis
    proof (cases "sg_leases s run")
      case None
      with 2 show ?thesis
        by (auto simp: acquireBody_def loadLease_def putLease_def leaseRow_def Let_def bindE_Inr_iff
            lease_next_def split: if_splits)
    next
      case (Some l)
      with assms(2) have t: "0 < lr_fencing_token l" "lr_fencing_token l < 2 ^ 63" by (auto simp: lease_inv_def)
      show ?thesis
      proof (cases "lr_expires_at l > aqc_read c")
        case True
        with 2 Some show ?thesis
          by (auto simp: acquireBody_def loadLease_def scanLease_def split: if_splits)
      next
        case False
        with 2 Some have m: "\<not> (word_of_int (lr_fencing_token l) :: uint64) \<ge> max_int64"
          and p: "\<exists>q. putLease E c run w (word_of_int (lr_fencing_token l) + 1) ttl s = Inr (s', q)"
          by (auto simp: acquireBody_def loadLease_def scanLease_def bindE_Inr_iff split: if_splits)
        let ?row = "leaseRow E w (word_of_int (lr_fencing_token l) + 1) ttl (aqc_write c) (aqc_beat c)"
        from p have "s' = s\<lparr>sg_leases := (sg_leases s)(run \<mapsto> ?row)\<rparr>" "0 < lr_fencing_token ?row"
          "sg_runs s run \<noteq> None" "sg_workers s w \<noteq> None"
          by (auto simp: putLease_def Let_def split: if_splits)
        moreover have "lr_fencing_token ?row = lr_fencing_token l + 1" "lr_worker_id ?row = w"
          using token_succ [OF t m] by (simp_all add: leaseRow_def)
        moreover have "lr_fencing_token ?row < 2 ^ 63"
          using sint_lt [of "word_of_int (lr_fencing_token l) + 1 :: uint64"] by (simp add: leaseRow_def)
        ultimately show ?thesis using Some by (intro disjI2 exI [of _ ?row]) (simp add: lease_next_def)
      qed
    qed
  qed simp
qed

lemma Renew_effect:
  assumes "Renew E fault now l ttl s = (s', r)"
  shows "s' = s \<or> (\<exists>old row. sg_leases s (ls_RunID l) = Some old
     \<and> s' = s\<lparr>sg_leases := (sg_leases s)(ls_RunID l \<mapsto> row)\<rparr>
     \<and> lr_worker_id row = lr_worker_id old \<and> lr_fencing_token row = lr_fencing_token old)"
  using assms
  by (auto simp: Renew_def bindE_Inr_iff Let_def split: if_splits option.splits sum.splits dest!: pg_transact_state)

lemma RecordReceipt_effect:
  assumes "RecordReceipt E fault now wnow l rc s = (s', r)"
  shows "s' = s \<or> (\<exists>row. s' = s\<lparr>sg_receipts := sg_receipts s @ [row]\<rparr> \<and> receiptConstraints s row
    \<and> rc_run_id row = ls_RunID l \<and> rc_worker_id row = ls_WorkerID l \<and> rc_fencing_token row = sint (ls_FencingToken l)
    \<and> (\<exists>cur. validateLeaseInTx now l s = Inr cur))"
  using assms
  by (auto simp: RecordReceipt_def receiptBody_def insertReceipt_def receiptRow_def Let_def bindE_Inr_iff
      split: if_splits option.splits sum.splits dest!: pg_transact_state)


lemma pg_Append_effect:
  assumes "pg_Append E c v e s = (s', r)"
  shows "s' = s \<or> (\<exists>row res. appendBody E c v (defaultPayloadVersion e) s = Inr (Some s', res) \<and> ar_Appended res
     \<and> eventRow E (ar_Event res) (ac_now c) = Some row \<and> sg_events s' = sg_events s @ [row]
     \<and> ar_Event res = (defaultPayloadVersion e)\<lparr>ev_Seq := v + 1, ev_CreatedAt := env_time E (ac_now c)\<rparr>
     \<and> sg_leases s' = sg_leases s \<and> sg_workers s' = sg_workers s \<and> sg_receipts s' = sg_receipts s
     \<and> (\<forall>run. sg_runs s run \<noteq> None \<longrightarrow> sg_runs s' run \<noteq> None))"
  using assms
proof (cases rule: pg_Append_cases)
  case (committed av res)
  let ?e = "defaultPayloadVersion e"
  from committed(2) obtain row new where
    "eventRow E (ar_Event res) (ac_now c) = Some row" "sg_events s' = sg_events s @ [row]"
    "res = \<lparr>ar_Event = ?e\<lparr>ev_Seq := v + 1, ev_CreatedAt := env_time E (ac_now c)\<rparr>, ar_Appended = True\<rparr>"
    "sg_leases s' = sg_leases s" "sg_workers s' = sg_workers s" "sg_receipts s' = sg_receipts s"
    "sg_runs s' = (sg_runs (createRunRow ?e (ac_start c) s))(ev_RunID e \<mapsto> new)"
    by (rule commitEvent_effect) (simp_all add: createRunRow_frame)
  moreover from this(7) have "\<forall>run. sg_runs s run \<noteq> None \<longrightarrow> sg_runs s' run \<noteq> None"
    by (auto simp: createRunRow_def split: if_splits)
  ultimately show ?thesis using committed(1) by auto
qed simp_all

section \<open>Invariants of every interleaving\<close>

text \<open>One step, seen by the tables that matter to leases: lease rows move on, nothing is deleted.\<close>

lemma step_tables:
  assumes "storage_step E s s'" "lease_inv s"
  shows "(\<forall>run. lease_next (sg_leases s run) (sg_leases s' run))
    \<and> (\<forall>run. sg_runs s run \<noteq> None \<longrightarrow> sg_runs s' run \<noteq> None)
    \<and> (\<forall>w. sg_workers s w \<noteq> None \<longrightarrow> sg_workers s' w \<noteq> None)
    \<and> lease_inv s'"
  using assms
proof (cases rule: storage_step.cases)
  case (step_append c v ev r)
  with assms(2) pg_Append_effect [OF step_append] show ?thesis by (auto simp: lease_inv_def)
next
  case (step_checkpoint fault now run v r)
  with assms(2) Checkpoint_effect [OF step_checkpoint] show ?thesis by (fastforce simp: lease_inv_def)
next
  case (step_artifact wc root input r)
  with assms(2) art_Write_effect [OF step_artifact] show ?thesis by (auto simp: lease_inv_def)
next
  case (step_register fault now w r)
  with assms(2) Register_effect [OF step_register] show ?thesis by (auto simp: lease_inv_def)
next
  case (step_heartbeat fault now w r)
  with assms(2) Heartbeat_effect [OF step_heartbeat] show ?thesis by (auto simp: lease_inv_def)
next
  case (step_acquire ac run w ttl r)
  with assms(2) Acquire_effect [OF step_acquire assms(2)] show ?thesis
    by (auto simp: lease_inv_def split: if_splits)
next
  case (step_renew fault now l ttl r)
  with assms(2) Renew_effect [OF step_renew] show ?thesis
    by (auto simp: lease_inv_def lease_next_same split: if_splits)
next
  case (step_receipt fault now wnow l rc r)
  with assms(2) RecordReceipt_effect [OF step_receipt] show ?thesis by (auto simp: lease_inv_def)
qed

lemma reachable_lease_inv: "reachable E s \<Longrightarrow> lease_inv s"
  by (induction rule: reachable.induct) (simp add: lease_inv_def emptyStorage_def, use step_tables in blast)

text \<open>The event table only grows, and only by a successful append.\<close>

lemma step_events:
  assumes "storage_step E s s'"
  shows "sg_events s' = sg_events s \<or> (\<exists>c v e r. pg_Append E c v e s = (s', r) \<and> s' \<noteq> s)"
  using assms
proof (cases rule: storage_step.cases)
  case (step_append c v ev r)
  then show ?thesis by (cases "s' = s") auto
next
  case (step_checkpoint fault now run v r)
  with Checkpoint_effect [OF step_checkpoint] show ?thesis by auto
next
  case (step_artifact wc root input r)
  with art_Write_effect [OF step_artifact] show ?thesis by auto
next
  case (step_register fault now w r)
  with Register_effect [OF step_register] show ?thesis by auto
next
  case (step_heartbeat fault now w r)
  with Heartbeat_effect [OF step_heartbeat] show ?thesis by auto
next
  case (step_acquire ac run w ttl r)
  then have "acquireBody E ac run w ttl s = Inr (Some s', x) \<Longrightarrow> sg_events s' = sg_events s" for x
    by (auto simp: acquireBody_def putLease_def Let_def bindE_Inr_iff split: if_splits option.splits)
  with step_acquire show ?thesis
    by (auto simp: Acquire_def split: if_splits dest!: pg_transact_state)
next
  case (step_renew fault now l ttl r)
  with Renew_effect [OF step_renew] show ?thesis by auto
next
  case (step_receipt fault now wnow l rc r)
  with RecordReceipt_effect [OF step_receipt] show ?thesis by auto
qed


lemma row_ok_cong:
  assumes "sg_events s' = sg_events s"
  shows "row_ok E s' run (row\<lparr>rr_checkpoint := cp\<rparr>) = row_ok E s run row"
    "row_ok E s' run row = row_ok E s run row" "seqs_ok s' run = seqs_ok s run"
  unfolding row_ok_def projects_def seqs_ok_def load_cong [OF assms] assms by simp_all

lemma pg_ok_frame:
  assumes "pg_ok E s" "sg_events s' = sg_events s \<and> sg_runs s' = sg_runs s"
  shows "pg_ok E s'"
proof -
  from assms(2) have e: "sg_events s' = sg_events s" by simp
  show ?thesis using assms unfolding pg_ok_def pg_inv_def row_ok_cong [OF e] by (simp add: e)
qed

lemma pg_ok_checkpoint:
  assumes "pg_ok E s" "sg_runs s run = Some row"
  shows "pg_ok E (s\<lparr>sg_runs := (sg_runs s)(run \<mapsto> row\<lparr>rr_checkpoint := cp\<rparr>)\<rparr>)" (is "pg_ok E ?s")
proof -
  have e: "sg_events ?s = sg_events s" by simp
  show ?thesis using assms unfolding pg_ok_def pg_inv_def row_ok_cong(2,3) [OF e]
    by (auto simp: row_ok_cong(1) [OF refl])
qed

lemma step_pg_ok:
  assumes "storage_step E s s'" "pg_ok E s" "lease_inv s"
  shows "pg_ok E s'"
  using assms(1)
proof (cases rule: storage_step.cases)
  case (step_append c v ev r)
  with assms(2) pg.append_ok show ?thesis by blast
next
  case (step_checkpoint fault now run v r)
  from Checkpoint_effect [OF this] show ?thesis
    using assms(2) pg_ok_checkpoint by auto
next
  case (step_artifact wc root input r)
  from art_Write_effect [OF this] show ?thesis by (intro pg_ok_frame [OF assms(2)]) simp
next
  case (step_register fault now w r)
  from Register_effect [OF this] show ?thesis by (intro pg_ok_frame [OF assms(2)]) auto
next
  case (step_heartbeat fault now w r)
  from Heartbeat_effect [OF this] show ?thesis by (intro pg_ok_frame [OF assms(2)]) auto
next
  case (step_acquire ac run w ttl r)
  from Acquire_effect [OF this assms(3)] show ?thesis by (intro pg_ok_frame [OF assms(2)]) auto
next
  case (step_renew fault now l ttl r)
  from Renew_effect [OF this] show ?thesis by (intro pg_ok_frame [OF assms(2)]) auto
next
  case (step_receipt fault now wnow l rc r)
  from RecordReceipt_effect [OF this] show ?thesis by (intro pg_ok_frame [OF assms(2)]) auto
qed

lemma reachable_pg_ok: "reachable E s \<Longrightarrow> lossless_jsonb E \<Longrightarrow> pg_ok E s"
proof (induction rule: reachable.induct)
  case reachable_empty
  then show ?case by (simp add: pg_ok_def pg_inv_empty)
next
  case (reachable_step s s')
  then show ?case using step_pg_ok reachable_lease_inv by blast
qed

section \<open>Fencing\<close>

lemma validateFencingToken_ok:
  "validateFencingToken s now ev = Inr u \<longleftrightarrow>
     ev_WorkerID ev \<noteq> '''' \<and> ev_FencingToken ev \<noteq> 0 \<and> ev_FencingToken ev \<le> max_int64
     \<and> (\<exists>l. sg_leases s (ev_RunID ev) = Some l \<and> lr_expires_at l > now \<and> lr_worker_id l = ev_WorkerID ev
          \<and> word_of_int (lr_fencing_token l) = ev_FencingToken ev)"
  by (auto simp: validateFencingToken_def Let_def split: option.splits if_splits)

lemma fenced_row:
  assumes inv: "lease_inv s" and body: "appendBody E c v ev s = Inr (Some s', res)"
    and row: "eventRow E (ar_Event res) now = Some row"
    and res: "ar_Event res = ev\<lparr>ev_Seq := v + 1, ev_CreatedAt := t\<rparr>" and f: "requiresFencing ev s"
  obtains l where "sg_leases s (ev_RunID ev) = Some l" "er_worker_id row = Some (lr_worker_id l)"
    "er_fencing_token row = Some (lr_fencing_token l)" "lr_expires_at l > ac_fence1 c" "lr_expires_at l > ac_fence2 c"
proof -
  from appendBody_guards(1,2) [OF body] f
  have "validateFencingToken s (ac_fence1 c) ev = Inr ()" "validateFencingToken s (ac_fence2 c) ev = Inr ()"
    by (simp_all add: checkFencing_def)
  then obtain l where l: "sg_leases s (ev_RunID ev) = Some l" "lr_expires_at l > ac_fence1 c" "lr_expires_at l > ac_fence2 c"
    "lr_worker_id l = ev_WorkerID ev" "word_of_int (lr_fencing_token l) = ev_FencingToken ev"
    and e: "ev_WorkerID ev \<noteq> ''''" "ev_FencingToken ev \<noteq> 0"
    by (auto simp: validateFencingToken_ok)
  have "sint (ev_FencingToken ev) = lr_fencing_token l"
    using inv l(1,5) token_word by (metis lease_inv_def)
  then show thesis
    using l e row res by (intro that [of l]) (auto simp: eventRow_def nullableText_def nullableUint64_def)
qed

text \<open>
  The rows of a Run that carry a fencing token: their tokens never decrease along the log, none is
  beyond the current lease, and one token belongs to one worker.
\<close>

definition fenced_rows :: "Storage \<Rightarrow> string \<Rightarrow> EventRow list" where
  "fenced_rows s run = filter (\<lambda>row. er_fencing_token row \<noteq> None) (rows_of s run)"

lemma fenced_rows_cong: "sg_events s' = sg_events s \<Longrightarrow> fenced_rows s' run = fenced_rows s run"
  unfolding fenced_rows_def by (rule arg_cong)

lemma fenced_rows_snoc:
  "sg_events s' = sg_events s @ [row] \<Longrightarrow> fenced_rows s' run =
     fenced_rows s run @ (if run = er_run_id row \<and> er_fencing_token row \<noteq> None then [row] else [])"
  unfolding fenced_rows_def by auto

definition within_lease :: "LeaseRow option \<Rightarrow> EventRow \<Rightarrow> bool" where
  "within_lease lease row \<longleftrightarrow>
     (\<exists>l. lease = Some l \<and> the (er_fencing_token row) \<le> lr_fencing_token l
        \<and> (er_fencing_token row = Some (lr_fencing_token l) \<longrightarrow> er_worker_id row = Some (lr_worker_id l)))"

definition one_owner :: "EventRow list \<Rightarrow> bool" where
  "one_owner rows \<longleftrightarrow> (\<forall>r1\<in>set rows. \<forall>r2\<in>set rows.
     er_fencing_token r1 = er_fencing_token r2 \<longrightarrow> er_worker_id r1 = er_worker_id r2)"

definition fencing_ok :: "LeaseRow option \<Rightarrow> EventRow list \<Rightarrow> bool" where
  "fencing_ok lease rows \<longleftrightarrow>
     sorted (map (\<lambda>row. the (er_fencing_token row)) rows)
     \<and> (\<forall>row\<in>set rows. within_lease lease row) \<and> one_owner rows"

definition fencing_inv :: "Storage \<Rightarrow> bool" where
  "fencing_inv s \<longleftrightarrow> (\<forall>run. fencing_ok (sg_leases s run) (fenced_rows s run))"

lemma within_lease_next:
  assumes "within_lease old row" "lease_next old new" "er_fencing_token row \<noteq> None"
  shows "within_lease new row"
proof -
  from assms(1) obtain l where l: "old = Some l" "the (er_fencing_token row) \<le> lr_fencing_token l"
    "er_fencing_token row = Some (lr_fencing_token l) \<longrightarrow> er_worker_id row = Some (lr_worker_id l)"
    unfolding within_lease_def by blast
  from assms(2) l(1) obtain l' where "new = Some l'"
    "lr_worker_id l' = lr_worker_id l \<and> lr_fencing_token l' = lr_fencing_token l
     \<or> lr_fencing_token l' = lr_fencing_token l + 1"
    by (cases new) (auto simp: lease_next_def)
  with l assms(3) show ?thesis unfolding within_lease_def by (intro exI [of _ l']) auto
qed

lemma fencing_ok_next:
  "fencing_ok old rows \<Longrightarrow> lease_next old new \<Longrightarrow> \<forall>row\<in>set rows. er_fencing_token row \<noteq> None \<Longrightarrow> fencing_ok new rows"
  unfolding fencing_ok_def using within_lease_next by blast

lemma fencing_ok_snoc:
  assumes ok: "fencing_ok (Some l) rows" and row: "er_worker_id row = Some (lr_worker_id l)"
    "er_fencing_token row = Some (lr_fencing_token l)"
  shows "fencing_ok (Some l) (rows @ [row])"
proof -
  have w: "\<forall>r\<in>set rows. within_lease (Some l) r" and o: "one_owner rows" using ok unfolding fencing_ok_def by blast+
  have "one_owner (rows @ [row])" unfolding one_owner_def
  proof (intro ballI impI)
    fix r1 r2
    assume r: "r1 \<in> set (rows @ [row])" "r2 \<in> set (rows @ [row])" and eq: "er_fencing_token r1 = er_fencing_token r2"
    have same: "er_worker_id r = er_worker_id row" if "r \<in> set rows" "er_fencing_token r = er_fencing_token row" for r
      using w that row unfolding within_lease_def by auto
    consider "r1 \<in> set rows" "r2 \<in> set rows" | "r1 = row" "r2 \<in> set rows" | "r1 \<in> set rows" "r2 = row" | "r1 = row" "r2 = row"
      using r by auto
    then show "er_worker_id r1 = er_worker_id r2"
    proof cases
      case 1
      with o eq show ?thesis unfolding one_owner_def by blast
    next
      case 2
      with same [of r2] eq show ?thesis by simp
    next
      case 3
      with same [of r1] eq show ?thesis by simp
    qed simp
  qed
  moreover have "within_lease (Some l) row" using row unfolding within_lease_def by simp
  moreover have "the (er_fencing_token r) \<le> the (er_fencing_token row)" if "r \<in> set rows" for r
    using w that row unfolding within_lease_def by auto
  ultimately show ?thesis using ok unfolding fencing_ok_def by (auto simp: sorted_append)
qed

lemma fencing_append:
  assumes inv: "fencing_inv s" "lease_inv s" and app: "pg_Append E c v e s = (s', r)"
  shows "fencing_inv s'"
proof (cases "s' = s")
  case False
  let ?e = "defaultPayloadVersion e" and ?r = "ev_RunID e"
  from False pg_Append_effect [OF app] obtain row res where
    body: "appendBody E c v ?e s = Inr (Some s', res)" and row: "eventRow E (ar_Event res) (ac_now c) = Some row"
    and ev: "sg_events s' = sg_events s @ [row]" and lease: "sg_leases s' = sg_leases s"
    and res: "ar_Event res = ?e\<lparr>ev_Seq := v + 1, ev_CreatedAt := env_time E (ac_now c)\<rparr>"
    by blast
  have rid: "er_run_id row = ?r" using eventRow_fields [OF row] res by simp
  have rows: "fenced_rows s' run = fenced_rows s run @ (if run = ?r \<and> er_fencing_token row \<noteq> None then [row] else [])" for run
    unfolding fenced_rows_snoc [OF ev] rid by simp
  have old: "fencing_ok (sg_leases s run) (fenced_rows s run)" for run
    using inv(1) unfolding fencing_inv_def by blast
  have "fencing_ok (sg_leases s run) (fenced_rows s' run)" for run
  proof (cases "run = ?r \<and> er_fencing_token row \<noteq> None")
    case True
    then have "ev_FencingToken e \<noteq> 0"
      using row res by (auto simp: eventRow_def nullableUint64_def split: if_splits)
    then have "requiresFencing ?e s" by (simp add: requiresFencing_def leaseSensitiveEvent_def)
    with inv(2) body row res obtain l where "sg_leases s ?r = Some l" "er_worker_id row = Some (lr_worker_id l)"
      "er_fencing_token row = Some (lr_fencing_token l)"
      by (rule fenced_row) simp
    with True old [of run] show ?thesis unfolding rows by (simp add: fencing_ok_snoc)
  next
    case False
    then show ?thesis unfolding rows using old [of run] by (simp only: if_False append_Nil2)
  qed
  then show ?thesis unfolding fencing_inv_def lease by blast
qed (use inv in simp)

lemma reachable_fencing: "reachable E s \<Longrightarrow> fencing_inv s"
proof (induction rule: reachable.induct)
  case reachable_empty
  then show ?case by (simp add: fencing_inv_def fencing_ok_def one_owner_def fenced_rows_def emptyStorage_def)
next
  case (reachable_step s s')
  have l: "lease_inv s" using reachable_step reachable_lease_inv by blast
  from step_events [OF reachable_step.hyps(2)] show ?case
  proof
    assume "sg_events s' = sg_events s"
    then have eq: "fenced_rows s' run = fenced_rows s run" for run by (rule fenced_rows_cong)
    have "fencing_ok (sg_leases s' run) (fenced_rows s run)" for run
    proof (rule fencing_ok_next)
      show "fencing_ok (sg_leases s run) (fenced_rows s run)"
        using reachable_step.IH by (simp add: fencing_inv_def)
      show "lease_next (sg_leases s run) (sg_leases s' run)"
        using step_tables [OF reachable_step.hyps(2) l] by blast
    qed (simp add: fenced_rows_def)
    then show ?thesis unfolding fencing_inv_def eq by blast
  next
    assume "\<exists>c v e r. pg_Append E c v e s = (s', r) \<and> s' \<noteq> s"
    with fencing_append [OF reachable_step.IH l] show ?thesis by blast
  qed
qed


section \<open>Growth\<close>

definition lease_ge :: "LeaseRow option \<Rightarrow> LeaseRow option \<Rightarrow> bool" where
  "lease_ge old new \<longleftrightarrow>
     (\<forall>p. old = Some p \<longrightarrow> (\<exists>n. new = Some n
        \<and> (lr_worker_id n = lr_worker_id p \<and> lr_fencing_token n = lr_fencing_token p
           \<or> lr_fencing_token n > lr_fencing_token p)))"

lemma lease_ge_next: "lease_ge a b \<Longrightarrow> lease_next b c \<Longrightarrow> lease_ge a c"
  by (cases b; cases c) (fastforce simp: lease_ge_def lease_next_def)+

lemma steps_lease_ge:
  "storage_steps E s s' \<Longrightarrow> reachable E s \<Longrightarrow> lease_ge (sg_leases s run) (sg_leases s' run)"
proof (induction rule: storage_steps.induct)
  case (steps_refl s)
  then show ?case by (simp add: lease_ge_def)
next
  case (steps_step s s' s'')
  have "reachable E s'" using steps_step reachable_steps by blast
  then have "lease_next (sg_leases s' run) (sg_leases s'' run)"
    using step_tables [OF steps_step.hyps(2) reachable_lease_inv] by blast
  with steps_step show ?case by (blast intro: lease_ge_next)
qed

lemma step_log_prefix:
  assumes "storage_step E s s'" "pg_ok E s"
  shows "prefix (loadPostgresEvents E s run) (loadPostgresEvents E s' run)"
  using step_events [OF assms(1)]
proof
  assume "sg_events s' = sg_events s"
  then have "loadPostgresEvents E s' = loadPostgresEvents E s" by (rule load_cong)
  then show ?thesis by simp
next
  assume "\<exists>c v e r. pg_Append E c v e s = (s', r) \<and> s' \<noteq> s"
  with pg.append_prefix [OF assms(2)] show ?thesis by blast
qed

lemma steps_log_prefix:
  "storage_steps E s s' \<Longrightarrow> reachable E s \<Longrightarrow> lossless_jsonb E \<Longrightarrow>
     prefix (loadPostgresEvents E s run) (loadPostgresEvents E s' run)"
proof (induction rule: storage_steps.induct)
  case (steps_step s s' s'')
  have "pg_ok E s'" using steps_step reachable_steps reachable_pg_ok by blast
  with step_log_prefix [OF steps_step.hyps(2)] steps_step show ?case
    by (blast intro: prefix_order.trans)
qed simp

section \<open>Receipts\<close>

lemma step_receipts:
  assumes "storage_step E s s'" "lease_inv s"
  shows "sg_receipts s' = sg_receipts s \<or> (\<exists>row. sg_receipts s' = sg_receipts s @ [row] \<and> receiptConstraints s row)"
  using assms(1)
proof (cases rule: storage_step.cases)
  case (step_append c v ev r)
  from pg_Append_effect [OF this] show ?thesis by auto
next
  case (step_checkpoint fault now run v r)
  from Checkpoint_effect [OF this] show ?thesis by auto
next
  case (step_artifact wc root input r)
  from art_Write_effect [OF this] show ?thesis by auto
next
  case (step_register fault now w r)
  from Register_effect [OF this] show ?thesis by auto
next
  case (step_heartbeat fault now w r)
  from Heartbeat_effect [OF this] show ?thesis by auto
next
  case (step_acquire ac run w ttl r)
  from Acquire_effect [OF this assms(2)] show ?thesis by auto
next
  case (step_renew fault now l ttl r)
  from Renew_effect [OF this] show ?thesis by auto
next
  case (step_receipt fault now wnow l rc r)
  from RecordReceipt_effect [OF this] show ?thesis by auto
qed

text \<open>A completed action's event is exactly what one durable receipt entitles to.\<close>

definition backed :: "ReceiptRow list \<Rightarrow> EventRow \<Rightarrow> bool" where
  "backed receipts row \<longleftrightarrow> (\<exists>rc\<in>set receipts. rc_run_id rc = er_run_id row
     \<and> rc_action_id rc = ed_ActionID (er_payload row) \<and> rc_action_type rc = ed_ActionType (er_payload row)
     \<and> rc_receipt_id rc = ed_ReceiptID (er_payload row)
     \<and> er_payload row = (rc_output rc)\<lparr>
         ed_ActionID := rc_action_id rc, ed_ActionType := rc_action_type rc,
         ed_IdempotencyScope := rc_idempotency_scope rc, ed_ReceiptID := rc_receipt_id rc,
         ed_OutputDigest := dereferenceText (rc_output_digest rc),
         ed_ArtifactID := dereferenceText (rc_artifact_id rc),
         ed_ArtifactDigest := dereferenceText (rc_artifact_digest rc)\<rparr>)"

definition receipt_inv :: "Storage \<Rightarrow> bool" where
  "receipt_inv s \<longleftrightarrow>
     (\<forall>row\<in>set (sg_events s). er_event_type row = EventActionCompleted \<longrightarrow> backed (sg_receipts s) row)
     \<and> distinct (map (\<lambda>rc. (rc_run_id rc, rc_action_id rc)) (sg_receipts s))"

lemma backed_mono: "backed rcs row \<Longrightarrow> set rcs \<subseteq> set rcs' \<Longrightarrow> backed rcs' row"
  unfolding backed_def by blast

lemma receipt_ok_backed:
  assumes "validateActionReceipt E s ev = Inr u" "er_payload row = ev_Data ev" "er_run_id row = ev_RunID ev"
  shows "backed (sg_receipts s) row"
proof -
  from assms(1) obtain rc where f: "findReceipt s ev = Some rc" and p: "receiptPayload rc ev = ev_Data ev"
    by (auto simp: validateActionReceipt_def bindE_Inr_iff split: if_splits option.splits)
  from find_eq_SomeD [OF f [unfolded findReceipt_def]] p assms(2,3) show ?thesis
    unfolding backed_def receiptPayload_def by (intro bexI [of _ rc]) auto
qed

lemma append_backed:
  assumes "pg_Append E c v e s = (s', r)" "lossless_jsonb E" "s' \<noteq> s"
    and "row \<in> set (sg_events s')" "row \<notin> set (sg_events s)" "er_event_type row = EventActionCompleted"
  shows "backed (sg_receipts s') row"
proof -
  let ?e = "defaultPayloadVersion e"
  from pg_Append_effect [OF assms(1)] assms(3) obtain row' res where
    body: "appendBody E c v ?e s = Inr (Some s', res)" "ar_Appended res"
    and row: "eventRow E (ar_Event res) (ac_now c) = Some row'" and ev: "sg_events s' = sg_events s @ [row']"
    and res: "ar_Event res = ?e\<lparr>ev_Seq := v + 1, ev_CreatedAt := env_time E (ac_now c)\<rparr>"
    and rc: "sg_receipts s' = sg_receipts s" by blast
  from ev assms(4,5) have "row' = row" by auto
  with row res assms(2) have r: "er_payload row = ev_Data ?e" "er_run_id row = ev_RunID ?e" "er_event_type row = ev_Type ?e"
    by (auto simp: eventRow_def lossless_jsonb_def)
  with assms(6) appendBody_guards(4) [OF body(1) body(2)]
  have "validateActionReceipt E (createRunRow ?e (ac_start c) s) ?e = Inr ()" by simp
  from receipt_ok_backed [OF this r(1,2)] show ?thesis by (simp add: rc createRunRow_frame)
qed

lemma receiptConstraints_fresh:
  assumes "receiptConstraints s row"
  shows "(rc_run_id row, rc_action_id row) \<notin> (\<lambda>rc. (rc_run_id rc, rc_action_id rc)) ` set (sg_receipts s)"
proof -
  have "\<not> (\<exists>r\<in>set (sg_receipts s). rc_run_id r = rc_run_id row \<and> rc_action_id r = rc_action_id row)"
    using assms unfolding receiptConstraints_def by blast
  then show ?thesis by force
qed

lemma receipts_step_distinct:
  assumes "sg_receipts s' = sg_receipts s \<or> (\<exists>row. sg_receipts s' = sg_receipts s @ [row] \<and> receiptConstraints s row)"
    and "distinct (map (\<lambda>rc. (rc_run_id rc, rc_action_id rc)) (sg_receipts s))"
  shows "distinct (map (\<lambda>rc. (rc_run_id rc, rc_action_id rc)) (sg_receipts s'))" "set (sg_receipts s) \<subseteq> set (sg_receipts s')"
  using assms
proof (atomize (full), elim disjE exE conjE)
  fix row
  assume "sg_receipts s' = sg_receipts s @ [row]" "receiptConstraints s row"
  with receiptConstraints_fresh [OF this(2)] assms(2)
  show "distinct (map (\<lambda>rc. (rc_run_id rc, rc_action_id rc)) (sg_receipts s')) \<and> set (sg_receipts s) \<subseteq> set (sg_receipts s')"
    by (simp only: map_append list.map distinct_snoc list.set_map set_append Un_upper1 simp_thms)
qed simp

lemma reachable_receipts: "reachable E s \<Longrightarrow> lossless_jsonb E \<Longrightarrow> receipt_inv s"
proof (induction rule: reachable.induct)
  case reachable_empty
  then show ?case by (simp add: receipt_inv_def emptyStorage_def)
next
  case (reachable_step s s')
  have inv: "receipt_inv s" using reachable_step by blast
  have l: "lease_inv s" using reachable_step reachable_lease_inv by blast
  have sub: "set (sg_receipts s) \<subseteq> set (sg_receipts s')"
    and dist: "distinct (map (\<lambda>rc. (rc_run_id rc, rc_action_id rc)) (sg_receipts s'))"
    using receipts_step_distinct [OF step_receipts [OF reachable_step.hyps(2) l]] inv
    unfolding receipt_inv_def by blast+
  have "backed (sg_receipts s') row" if "row \<in> set (sg_events s')" "er_event_type row = EventActionCompleted" for row
  proof (cases "row \<in> set (sg_events s)")
    case True
    with inv that(2) sub backed_mono show ?thesis unfolding receipt_inv_def by blast
  next
    case False
    with that(1) step_events [OF reachable_step.hyps(2)] obtain c v e r where "pg_Append E c v e s = (s', r)" "s' \<noteq> s"
      by auto
    with append_backed that False reachable_step.prems show ?thesis by blast
  qed
  with dist show ?case unfolding receipt_inv_def by blast
qed

end
