(* ===== verification/Storage_Properties.thy ===== *)
theory Storage_Properties
  imports Storage_System
begin

text \<open>
  The properties of the durable storage over all interleavings of transactions, with a small sample
  history that instantiates them.
\<close>

section \<open>A sample history\<close>

definition briefEnv :: env where
  "briefEnv = sampleEnv\<lparr>env_hash := (\<lambda>x. if has_prefix x ''run-1|'' then ''h'' else replicate 64 CHR ''a'')\<rparr>"

definition sampleChoices :: AppendChoices where
  "sampleChoices = \<lparr>ac_done = False, ac_fault = PgOk, ac_start = 1, ac_fence1 = 20, ac_fence2 = 21, ac_now = 22\<rparr>"

definition samplePlan :: Event where
  "samplePlan = Event_zero\<lparr>ev_RunID := ''run-1'', ev_IdempotencyKey := ''p'', ev_Type := EventActionPlanned,
     ev_WorkerID := ''w1'', ev_FencingToken := 1,
     ev_Data := EventData_zero\<lparr>ed_ActionID := ''h'', ed_ActionType := CommandStartAttempt,
       ed_AttemptID := ''run-1:attempt:1'', ed_IdempotencyScope := IdempotencyScoped\<rparr>\<rparr>"

definition sampleCreate :: Event where
  "sampleCreate = Event_zero\<lparr>ev_RunID := ''run-1'', ev_IdempotencyKey := ''c'', ev_Type := EventRunCreated\<rparr>"

definition sampleAcquire :: AcquireChoices where
  "sampleAcquire = \<lparr>aqc_fault = PgOk, aqc_read = 10, aqc_write = 10, aqc_beat = 10\<rparr>"

definition sampleRow :: "nat \<Rightarrow> Event \<Rightarrow> EventRow" where
  "sampleRow n ev = \<lparr>er_run_id = ''run-1'', er_seq = int n, er_event_type = ev_Type ev, er_payload_version = 1,
     er_payload = ev_Data ev, er_idempotency_key = ev_IdempotencyKey ev, er_causation_id = None,
     er_correlation_id = None, er_worker_id = nullableText (ev_WorkerID ev),
     er_fencing_token = nullableUint64 (ev_FencingToken ev), er_created_at = 22\<rparr>"

definition sampleRun :: "int \<Rightarrow> RunRow" where
  "sampleRun v = \<lparr>rr_scenario_id = '''', rr_spec_hash = '''', rr_desired_state = DesiredRunning,
     rr_observed_state = StatusQueued, rr_current_attempt = 0, rr_version = v, rr_created_at = 1,
     rr_updated_at = 22, rr_checkpoint = None\<rparr>"

definition sampleStorage1 :: Storage where
  "sampleStorage1 = emptyStorage\<lparr>sg_runs := [''run-1'' \<mapsto> sampleRun 1], sg_events := [sampleRow 1 sampleCreate]\<rparr>"

definition sampleStorage2 :: Storage where
  "sampleStorage2 = sampleStorage1\<lparr>
     sg_workers := [''w1'' \<mapsto> \<lparr>wr_registered_at = 2, wr_heartbeat_at = 2\<rparr>],
     sg_leases := [''run-1'' \<mapsto> \<lparr>lr_worker_id = ''w1'', lr_fencing_token = 1, lr_expires_at = 60, lr_heartbeat_at = 10\<rparr>]\<rparr>"

definition sampleStorage3 :: Storage where
  "sampleStorage3 = sampleStorage2\<lparr>sg_runs := [''run-1'' \<mapsto> sampleRun 2],
     sg_events := [sampleRow 1 sampleCreate, sampleRow 2 samplePlan]\<rparr>"

lemmas sample_defs = sampleStorage1_def sampleStorage2_def sampleStorage3_def sampleRun_def sampleRow_def
  emptyStorage_def sampleAcquire_def sampleChoices_def

lemma sample_screened:
  "validateAppendInput (env_parsers briefEnv) sampleCreate = Inr ()"
  "validateAppendInput (env_parsers briefEnv) samplePlan = Inr ()"
  by code_simp+

lemmas append_defs = pg_Append_def appendBody_def commitEvent_def createRunRow_def checkFencing_def
  requiresFencing_def leaseSensitiveEvent_def pg_managedRun_def validateFencingToken_def
  loadEventByIdempotencyKey_def loadPostgresEvents_def run_rows_def insertEvent_def eventRow_def
  insertAttempt_def updateRunRow_def pg_transact_def Let_def

lemma sample_append1: "fst (pg_Append briefEnv sampleChoices 0 sampleCreate emptyStorage) = sampleStorage1"
  using sample_screened(1)
  by (simp add: append_defs sample_defs sampleCreate_def defaultPayloadVersion_def CurrentEventPayloadVersion_def
     Event_zero_def Reduce_def applyEvent_def applyRunCreated_def ValidateTransition_def stampEvent_def
     InitialState_def Run_zero_def briefEnv_def sampleEnv_def nullableText_def nullableUint64_def EventData_zero_def)


lemma sample_acquire:
  "fst (Acquire briefEnv sampleAcquire ''run-1'' ''w1'' 50000 (fst (Register PgOk 2 ''w1'' sampleStorage1))) = sampleStorage2"
  by (simp add: sample_defs Register_def Acquire_def acquireBody_def loadLease_def unresolvedLegacyAction_def run_rows_def
      putLease_def leaseRow_def pg_transact_def Let_def sampleCreate_def Event_zero_def briefEnv_def sampleEnv_def)

lemma show_int_1: "show_int 1 = ''1''"
  by code_simp

lemma sample_append2: "fst (pg_Append briefEnv sampleChoices 1 samplePlan sampleStorage2) = sampleStorage3"
  using sample_screened(2)
  by (simp add: append_defs sample_defs samplePlan_def sampleCreate_def defaultPayloadVersion_def CurrentEventPayloadVersion_def
     Event_zero_def Reduce_def applyEvent_def applyRunCreated_def ValidateTransition_def stampEvent_def
     applyActionPlanned_def Decide_def commandFor_def commandMaterial_def has_prefix_def nextAttemptID_def scanPostgresEvent_def show_int_1
     InitialState_def Run_zero_def briefEnv_def sampleEnv_def nullableText_def nullableUint64_def EventData_zero_def dereferenceText_def)

lemma sample_reachable:
  "reachable briefEnv sampleStorage1" "reachable briefEnv sampleStorage2" "reachable briefEnv sampleStorage3"
proof -
  show 1: "reachable briefEnv sampleStorage1"
    unfolding sample_append1 [symmetric]
    by (rule reachable_step [OF reachable_empty step_append [OF prod.collapse [symmetric]]])
  have "reachable briefEnv (fst (Register PgOk 2 ''w1'' sampleStorage1))"
    by (rule reachable_step [OF 1 step_register [OF prod.collapse [symmetric]]])
  then show 2: "reachable briefEnv sampleStorage2"
    unfolding sample_acquire [symmetric]
    by (rule reachable_step [OF _ step_acquire [OF prod.collapse [symmetric]]])
  show "reachable briefEnv sampleStorage3"
    unfolding sample_append2 [symmetric]
    by (rule reachable_step [OF 2 step_append [OF prod.collapse [symmetric]]])
qed

lemma sample_lossless: "lossless_jsonb briefEnv"
  by (simp add: lossless_jsonb_def briefEnv_def sampleEnv_def)


section \<open>Properties\<close>

text \<open>
  (C2) The Run row is a projection. In every reachable storage, whatever faults happened, each Run
  row has a non-empty log that reduces to a State with exactly the row's scenario, spec, desired and
  observed state, attempt and version; the version is the number of events.
\<close>

theorem run_row_projects_log:
  assumes "reachable E s" "lossless_jsonb E" "sg_runs s run = Some row"
  shows "\<exists>st. Reduce (env_hash E) (loadPostgresEvents E s run) = Inr st \<and> projects row st
    \<and> rr_version row = int (length (loadPostgresEvents E s run)) \<and> loadPostgresEvents E s run \<noteq> []"
proof -
  have "pg_inv E s" using assms reachable_pg_ok by (simp add: pg_ok_def)
  moreover from this assms(3) have "row_ok E s run row" by (simp add: pg_inv_def)
  ultimately show ?thesis by (auto simp: row_ok_def load_rows)
qed

theorem run_row_projects_log_witness:
  "\<exists>st. Reduce (env_hash briefEnv) (loadPostgresEvents briefEnv sampleStorage3 ''run-1'') = Inr st \<and> projects (sampleRun 2) st"
proof -
  have "sg_runs sampleStorage3 ''run-1'' = Some (sampleRun 2)" by (simp add: sampleStorage3_def)
  then show ?thesis using run_row_projects_log [OF sample_reachable(3) sample_lossless] by blast
qed

text \<open>
  (C9) Checkpoints are disposable. Put anything into the checkpoint columns of a Run: \<open>Rebuild\<close>
  still returns the reduction of the full authoritative log, and it succeeds.
\<close>

theorem rebuild_ignores_checkpoint_columns:
  assumes "reachable E s" "lossless_jsonb E" "sg_runs s run = Some row"
  shows "\<exists>st. Reduce (env_hash E) (loadPostgresEvents E s run) = Inr st
    \<and> pg_Rebuild E PgOk run (s\<lparr>sg_runs := (sg_runs s)(run \<mapsto> row\<lparr>rr_checkpoint := cp\<rparr>)\<rparr>) = Inr st"
proof -
  have ok: "pg_ok E s" using assms reachable_pg_ok by blast
  let ?s = "s\<lparr>sg_runs := (sg_runs s)(run \<mapsto> row\<lparr>rr_checkpoint := cp\<rparr>)\<rparr>"
  have inv: "pg_inv E ?s" using pg_ok_checkpoint [OF ok assms(3)] by (simp add: pg_ok_def)
  have load: "loadPostgresEvents E ?s = loadPostgresEvents E s" by (rule load_cong) simp
  obtain st where "Reduce (env_hash E) (loadPostgresEvents E s run) = Inr st"
    using pg.ok_log [OF ok] by blast
  then show ?thesis by (auto simp: pg_Rebuild_reduces [OF inv] load)
qed

definition sampleCheckpoint :: CheckpointRow where
  "sampleCheckpoint = \<lparr>cp_seq = 1, cp_state = Some InitialState, cp_state_digest = '''', cp_event_digest = '''', cp_created_at = 0\<rparr>"

theorem rebuild_ignores_checkpoint_columns_witness:
  "\<exists>st. Reduce (env_hash briefEnv) (loadPostgresEvents briefEnv sampleStorage3 ''run-1'') = Inr st
    \<and> pg_Rebuild briefEnv PgOk ''run-1''
        (sampleStorage3\<lparr>sg_runs := (sg_runs sampleStorage3)(''run-1'' \<mapsto> (sampleRun 2)\<lparr>rr_checkpoint := Some sampleCheckpoint\<rparr>)\<rparr>) = Inr st"
proof -
  have "sg_runs sampleStorage3 ''run-1'' = Some (sampleRun 2)" by (simp add: sampleStorage3_def)
  then show ?thesis by (rule rebuild_ignores_checkpoint_columns [OF sample_reachable(3) sample_lossless])
qed

text \<open>
  The log is append-only and nothing acknowledged is lost: whatever transactions follow, by
  whomever and with whatever faults, the log of a Run only grows at its end.
\<close>

theorem log_append_only:
  assumes "reachable E s" "lossless_jsonb E" "storage_steps E s s'"
  shows "prefix (loadPostgresEvents E s run) (loadPostgresEvents E s' run)"
  using assms steps_log_prefix by blast

theorem log_append_only_witness:
  "prefix (loadPostgresEvents briefEnv sampleStorage2 ''run-1'') (loadPostgresEvents briefEnv sampleStorage3 ''run-1'')"
proof -
  have "storage_steps briefEnv sampleStorage2 sampleStorage3"
    unfolding sample_append2 [symmetric]
    by (rule steps_step [OF steps_refl step_append [OF prod.collapse [symmetric]]])
  then show ?thesis by (rule log_append_only [OF sample_reachable(2) sample_lossless])
qed

text \<open>
  (C5) No zombie writers in the log. In every reachable storage the fencing tokens of a Run's events
  never decrease along the log, every token belongs to a single worker, no token exceeds that of the
  current lease, and an event with the current token was written by the current owner.
\<close>

theorem fenced_log_ordered:
  assumes "reachable E s"
  shows "sorted (map (\<lambda>row. the (er_fencing_token row)) (fenced_rows s run))
    \<and> (\<forall>row\<in>set (fenced_rows s run). within_lease (sg_leases s run) row) \<and> one_owner (fenced_rows s run)"
  using reachable_fencing [OF assms] by (simp add: fencing_inv_def fencing_ok_def)

theorem fenced_log_ordered_witness:
  "within_lease (sg_leases sampleStorage3 ''run-1'') (sampleRow 2 samplePlan)"
proof -
  have "sampleRow 2 samplePlan \<in> set (fenced_rows sampleStorage3 ''run-1'')"
    by (simp add: fenced_rows_def sampleStorage3_def sampleRow_def samplePlan_def nullableUint64_def)
  then show ?thesis using fenced_log_ordered [OF sample_reachable(3)] by blast
qed


text \<open>
  (C4) Authority at the moment of the append. If an append adds an event that is lease-sensitive,
  or any execution event once the Run has a lease, then the event names the current owner and token,
  and the lease had not expired at either of the two moments it was checked; and a Run with a lease
  never gains an event of the compatibility path.
\<close>

theorem append_requires_authority:
  assumes "reachable E s" "pg_Append E c v e s = (s', r)" "sg_events s' \<noteq> sg_events s"
    and "leaseSensitiveEvent e
      \<or> sg_leases s (ev_RunID e) \<noteq> None \<and> ev_Type e \<noteq> EventRunCreated \<and> ev_Type e \<noteq> EventDesiredStateChanged"
  shows "\<exists>l. sg_leases s (ev_RunID e) = Some l \<and> lr_worker_id l = ev_WorkerID e
      \<and> lr_fencing_token l = sint (ev_FencingToken e)
      \<and> lr_expires_at l > ac_fence1 c \<and> lr_expires_at l > ac_fence2 c
      \<and> \<not> legacyLifecycleEvent (ev_Type e)"
proof -
  let ?e = "defaultPayloadVersion e"
  from pg_Append_effect [OF assms(2)] assms(3) obtain row res where
    body: "appendBody E c v ?e s = Inr (Some s', res)" by auto
  have "requiresFencing ?e s"
    using assms(4) by (auto simp: requiresFencing_def leaseSensitiveEvent_def pg_managedRun_def)
  with appendBody_guards(1,2) [OF body] obtain l where l: "sg_leases s (ev_RunID e) = Some l"
    "lr_expires_at l > ac_fence1 c" "lr_expires_at l > ac_fence2 c" "lr_worker_id l = ev_WorkerID e"
    "word_of_int (lr_fencing_token l) = ev_FencingToken e"
    by (auto simp: checkFencing_def validateFencingToken_ok)
  moreover have "lr_fencing_token l = sint (ev_FencingToken e)"
    using reachable_lease_inv [OF assms(1)] l(1,5) token_word by (metis lease_inv_def)
  moreover have "\<not> legacyLifecycleEvent (ev_Type e)"
    using appendBody_guards(3) [OF body] l(1) by (auto simp: pg_managedRun_def)
  ultimately show ?thesis by blast
qed

theorem append_requires_authority_witness:
  "\<exists>l. sg_leases sampleStorage2 ''run-1'' = Some l \<and> lr_worker_id l = ''w1'' \<and> lr_expires_at l > 21"
proof -
  have "sg_events sampleStorage3 \<noteq> sg_events sampleStorage2" by (simp add: sample_defs)
  moreover have "pg_Append briefEnv sampleChoices 1 samplePlan sampleStorage2
      = (sampleStorage3, snd (pg_Append briefEnv sampleChoices 1 samplePlan sampleStorage2))"
    unfolding sample_append2 [symmetric] by (rule prod.collapse [symmetric])
  moreover have "leaseSensitiveEvent samplePlan" by (simp add: leaseSensitiveEvent_def samplePlan_def)
  ultimately have "\<exists>l. sg_leases sampleStorage2 (ev_RunID samplePlan) = Some l \<and> lr_worker_id l = ev_WorkerID samplePlan
     \<and> lr_expires_at l > ac_fence2 sampleChoices"
    using append_requires_authority [OF sample_reachable(2)] by blast
  then show ?thesis by (simp add: samplePlan_def sampleChoices_def)
qed

text \<open>A presented lease with a token below that of the stored lease fails the check of every lease operation.\<close>

lemma stale_presented_refused:
  assumes "reachable E s" "sg_leases s (ls_RunID p) = Some l" "sint (ls_FencingToken p) < lr_fencing_token l"
  shows "\<exists>err. validateLeaseInTx now p s = Inl err"
proof -
  have "lr_fencing_token l = sint (word_of_int (lr_fencing_token l) :: uint64)"
    using reachable_lease_inv [OF assms(1)] assms(2) token_word by (metis lease_inv_def)
  with assms(3) have "word_of_int (lr_fencing_token l) \<noteq> ls_FencingToken p" by auto
  with assms(2) show ?thesis by (simp add: validateLeaseInTx_def loadLease_def scanLease_def Let_def)
qed

lemma stale_lease_operations:
  assumes "reachable E s" "sg_leases s (ls_RunID p) = Some l" "sint (ls_FencingToken p) < lr_fencing_token l"
  shows "\<exists>err. RecordReceipt E f now wnow p rc s = (s, Inl err)"
    and "\<exists>err. Renew E f now p ttl s = (s, Inl err)"
    and "\<exists>err. Validate f now p s = Inl err"
proof -
  from stale_presented_refused [OF assms, of now] obtain err where err: "validateLeaseInTx now p s = Inl err" by blast
  show "\<exists>err. RecordReceipt E f now wnow p rc s = (s, Inl err)"
    by (auto simp: RecordReceipt_def receiptBody_def err Let_def pg_transact_def split: sum.splits)
  show "\<exists>err. Renew E f now p ttl s = (s, Inl err)"
    by (auto simp: Renew_def err pg_transact_def split: sum.splits)
  show "\<exists>err. Validate f now p s = Inl err"
    by (auto simp: Validate_def err pg_read_def bindE_def split: sum.splits)
qed

lemma stale_append_refused:
  assumes "reachable E s" "sg_leases s (ev_RunID e) = Some l" "sint (ev_FencingToken e) < lr_fencing_token l"
    and "ev_FencingToken e \<noteq> 0"
  shows "\<exists>err. pg_Append E c v e s = (s, Inl err)"
proof -
  let ?e = "defaultPayloadVersion e"
  have no: "appendBody E c v ?e s \<noteq> Inr (os, res)" for os res
  proof
    assume body: "appendBody E c v ?e s = Inr (os, res)"
    have "requiresFencing ?e s" using assms(4) by (simp add: requiresFencing_def leaseSensitiveEvent_def)
    with appendBody_guards(1) [OF body] assms(2) have "word_of_int (lr_fencing_token l) = ev_FencingToken e"
      by (simp add: checkFencing_def validateFencingToken_ok)
    then have "lr_fencing_token l = sint (ev_FencingToken e)"
      using reachable_lease_inv [OF assms(1)] assms(2) token_word by (metis lease_inv_def)
    with assms(3) show False by simp
  qed
  obtain err where "appendBody E c v ?e s = Inl err" using no by (cases "appendBody E c v ?e s") auto
  then show ?thesis by (auto simp: pg_Append_def pg_transact_def split: sum.splits)
qed

text \<open>
  (C6) A deposed worker stays locked out. Once the lease of a Run carries a larger token than the one
  a worker holds, then whatever transactions happen in between, every later append of an event with
  the old token, and every later receipt, renewal and validation with a lease of the old token is
  refused with an error and changes nothing, for any clock, fault and owner name it presents.
\<close>

theorem stale_token_locked_out:
  assumes "reachable E s" "sg_leases s run = Some l" "sint token < lr_fencing_token l" "storage_steps E s s1"
  shows "(\<forall>c v e. ev_RunID e = run \<and> ev_FencingToken e = token \<and> token \<noteq> 0 \<longrightarrow> (\<exists>err. pg_Append E c v e s1 = (s1, Inl err)))
    \<and> (\<forall>p. ls_RunID p = run \<and> ls_FencingToken p = token \<longrightarrow>
          (\<forall>f now wnow rc. \<exists>err. RecordReceipt E f now wnow p rc s1 = (s1, Inl err))
        \<and> (\<forall>f now ttl. \<exists>err. Renew E f now p ttl s1 = (s1, Inl err))
        \<and> (\<forall>f now. \<exists>err. Validate f now p s1 = Inl err))"
proof -
  have r1: "reachable E s1" using assms(1,4) reachable_steps by blast
  from steps_lease_ge [OF assms(4,1), of run] assms(2) obtain l1 where
    l1: "sg_leases s1 run = Some l1" "lr_fencing_token l \<le> lr_fencing_token l1"
    unfolding lease_ge_def by fastforce
  have t: "sint token < lr_fencing_token l1" using assms(3) l1(2) by simp
  show ?thesis using stale_append_refused [OF r1] stale_lease_operations [OF r1] l1(1) t by blast
qed

definition takenOver :: Storage where
  "takenOver = sampleStorage3\<lparr>sg_leases := [''run-1'' \<mapsto> \<lparr>lr_worker_id = ''w1'', lr_fencing_token = 2, lr_expires_at = 150, lr_heartbeat_at = 100\<rparr>]\<rparr>"

lemma takenOver_reachable: "reachable briefEnv takenOver"
proof -
  have m: "\<not> max_int64 \<le> (1 :: uint64)" by code_simp
  have "fst (Acquire briefEnv \<lparr>aqc_fault = PgOk, aqc_read = 100, aqc_write = 100, aqc_beat = 100\<rparr> ''run-1'' ''w1'' 50000 sampleStorage3) = takenOver"
    by (simp add: takenOver_def sample_defs Acquire_def acquireBody_def loadLease_def scanLease_def
        putLease_def leaseRow_def pg_transact_def Let_def briefEnv_def sampleEnv_def m)
  then show ?thesis
    using reachable_step [OF sample_reachable(3) step_acquire [OF prod.collapse [symmetric]]] by metis
qed

definition sampleLease :: Lease where
  "sampleLease = \<lparr>ls_RunID = ''run-1'', ls_WorkerID = ''w1'', ls_FencingToken = 1, ls_ExpiresAt = 60, ls_HeartbeatAt = 10\<rparr>"

theorem stale_token_locked_out_witness:
  "sg_leases sampleStorage3 ''run-1'' = Some \<lparr>lr_worker_id = ''w1'', lr_fencing_token = 1, lr_expires_at = 60, lr_heartbeat_at = 10\<rparr>
    \<and> fst (pg_Append briefEnv sampleChoices 2 samplePlan takenOver) = takenOver
    \<and> (\<exists>err. Renew briefEnv PgOk 50 sampleLease 1000 takenOver = (takenOver, Inl err))
    \<and> (\<exists>err. Validate PgOk 50 sampleLease takenOver = Inl err)
    \<and> (\<forall>rc. \<exists>err. RecordReceipt briefEnv PgOk 50 51 sampleLease rc takenOver = (takenOver, Inl err))"
proof -
  have l: "sg_leases takenOver ''run-1''
      = Some \<lparr>lr_worker_id = ''w1'', lr_fencing_token = 2, lr_expires_at = 150, lr_heartbeat_at = 100\<rparr>"
    by (simp add: takenOver_def)
  have p: "ls_RunID sampleLease = ''run-1''" "ls_FencingToken sampleLease = 1" by (simp_all add: sampleLease_def)
  have e: "ev_RunID samplePlan = ''run-1''" "ev_FencingToken samplePlan = 1" by (simp_all add: samplePlan_def)
  note locked = stale_token_locked_out [OF takenOver_reachable l, of 1, OF _ steps_refl, simplified]
  have "\<exists>err. pg_Append briefEnv sampleChoices 2 samplePlan takenOver = (takenOver, Inl err)"
    using conjunct1 [OF locked] e by blast
  with conjunct2 [OF locked] p show ?thesis by (auto simp: sampleStorage3_def sampleStorage2_def)
qed

text \<open>A repeated append finds the event of the first one.\<close>

lemma append_finds_existing:
  assumes ok: "pg_ok E s" and ev: "ev \<in> set (loadPostgresEvents E s (ev_RunID e))" "sameIdempotentEvent ev e"
    and run: "sg_runs s (ev_RunID e) \<noteq> None"
    and input: "\<not> ac_done c" "ac_fault c \<noteq> PgFail" "v \<le> max_int64" "validateAppendInput (env_parsers E) e = Inr ()"
    and guards: "checkFencing s (ac_fence1 c) (defaultPayloadVersion e) = Inr ()"
      "checkFencing s (ac_fence2 c) (defaultPayloadVersion e) = Inr ()"
      "\<not> (pg_managedRun (defaultPayloadVersion e) s \<and> legacyLifecycleEvent (ev_Type e))"
  shows "pg_Append E c v e s = (s, Inr \<lparr>ar_Event = ev, ar_Appended = False\<rparr>)"
proof -
  let ?e = "defaultPayloadVersion e"
  have c: "createRunRow ?e t s = s" for t using run by (auto simp: createRunRow_def)
  have "loadEventByIdempotencyKey E s (ev_RunID e) (ev_IdempotencyKey ev) = Some ev"
    using ok ev(1) by (intro load_by_key_found) (auto simp: pg_ok_def)
  moreover have "ev_IdempotencyKey ev = ev_IdempotencyKey e" using ev(2) sameIdempotentEvent_fields by blast
  moreover have "sameIdempotentEvent ev ?e" using ev(2) by (simp add: sameIdempotentEvent_def)
  ultimately have "appendBody E c v ?e s = Inr (None, \<lparr>ar_Event = ev, ar_Appended = False\<rparr>)"
    using run guards by (auto simp: appendBody_def c Let_def)
  with input show ?thesis by (auto simp: pg_Append_def pg_transact_def not_less [symmetric])
qed

lemma steps_runs_kept:
  "storage_steps E s s' \<Longrightarrow> reachable E s \<Longrightarrow> sg_runs s run \<noteq> None \<Longrightarrow> sg_runs s' run \<noteq> None"
proof (induction rule: storage_steps.induct)
  case (steps_step s s' s'')
  have "lease_inv s'" using steps_step reachable_steps reachable_lease_inv by blast
  with step_tables [OF steps_step.hyps(2)] steps_step show ?case by blast
qed simp

text \<open>
  (C8) A lost acknowledgement is harmless. Suppose an append took effect but its commit was not
  acknowledged, so the caller saw an error. Repeat the same request later, after any other transactions
  and with any expected version. When the retry meets no database fault and no cancelled context, its
  lease checks still pass at both moments, and it is not a compatibility event on a Run that became
  managed meanwhile, then it is answered with the event stored the first time; nothing is appended twice.
\<close>

theorem lost_commit_retry:
  assumes "reachable E s" "lossless_jsonb E"
    and first: "pg_Append E c v e s = (s1, Inl err)" "sg_events s1 \<noteq> sg_events s"
    and later: "storage_steps E s1 s2"
    and retry: "\<not> ac_done c'" "ac_fault c' = PgOk" "v' \<le> max_int64"
      "checkFencing s2 (ac_fence1 c') (defaultPayloadVersion e) = Inr ()"
      "checkFencing s2 (ac_fence2 c') (defaultPayloadVersion e) = Inr ()"
      "\<not> (pg_managedRun (defaultPayloadVersion e) s2 \<and> legacyLifecycleEvent (ev_Type e))"
  shows "\<exists>ev. pg_Append E c' v' e s2 = (s2, Inr \<lparr>ar_Event = ev, ar_Appended = False\<rparr>)
    \<and> sameIdempotentEvent ev e \<and> ev \<in> set (loadPostgresEvents E s1 (ev_RunID e))"
proof -
  have ok: "pg_ok E s" using assms(1,2) reachable_pg_ok by blast
  have r1: "reachable E s1" using reachable_step [OF assms(1) step_append [OF first(1)]] .
  have r2: "reachable E s2" using r1 later reachable_steps by blast
  from first(1) obtain ev where ev: "ev \<in> set (loadPostgresEvents E s1 (ev_RunID e))" "sameIdempotentEvent ev e"
    and run: "sg_runs s1 (ev_RunID e) \<noteq> None"
  proof (cases rule: pg_Append_cases)
    case (committed av res)
    have inv: "lossless_jsonb E" "pg_inv E s" using ok by (simp_all add: pg_ok_def)
    from committed(2) obtain new where res: "res = \<lparr>ar_Event = (defaultPayloadVersion e)\<lparr>ev_Seq := v + 1, ev_CreatedAt := env_time E (ac_now c)\<rparr>, ar_Appended = True\<rparr>"
      and "sg_runs s1 (ev_RunID e) = Some new"
      by (rule commitEvent_effect) (simp add: createRunRow_frame)
    with commit_log(3) [OF inv committed(2,3)] show thesis by (intro that [of "ar_Event res"]) auto
  qed (use first(2) in simp_all)
  have "validateAppendInput (env_parsers E) e = Inr ()"
    using first by (auto simp: pg_Append_def split: if_splits sum.splits)
  moreover have "ev \<in> set (loadPostgresEvents E s2 (ev_RunID e))"
    using ev(1) steps_log_prefix [OF later r1 assms(2)] by (meson set_mono_prefix subsetD)
  moreover have "sg_runs s2 (ev_RunID e) \<noteq> None" using steps_runs_kept [OF later r1 run] .
  moreover have "pg_ok E s2" using r2 assms(2) reachable_pg_ok by blast
  ultimately show ?thesis using append_finds_existing [of E s2 ev e c' v'] ev retry by auto
qed

theorem lost_commit_retry_witness:
  "\<exists>ev. pg_Append briefEnv sampleChoices 0 sampleCreate sampleStorage1
     = (sampleStorage1, Inr \<lparr>ar_Event = ev, ar_Appended = False\<rparr>)"
proof -
  let ?c = "sampleChoices\<lparr>ac_fault := PgCommitLost\<rparr>"
  have "appendBody briefEnv ?c 0 (defaultPayloadVersion sampleCreate) emptyStorage
      = appendBody briefEnv sampleChoices 0 (defaultPayloadVersion sampleCreate) emptyStorage"
    unfolding appendBody_def sampleChoices_def by (simp only: AppendChoices.simps)
  moreover have "pg_Append briefEnv sampleChoices 0 sampleCreate emptyStorage \<noteq> (emptyStorage, x)" for x
    using sample_append1 by (auto simp: sample_defs)
  ultimately have "pg_Append briefEnv ?c 0 sampleCreate emptyStorage = (sampleStorage1, Inl ErrDatabase)"
    using sample_append1
    by (auto simp: pg_Append_def pg_transact_def sampleChoices_def split: if_splits sum.splits option.splits prod.splits)
  moreover have "sg_events sampleStorage1 \<noteq> sg_events emptyStorage" by (simp add: sample_defs)
  moreover have "checkFencing sampleStorage1 t (defaultPayloadVersion sampleCreate) = Inr ()" for t
    by (simp add: checkFencing_def requiresFencing_def leaseSensitiveEvent_def pg_managedRun_def sampleCreate_def Event_zero_def)
  moreover have "\<not> legacyLifecycleEvent (ev_Type sampleCreate)" by (simp add: sampleCreate_def)
  ultimately show ?thesis
    using lost_commit_retry [OF reachable_empty sample_lossless, of ?c 0 sampleCreate sampleStorage1 ErrDatabase sampleStorage1 sampleChoices 0]
      steps_refl by (auto simp: sampleChoices_def)
qed


text \<open>
  Acquiring a leased Run. While the lease is live its owner gets it back unchanged and any other
  worker is refused without effect; once it has expired, whoever asks takes over with exactly the
  next token (unless the tokens are exhausted), which no earlier holder ever had.
\<close>

theorem Acquire_existing_lease:
  assumes "reachable E s" "sg_leases s run = Some l" "sg_workers s w \<noteq> None"
    and "run \<noteq> ''''" "w \<noteq> ''''" "ttl > 0" "aqc_fault c = PgOk"
  shows "if lr_expires_at l > aqc_read c then
       (if lr_worker_id l = w
        then Acquire E c run w ttl s = (s, Inr \<lparr>aq_Lease = scanLease run l, aq_Acquired = False, aq_TookOver = False\<rparr>)
        else \<exists>info. Acquire E c run w ttl s = (s, Inl (LeaseError info)) \<and> le_Cause info = CauseLeaseHeld
               \<and> le_CurrentWorker info = lr_worker_id l)
     else if lr_fencing_token l = 2 ^ 63 - 1 then Acquire E c run w ttl s = (s, Inl ErrInvalidLease)
     else \<exists>row. lr_worker_id row = w \<and> lr_fencing_token row = lr_fencing_token l + 1
         \<and> lr_expires_at row = aqc_write c + env_interval E ttl
         \<and> Acquire E c run w ttl s = (s\<lparr>sg_leases := (sg_leases s)(run \<mapsto> row)\<rparr>,
              Inr \<lparr>aq_Lease = scanLease run row, aq_Acquired = True, aq_TookOver = True\<rparr>)"
proof -
  have inv: "0 < lr_fencing_token l" "lr_fencing_token l < 2 ^ 63" "sg_runs s run \<noteq> None"
    using reachable_lease_inv [OF assms(1)] assms(2) by (auto simp: lease_inv_def)
  have full: "(word_of_int (lr_fencing_token l) :: uint64) \<ge> max_int64 \<longleftrightarrow> lr_fencing_token l = 2 ^ 63 - 1"
  proof -
    have u: "uint (word_of_int (lr_fencing_token l) :: uint64) = lr_fencing_token l"
      using inv by (simp add: unsigned_of_int take_bit_int_eq_self)
    show ?thesis unfolding word_le_def u using inv(1,2) by auto
  qed
  show ?thesis
  proof (cases "lr_expires_at l > aqc_read c \<or> lr_fencing_token l = 2 ^ 63 - 1")
    case True
    with assms inv full show ?thesis
      by (auto simp: Acquire_def acquireBody_def loadLease_def scanLease_def pg_transact_def)
  next
    case False
    let ?row = "leaseRow E w (word_of_int (lr_fencing_token l) + 1) ttl (aqc_write c) (aqc_beat c)"
    have t: "lr_fencing_token ?row = lr_fencing_token l + 1"
      using token_succ [OF inv(1,2)] full False by (simp add: leaseRow_def)
    with assms inv full False show ?thesis
      by (auto simp: Acquire_def acquireBody_def loadLease_def scanLease_def [of run l] putLease_def Let_def pg_transact_def
          leaseRow_def intro!: exI [of _ ?row])
  qed
qed

theorem Acquire_existing_lease_witness:
  "\<exists>info. Acquire briefEnv sampleAcquire ''run-1'' ''w2'' 1
      (sampleStorage2\<lparr>sg_workers := (sg_workers sampleStorage2)(''w2'' \<mapsto> \<lparr>wr_registered_at = 3, wr_heartbeat_at = 3\<rparr>)\<rparr>)
     = (sampleStorage2\<lparr>sg_workers := (sg_workers sampleStorage2)(''w2'' \<mapsto> \<lparr>wr_registered_at = 3, wr_heartbeat_at = 3\<rparr>)\<rparr>,
        Inl (LeaseError info)) \<and> le_CurrentWorker info = ''w1''"
proof -
  let ?s = "sampleStorage2\<lparr>sg_workers := (sg_workers sampleStorage2)(''w2'' \<mapsto> \<lparr>wr_registered_at = 3, wr_heartbeat_at = 3\<rparr>)\<rparr>"
  have "fst (Register PgOk 3 ''w2'' sampleStorage2) = ?s"
    by (simp add: Register_def pg_transact_def sample_defs Let_def)
  then have r: "reachable briefEnv ?s"
    using reachable_step [OF sample_reachable(2) step_register [OF prod.collapse [symmetric]]] by metis
  have l: "sg_leases ?s ''run-1'' = Some \<lparr>lr_worker_id = ''w1'', lr_fencing_token = 1, lr_expires_at = 60, lr_heartbeat_at = 10\<rparr>"
    by (simp add: sampleStorage2_def)
  show ?thesis using Acquire_existing_lease [OF r l, of "''w2''" 1 sampleAcquire] by (auto simp: sampleAcquire_def)
qed

section \<open>Receipts are recorded once\<close>

lemma receiptRow_scan:
  assumes "lossless_jsonb E" "receiptRow E now l rc = Some row"
  shows "scanReceipt row = rc\<lparr>rt_WorkerID := ls_WorkerID l, rt_FencingToken := ls_FencingToken l, rt_CreatedAt := now\<rparr>"
  using assms by (cases rc) (auto simp: receiptRow_def scanReceipt_def lossless_jsonb_def)

lemma lookup_receipt_found:
  assumes "distinct (map (\<lambda>rc. (rc_run_id rc, rc_action_id rc)) (sg_receipts s))" "row \<in> set (sg_receipts s)"
  shows "lookupReceiptWithQuerier s (rc_run_id row) (rc_action_id row) = Some (scanReceipt row)"
proof -
  let ?P = "\<lambda>r. rc_run_id r = rc_run_id row \<and> rc_action_id r = rc_action_id row"
  have "find ?P (sg_receipts s) \<noteq> None" using assms(2) by (auto simp: find_eq_None_iff)
  then obtain r where r: "find ?P (sg_receipts s) = Some r" by blast
  have "r = row" using assms find_eq_SomeD [OF r] by (auto simp: distinct_map inj_on_def)
  with r show ?thesis by (simp add: lookupReceiptWithQuerier_def)
qed

lemma steps_receipts_kept:
  "storage_steps E s s' \<Longrightarrow> reachable E s \<Longrightarrow> set (sg_receipts s) \<subseteq> set (sg_receipts s')"
proof (induction rule: storage_steps.induct)
  case (steps_step s s' s'')
  have "lease_inv s'" using steps_step reachable_steps reachable_lease_inv by blast
  from step_receipts [OF steps_step.hyps(2) this] have "set (sg_receipts s') \<subseteq> set (sg_receipts s'')" by auto
  with steps_step show ?case by blast
qed simp

definition identified :: "ActionReceipt \<Rightarrow> ActionReceipt" where
  "identified rc = (if rt_ID rc = '''' then rc\<lparr>rt_ID := rt_RunID rc @ '':'' @ rt_ActionID rc\<rparr> else rc)"

lemma identified_ids [simp]: "rt_RunID (identified rc) = rt_RunID rc" "rt_ActionID (identified rc) = rt_ActionID rc"
  by (simp_all add: identified_def)

lemma recorded_receipt:
  assumes "RecordReceipt E f now wnow l rc s = (s1, Inr res)" "lossless_jsonb E"
  obtains row where "row \<in> set (sg_receipts s1)" "scanReceipt row = rs_Receipt res"
    "sameReceipt (rs_Receipt res) (identified rc)" "rc_run_id row = rt_RunID rc" "rc_action_id row = rt_ActionID rc"
proof -
  from assms(1) have body: "receiptBody E now wnow l (identified rc) s = Inr (Some s1, res)"
    by (auto simp: RecordReceipt_def identified_def Let_def pg_transact_def receiptBody_def insertReceipt_def bindE_Inr_iff
        split: if_splits sum.splits option.splits prod.splits)
  show thesis
  proof (cases "lookupReceiptWithQuerier s (rt_RunID rc) (rt_ActionID rc)")
    case None
    with body obtain row where row: "receiptRow E wnow l (identified rc) = Some row" "s1 = s\<lparr>sg_receipts := sg_receipts s @ [row]\<rparr>"
      "res = \<lparr>rs_Receipt = (identified rc)\<lparr>rt_WorkerID := ls_WorkerID l, rt_FencingToken := ls_FencingToken l, rt_CreatedAt := wnow\<rparr>, rs_Recorded = True\<rparr>"
      by (auto simp: receiptBody_def insertReceipt_def bindE_Inr_iff identified_def split: option.splits if_splits)
    moreover have "rc_run_id row = rt_RunID rc" "rc_action_id row = rt_ActionID rc"
      using row(1) by (auto simp: receiptRow_def identified_def split: if_splits)
    ultimately show thesis
      using receiptRow_scan [OF assms(2) row(1)] by (intro that [of row]) (auto simp: sameReceipt_def)
  next
    case (Some existing)
    from Some obtain row where row: "row \<in> set (sg_receipts s)" "scanReceipt row = existing"
      "rc_run_id row = rt_RunID rc" "rc_action_id row = rt_ActionID rc"
      using find_eq_SomeD by (fastforce simp: lookupReceiptWithQuerier_def)
    from body Some have "s1 = s" "rs_Receipt res = existing" "sameReceipt existing (identified rc)"
      by (auto simp: receiptBody_def bindE_Inr_iff identified_def split: if_splits)
    with row show thesis by (intro that [of row]) auto
  qed
qed

text \<open>
  A receipt is recorded once. After a receipt was acknowledged, recording the same receipt
  again, also by a worker that took the Run over meanwhile, inserts nothing and returns the stored
  receipt, with the worker, token and time of the first recording.
\<close>

theorem receipt_replay:
  assumes "reachable E s" "lossless_jsonb E"
    and first: "RecordReceipt E f now wnow l rc s = (s1, Inr res)"
    and later: "storage_steps E s1 s2"
    and again: "RecordReceipt E PgOk now' wnow' l' rc s2 = (s3, r)"
      "validatePresentedLease l' = Inr ()" "ls_RunID l' = rt_RunID rc" "validateLeaseInTx now' l' s2 = Inr cur"
  shows "s3 = s2 \<and> r = Inr \<lparr>rs_Receipt = rs_Receipt res, rs_Recorded = False\<rparr>"
proof -
  have r1: "reachable E s1" using reachable_step [OF assms(1) step_receipt [OF first]] .
  have r2: "reachable E s2" using reachable_steps [OF later r1] .
  from first assms(2) obtain row where row: "row \<in> set (sg_receipts s1)" "scanReceipt row = rs_Receipt res"
    "sameReceipt (rs_Receipt res) (identified rc)" "rc_run_id row = rt_RunID rc" "rc_action_id row = rt_ActionID rc"
    by (rule recorded_receipt)
  have "row \<in> set (sg_receipts s2)" using row(1) steps_receipts_kept [OF later r1] by blast
  then have "lookupReceiptWithQuerier s2 (rt_RunID rc) (rt_ActionID rc) = Some (rs_Receipt res)"
    using lookup_receipt_found [of s2 row] reachable_receipts [OF r2 assms(2)] row by (simp add: receipt_inv_def)
  with row(3) again(4) have "receiptBody E now' wnow' l' (identified rc) s2
      = Inr (Some s2, \<lparr>rs_Receipt = rs_Receipt res, rs_Recorded = False\<rparr>)"
    by (simp add: receiptBody_def)
  moreover have "\<not> (rt_RunID rc = '''' \<or> rt_RunID rc \<noteq> ls_RunID l' \<or> rt_ActionID rc = '''' \<or> rt_ActionType rc = CommandNone
     \<or> \<not> IdempotencyScope_Valid (rt_IdempotencyScope rc) \<or> rt_CostUnits rc < 0)"
    "\<exists>u. ValidateEventData (env_parsers E) (rt_Output rc) = Inr u"
    using first again(3) by (auto simp: RecordReceipt_def split: if_splits sum.splits)
  ultimately show ?thesis
    using again(1,2) by (auto simp: RecordReceipt_def identified_def [symmetric] Let_def pg_transact_def)
qed


definition sampleReceipt :: ActionReceipt where
  "sampleReceipt = \<lparr>rt_ID = '''', rt_RunID = ''run-1'', rt_ActionID = ''h'', rt_ActionType = CommandStartAttempt,
     rt_IdempotencyScope = IdempotencyScoped, rt_Output = EventData_zero\<lparr>ed_AttemptID := ''run-1:attempt:1''\<rparr>,
     rt_OutputDigest = ''sha256:'' @ replicate 64 CHR ''a'', rt_ArtifactID = '''', rt_ArtifactDigest = '''', rt_CostUnits = 0,
     rt_WorkerID = '''', rt_FencingToken = 0, rt_CreatedAt = 0\<rparr>"


lemma sample_receipt_screened: "ValidateEventData (env_parsers briefEnv) (rt_Output sampleReceipt) = Inr ()"
  by code_simp+

lemma sample_receipt_facts:
  "validatePresentedLease sampleLease = Inr ()"
  "case receiptBody briefEnv 30 31 sampleLease (identified sampleReceipt) sampleStorage3 of Inr (Some _, _) \<Rightarrow> True | _ \<Rightarrow> False"
  by code_simp+

lemma sample_recorded:
  "\<exists>s1 res. RecordReceipt briefEnv PgOk 30 31 sampleLease sampleReceipt sampleStorage3 = (s1, Inr res)"
proof -
  obtain s1 res where "receiptBody briefEnv 30 31 sampleLease (identified sampleReceipt) sampleStorage3 = Inr (Some s1, res)"
    using sample_receipt_facts(2) by (auto split: sum.splits option.splits prod.splits)
  then show ?thesis
    using sample_receipt_screened sample_receipt_facts(1)
    by (simp add: RecordReceipt_def identified_def pg_transact_def)
       (simp add: sampleReceipt_def sampleLease_def)
qed

theorem receipt_replay_witness:
  "\<exists>s1 res. RecordReceipt briefEnv PgOk 30 31 sampleLease sampleReceipt sampleStorage3 = (s1, Inr res)
     \<and> RecordReceipt briefEnv PgOk 32 33 sampleLease sampleReceipt s1
         = (s1, Inr \<lparr>rs_Receipt = rs_Receipt res, rs_Recorded = False\<rparr>)"
proof -
  obtain s1 res where first: "RecordReceipt briefEnv PgOk 30 31 sampleLease sampleReceipt sampleStorage3 = (s1, Inr res)"
    using sample_recorded by blast
  have "sg_leases s1 = sg_leases sampleStorage3" using RecordReceipt_effect [OF first] by auto
  then have "\<exists>cur. validateLeaseInTx 32 sampleLease s1 = Inr cur"
    by (simp add: validateLeaseInTx_def loadLease_def sampleLease_def sample_defs scanLease_def Let_def)
  moreover have "ls_RunID sampleLease = rt_RunID sampleReceipt" by (simp add: sampleLease_def sampleReceipt_def)
  ultimately show ?thesis
    using receipt_replay [OF sample_reachable(3) sample_lossless first steps_refl prod.collapse [symmetric] sample_receipt_facts(1)] first
    by (metis prod.collapse)
qed

end
