(* ===== verification/Go_Json.thy ===== *)
theory Go_Json
  imports Store_Validation "HOL-Library.Log_Nat"
begin

text \<open>
  The decoder of Go's \<open>encoding/json\<close> as the sources use it: \<open>json.Valid\<close>,
  \<open>json.Unmarshal\<close> into \<open>any\<close>, and \<open>Decoder.Decode\<close> with \<open>UseNumber\<close>. It is a total
  function on byte strings. A number keeps its literal; the integer a literal denotes
  (\<open>json.Number.Int64\<close>) is at the end. Every element of a list takes at least one byte, so the
  length of the input bounds the number of elements.
\<close>

section \<open>Values\<close>

datatype Value =
    VObject "(string \<times> Value) list" | VArray "Value list" | VString string
  | VNumber string | VBool bool | VNull

section \<open>Strings\<close>

definition json_space :: "char \<Rightarrow> bool" where
  "json_space c \<longleftrightarrow> c \<in> {CHR '' '', CHR 0x09, CHR 0x0A, CHR 0x0D}"

abbreviation skip_space :: "string \<Rightarrow> string" where
  "skip_space \<equiv> dropWhile json_space"

definition hex_digit :: "char \<Rightarrow> int option" where
  "hex_digit c =
     (if is_digit c then Some (of_char c - 48)
      else if char_between CHR ''a'' CHR ''f'' c then Some (of_char c - 87)
      else if char_between CHR ''A'' CHR ''F'' c then Some (of_char c - 55)
      else None)"

text \<open>The four digits after \<open>\u\<close>, and what follows them.\<close>

fun hex4 :: "string \<Rightarrow> (int \<times> string) option" where
  "hex4 (a # b # c # d # s) =
     (case (hex_digit a, hex_digit b, hex_digit c, hex_digit d) of
        (Some w, Some x, Some y, Some z) \<Rightarrow> Some (((w * 16 + x) * 16 + y) * 16 + z, s)
      | _ \<Rightarrow> None)"
| "hex4 _ = None"

definition byte :: "int \<Rightarrow> char" where
  "byte n = char_of (nat n)"

definition EncodeRune :: "int \<Rightarrow> string" where
  "EncodeRune r =
     (if r < 0x80 then [byte r]
      else if r < 0x800 then [byte (0xC0 + r div 0x40), byte (0x80 + r mod 0x40)]
      else if r < 0x10000 then
        [byte (0xE0 + r div 0x1000), byte (0x80 + r div 0x40 mod 0x40), byte (0x80 + r mod 0x40)]
      else
        [byte (0xF0 + r div 0x40000), byte (0x80 + r div 0x1000 mod 0x40),
         byte (0x80 + r div 0x40 mod 0x40), byte (0x80 + r mod 0x40)])"

definition RuneError :: string where
  "RuneError = [CHR 0xEF, CHR 0xBF, CHR 0xBD]"

text \<open>\<open>utf8.DecodeRune\<close>: the bytes of the rune at the head, 0 when they are not valid UTF-8.\<close>

definition continuation :: "char \<Rightarrow> bool" where
  "continuation = char_between (CHR 0x80) (CHR 0xBF)"

definition valid2 :: "char \<Rightarrow> char \<Rightarrow> bool" where
  "valid2 a b \<longleftrightarrow> char_between (CHR 0xC2) (CHR 0xDF) a \<and> continuation b"

definition valid3 :: "char \<Rightarrow> char \<Rightarrow> char \<Rightarrow> bool" where
  "valid3 a b c \<longleftrightarrow> char_between (CHR 0xE0) (CHR 0xEF) a
     \<and> char_between (if a = CHR 0xE0 then CHR 0xA0 else CHR 0x80) (if a = CHR 0xED then CHR 0x9F else CHR 0xBF) b
     \<and> continuation c"

definition valid4 :: "char \<Rightarrow> char \<Rightarrow> char \<Rightarrow> char \<Rightarrow> bool" where
  "valid4 a b c d \<longleftrightarrow> char_between (CHR 0xF0) (CHR 0xF4) a
     \<and> char_between (if a = CHR 0xF0 then CHR 0x90 else CHR 0x80) (if a = CHR 0xF4 then CHR 0x8F else CHR 0xBF) b
     \<and> continuation c \<and> continuation d"

fun rune_len :: "string \<Rightarrow> nat" where
  "rune_len [] = 0"
| "rune_len (a # s) =
     (if char_between (CHR 0x00) (CHR 0x7F) a then 1
      else case s of
        [] \<Rightarrow> 0
      | b # s2 \<Rightarrow>
          (if valid2 a b then 2
           else case s2 of
             [] \<Rightarrow> 0
           | c # s3 \<Rightarrow>
               (if valid3 a b c then 3
                else case s3 of [] \<Rightarrow> 0 | d # _ \<Rightarrow> if valid4 a b c d then 4 else 0)))"

definition surrogate :: "int \<Rightarrow> bool" where
  "surrogate r \<longleftrightarrow> 0xD800 \<le> r \<and> r < 0xE000"

text \<open>The escape \<open>\uXXXX\<close>, joined with a following low surrogate when it is a high one.\<close>

definition unicode_escape :: "int \<Rightarrow> string \<Rightarrow> string \<times> string" where
  "unicode_escape r s =
     (if \<not> surrogate r then (EncodeRune r, s)
      else case s of
        a # b # s' \<Rightarrow>
          (if a = CHR 0x5C \<and> b = CHR ''u'' \<and> r < 0xDC00 then
             case hex4 s' of
               Some (r', rest) \<Rightarrow>
                 if 0xDC00 \<le> r' \<and> r' < 0xE000
                 then (EncodeRune ((r - 0xD800) * 0x400 + (r' - 0xDC00) + 0x10000), rest)
                 else (RuneError, s)
             | None \<Rightarrow> (RuneError, s)
           else (RuneError, s))
      | _ \<Rightarrow> (RuneError, s))"

definition simple_escape :: "char \<Rightarrow> char option" where
  "simple_escape c =
     (if c \<in> {CHR 0x22, CHR 0x5C, CHR ''/''} then Some c
      else if c = CHR ''b'' then Some (CHR 0x08) else if c = CHR ''f'' then Some (CHR 0x0C)
      else if c = CHR ''n'' then Some (CHR 0x0A) else if c = CHR ''r'' then Some (CHR 0x0D)
      else if c = CHR ''t'' then Some (CHR 0x09) else None)"

text \<open>
  A string after its opening quote: its contents, unquoted, and what follows the closing quote.
\<close>

definition emit :: "string \<Rightarrow> (string \<times> 'r) option \<Rightarrow> (string \<times> 'r) option" where
  "emit out m = map_option (\<lambda>(t, rest). (out @ t, rest)) m"

lemma hex4_shorter: "hex4 s = Some (r, s') \<Longrightarrow> length s' < length s"
  by (cases s rule: hex4.cases) (auto split: option.splits)

lemma unicode_escape_shorter: "length (snd (unicode_escape r s)) \<le> length s"
  by (auto simp: unicode_escape_def dest: hex4_shorter split: list.splits option.splits)

lemma rune_len_positive: "rune_len (c # s) \<noteq> 0 \<Longrightarrow> length (drop (rune_len (c # s)) (c # s)) < length (c # s)"
  by simp

function scan_string :: "string \<Rightarrow> (string \<times> string) option" where
  "scan_string s =
     (case s of
        [] \<Rightarrow> None
      | c # s' \<Rightarrow>
          (if c = CHR 0x22 then Some ('''', s')
           else if c = CHR 0x5C then
             (case s' of
                [] \<Rightarrow> None
              | e # s'' \<Rightarrow>
                  (if e = CHR ''u'' then
                     (case hex4 s'' of
                        None \<Rightarrow> None
                      | Some (r, rest) \<Rightarrow>
                          emit (fst (unicode_escape r rest)) (scan_string (snd (unicode_escape r rest))))
                   else
                     (case simple_escape e of
                        None \<Rightarrow> None
                      | Some d \<Rightarrow> emit [d] (scan_string s''))))
           else if char_between (CHR 0x00) (CHR 0x1F) c then None
           else if rune_len s = 0 then emit RuneError (scan_string s')
           else emit (take (rune_len s) s) (scan_string (drop (rune_len s) s))))"
  by pat_completeness auto
termination
  by (relation "measure length")
     (auto dest!: hex4_shorter intro: le_less_trans [OF unicode_escape_shorter] less_trans)

declare scan_string.simps [simp del]

section \<open>Numbers\<close>

text \<open>A literal at the head of the input: optional sign, integer part, fraction, exponent.\<close>

definition digits_run :: "string \<Rightarrow> (string \<times> string) option" where
  "digits_run s = (case takeWhile is_digit s of [] \<Rightarrow> None | ds \<Rightarrow> Some (ds, dropWhile is_digit s))"

definition scan_int :: "string \<Rightarrow> (string \<times> string) option" where
  "scan_int s =
     (case s of
        [] \<Rightarrow> None
      | c # s' \<Rightarrow> if c = CHR ''0'' then Some (''0'', s') else digits_run s)"

definition scan_fraction :: "string \<Rightarrow> (string \<times> string) option" where
  "scan_fraction s =
     (case s of
        [] \<Rightarrow> Some ('''', s)
      | c # s' \<Rightarrow> if c = CHR ''.'' then emit ''.'' (digits_run s') else Some ('''', s))"

definition scan_exponent :: "string \<Rightarrow> (string \<times> string) option" where
  "scan_exponent s =
     (case s of
        [] \<Rightarrow> Some ('''', s)
      | c # s' \<Rightarrow>
          (if c = CHR ''e'' \<or> c = CHR ''E'' then
             (case s' of
                [] \<Rightarrow> None
              | d # s'' \<Rightarrow>
                  (if d = CHR ''+'' \<or> d = CHR ''-'' then emit [c, d] (digits_run s'')
                   else emit [c] (digits_run s')))
           else Some ('''', s)))"

definition scan_number :: "string \<Rightarrow> (string \<times> string) option" where
  "scan_number s =
     (let (sign, body) = (case s of c # s' \<Rightarrow> if c = CHR ''-'' then (''-'', s') else ('''', s) | [] \<Rightarrow> ('''', s)) in
      case scan_int body of None \<Rightarrow> None | Some (i, r1) \<Rightarrow>
      case scan_fraction r1 of None \<Rightarrow> None | Some (f, r2) \<Rightarrow>
      case scan_exponent r2 of None \<Rightarrow> None | Some (x, r3) \<Rightarrow> Some (sign @ i @ f @ x, r3))"

section \<open>Documents\<close>

text \<open>
  The elements of an array or the members of an object after the opening bracket, for the parser
  \<open>p\<close> of one of them; \<open>n\<close> bounds their number.
\<close>

fun sep_list :: "nat \<Rightarrow> (string \<Rightarrow> ('a \<times> string) option) \<Rightarrow> char \<Rightarrow> string \<Rightarrow> ('a list \<times> string) option" where
  "sep_list 0 p close s = None"
| "sep_list (Suc n) p close s =
     (case p s of
        None \<Rightarrow> None
      | Some (x, r) \<Rightarrow>
          (case skip_space r of
             [] \<Rightarrow> None
           | c # r' \<Rightarrow>
               (if c = close then Some ([x], r')
                else if c = CHR '','' then map_option (\<lambda>(xs, t). (x # xs, t)) (sep_list n p close r')
                else None)))"

definition bracketed :: "(string \<Rightarrow> ('a \<times> string) option) \<Rightarrow> char \<Rightarrow> string \<Rightarrow> ('a list \<times> string) option" where
  "bracketed p close s =
     (case skip_space s of
        [] \<Rightarrow> None
      | c # s' \<Rightarrow> if c = close then Some ([], s') else sep_list (length s) p close s)"

definition member :: "(string \<Rightarrow> (Value \<times> string) option) \<Rightarrow> string \<Rightarrow> ((string \<times> Value) \<times> string) option" where
  "member p s =
     (case skip_space s of
        [] \<Rightarrow> None
      | c # s' \<Rightarrow>
          (if c \<noteq> CHR 0x22 then None
           else case scan_string s' of
             None \<Rightarrow> None
           | Some (key, r) \<Rightarrow>
               (case skip_space r of
                  [] \<Rightarrow> None
                | d # r' \<Rightarrow>
                    if d \<noteq> CHR '':'' then None
                    else map_option (\<lambda>(v, t). ((key, v), t)) (p r'))))"

text \<open>A decoded object is a Go map: of members with one key the last one stays.\<close>

fun last_members :: "(string \<times> 'a) list \<Rightarrow> (string \<times> 'a) list" where
  "last_members [] = []"
| "last_members ((k, v) # ms) =
     (if k \<in> fst ` set ms then last_members ms else (k, v) # last_members ms)"

definition maxNestingDepth :: int where
  "maxNestingDepth = 10000"

definition literal :: "string \<Rightarrow> Value \<Rightarrow> string \<Rightarrow> (Value \<times> string) option" where
  "literal word v s = (if has_prefix s word then Some (v, drop (length word) s) else None)"

function parse_value :: "int \<Rightarrow> string \<Rightarrow> (Value \<times> string) option" where
  "parse_value depth s =
     (case skip_space s of
        [] \<Rightarrow> None
      | c # r \<Rightarrow>
          (if c = CHR ''{'' then
             (if depth \<ge> maxNestingDepth then None
              else map_option (\<lambda>(ms, t). (VObject (last_members ms), t))
                     (bracketed (member (\<lambda>s'. parse_value (depth + 1) s')) CHR ''}'' r))
           else if c = CHR ''['' then
             (if depth \<ge> maxNestingDepth then None
              else map_option (\<lambda>(vs, t). (VArray vs, t))
                     (bracketed (\<lambda>s'. parse_value (depth + 1) s') CHR '']'' r))
           else if c = CHR 0x22 then map_option (\<lambda>(t, rest). (VString t, rest)) (scan_string r)
           else if c = CHR ''t'' then literal ''true'' (VBool True) (c # r)
           else if c = CHR ''f'' then literal ''false'' (VBool False) (c # r)
           else if c = CHR ''n'' then literal ''null'' VNull (c # r)
           else map_option (\<lambda>(n, rest). (VNumber n, rest)) (scan_number (c # r))))"
  by pat_completeness auto
termination
  by (relation "measure (\<lambda>(depth, _). nat (maxNestingDepth - depth))") (auto simp: maxNestingDepth_def)

declare parse_value.simps [simp del]

text \<open>One complete document, as \<open>json.Valid\<close> and \<open>json.Unmarshal\<close> require.\<close>

definition json_decode :: "string \<Rightarrow> Value option" where
  "json_decode s =
     (case parse_value 0 s of
        Some (v, rest) \<Rightarrow> if skip_space rest = [] then Some v else None
      | None \<Rightarrow> None)"

definition json_Valid :: "string \<Rightarrow> bool" where
  "json_Valid s \<longleftrightarrow> json_decode s \<noteq> None"

section \<open>Integers\<close>

text \<open>\<open>strconv.ParseInt(s, 10, 64)\<close>.\<close>

definition ParseInt :: "string \<Rightarrow> int option" where
  "ParseInt s =
     (let (neg, body) = (case s of c # s' \<Rightarrow> if c = CHR ''-'' then (True, s')
             else if c = CHR ''+'' then (False, s') else (False, s) | [] \<Rightarrow> (False, s)) in
      if body = [] \<or> \<not> list_all is_digit body then None
      else let n = foldl (\<lambda>a c. a * 10 + (of_char c - 48)) (0::int) body;
               m = (if neg then - n else n) in
        if - (2 ^ 63) \<le> m \<and> m < 2 ^ 63 then Some m else None)"

section \<open>Floating point\<close>

text \<open>
  A number that is decoded into \<open>any\<close> becomes a \<open>float64\<close>. The pair \<open>(m, e)\<close> is the
  finite number \<open>m * 2 ^ e\<close>. \<open>ParseFloat\<close> rounds to the nearest representable number, ties to
  even, and fails when the result is not finite, which makes \<open>json.Unmarshal\<close> fail.
\<close>

type_synonym float64 = "int \<times> int"

definition round_even :: "int \<Rightarrow> int \<Rightarrow> int" where
  "round_even n d =
     (let k = n div d; r = n mod d in
      if 2 * r < d \<or> 2 * r = d \<and> even k then k else k + 1)"

definition times_pow2 :: "int \<Rightarrow> int \<Rightarrow> int" where
  "times_pow2 n e = n * 2 ^ nat e"

text \<open>The exponent that leaves 53 bits of \<open>n / d\<close> before the point, at least the subnormal one.\<close>

definition float_exponent :: "int \<Rightarrow> int \<Rightarrow> int" where
  "float_exponent n d =
     (let e = bitlen n - bitlen d - 53;
          e' = (if times_pow2 n (- e) < times_pow2 (2 ^ 53 * d) e then e else e + 1)
      in max e' (-1074))"

definition float_round :: "int \<Rightarrow> int \<Rightarrow> float64 option" where
  "float_round n d =
     (if n = 0 then Some (0, 0)
      else let e = float_exponent n d; m = round_even (times_pow2 n (- e)) (times_pow2 d e) in
        if times_pow2 m e < times_pow2 (2 ^ 1024) (- e) then Some (m, e) else None)"

definition digits_int :: "string \<Rightarrow> int" where
  "digits_int ds = foldl (\<lambda>a c. a * 10 + (of_char c - 48)) 0 ds"

definition exponent_int :: "string \<Rightarrow> int" where
  "exponent_int s =
     (case s of
        _ # c # ds \<Rightarrow> if c = CHR ''-'' then - digits_int ds
                   else if c = CHR ''+'' then digits_int ds else digits_int (c # ds)
      | _ \<Rightarrow> 0)"

definition ParseFloat :: "string \<Rightarrow> float64 option" where
  "ParseFloat s =
     (let neg = has_prefix s ''-''; body = (if neg then tl s else s);
          i = takeWhile is_digit body; r = dropWhile is_digit body;
          f = (if has_prefix r ''.'' then takeWhile is_digit (tl r) else '''');
          r' = (if has_prefix r ''.'' then dropWhile is_digit (tl r) else r);
          x = exponent_int r' - int (length f)
      in map_option (\<lambda>(m, e). (if neg then - m else m, e))
           (float_round (digits_int (i @ f) * 10 ^ nat x) (10 ^ nat (- x))))"

text \<open>
  The conversion \<open>int64(x)\<close>: truncation. Outside of the range of \<open>int64\<close> the language leaves
  the result to the implementation; this is the one of amd64.
\<close>

definition float_int64 :: "float64 \<Rightarrow> int" where
  "float_int64 = (\<lambda>(m, e).
     let k = sgn m * (times_pow2 \<bar>m\<bar> e div 2 ^ nat (- e)) in
     if - (2 ^ 63) \<le> k \<and> k < 2 ^ 63 then k else - (2 ^ 63))"

text \<open>\<open>x == float64(k)\<close> for a \<open>k\<close> that \<open>float64\<close> represents exactly.\<close>

definition float_is_int :: "float64 \<Rightarrow> int \<Rightarrow> bool" where
  "float_is_int = (\<lambda>(m, e) k. times_pow2 m e = times_pow2 k (- e))"

fun finite_numbers :: "Value \<Rightarrow> bool" where
  "finite_numbers (VObject ms) = list_all (\<lambda>(_, v). finite_numbers v) ms"
| "finite_numbers (VArray vs) = list_all finite_numbers vs"
| "finite_numbers (VNumber n) = (ParseFloat n \<noteq> None)"
| "finite_numbers _ = True"

definition json_Unmarshal :: "string \<Rightarrow> Value option" where
  "json_Unmarshal s =
     (case json_decode s of
        Some v \<Rightarrow> if finite_numbers v then Some v else None
      | None \<Rightarrow> None)"

section \<open>Examples\<close>

lemma json_examples:
  "json_decode (CHR ''{'' # CHR 0x22 # ''a'' @ CHR 0x22 # '': [1, -2.5e3, true] }'')
     = Some (VObject [(''a'', VArray [VNumber ''1'', VNumber ''-2.5e3'', VBool True])])"
  "json_decode ''[1,]'' = None" "json_decode ''01'' = None" "json_decode '' null '' = Some VNull"
  "ParseInt ''-12'' = Some (-12)" "ParseInt ''1.0'' = None"
  "ParseFloat ''1'' = Some (4503599627370496, -52)" "ParseFloat ''-2.5e3'' = Some (-5497558138880000, -41)"
  "map_option float_int64 (ParseFloat ''3'') = Some 3"
  by code_simp+

end
