(* ===== verification/Tool_Contract.thy ===== *)
theory Tool_Contract
  imports Go_Json "HOL-Library.Char_ord" "HOL-Library.List_Lexorder"
begin

text \<open>
  The Tool Contracts of \<open>src/internal/tools/contract.go\<close>: the contract record, the check of a
  schema definition, the check of a payload against a schema, the registry and the five built-in
  contracts. A decoded schema is the list of members of a JSON object. Of the errors only the kind is
  kept: the texts name the first offending location, which for objects depends on the iteration order
  of a Go map.
\<close>

section \<open>Contracts\<close>

datatype ToolError = ErrInvalidContract | ErrSchemaValidation | ErrUnknownTool

record Contract =
  ct_Name :: string
  ct_Version :: string
  ct_InputSchema :: string
  ct_OutputSchema :: string
  ct_Capability :: string
  ct_ReadOnly :: bool
  ct_Timeout :: int
  ct_OutputLimit :: int
  ct_AllowedPaths :: "string list"
  ct_Network :: bool
  ct_Idempotency :: string

type_synonym members = "(string \<times> Value) list"

text \<open>\<open>json.Unmarshal\<close> into a \<open>map[string]any\<close>; the document \<open>null\<close> leaves the map nil.\<close>

definition unmarshal_map :: "string \<Rightarrow> members option" where
  "unmarshal_map s =
     (case json_Unmarshal s of
        Some (VObject ms) \<Rightarrow> Some ms
      | Some VNull \<Rightarrow> Some []
      | _ \<Rightarrow> None)"

section \<open>Schema definitions\<close>

definition schemaInteger :: "Value \<Rightarrow> bool" where
  "schemaInteger value =
     (case value of
        VNumber n \<Rightarrow>
          (case ParseFloat n of Some x \<Rightarrow> float_is_int x (float_int64 x) | None \<Rightarrow> False)
      | _ \<Rightarrow> False)"

definition nonNegativeSchemaInteger :: "Value \<Rightarrow> bool" where
  "nonNegativeSchemaInteger value =
     (case value of
        VNumber n \<Rightarrow>
          (case ParseFloat n of Some x \<Rightarrow> fst x \<ge> 0 \<and> float_is_int x (float_int64 x) | None \<Rightarrow> False)
      | _ \<Rightarrow> False)"

fun requiredNames :: "string set \<Rightarrow> members \<Rightarrow> Value list \<Rightarrow> bool" where
  "requiredNames seen properties [] = True"
| "requiredNames seen properties (raw # rest) =
     (case raw of
        VString name \<Rightarrow>
          name \<noteq> '''' \<and> name \<notin> seen \<and> name \<in> fst ` set properties
          \<and> requiredNames (insert name seen) properties rest
      | _ \<Rightarrow> False)"

definition allowedKeywords :: "string \<Rightarrow> string list" where
  "allowedKeywords expected = ''type'' #
     (if expected = ''object'' then [''additionalProperties'', ''required'', ''properties'']
      else if expected = ''array'' then [''minItems'', ''items'']
      else if expected = ''string'' then [''minLength'']
      else if expected = ''integer'' then [''minimum'']
      else [])"

definition optional_ok :: "(Value \<Rightarrow> bool) \<Rightarrow> members \<Rightarrow> string \<Rightarrow> bool" where
  "optional_ok ok definition key = (case map_of definition key of None \<Rightarrow> True | Some v \<Rightarrow> ok v)"

definition is_bool :: "Value \<Rightarrow> bool" where
  "is_bool v = (case v of VBool _ \<Rightarrow> True | _ \<Rightarrow> False)"

text \<open>The sub-schemas a definition is checked with: \<open>None\<close> when the property is not an object.\<close>

definition object_of :: "Value \<Rightarrow> members option" where
  "object_of v = (case v of VObject ms \<Rightarrow> Some ms | _ \<Rightarrow> None)"

definition schemaProperties :: "members \<Rightarrow> members option" where
  "schemaProperties definition =
     (case map_of definition ''properties'' of None \<Rightarrow> Some [] | Some raw \<Rightarrow> object_of raw)"

definition requiredOK :: "members \<Rightarrow> members \<Rightarrow> bool" where
  "requiredOK definition properties =
     (case map_of definition ''required'' of
        None \<Rightarrow> True
      | Some (VArray required) \<Rightarrow> requiredNames {} properties required
      | Some _ \<Rightarrow> False)"

lemma member_smaller: "(k, v) \<in> set ms \<Longrightarrow> size v < size (VObject ms)"
  by (induction ms) auto

lemma map_of_smaller: "map_of ms k = Some v \<Longrightarrow> size v < size (VObject ms)"
  by (auto dest!: map_of_SomeD member_smaller)

lemma properties_smaller:
  assumes "schemaProperties d = Some ps" "(k, v) \<in> set ps" "object_of v = Some c"
  shows "size (VObject c) < size (VObject d)"
proof -
  from assms(3) have v: "v = VObject c" by (simp add: object_of_def split: Value.splits)
  from assms(1,2) have "map_of d ''properties'' = Some (VObject ps)"
    by (auto simp: schemaProperties_def object_of_def split: option.splits Value.splits)
  from map_of_smaller [OF this] member_smaller [OF assms(2)] v show ?thesis by simp
qed

function validateSchemaDefinition :: "members \<Rightarrow> bool" where
  "validateSchemaDefinition definition =
     (case map_of definition ''type'' of
        Some (VString expected) \<Rightarrow>
          (if expected = ''object'' then
             optional_ok is_bool definition ''additionalProperties''
             \<and> (case schemaProperties definition of
                  None \<Rightarrow> False
                | Some properties \<Rightarrow>
                    requiredOK definition properties
                    \<and> list_all (\<lambda>(_, raw). case object_of raw of
                          None \<Rightarrow> False | Some child \<Rightarrow> validateSchemaDefinition child) properties)
           else if expected = ''array'' then
             optional_ok nonNegativeSchemaInteger definition ''minItems''
             \<and> (case map_of definition ''items'' of
                  None \<Rightarrow> False
                | Some raw \<Rightarrow> (case object_of raw of
                    None \<Rightarrow> False | Some items \<Rightarrow> validateSchemaDefinition items))
           else if expected = ''string'' then optional_ok nonNegativeSchemaInteger definition ''minLength''
           else if expected = ''integer'' then optional_ok schemaInteger definition ''minimum''
           else expected = ''boolean'')
          \<and> list_all (\<lambda>(keyword, _). keyword \<in> set (allowedKeywords expected)) definition
      | _ \<Rightarrow> False)"
  by pat_completeness auto
termination
proof (relation "measure (\<lambda>d. size (VObject d))")
  show "(child, d0) \<in> measure (\<lambda>d. size (VObject d))"
    if "schemaProperties d0 = Some ps" "x \<in> set ps" "(k, raw) = x" "object_of raw = Some child"
    for d0 ps x k raw child using properties_smaller [of d0 ps k raw child] that by simp
  show "(items, d0) \<in> measure (\<lambda>d. size (VObject d))"
    if "map_of d0 ''items'' = Some raw" "object_of raw = Some items" for d0 raw items
    using map_of_smaller [OF that(1)] that(2) by (auto simp: object_of_def split: Value.splits)
qed simp

declare validateSchemaDefinition.simps [simp del]

definition validateSchemaText :: "string \<Rightarrow> ToolError + unit" where
  "validateSchemaText schema =
     (case unmarshal_map schema of
        None \<Rightarrow> Inl ErrInvalidContract
      | Some decoded \<Rightarrow>
          (if map_of decoded ''type'' \<noteq> Some (VString ''object'') then Inl ErrInvalidContract
           else if \<not> validateSchemaDefinition decoded then Inl ErrInvalidContract
           else Inr ()))"

definition contract_Validate :: "Contract \<Rightarrow> ToolError + unit" where
  "contract_Validate c =
     (if ct_Name c = '''' \<or> ct_Version c = '''' \<or> ct_InputSchema c = '''' \<or> ct_OutputSchema c = ''''
         \<or> ct_Capability c = '''' \<or> ct_Timeout c \<le> 0 \<or> ct_OutputLimit c \<le> 0
         \<or> ct_AllowedPaths c = [] \<or> ct_Idempotency c = ''''
      then Inl ErrInvalidContract
      else bindE (validateSchemaText (ct_InputSchema c)) (\<lambda>_. validateSchemaText (ct_OutputSchema c)))"

section \<open>Payloads\<close>

definition numericInt :: "Value option \<Rightarrow> int option" where
  "numericInt value =
     (case value of Some (VNumber n) \<Rightarrow> map_option float_int64 (ParseFloat n) | _ \<Rightarrow> None)"

definition at_least :: "int option \<Rightarrow> int \<Rightarrow> bool" where
  "at_least minimum n = (case minimum of None \<Rightarrow> True | Some k \<Rightarrow> k \<le> n)"

text \<open>The two lookups of an object schema: a value of another type counts as absent.\<close>

definition valueProperties :: "members \<Rightarrow> members" where
  "valueProperties definition = (case map_of definition ''properties'' of Some (VObject ps) \<Rightarrow> ps | _ \<Rightarrow> [])"

definition requiredList :: "members \<Rightarrow> string list" where
  "requiredList definition =
     (case map_of definition ''required'' of
        Some (VArray rs) \<Rightarrow> map (\<lambda>raw. case raw of VString name \<Rightarrow> name | _ \<Rightarrow> '''') rs
      | _ \<Rightarrow> [])"

lemma valueProperties_smaller:
  assumes "map_of (valueProperties d) k = Some v" "object_of v = Some c"
  shows "size (VObject c) < size (VObject d)"
proof -
  from assms have "map_of d ''properties'' = Some (VObject (valueProperties d))"
    by (auto simp: valueProperties_def split: option.splits Value.splits)
  from map_of_smaller [OF this] map_of_smaller [OF assms(1)] assms(2) show ?thesis
    by (auto simp: object_of_def split: Value.splits)
qed

function validateSchemaValue :: "members \<Rightarrow> Value \<Rightarrow> bool" where
  "validateSchemaValue definition value =
     (case map_of definition ''type'' of
        Some (VString expected) \<Rightarrow>
          (if expected = ''object'' then
             (case value of
                VObject obj \<Rightarrow>
                  list_all (\<lambda>name. name \<in> fst ` set obj) (requiredList definition)
                  \<and> list_all (\<lambda>(name, child).
                        case map_of (valueProperties definition) name of
                          None \<Rightarrow> map_of definition ''additionalProperties'' \<noteq> Some (VBool False)
                        | Some raw \<Rightarrow> (case object_of raw of
                            None \<Rightarrow> False | Some d \<Rightarrow> validateSchemaValue d child)) obj
              | _ \<Rightarrow> False)
           else if expected = ''array'' then
             (case value of
                VArray array \<Rightarrow>
                  at_least (numericInt (map_of definition ''minItems'')) (int (length array))
                  \<and> (case map_of definition ''items'' of
                       None \<Rightarrow> True
                     | Some raw \<Rightarrow> (case object_of raw of
                         None \<Rightarrow> True
                       | Some items \<Rightarrow> list_all (\<lambda>item. validateSchemaValue items item) array))
              | _ \<Rightarrow> False)
           else if expected = ''string'' then
             (case value of
                VString text \<Rightarrow> at_least (numericInt (map_of definition ''minLength'')) (int (length text))
              | _ \<Rightarrow> False)
           else if expected = ''integer'' then
             (case value of
                VNumber number \<Rightarrow>
                  (case ParseInt number of
                     None \<Rightarrow> False
                   | Some i \<Rightarrow> at_least (numericInt (map_of definition ''minimum'')) i)
              | _ \<Rightarrow> False)
           else if expected = ''boolean'' then is_bool value
           else False)
      | _ \<Rightarrow> False)"
  by pat_completeness auto
termination
proof (relation "measure (\<lambda>(d, v). size (VObject d))")
  show "((d, child), (d0, w)) \<in> measure (\<lambda>(d, v). size (VObject d))"
    if "map_of (valueProperties d0) name = Some raw" "object_of raw = Some d"
    for d0 w name raw d child using valueProperties_smaller [OF that] by simp
  show "((items, item), (d0, w)) \<in> measure (\<lambda>(d, v). size (VObject d))"
    if "map_of d0 ''items'' = Some raw" "object_of raw = Some items" for d0 w raw items item
    using map_of_smaller [OF that(1)] that(2) by (auto simp: object_of_def split: Value.splits)
qed simp

declare validateSchemaValue.simps [simp del]

definition validateJSONSchema :: "string \<Rightarrow> string \<Rightarrow> ToolError + unit" where
  "validateJSONSchema schemaBytes payloadBytes =
     (case unmarshal_map schemaBytes of
        None \<Rightarrow> Inl ErrSchemaValidation
      | Some definition \<Rightarrow>
          (case json_decode payloadBytes of
             None \<Rightarrow> Inl ErrSchemaValidation
           | Some payload \<Rightarrow>
               if validateSchemaValue definition payload then Inr () else Inl ErrSchemaValidation))"

definition ValidateInput :: "Contract \<Rightarrow> string \<Rightarrow> ToolError + unit" where
  "ValidateInput c input = validateJSONSchema (ct_InputSchema c) input"

definition ValidateOutput :: "Contract \<Rightarrow> string \<Rightarrow> ToolError + unit" where
  "ValidateOutput c out = validateJSONSchema (ct_OutputSchema c) out"

section \<open>Registry\<close>

text \<open>The registered contracts; the keys of the Go map are the names.\<close>

type_synonym Registry = "(string \<times> Contract) list"

fun registerAll :: "Registry \<Rightarrow> Contract list \<Rightarrow> ToolError + Registry" where
  "registerAll registry [] = Inr registry"
| "registerAll registry (c # cs) =
     bindE (contract_Validate c) (\<lambda>_.
       if ct_Name c \<in> fst ` set registry then Inl ErrInvalidContract
       else registerAll (registry @ [(ct_Name c, c)]) cs)"

definition NewRegistry :: "Contract list \<Rightarrow> ToolError + Registry" where
  "NewRegistry contracts = registerAll [] contracts"

definition registry_Get :: "Registry \<Rightarrow> string \<Rightarrow> Contract option" where
  "registry_Get registry name = map_of registry name"

definition registry_Names :: "Registry \<Rightarrow> string list" where
  "registry_Names registry = sort (map fst registry)"

definition registry_Contracts :: "Registry \<Rightarrow> Contract list" where
  "registry_Contracts registry = List.map_filter (registry_Get registry) (registry_Names registry)"

section \<open>Comparison of contract sets\<close>

fun stringSlicesEqual :: "string list \<Rightarrow> string list \<Rightarrow> bool" where
  "stringSlicesEqual (a # xs) (b # ys) = (a = b \<and> stringSlicesEqual xs ys)"
| "stringSlicesEqual xs ys = (length xs = length ys)"

definition contractsEqual :: "Contract \<Rightarrow> Contract \<Rightarrow> bool" where
  "contractsEqual l r \<longleftrightarrow>
     ct_Name l = ct_Name r \<and> ct_Version l = ct_Version r
     \<and> ct_InputSchema l = ct_InputSchema r \<and> ct_OutputSchema l = ct_OutputSchema r
     \<and> ct_Capability l = ct_Capability r \<and> ct_ReadOnly l = ct_ReadOnly r
     \<and> ct_Timeout l = ct_Timeout r \<and> ct_OutputLimit l = ct_OutputLimit r
     \<and> stringSlicesEqual (ct_AllowedPaths l) (ct_AllowedPaths r)
     \<and> ct_Network l = ct_Network r \<and> ct_Idempotency l = ct_Idempotency r"

fun indexByName :: "(string \<times> Contract) list \<Rightarrow> Contract list \<Rightarrow> (string \<times> Contract) list option" where
  "indexByName acc [] = Some acc"
| "indexByName acc (c # cs) =
     (if ct_Name c \<in> fst ` set acc then None else indexByName ((ct_Name c, c) # acc) cs)"

fun matchByName :: "string set \<Rightarrow> (string \<times> Contract) list \<Rightarrow> Contract list \<Rightarrow> bool" where
  "matchByName seen rightByName [] = True"
| "matchByName seen rightByName (c # cs) =
     (if ct_Name c \<in> seen then False
      else case map_of rightByName (ct_Name c) of
        None \<Rightarrow> False
      | Some other \<Rightarrow>
          contractsEqual c other \<and> matchByName (insert (ct_Name c) seen) rightByName cs)"

definition ContractSetsEqual :: "Contract list \<Rightarrow> Contract list \<Rightarrow> bool" where
  "ContractSetsEqual left right =
     (if length left \<noteq> length right then False
      else case indexByName [] right of
        None \<Rightarrow> False
      | Some rightByName \<Rightarrow> matchByName {} rightByName left)"

section \<open>Built-in contracts\<close>

text \<open>The raw string literals of the source: lines joined by a newline and the indentation in tabs.\<close>

fun source_lines :: "nat \<Rightarrow> string list \<Rightarrow> string" where
  "source_lines tabs [] = ''''"
| "source_lines tabs [l] = l"
| "source_lines tabs (l # ls) = l @ CHR 0x0A # replicate tabs (CHR 0x09) @ source_lines tabs ls"

definition outputSchema :: string where
\<open>outputSchema = source_lines 1
  [''{'',
   ''  "type":"object",'',
   ''  "additionalProperties":false,'',
   ''  "required":["stdout","stderr","exitCode","timedOut","truncated"],'',
   ''  "properties":{'',
   ''    "stdout":{"type":"string"},'',
   ''    "stderr":{"type":"string"},'',
   ''    "exitCode":{"type":"integer"},'',
   ''    "timedOut":{"type":"boolean"},'',
   ''    "truncated":{"type":"boolean"}'',
   ''  }'',
   ''}'']\<close>

definition listSchema :: string where
\<open>listSchema = source_lines 3
  [''{'',
   ''  "type":"object","additionalProperties":false,'',
   ''  "required":["path"],'',
   ''  "properties":{"path":{"type":"string","minLength":1}}'',
   ''}'']\<close>

definition readSchema :: string where
\<open>readSchema = source_lines 3
  [''{'',
   ''  "type":"object","additionalProperties":false,'',
   ''  "required":["path"],'',
   ''  "properties":{'',
   ''    "path":{"type":"string","minLength":1},'',
   ''    "startLine":{"type":"integer","minimum":1},'',
   ''    "endLine":{"type":"integer","minimum":1}'',
   ''  }'',
   ''}'']\<close>

definition searchSchema :: string where
\<open>searchSchema = source_lines 3
  [''{'',
   ''  "type":"object","additionalProperties":false,'',
   ''  "required":["path","pattern"],'',
   ''  "properties":{'',
   ''    "path":{"type":"string","minLength":1},'',
   ''    "pattern":{"type":"string","minLength":1}'',
   ''  }'',
   ''}'']\<close>

definition patchSchema :: string where
\<open>patchSchema = source_lines 3
  [''{'',
   ''  "type":"object","additionalProperties":false,'',
   ''  "required":["path","old","new"],'',
   ''  "properties":{'',
   ''    "path":{"type":"string","minLength":1},'',
   ''    "old":{"type":"string","minLength":1},'',
   ''    "new":{"type":"string"}'',
   ''  }'',
   ''}'']\<close>

definition testSchema :: string where
\<open>testSchema = source_lines 3
  [''{'',
   ''  "type":"object","additionalProperties":false,'',
   ''  "required":["packages"],'',
   ''  "properties":{'',
   ''    "packages":{"type":"array","minItems":1,"items":{"type":"string","minLength":1}},'',
   ''    "run":{"type":"string"},'',
   ''    "verbose":{"type":"boolean"}'',
   ''  }'',
   ''}'']\<close>

definition seconds :: "int \<Rightarrow> int" where
  "seconds n = n * 1000000000"

definition builtinContracts :: "Contract list" where
  "builtinContracts =
     [\<lparr>ct_Name = ''repo.list'', ct_Version = ''v1'', ct_InputSchema = listSchema, ct_OutputSchema = outputSchema,
       ct_Capability = ''repo:read'', ct_ReadOnly = True, ct_Timeout = seconds 10, ct_OutputLimit = 262144,
       ct_AllowedPaths = [''.''], ct_Network = False,
       ct_Idempotency = ''read-only; identical workspace bytes yield equivalent output''\<rparr>,
      \<lparr>ct_Name = ''repo.read'', ct_Version = ''v1'', ct_InputSchema = readSchema, ct_OutputSchema = outputSchema,
       ct_Capability = ''repo:read'', ct_ReadOnly = True, ct_Timeout = seconds 10, ct_OutputLimit = 262144,
       ct_AllowedPaths = [''.''], ct_Network = False,
       ct_Idempotency = ''read-only; identical workspace bytes yield equivalent output''\<rparr>,
      \<lparr>ct_Name = ''repo.search'', ct_Version = ''v1'', ct_InputSchema = searchSchema, ct_OutputSchema = outputSchema,
       ct_Capability = ''repo:read'', ct_ReadOnly = True, ct_Timeout = seconds 15, ct_OutputLimit = 524288,
       ct_AllowedPaths = [''.''], ct_Network = False,
       ct_Idempotency = ''read-only; identical workspace bytes yield equivalent output''\<rparr>,
      \<lparr>ct_Name = ''repo.apply_patch'', ct_Version = ''v1'', ct_InputSchema = patchSchema, ct_OutputSchema = outputSchema,
       ct_Capability = ''repo:write'', ct_ReadOnly = False, ct_Timeout = seconds 15, ct_OutputLimit = 262144,
       ct_AllowedPaths = [''.''], ct_Network = False,
       ct_Idempotency = ''scoped exact replacement; the complete result must exclude old so replay after success is rejected''\<rparr>,
      \<lparr>ct_Name = ''repo.test'', ct_Version = ''v1'', ct_InputSchema = testSchema, ct_OutputSchema = outputSchema,
       ct_Capability = ''repo:test'', ct_ReadOnly = False, ct_Timeout = seconds 60, ct_OutputLimit = 1048576,
       ct_AllowedPaths = [''.''], ct_Network = False,
       ct_Idempotency = ''scoped to disposable workspace; tests may write only within that workspace''\<rparr>]"

definition NewBuiltinRegistry :: "ToolError + Registry" where
  "NewBuiltinRegistry = NewRegistry builtinContracts"

section \<open>Decoded objects\<close>

lemma last_members_keys: "set (map fst (last_members ms)) = set (map fst ms) \<and> distinct (map fst (last_members ms))"
  by (induction ms rule: last_members.induct) force+

lemma json_decode_distinct:
  assumes "json_decode s = Some (VObject ms)"
  shows "distinct (map fst ms)"
proof -
  from assms obtain rest where "parse_value 0 s = Some (VObject ms, rest)"
    by (auto simp: json_decode_def split: option.splits if_splits)
  then show ?thesis
    by (subst (asm) parse_value.simps)
       (auto simp: literal_def last_members_keys split: list.splits if_splits)
qed

section \<open>Registration\<close>

lemma stringSlicesEqual_iff [simp]: "stringSlicesEqual xs ys \<longleftrightarrow> xs = ys"
  by (induction xs ys rule: stringSlicesEqual.induct) auto

lemma contractsEqual_iff [simp]: "contractsEqual l r \<longleftrightarrow> l = r"
  by (auto simp: contractsEqual_def)

lemma indexByName_iff:
  "indexByName acc cs = Some idx \<longleftrightarrow>
     distinct (map ct_Name cs) \<and> set (map ct_Name cs) \<inter> fst ` set acc = {}
     \<and> idx = rev (map (\<lambda>c. (ct_Name c, c)) cs) @ acc"
  by (induction acc cs rule: indexByName.induct) auto

lemma map_of_named:
  "distinct (map ct_Name cs) \<Longrightarrow> map_of (rev (map (\<lambda>c. (ct_Name c, c)) cs)) n = Some c \<longleftrightarrow> c \<in> set cs \<and> n = ct_Name c"
  by (subst map_of_eq_Some_iff) (auto simp: comp_def rev_map [symmetric])

lemma matchByName_iff:
  assumes "distinct (map ct_Name rs)"
  shows "matchByName seen (rev (map (\<lambda>c. (ct_Name c, c)) rs)) cs \<longleftrightarrow>
     distinct (map ct_Name cs) \<and> set (map ct_Name cs) \<inter> seen = {} \<and> set cs \<subseteq> set rs"
proof (induction cs arbitrary: seen)
  case (Cons c cs)
  have "matchByName seen (rev (map (\<lambda>c. (ct_Name c, c)) rs)) (c # cs) \<longleftrightarrow>
      ct_Name c \<notin> seen \<and> c \<in> set rs \<and> matchByName (insert (ct_Name c) seen) (rev (map (\<lambda>c. (ct_Name c, c)) rs)) cs"
    using map_of_named [OF assms, of "ct_Name c" c]
    by (cases "map_of (rev (map (\<lambda>c. (ct_Name c, c)) rs)) (ct_Name c)") auto
  then show ?case unfolding Cons.IH by auto
qed simp

lemma ContractSetsEqual_set:
  "ContractSetsEqual l r \<longleftrightarrow>
     distinct (map ct_Name l) \<and> distinct (map ct_Name r) \<and> set l = set r"
proof (cases "distinct (map ct_Name r)")
  case True
  then have idx: "indexByName [] r = Some (rev (map (\<lambda>c. (ct_Name c, c)) r))" by (simp add: indexByName_iff)
  have "set l = set r \<longleftrightarrow> set l \<subseteq> set r \<and> length l = length r" if "distinct (map ct_Name l)"
  proof -
    have "card (set l) = length l" "card (set r) = length r"
      using that True by (auto simp: distinct_map distinct_card)
    then show ?thesis by (metis List.finite_set card_subset_eq subset_refl)
  qed
  then show ?thesis
    by (auto simp: ContractSetsEqual_def idx matchByName_iff [OF True] True)
next
  case False
  then have "indexByName [] r = None" using indexByName_iff [of "[]" r] by (cases "indexByName [] r") auto
  then show ?thesis using False by (simp add: ContractSetsEqual_def)
qed

lemma registerAll_iff:
  "registerAll reg cs = Inr reg' \<longleftrightarrow>
     list_all (\<lambda>c. contract_Validate c = Inr ()) cs \<and> distinct (map ct_Name cs)
     \<and> set (map ct_Name cs) \<inter> fst ` set reg = {} \<and> reg' = reg @ map (\<lambda>c. (ct_Name c, c)) cs"
  by (induction reg cs rule: registerAll.induct) (auto simp: result_simps)

lemma NewRegistry_iff:
  "NewRegistry cs = Inr reg \<longleftrightarrow>
     list_all (\<lambda>c. contract_Validate c = Inr ()) cs \<and> distinct (map ct_Name cs)
     \<and> reg = map (\<lambda>c. (ct_Name c, c)) cs"
  by (simp add: NewRegistry_def registerAll_iff)

lemma registry_Get_iff:
  assumes "NewRegistry cs = Inr reg"
  shows "registry_Get reg n = Some c \<longleftrightarrow> c \<in> set cs \<and> ct_Name c = n"
  using assms unfolding NewRegistry_iff registry_Get_def
  by (subst map_of_eq_Some_iff) (auto simp: comp_def)

lemma registry_Contracts_names:
  assumes "NewRegistry cs = Inr reg"
  shows "map ct_Name (registry_Contracts reg) = registry_Names reg" "set (registry_Contracts reg) = set cs"
proof -
  have names: "set (registry_Names reg) = ct_Name ` set cs"
    using assms by (auto simp: NewRegistry_iff registry_Names_def)
  have some: "\<exists>c. registry_Get reg n = Some c \<and> ct_Name c = n" if "n \<in> set (registry_Names reg)" for n
    using that registry_Get_iff [OF assms] by (auto simp: names)
  then have "map ct_Name (List.map_filter (registry_Get reg) ns) = ns" if "set ns \<subseteq> set (registry_Names reg)" for ns
    using that by (induction ns) (fastforce simp: List.map_filter_def)+
  then show "map ct_Name (registry_Contracts reg) = registry_Names reg" by (simp add: registry_Contracts_def)
  have "c \<in> set (registry_Contracts reg) \<longleftrightarrow> (\<exists>n \<in> set (registry_Names reg). registry_Get reg n = Some c)" for c
    unfolding registry_Contracts_def by (auto simp: List.map_filter_def image_iff)
  then show "set (registry_Contracts reg) = set cs"
    unfolding registry_Get_iff [OF assms] names by auto
qed

end
