(* ===== verification/Tool_Contract_Props.thy ===== *)
theory Tool_Contract_Props
  imports Tool_Contract
begin

text \<open>
  What the Tool Contracts promise: which registries are accepted and what they hand out, that the
  built-in contracts form one, and the input languages of the five built-in tools.
\<close>

section \<open>The built-in schemas, decoded\<close>

abbreviation text_schema :: "int \<Rightarrow> Value" where
  "text_schema n \<equiv> VObject ((''type'', VString ''string'') #
     (if n = 0 then [] else [(''minLength'', VNumber ''1'')]))"

abbreviation closed_object :: "string list \<Rightarrow> members \<Rightarrow> members" where
  "closed_object required properties \<equiv>
     [(''type'', VString ''object''), (''additionalProperties'', VBool False),
      (''required'', VArray (map VString required)), (''properties'', VObject properties)]"

lemma listSchema_decoded:
  "unmarshal_map listSchema = Some (closed_object [''path''] [(''path'', text_schema 1)])"
  by code_simp

lemma readSchema_decoded:
  "unmarshal_map readSchema = Some (closed_object [''path'']
     [(''path'', text_schema 1),
      (''startLine'', VObject [(''type'', VString ''integer''), (''minimum'', VNumber ''1'')]),
      (''endLine'', VObject [(''type'', VString ''integer''), (''minimum'', VNumber ''1'')])])"
  by code_simp

lemma searchSchema_decoded:
  "unmarshal_map searchSchema = Some (closed_object [''path'', ''pattern'']
     [(''path'', text_schema 1), (''pattern'', text_schema 1)])"
  by code_simp

lemma patchSchema_decoded:
  "unmarshal_map patchSchema = Some (closed_object [''path'', ''old'', ''new'']
     [(''path'', text_schema 1), (''old'', text_schema 1), (''new'', text_schema 0)])"
  by code_simp

lemma testSchema_decoded:
  "unmarshal_map testSchema = Some (closed_object [''packages'']
     [(''packages'', VObject [(''type'', VString ''array''), (''minItems'', VNumber ''1''), (''items'', text_schema 1)]),
      (''run'', text_schema 0), (''verbose'', VObject [(''type'', VString ''boolean'')])])"
  by code_simp

lemma outputSchema_decoded:
  "unmarshal_map outputSchema = Some (closed_object [''stdout'', ''stderr'', ''exitCode'', ''timedOut'', ''truncated'']
     [(''stdout'', text_schema 0), (''stderr'', text_schema 0), (''exitCode'', VObject [(''type'', VString ''integer'')]),
      (''timedOut'', VObject [(''type'', VString ''boolean'')]), (''truncated'', VObject [(''type'', VString ''boolean'')])])"
  by code_simp

lemmas schemas_decoded =
  listSchema_decoded readSchema_decoded searchSchema_decoded patchSchema_decoded testSchema_decoded outputSchema_decoded

lemma one_is_integer: "schemaInteger (VNumber ''1'')" "nonNegativeSchemaInteger (VNumber ''1'')"
    "numericInt (Some (VNumber ''1'')) = Some 1"
  by code_simp+

lemma schemas_valid:
  "schema \<in> {listSchema, readSchema, searchSchema, patchSchema, testSchema, outputSchema} \<Longrightarrow> validateSchemaText schema = Inr ()"
  by (auto simp: validateSchemaText_def schemas_decoded validateSchemaDefinition.simps schemaProperties_def
      requiredOK_def object_of_def optional_ok_def is_bool_def allowedKeywords_def one_is_integer)

section \<open>Properties\<close>

lemma ValidateInput_iff:
  "ValidateInput c input = Inr () \<longleftrightarrow>
     (\<exists>d v. unmarshal_map (ct_InputSchema c) = Some d \<and> json_decode input = Some v \<and> validateSchemaValue d v)"
  by (auto simp: ValidateInput_def validateJSONSchema_def split: option.splits)

lemma numericInt_None: "numericInt None = None"
  by (simp add: numericInt_def)

lemma text_schema_iff [simp]:
  "object_of (text_schema n) = Some d \<Longrightarrow> n = 0 \<or> n = 1 \<Longrightarrow>
     validateSchemaValue d v \<longleftrightarrow> (\<exists>t. v = VString t \<and> n \<le> int (length t))"
  by (auto simp: object_of_def validateSchemaValue.simps [of d] one_is_integer at_least_def numericInt_None
      split: Value.splits)

lemma closed_object_iff:
  assumes "distinct (map fst ms)"
  shows "validateSchemaValue (closed_object req ps) (VObject ms) \<longleftrightarrow>
    set req \<subseteq> set (map fst ms)
    \<and> (\<forall>k v. map_of ms k = Some v \<longrightarrow>
         (\<exists>raw d. map_of ps k = Some raw \<and> object_of raw = Some d \<and> validateSchemaValue d v))"
  using assms
  by (subst validateSchemaValue.simps)
     (fastforce simp: requiredList_def valueProperties_def list_all_iff image_iff comp_def split: option.splits)

lemma builtin_registered:
  "NewBuiltinRegistry = Inr (map (\<lambda>c. (ct_Name c, c)) builtinContracts)"
proof -
  have "list_all (\<lambda>c. contract_Validate c = Inr ()) builtinContracts"
    by (simp add: builtinContracts_def contract_Validate_def schemas_valid seconds_def
        listSchema_def readSchema_def searchSchema_def patchSchema_def testSchema_def outputSchema_def)
  moreover have "distinct (map ct_Name builtinContracts)" by (simp add: builtinContracts_def)
  ultimately show ?thesis by (simp add: NewBuiltinRegistry_def NewRegistry_iff)
qed

section \<open>The input languages\<close>

text \<open>
  A JSON object whose members are those of a list of fields: no other names, the required ones present,
  and each value of the form its field asks for.
\<close>

type_synonym field = "string \<times> bool \<times> (Value \<Rightarrow> bool)"

definition exactMembers :: "field list \<Rightarrow> (string \<rightharpoonup> Value) \<Rightarrow> bool" where
  "exactMembers fs m \<longleftrightarrow> dom m \<subseteq> fst ` set fs
     \<and> list_all (\<lambda>(k, required, form). (required \<longrightarrow> m k \<noteq> None) \<and> (\<forall>v. m k = Some v \<longrightarrow> form v)) fs"

definition anyText :: "Value \<Rightarrow> bool" where "anyText v \<longleftrightarrow> (\<exists>t. v = VString t)"

definition nonEmptyText :: "Value \<Rightarrow> bool" where "nonEmptyText v \<longleftrightarrow> (\<exists>t. v = VString t \<and> t \<noteq> '''')"

definition lineNumber :: "Value \<Rightarrow> bool" where "lineNumber v \<longleftrightarrow> (\<exists>n i. v = VNumber n \<and> ParseInt n = Some i \<and> 1 \<le> i)"

definition packageList :: "Value \<Rightarrow> bool" where
  "packageList v \<longleftrightarrow> (\<exists>ps. v = VArray (map VString ps) \<and> ps \<noteq> [] \<and> '''' \<notin> set ps)"

definition builtinFields :: "string \<Rightarrow> field list" where
  "builtinFields name =
     (if name = ''repo.list'' then [(''path'', True, nonEmptyText)]
      else if name = ''repo.read'' then [(''path'', True, nonEmptyText), (''startLine'', False, lineNumber), (''endLine'', False, lineNumber)]
      else if name = ''repo.search'' then [(''path'', True, nonEmptyText), (''pattern'', True, nonEmptyText)]
      else if name = ''repo.apply_patch'' then [(''path'', True, nonEmptyText), (''old'', True, nonEmptyText), (''new'', True, anyText)]
      else if name = ''repo.test'' then [(''packages'', True, packageList), (''run'', False, anyText), (''verbose'', False, is_bool)]
      else [])"

definition schemaHolds :: "Value \<Rightarrow> Value \<Rightarrow> bool" where
  "schemaHolds raw v \<longleftrightarrow> (\<exists>d. object_of raw = Some d \<and> validateSchemaValue d v)"

lemma text_schema_holds: "schemaHolds (text_schema 1) v \<longleftrightarrow> nonEmptyText v" "schemaHolds (text_schema 0) v \<longleftrightarrow> anyText v"
  using text_schema_iff [of 1 _ v] text_schema_iff [of 0 _ v]
  by (auto simp: schemaHolds_def object_of_def nonEmptyText_def anyText_def Suc_le_eq)

lemma boolean_schema_holds: "schemaHolds (VObject [(''type'', VString ''boolean'')]) v \<longleftrightarrow> is_bool v"
  by (simp add: schemaHolds_def object_of_def validateSchemaValue.simps)

lemma line_schema_holds: "schemaHolds (VObject [(''type'', VString ''integer''), (''minimum'', VNumber ''1'')]) v \<longleftrightarrow> lineNumber v"
  by (auto simp: schemaHolds_def object_of_def validateSchemaValue.simps one_is_integer at_least_def lineNumber_def
      split: Value.splits option.splits)

lemma packages_schema_holds:
  "schemaHolds (VObject [(''type'', VString ''array''), (''minItems'', VNumber ''1''), (''items'', text_schema 1)]) v \<longleftrightarrow> packageList v"
proof -
  have items: "list_all (validateSchemaValue [(''type'', VString ''string''), (''minLength'', VNumber ''1'')]) vs \<longleftrightarrow>
      (\<exists>ps. vs = map VString ps \<and> '''' \<notin> set ps)" for vs
  proof (induction vs)
    case (Cons v vs)
    have "validateSchemaValue [(''type'', VString ''string''), (''minLength'', VNumber ''1'')] v \<longleftrightarrow> nonEmptyText v"
      using text_schema_holds(1) [of v] by (simp add: schemaHolds_def object_of_def)
    then show ?case using Cons.IH by (fastforce simp: Cons_eq_map_conv nonEmptyText_def)
  qed simp
  show ?thesis unfolding schemaHolds_def
    by (subst validateSchemaValue.simps)
       (auto simp: items object_of_def one_is_integer at_least_def Suc_le_eq packageList_def split: Value.splits)
qed

lemmas schema_holds = text_schema_holds text_schema_holds [simplified] boolean_schema_holds line_schema_holds packages_schema_holds [simplified]

text \<open>The members a closed object schema admits, from the form each property schema stands for.\<close>

definition describes :: "string list \<Rightarrow> members \<Rightarrow> field list \<Rightarrow> bool" where
  "describes req ps fs \<longleftrightarrow> set req \<subseteq> fst ` set ps \<and> distinct (map fst ps)
     \<and> list_all2 (\<lambda>(k, raw) (k', required, form). k' = k \<and> (required \<longleftrightarrow> k \<in> set req) \<and> (\<forall>v. schemaHolds raw v \<longleftrightarrow> form v)) ps fs"

lemma described_fields:
  assumes "list_all2 (\<lambda>(k, raw) (k', required, form). k' = k \<and> (required \<longleftrightarrow> k \<in> R) \<and> (\<forall>v. schemaHolds raw v \<longleftrightarrow> form v)) ps fs"
  shows "(k, raw) \<in> set ps \<Longrightarrow> \<exists>form. (k, k \<in> R, form) \<in> set fs \<and> (\<forall>v. schemaHolds raw v \<longleftrightarrow> form v)"
    and "(k, required, form) \<in> set fs \<Longrightarrow> \<exists>raw. (k, raw) \<in> set ps \<and> (required \<longleftrightarrow> k \<in> R) \<and> (\<forall>v. schemaHolds raw v \<longleftrightarrow> form v)"
  using assms by (induction rule: list_all2_induct) auto

lemma described_members:
  assumes "describes req ps fs"
  shows "set req \<subseteq> set (map fst ms) \<and> (\<forall>k v. map_of ms k = Some v \<longrightarrow>
      (\<exists>raw d. map_of ps k = Some raw \<and> object_of raw = Some d \<and> validateSchemaValue d v)) \<longleftrightarrow> exactMembers fs (map_of ms)"
proof -
  note req = assms [unfolded describes_def, THEN conjunct1]
  note fields = described_fields [OF assms [unfolded describes_def, THEN conjunct2, THEN conjunct2]]
  have ps: "map_of ps k = Some raw \<longleftrightarrow> (k, raw) \<in> set ps" for k raw using assms by (simp add: describes_def)
  have unique: "raw' = raw" if "(k, raw) \<in> set ps" "(k, raw') \<in> set ps" for k raw raw' using that ps by (metis option.inject)
  have present: "k \<in> set (map fst ms) \<longleftrightarrow> map_of ms k \<noteq> None" for k by (simp add: map_of_eq_None_iff)
  have holds: "(\<exists>raw d. map_of ps k = Some raw \<and> object_of raw = Some d \<and> validateSchemaValue d v)
      \<longleftrightarrow> (\<exists>raw. (k, raw) \<in> set ps \<and> schemaHolds raw v)" for k v
    by (auto simp: ps schemaHolds_def)
  have "exactMembers fs (map_of ms)"
    if r: "\<forall>k\<in>set req. map_of ms k \<noteq> None" and m: "\<forall>k v. map_of ms k = Some v \<longrightarrow> (\<exists>raw. (k, raw) \<in> set ps \<and> schemaHolds raw v)"
    unfolding exactMembers_def list_all_iff
  proof (intro conjI ballI subsetI)
    show "k \<in> fst ` set fs" if "k \<in> dom (map_of ms)" for k using that m fields(1) by (force simp: dom_def)
    show "case field of (k, required, form) \<Rightarrow> (required \<longrightarrow> map_of ms k \<noteq> None) \<and> (\<forall>v. map_of ms k = Some v \<longrightarrow> form v)"
      if f: "field \<in> set fs" for field
    proof -
      obtain k required form where field: "field = (k, required, form)" by (cases field)
      with f fields(2) obtain raw where raw: "(k, raw) \<in> set ps" "required \<longleftrightarrow> k \<in> set req" "\<forall>v. schemaHolds raw v \<longleftrightarrow> form v" by blast
      then show ?thesis using field r m unique by fastforce
    qed
  qed
  moreover have "\<exists>raw. (k, raw) \<in> set ps \<and> schemaHolds raw v"
    if x: "exactMembers fs (map_of ms)" and k: "map_of ms k = Some v" for k v
  proof -
    obtain required form where "(k, required, form) \<in> set fs" using x k unfolding exactMembers_def by force
    with x k have "form v" "\<exists>raw. (k, raw) \<in> set ps \<and> (\<forall>v. schemaHolds raw v \<longleftrightarrow> form v)"
      using fields(2) unfolding exactMembers_def list_all_iff by fastforce+
    then show ?thesis by blast
  qed
  moreover have "map_of ms i \<noteq> None" if x: "exactMembers fs (map_of ms)" and i: "i \<in> set req" for i
  proof -
    obtain raw where "(i, raw) \<in> set ps" using req i by force
    from fields(1) [OF this] obtain form where "(i, True, form) \<in> set fs" using i by auto
    with x show ?thesis unfolding exactMembers_def list_all_iff by fastforce
  qed
  ultimately show ?thesis unfolding holds subset_iff present by blast
qed

lemma closed_object_object: "validateSchemaValue (closed_object req ps) v \<Longrightarrow> \<exists>ms. v = VObject ms"
  by (cases v) (simp_all add: validateSchemaValue.simps)

lemma described_input:
  assumes "unmarshal_map (ct_InputSchema c) = Some (closed_object req ps)" "describes req ps fs"
  shows "ValidateInput c input = Inr () \<longleftrightarrow> (\<exists>ms. json_decode input = Some (VObject ms) \<and> exactMembers fs (map_of ms))"
proof -
  have "ValidateInput c input = Inr () \<longleftrightarrow>
      (\<exists>ms. json_decode input = Some (VObject ms) \<and> validateSchemaValue (closed_object req ps) (VObject ms))"
    unfolding ValidateInput_iff assms using closed_object_object [of req ps] by blast
  then show ?thesis using closed_object_iff [OF json_decode_distinct] described_members [OF assms(2)] by blast
qed

lemma builtin_described:
  assumes "c \<in> set builtinContracts"
  shows "\<exists>req ps. unmarshal_map (ct_InputSchema c) = Some (closed_object req ps) \<and> describes req ps (builtinFields (ct_Name c))"
proof -
  let ?P = "\<lambda>schema name. \<exists>req ps. unmarshal_map schema = Some (closed_object req ps) \<and> describes req ps (builtinFields name)"
  have 1: "?P listSchema ''repo.list''" by (rule exI conjI listSchema_decoded)+ (simp add: describes_def builtinFields_def schema_holds)
  have 2: "?P readSchema ''repo.read''" by (rule exI conjI readSchema_decoded)+ (simp add: describes_def builtinFields_def schema_holds)
  have 3: "?P searchSchema ''repo.search''" by (rule exI conjI searchSchema_decoded)+ (simp add: describes_def builtinFields_def schema_holds)
  have 4: "?P patchSchema ''repo.apply_patch''" by (rule exI conjI patchSchema_decoded)+ (simp add: describes_def builtinFields_def schema_holds)
  have 5: "?P testSchema ''repo.test''" by (rule exI conjI testSchema_decoded)+ (simp add: describes_def builtinFields_def schema_holds)
  have "(ct_InputSchema c, ct_Name c) \<in> {(listSchema, ''repo.list''), (readSchema, ''repo.read''), (searchSchema, ''repo.search''),
      (patchSchema, ''repo.apply_patch''), (testSchema, ''repo.test'')}"
    using assms by (auto simp: builtinContracts_def)
  then show ?thesis using 1 2 3 4 5 by (elim insertE emptyE) (simp_all only: prod.inject)
qed

text \<open>
  (C40) The inputs of the built-in tools. Whatever contract the built-in registry gives for a name, its
  \<open>ValidateInput\<close> accepts exactly the JSON objects with the fields of that tool and no others:
  \<open>repo.list\<close> a non-empty \<open>path\<close>; \<open>repo.read\<close> a non-empty \<open>path\<close> and, if present, line numbers
  \<open>startLine\<close> and \<open>endLine\<close> of at least 1; \<open>repo.search\<close> a non-empty \<open>path\<close> and \<open>pattern\<close>;
  \<open>repo.apply_patch\<close> a non-empty \<open>path\<close> and \<open>old\<close> and a string \<open>new\<close>; \<open>repo.test\<close> a non-empty array
  \<open>packages\<close> of non-empty strings and, if present, a string \<open>run\<close> and a boolean \<open>verbose\<close>.
\<close>

theorem builtin_input_language:
  assumes "NewBuiltinRegistry = Inr reg" "registry_Get reg name = Some c"
  shows "name \<in> {''repo.list'', ''repo.read'', ''repo.search'', ''repo.apply_patch'', ''repo.test''}
    \<and> (ValidateInput c input = Inr () \<longleftrightarrow>
        (\<exists>ms. json_decode input = Some (VObject ms) \<and> exactMembers (builtinFields name) (map_of ms)))"
proof -
  have c: "c \<in> set builtinContracts" "ct_Name c = name"
    using registry_Get_iff [OF assms(1) [unfolded NewBuiltinRegistry_def]] assms(2) by simp_all
  then have "name \<in> ct_Name ` set builtinContracts" by blast
  moreover have "ValidateInput c input = Inr () \<longleftrightarrow>
      (\<exists>ms. json_decode input = Some (VObject ms) \<and> exactMembers (builtinFields name) (map_of ms))"
    using builtin_described [OF c(1)] described_input [of c] c(2) by blast
  ultimately show ?thesis by (auto simp: builtinContracts_def)
qed

text \<open>
  (C39) A registry is exactly what was registered. \<open>NewRegistry\<close> accepts a list of contracts exactly
  when each of them passes \<open>Validate\<close> and their names are distinct. Then \<open>Get\<close> returns under a name the
  registered contract of that name and nothing else, the snapshot lists the contracts in byte order of
  their names, and a contract set equals the snapshot exactly when its names are distinct and it has
  the same contracts, in any order.
\<close>

theorem registry_snapshot:
  "((\<exists>reg. NewRegistry cs = Inr reg) \<longleftrightarrow> list_all (\<lambda>c. contract_Validate c = Inr ()) cs \<and> distinct (map ct_Name cs))
   \<and> (\<forall>reg. NewRegistry cs = Inr reg \<longrightarrow>
        (\<forall>name c. registry_Get reg name = Some c \<longleftrightarrow> c \<in> set cs \<and> ct_Name c = name)
        \<and> sorted (map ct_Name (registry_Contracts reg)) \<and> set (registry_Contracts reg) = set cs
        \<and> (\<forall>ds. ContractSetsEqual (registry_Contracts reg) ds \<longleftrightarrow> distinct (map ct_Name ds) \<and> set ds = set cs))"
proof (intro conjI allI impI)
  show "(\<exists>reg. NewRegistry cs = Inr reg) \<longleftrightarrow> list_all (\<lambda>c. contract_Validate c = Inr ()) cs \<and> distinct (map ct_Name cs)"
    by (simp add: NewRegistry_iff)
  fix reg
  assume reg: "NewRegistry cs = Inr reg"
  show "registry_Get reg name = Some c \<longleftrightarrow> c \<in> set cs \<and> ct_Name c = name" for name c by (rule registry_Get_iff [OF reg])
  show contracts: "set (registry_Contracts reg) = set cs" by (rule registry_Contracts_names(2) [OF reg])
  have names: "distinct (map ct_Name (registry_Contracts reg)) \<and> sorted (map ct_Name (registry_Contracts reg))"
    unfolding registry_Contracts_names(1) [OF reg]
    using reg by (auto simp: registry_Names_def NewRegistry_iff comp_def)
  then show "sorted (map ct_Name (registry_Contracts reg))" ..
  show "ContractSetsEqual (registry_Contracts reg) ds \<longleftrightarrow> distinct (map ct_Name ds) \<and> set ds = set cs" for ds
    using names contracts by (auto simp: ContractSetsEqual_set)
qed

section \<open>Instances\<close>

definition samplePatchInput :: string where
  \<open>samplePatchInput = ''{"path":"a","old":"b","new":""}''\<close>

lemma builtin_Get:
  assumes "c \<in> set builtinContracts"
  shows "registry_Get (map (\<lambda>c. (ct_Name c, c)) builtinContracts) (ct_Name c) = Some c"
  using builtin_registered assms registry_Get_iff [of builtinContracts]
  by (simp add: NewBuiltinRegistry_def)

theorem builtin_input_language_witness:
  "ValidateInput (builtinContracts ! 3) samplePatchInput = Inr ()
     \<and> ValidateInput (builtinContracts ! 4) samplePatchInput \<noteq> Inr ()"
proof -
  let ?ms = "[(''path'', VString ''a''), (''old'', VString ''b''), (''new'', VString '''')]"
  have d: "json_decode samplePatchInput = Some (VObject ?ms)" by code_simp
  have n: "builtinContracts ! 3 \<in> set builtinContracts" "ct_Name (builtinContracts ! 3) = ''repo.apply_patch''"
    "builtinContracts ! 4 \<in> set builtinContracts" "ct_Name (builtinContracts ! 4) = ''repo.test''"
    by (simp_all add: builtinContracts_def)
  have "exactMembers (builtinFields ''repo.apply_patch'') (map_of ?ms)" "\<not> exactMembers (builtinFields ''repo.test'') (map_of ?ms)"
    by (simp_all add: exactMembers_def builtinFields_def nonEmptyText_def anyText_def)
  then show ?thesis
    using builtin_input_language [OF builtin_registered builtin_Get [OF n(1), unfolded n(2)], of samplePatchInput]
      builtin_input_language [OF builtin_registered builtin_Get [OF n(3), unfolded n(4)], of samplePatchInput] d by simp
qed

theorem registry_snapshot_witness:
  "ContractSetsEqual (registry_Contracts (map (\<lambda>c. (ct_Name c, c)) builtinContracts)) (rev builtinContracts)"
proof -
  have "distinct (map ct_Name (rev builtinContracts))" by (simp add: builtinContracts_def)
  then show ?thesis
    using registry_snapshot [of builtinContracts] builtin_registered [unfolded NewBuiltinRegistry_def]
    by simp
qed

end
