(* ===== verification/Reasoner.thy ===== *)
theory Reasoner
  imports Tool_Contract
begin

text \<open>
  The Reasoner seam of \<open>src/internal/reasoner\<close>: \<open>reasoner.go\<close> (types, \<open>Collect\<close>, request
  and result validation, the prompt), \<open>stream.go\<close> (the normalizing stream), \<open>fake.go\<close> and
  \<open>provider_error.go\<close>. A stream is a state with the two operations of the interface
  \<open>Stream\<close>, \<open>recv\<close> and \<open>close\<close>; the source of a normalized stream is any such state. Values
  are immutable here, so the \<open>clone\<close> functions of the source are identities.
\<close>

section \<open>Types\<close>

definition Phase1PatchTool :: string where
  "Phase1PatchTool = ''phase1.patch''"

datatype Role = RoleSystem | RoleUser | RoleAssistant | RoleTool | RoleOther string

fun Role_Valid :: "Role \<Rightarrow> bool" where
  "Role_Valid (RoleOther _) = False"
| "Role_Valid _ = True"

record ToolCall =
  tc_ID :: string
  tc_Name :: string
  tc_Arguments :: string

record Message =
  msg_Role :: Role
  msg_Content :: string
  msg_ToolCalls :: "ToolCall list"
  msg_ToolCallID :: string
  msg_ToolName :: string

record Request =
  rq_Messages :: "Message list"
  rq_Tools :: "Contract list"
  rq_TaskSummary :: string
  rq_FailureEvidence :: string
  rq_TokenLimit :: goint

record Usage =
  us_InputTokens :: goint
  us_OutputTokens :: goint
  us_TotalTokens :: goint

definition Usage_zero :: Usage where
  "Usage_zero = \<lparr>us_InputTokens = 0, us_OutputTokens = 0, us_TotalTokens = 0\<rparr>"

datatype ErrorClass =
    ErrorInvalidRequest | ErrorInvalidEvent | ErrorInvalidTool | ErrorInvalidToolArguments
  | ErrorTokenBudgetExceeded | ErrorStreamingInterrupted | ErrorProviderAuthentication
  | ErrorProviderRateLimited | ErrorProviderInvalidRequest | ErrorProviderUnavailable
  | ErrorCanceled | ErrorInternal | ErrorClassOther string

record StreamError =
  se_Class :: ErrorClass
  se_Message :: string
  se_Retryable :: bool

datatype StreamEventType =
    EventTextDelta | EventToolCall | EventUsage | EventFinish | EventError | StreamEventOther string

text \<open>The pointers of the source are options; \<open>Finish\<close> has the one field \<open>Reason\<close>.\<close>

record StreamEvent =
  se_Type :: StreamEventType
  se_Text :: string
  se_ToolCall :: "ToolCall option"
  se_Usage :: "Usage option"
  se_Finish :: "string option"
  se_Error :: "StreamError option"

definition StreamEvent_zero :: "StreamEventType \<Rightarrow> StreamEvent" where
  "StreamEvent_zero t =
     \<lparr>se_Type = t, se_Text = '''', se_ToolCall = None, se_Usage = None, se_Finish = None, se_Error = None\<rparr>"

record Result =
  res_Output :: string
  res_ToolCall :: "ToolCall option"
  res_ToolCalls :: "ToolCall list"
  res_Usage :: Usage
  res_FinishReason :: string

definition Result_zero :: Result where
  "Result_zero = \<lparr>res_Output = '''', res_ToolCall = None, res_ToolCalls = [], res_Usage = Usage_zero,
     res_FinishReason = ''''\<rparr>"

text \<open>
  The errors of \<open>Recv\<close> as far as the callers tell them apart, and of \<open>Collect\<close>;
  \<open>NilDereference\<close> is the panic of following a nil variant pointer.
\<close>

datatype RecvError = RecvEOF | RecvStreamError StreamError | RecvCanceled | RecvOther

datatype ReasonerError = ErrIllegalToolCall | ErrInvalidResult | ErrStream StreamError | NilDereference

type_synonym 's recv = "'s \<Rightarrow> (RecvError + StreamEvent) \<times> 's"

section \<open>Collecting a stream\<close>

text \<open>One event added to the result, or the end of the collection with an error.\<close>

definition deref :: "'a option \<Rightarrow> ReasonerError + 'a" where
  "deref p = (case p of None \<Rightarrow> Inl NilDereference | Some x \<Rightarrow> Inr x)"

definition collectEvent :: "Result \<Rightarrow> StreamEvent \<Rightarrow> ReasonerError + Result" where
  "collectEvent result event =
     (case se_Type event of
        EventTextDelta \<Rightarrow> Inr (result\<lparr>res_Output := res_Output result @ se_Text event\<rparr>)
      | EventToolCall \<Rightarrow>
          bindE (deref (se_ToolCall event)) (\<lambda>c. Inr (result\<lparr>res_ToolCalls := res_ToolCalls result @ [c]\<rparr>))
      | EventUsage \<Rightarrow> bindE (deref (se_Usage event)) (\<lambda>u. Inr (result\<lparr>res_Usage := u\<rparr>))
      | EventFinish \<Rightarrow> bindE (deref (se_Finish event)) (\<lambda>r. Inr (result\<lparr>res_FinishReason := r\<rparr>))
      | EventError \<Rightarrow> bindE (deref (se_Error event)) (\<lambda>f. Inl (ErrStream f))
      | StreamEventOther _ \<Rightarrow> Inl ErrInvalidResult)"

definition finishResult :: "Result \<Rightarrow> Result" where
  "finishResult result =
     (case res_ToolCalls result of
        [] \<Rightarrow> result
      | first # _ \<Rightarrow> result\<lparr>res_ToolCall := Some first\<rparr>)"

text \<open>The loop; \<open>None\<close> when the stream never ends.\<close>

partial_function (option) collectLoop :: "'s recv \<Rightarrow> Result \<Rightarrow> 's \<Rightarrow> ((ReasonerError + Result) \<times> 's) option" where
  "collectLoop recv result s =
     (case recv s of (r, s') \<Rightarrow>
        (case r of
           Inl e \<Rightarrow> Some (if e = RecvEOF then Inr (finishResult result) else Inl ErrInvalidResult, s')
         | Inr event \<Rightarrow>
             (case collectEvent result event of
                Inl e \<Rightarrow> Some (Inl e, s')
              | Inr result' \<Rightarrow> collectLoop recv result' s')))"

definition Collect :: "'s recv \<Rightarrow> ('s \<Rightarrow> 's) \<Rightarrow> 's option \<Rightarrow> ((ReasonerError + Result) \<times> 's option) option" where
  "Collect recv close stream =
     (case stream of
        None \<Rightarrow> Some (Inl ErrInvalidResult, None)
      | Some s \<Rightarrow> map_option (\<lambda>(r, s'). (r, Some (close s'))) (collectLoop recv Result_zero s))"

definition ValidatePhase1Result :: "Result \<Rightarrow> ReasonerError + unit" where
  "ValidatePhase1Result result =
     (case res_ToolCall result of
        None \<Rightarrow> Inl ErrInvalidResult
      | Some call \<Rightarrow>
          (if tc_Name call \<noteq> Phase1PatchTool then Inl ErrIllegalToolCall
           else if tc_Arguments call = '''' \<or> \<not> json_Valid (tc_Arguments call) then Inl ErrInvalidResult
           else Inr ()))"

section \<open>The normalizing stream\<close>

definition jsonValid :: "string \<Rightarrow> bool" where
  "jsonValid arguments \<longleftrightarrow> json_Unmarshal arguments \<noteq> None"

definition failure :: "ErrorClass \<Rightarrow> string \<Rightarrow> StreamError option" where
  "failure c m = Some \<lparr>se_Class = c, se_Message = m, se_Retryable = False\<rparr>"

definition variantCount :: "StreamEvent \<Rightarrow> nat" where
  "variantCount ev = of_bool (se_Text ev \<noteq> '''') + of_bool (se_ToolCall ev \<noteq> None) + of_bool (se_Usage ev \<noteq> None)
     + of_bool (se_Finish ev \<noteq> None) + of_bool (se_Error ev \<noteq> None)"

text \<open>\<open>None\<close> is the result nil. Token counts are Go ints: the sum may wrap around.
  An unknown event type is quoted in the message (without the escapes of \<open>%q\<close>).\<close>

definition validateEventShape :: "StreamEvent \<Rightarrow> StreamError option" where
  "validateEventShape ev =
     (if variantCount ev \<noteq> 1 then failure ErrorInvalidEvent ''normalized event must contain exactly one variant''
      else case se_Type ev of
        EventTextDelta \<Rightarrow>
          (if se_Text ev = '''' \<or> se_ToolCall ev \<noteq> None \<or> se_Usage ev \<noteq> None \<or> se_Finish ev \<noteq> None \<or> se_Error ev \<noteq> None
           then failure ErrorInvalidEvent ''invalid Text Delta event'' else None)
      | EventToolCall \<Rightarrow>
          (case se_ToolCall ev of
             None \<Rightarrow> failure ErrorInvalidEvent ''Tool Call requires id, name, and arguments''
           | Some c \<Rightarrow>
               (if tc_ID c = '''' \<or> tc_Name c = '''' \<or> tc_Arguments c = ''''
                then failure ErrorInvalidEvent ''Tool Call requires id, name, and arguments''
                else if \<not> jsonValid (tc_Arguments c)
                then failure ErrorInvalidToolArguments ''Tool arguments do not match the registered JSON Schema''
                else None))
      | EventUsage \<Rightarrow>
          (case se_Usage ev of
             None \<Rightarrow> failure ErrorInvalidEvent ''Usage token counts must be non-negative''
           | Some u \<Rightarrow>
               (if sint (us_InputTokens u) < 0 \<or> sint (us_OutputTokens u) < 0 \<or> sint (us_TotalTokens u) < 0
                then failure ErrorInvalidEvent ''Usage token counts must be non-negative''
                else if sint (us_TotalTokens u) < sint (us_InputTokens u + us_OutputTokens u)
                then failure ErrorInvalidEvent ''Usage total is smaller than input plus output''
                else None))
      | EventFinish \<Rightarrow>
          (if se_Finish ev = None \<or> se_Finish ev = Some ''''
           then failure ErrorInvalidEvent ''Finish reason is required'' else None)
      | EventError \<Rightarrow>
          (case se_Error ev of
             None \<Rightarrow> failure ErrorInvalidEvent ''normalized Error requires class and message''
           | Some f \<Rightarrow>
               (if se_Class f = ErrorClassOther '''' \<or> se_Message f = ''''
                then failure ErrorInvalidEvent ''normalized Error requires class and message'' else None))
      | StreamEventOther t \<Rightarrow>
          failure ErrorInvalidEvent (''unsupported normalized event type '' @ CHR 0x22 # t @ [CHR 0x22]))"

record 's normalizedStream =
  ns_request :: Request
  ns_source :: 's
  ns_terminal :: bool
  ns_usageSeen :: bool

definition ns_contract :: "'s normalizedStream \<Rightarrow> string \<Rightarrow> Contract option" where
  "ns_contract stream name = find (\<lambda>c. ct_Name c = name) (rq_Tools (ns_request stream))"

definition validateEvent :: "'s normalizedStream \<Rightarrow> StreamEvent \<Rightarrow> StreamError option" where
  "validateEvent stream ev =
     (case validateEventShape ev of
        Some f \<Rightarrow> Some f
      | None \<Rightarrow>
          (case (se_Type ev, se_ToolCall ev, se_Usage ev) of
             (EventToolCall, Some call, _) \<Rightarrow>
               (case ns_contract stream (tc_Name call) of
                  None \<Rightarrow>
                    (if rq_Tools (ns_request stream) = [] \<and> tc_Name call = Phase1PatchTool then None
                     else failure ErrorInvalidTool ''Tool name is not registered'')
                | Some contract \<Rightarrow>
                    (if ValidateInput contract (tc_Arguments call) \<noteq> Inr ()
                     then failure ErrorInvalidToolArguments ''Tool arguments do not match the registered JSON Schema''
                     else None))
           | (EventUsage, _, Some usage) \<Rightarrow>
               (if ns_usageSeen stream
                then failure ErrorInvalidEvent ''Reasoner turn must contain exactly one Usage event''
                else if sint (rq_TokenLimit (ns_request stream)) > 0
                     \<and> sint (us_TotalTokens usage) > sint (rq_TokenLimit (ns_request stream))
                then failure ErrorTokenBudgetExceeded ''Reasoner token budget exceeded''
                else None)
           | (EventFinish, _, _) \<Rightarrow>
               (if rq_Tools (ns_request stream) \<noteq> [] \<and> \<not> ns_usageSeen stream
                then failure ErrorInvalidEvent ''Reasoner turn requires one Usage event before Finish''
                else None)
           | _ \<Rightarrow> None))"

definition errorEvent :: "ErrorClass \<Rightarrow> string \<Rightarrow> bool \<Rightarrow> StreamEvent" where
  "errorEvent c m retryable =
     (StreamEvent_zero EventError)\<lparr>se_Error := Some \<lparr>se_Class = c, se_Message = m, se_Retryable = retryable\<rparr>\<rparr>"

definition failureEvent :: "StreamError \<Rightarrow> StreamEvent" where
  "failureEvent f = (StreamEvent_zero EventError)\<lparr>se_Error := Some f\<rparr>"

text \<open>A failed read of the source becomes the last event of the turn.\<close>

definition sourceFailure :: "RecvError \<Rightarrow> StreamEvent" where
  "sourceFailure e =
     (case e of
        RecvEOF \<Rightarrow> errorEvent ErrorStreamingInterrupted ''model stream ended before Finish'' True
      | RecvStreamError f \<Rightarrow> failureEvent f
      | RecvCanceled \<Rightarrow> errorEvent ErrorCanceled ''reasoner request was canceled'' False
      | RecvOther \<Rightarrow> errorEvent ErrorStreamingInterrupted ''model stream was interrupted'' True)"

definition ns_Recv :: "'s recv \<Rightarrow> ('s \<Rightarrow> 's) \<Rightarrow> 's normalizedStream recv" where
  "ns_Recv recv close stream =
     (if ns_terminal stream then (Inl RecvEOF, stream)
      else case recv (ns_source stream) of
        (Inl e, s) \<Rightarrow> (Inr (sourceFailure e), stream\<lparr>ns_source := close s, ns_terminal := True\<rparr>)
      | (Inr event, s) \<Rightarrow>
          (case validateEvent stream event of
             Some f \<Rightarrow> (Inr (failureEvent f), stream\<lparr>ns_source := close s, ns_terminal := True\<rparr>)
           | None \<Rightarrow>
               (let seen = ns_usageSeen stream \<or> se_Type event = EventUsage in
                if se_Type event = EventFinish \<or> se_Type event = EventError
                then (Inr event, stream\<lparr>ns_source := close s, ns_terminal := True, ns_usageSeen := seen\<rparr>)
                else (Inr event, stream\<lparr>ns_source := s, ns_usageSeen := seen\<rparr>))))"

definition ns_Close :: "('s \<Rightarrow> 's) \<Rightarrow> 's normalizedStream \<Rightarrow> 's normalizedStream" where
  "ns_Close close stream = stream\<lparr>ns_source := close (ns_source stream), ns_terminal := True\<rparr>"

definition NewNormalizedStream :: "Request \<Rightarrow> 's \<Rightarrow> 's normalizedStream" where
  "NewNormalizedStream request source =
     \<lparr>ns_request = request, ns_source = source, ns_terminal = False, ns_usageSeen = False\<rparr>"

section \<open>Streams of recorded events\<close>

text \<open>\<open>ss_rest\<close> is \<open>events[index:]\<close>.\<close>

record sliceStream =
  ss_rest :: "StreamEvent list"
  ss_err :: "RecvError option"
  ss_closed :: bool

definition ss_Recv :: "sliceStream recv" where
  "ss_Recv stream =
     (if ss_closed stream then (Inl RecvEOF, stream)
      else case ss_rest stream of
        event # rest \<Rightarrow> (Inr event, stream\<lparr>ss_rest := rest\<rparr>)
      | [] \<Rightarrow>
          (case ss_err stream of
             Some e \<Rightarrow> (Inl e, stream\<lparr>ss_err := None\<rparr>)
           | None \<Rightarrow> (Inl RecvEOF, stream)))"

definition ss_Close :: "sliceStream \<Rightarrow> sliceStream" where
  "ss_Close stream = stream\<lparr>ss_closed := True\<rparr>"

definition newSliceStream :: "StreamEvent list \<Rightarrow> RecvError option \<Rightarrow> sliceStream" where
  "newSliceStream events err = \<lparr>ss_rest = events, ss_err = err, ss_closed = False\<rparr>"

definition NewEventStream :: "Request \<Rightarrow> StreamEvent list \<Rightarrow> sliceStream normalizedStream" where
  "NewEventStream request events = NewNormalizedStream request (newSliceStream events None)"

definition NewErrorStream :: "Request \<Rightarrow> StreamError \<Rightarrow> sliceStream normalizedStream" where
  "NewErrorStream request f = NewEventStream request [failureEvent f]"

section \<open>The deterministic Reasoner\<close>

record FakeReasoner =
  fk_events :: "StreamEvent list"
  fk_sourceErr :: "RecvError option"
  fk_calls :: nat
  fk_defaultMode :: bool

definition textEvent :: "string \<Rightarrow> StreamEvent" where
  "textEvent t = (StreamEvent_zero EventTextDelta)\<lparr>se_Text := t\<rparr>"

definition callEvent :: "ToolCall \<Rightarrow> StreamEvent" where
  "callEvent c = (StreamEvent_zero EventToolCall)\<lparr>se_ToolCall := Some c\<rparr>"

definition usageEvent :: "Usage \<Rightarrow> StreamEvent" where
  "usageEvent u = (StreamEvent_zero EventUsage)\<lparr>se_Usage := Some u\<rparr>"

definition finishEvent :: "string \<Rightarrow> StreamEvent" where
  "finishEvent r = (StreamEvent_zero EventFinish)\<lparr>se_Finish := Some r\<rparr>"

definition oneToken :: Usage where
  "oneToken = \<lparr>us_InputTokens = 0, us_OutputTokens = 1, us_TotalTokens = 1\<rparr>"

definition NewFakeReasonerWithEvents :: "StreamEvent list \<Rightarrow> FakeReasoner" where
  "NewFakeReasonerWithEvents events =
     \<lparr>fk_events = events, fk_sourceErr = None, fk_calls = 0, fk_defaultMode = False\<rparr>"

definition NewFakeReasoner :: FakeReasoner where
\<open>NewFakeReasoner =
  (NewFakeReasonerWithEvents
     [textEvent ''deterministic fake patch'',
      callEvent \<lparr>tc_ID = ''phase1-fake-call'', tc_Name = Phase1PatchTool, tc_Arguments = ''{"patch":"fake"}''\<rparr>,
      usageEvent oneToken, finishEvent ''tool_calls''])\<lparr>fk_defaultMode := True\<rparr>\<close>

definition NewFakeReasonerWithResult :: "Result \<Rightarrow> FakeReasoner" where
  "NewFakeReasonerWithResult result =
     NewFakeReasonerWithEvents
       ((if res_Output result \<noteq> '''' then [textEvent (res_Output result)] else [])
        @ (case res_ToolCall result of
             None \<Rightarrow> []
           | Some call \<Rightarrow> [callEvent (if tc_ID call = '''' then call\<lparr>tc_ID := ''scripted-fake-call''\<rparr> else call)])
        @ (if res_Usage result \<noteq> Usage_zero then [usageEvent (res_Usage result)] else [])
        @ [finishEvent (if res_FinishReason result = '''' then ''tool_calls'' else res_FinishReason result)])"

definition NewFailingFakeReasoner :: "RecvError \<Rightarrow> FakeReasoner" where
  "NewFailingFakeReasoner err = (NewFakeReasonerWithEvents [])\<lparr>fk_sourceErr := Some err\<rparr>"

text \<open>\<open>ctxErr\<close> is what \<open>ctx.Err()\<close> returns.\<close>

definition fake_Reason :: "RecvError option \<Rightarrow> Request \<Rightarrow> FakeReasoner \<Rightarrow> sliceStream normalizedStream \<times> FakeReasoner" where
\<open>fake_Reason ctxErr request fake =
  (let events = (if fk_defaultMode fake \<and> rq_Tools request \<noteq> [] then
         [textEvent ''deterministic fake repository inspection'',
          callEvent \<lparr>tc_ID = ''phase5-fake-call'', tc_Name = ''repo.read'', tc_Arguments = ''{"path":"."}''\<rparr>,
          usageEvent oneToken, finishEvent ''tool_calls'']
         else fk_events fake);
       sourceErr = (if ctxErr \<noteq> None then ctxErr else fk_sourceErr fake)
   in (NewNormalizedStream request (newSliceStream events sourceErr), fake\<lparr>fk_calls := fk_calls fake + 1\<rparr>))\<close>

section \<open>Provider errors\<close>

text \<open>What \<open>errors.Is\<close> and \<open>errors.As\<close> find in a provider error, and its text.\<close>

record ProviderError =
  pe_canceled :: bool
  pe_deadline :: bool
  pe_statusCode :: "goint option"
  pe_httpStatus :: "goint option"
  pe_message :: string

definition providerFailure :: "ErrorClass \<Rightarrow> string \<Rightarrow> bool \<Rightarrow> StreamError" where
  "providerFailure c m r = \<lparr>se_Class = c, se_Message = m, se_Retryable = r\<rparr>"

definition effectiveStatus :: "ProviderError \<Rightarrow> goint" where
  "effectiveStatus err =
     (let status = (case pe_statusCode err of Some s \<Rightarrow> s | None \<Rightarrow> 0) in
      if status = 0 then (case pe_httpStatus err of Some s \<Rightarrow> s | None \<Rightarrow> status) else status)"

definition ClassifyProviderError :: "ProviderError \<Rightarrow> StreamError" where
  "ClassifyProviderError err =
     (if pe_canceled err then providerFailure ErrorCanceled ''reasoner request was canceled'' False
      else if pe_deadline err then providerFailure ErrorProviderUnavailable ''provider request deadline exceeded'' True
      else let status = effectiveStatus err; message = ToLower (pe_message err) in
        if status = 401 \<or> status = 403
        then providerFailure ErrorProviderAuthentication ''provider authentication failed'' False
        else if status = 429 then providerFailure ErrorProviderRateLimited ''provider rate limit exceeded'' True
        else if status = 408 \<or> sint status \<ge> 500
        then providerFailure ErrorProviderUnavailable ''provider is temporarily unavailable'' True
        else if sint status \<ge> 400
        then providerFailure ErrorProviderInvalidRequest ''provider rejected the request'' False
        else if contains message ''rate limit'' \<or> contains message ''too many requests''
        then providerFailure ErrorProviderRateLimited ''provider rate limit exceeded'' True
        else if contains message ''unauthorized'' \<or> contains message ''authentication''
             \<or> contains message ''invalid api key''
        then providerFailure ErrorProviderAuthentication ''provider authentication failed'' False
        else if contains message ''invalid request'' \<or> contains message ''bad request''
        then providerFailure ErrorProviderInvalidRequest ''provider rejected the request'' False
        else providerFailure ErrorProviderUnavailable ''provider is temporarily unavailable'' True)"

definition providerStatus :: "ProviderError \<Rightarrow> goint" where
  "providerStatus err =
     (case pe_statusCode err of
        Some s \<Rightarrow> s
      | None \<Rightarrow> (case pe_httpStatus err of Some s \<Rightarrow> s | None \<Rightarrow> 0))"

definition ClassifyProviderStreamError :: "ProviderError \<Rightarrow> StreamError" where
  "ClassifyProviderStreamError err =
     (let f = ClassifyProviderError err in
      if se_Class f = ErrorProviderUnavailable \<and> \<not> pe_deadline err \<and> providerStatus err = 0
      then providerFailure ErrorStreamingInterrupted ''model stream was interrupted'' True else f)"

end
