(* ===== verification/Reasoner_Props.thy ===== *)
theory Reasoner_Props
  imports Reasoner
begin

text \<open>
  What the Reasoner seam guarantees: the collection of a normalized stream over any source, the
  termination of the collection over recorded events, and the deterministic Reasoner.
\<close>

section \<open>Validated events\<close>

lemma failure_simps [simp]: "failure c m \<noteq> None" "failure c m = Some f \<longleftrightarrow> f = \<lparr>se_Class = c, se_Message = m, se_Retryable = False\<rparr>"
  by (auto simp: failure_def)

text \<open>What an accepted Tool call, Usage and Finish event satisfy, for the request of the turn.\<close>

definition call_ok :: "Request \<Rightarrow> ToolCall \<Rightarrow> bool" where
  "call_ok rq c \<longleftrightarrow> tc_ID c \<noteq> '''' \<and> jsonValid (tc_Arguments c)
     \<and> (case find (\<lambda>k. ct_Name k = tc_Name c) (rq_Tools rq) of
          Some k \<Rightarrow> ValidateInput k (tc_Arguments c) = Inr ()
        | None \<Rightarrow> rq_Tools rq = [] \<and> tc_Name c = Phase1PatchTool)"

definition usage_ok :: "Request \<Rightarrow> Usage \<Rightarrow> bool" where
  "usage_ok rq u \<longleftrightarrow> 0 \<le> sint (us_InputTokens u) \<and> 0 \<le> sint (us_OutputTokens u) \<and> 0 \<le> sint (us_TotalTokens u)
     \<and> sint (us_InputTokens u + us_OutputTokens u) \<le> sint (us_TotalTokens u)
     \<and> (0 < sint (rq_TokenLimit rq) \<longrightarrow> sint (us_TotalTokens u) \<le> sint (rq_TokenLimit rq))"

lemma accepted_shape: "validateEvent st ev = None \<Longrightarrow> validateEventShape ev = None"
  by (simp add: validateEvent_def split: option.splits)

lemma accepted_call:
  assumes "validateEvent st ev = None" "se_Type ev = EventToolCall"
  shows "\<exists>c. se_ToolCall ev = Some c \<and> call_ok (ns_request st) c"
proof -
  obtain c where c: "se_ToolCall ev = Some c" "tc_ID c \<noteq> ''''" "jsonValid (tc_Arguments c)"
    using accepted_shape [OF assms(1)] assms(2)
    by (simp add: validateEventShape_def split: option.splits if_splits)
  then show ?thesis
    using assms accepted_shape [OF assms(1)]
    by (simp add: validateEvent_def call_ok_def ns_contract_def split: option.splits if_splits)
qed

lemma accepted_usage:
  assumes "validateEvent st ev = None" "se_Type ev = EventUsage"
  shows "\<not> ns_usageSeen st \<and> (\<exists>u. se_Usage ev = Some u \<and> usage_ok (ns_request st) u)"
proof -
  obtain u where u: "se_Usage ev = Some u" "0 \<le> sint (us_InputTokens u)" "0 \<le> sint (us_OutputTokens u)"
    "0 \<le> sint (us_TotalTokens u)" "sint (us_InputTokens u + us_OutputTokens u) \<le> sint (us_TotalTokens u)"
    using accepted_shape [OF assms(1)] assms(2)
    by (simp add: validateEventShape_def not_less split: option.splits if_splits)
  then show ?thesis
    using assms accepted_shape [OF assms(1)]
    by (auto simp: validateEvent_def usage_ok_def not_less split: option.splits if_splits)
qed

lemma accepted_finish:
  assumes "validateEvent st ev = None" "se_Type ev = EventFinish"
  shows "(\<exists>r. se_Finish ev = Some r \<and> r \<noteq> '''') \<and> (rq_Tools (ns_request st) \<noteq> [] \<longrightarrow> ns_usageSeen st)"
proof -
  have "\<exists>r. se_Finish ev = Some r \<and> r \<noteq> ''''"
    using accepted_shape [OF assms(1)] assms(2)
    by (auto simp: validateEventShape_def split: if_splits)
  then show ?thesis
    using assms accepted_shape [OF assms(1)] by (auto simp: validateEvent_def split: if_splits)
qed

lemma accepted_error:
  assumes "validateEvent st ev = None" "se_Type ev = EventError"
  shows "\<exists>f. se_Error ev = Some f"
  using accepted_shape [OF assms(1)] assms(2)
  by (simp add: validateEventShape_def split: option.splits if_splits)

lemma accepted_type:
  assumes "validateEvent st ev = None"
  shows "se_Type ev \<noteq> StreamEventOther t"
  using accepted_shape [OF assms] by (auto simp: validateEventShape_def split: if_splits)

section \<open>Collection of a normalized stream\<close>

text \<open>
  The invariant of the collection loop over a normalized stream: what was collected so far is
  acceptable, the finish reason is set exactly when the turn ended with Finish, and a Usage event was
  seen before it when the request offers Tools.
\<close>

definition turn_ok :: "Request \<Rightarrow> Result \<Rightarrow> 's normalizedStream \<Rightarrow> bool" where
  "turn_ok rq result st \<longleftrightarrow> ns_request st = rq
     \<and> list_all (call_ok rq) (res_ToolCalls result)
     \<and> (if ns_usageSeen st then usage_ok rq (res_Usage result) else res_Usage result = Usage_zero)
     \<and> (if ns_terminal st then res_FinishReason result \<noteq> '''' \<and> (rq_Tools rq \<noteq> [] \<longrightarrow> ns_usageSeen st)
        else res_FinishReason result = '''')
     \<and> res_ToolCall result = None"

lemma sourceFailure_event: "\<exists>f. sourceFailure e = failureEvent f"
  by (cases e) (auto simp: sourceFailure_def errorEvent_def failureEvent_def)

lemma collect_failureEvent [simp]: "collectEvent result (failureEvent f) = Inl (ErrStream f)"
  by (simp add: collectEvent_def failureEvent_def StreamEvent_zero_def deref_def)

lemma ns_Recv_collect:
  assumes "turn_ok rq result st" "ns_Recv recv close st = (Inr ev, st')" "collectEvent result ev = Inr result'"
  shows "turn_ok rq result' st'"
proof (cases "recv (ns_source st)")
  case (Pair r s)
  have nt: "\<not> ns_terminal st" using assms(2) by (auto simp: ns_Recv_def)
  have bad: False if "ev = sourceFailure e \<or> ev = failureEvent f" for e f
    using that assms(3) sourceFailure_event [of e] by auto
  from assms(2) Pair nt bad have acc: "validateEvent st ev = None" and r: "r = Inr ev"
    by (auto simp: ns_Recv_def Let_def split: sum.splits option.splits if_splits)
  note st' = assms(2) [unfolded ns_Recv_def Pair r]
  show ?thesis
  proof (cases "se_Type ev")
    case EventToolCall
    with accepted_call [OF acc] assms(1,3) st' nt acc show ?thesis
      by (auto simp: turn_ok_def collectEvent_def deref_def result_simps)
  next
    case EventUsage
    with accepted_usage [OF acc] assms(1,3) st' nt acc show ?thesis
      by (auto simp: turn_ok_def collectEvent_def deref_def result_simps)
  next
    case EventFinish
    with accepted_finish [OF acc] assms(1,3) st' nt acc show ?thesis
      by (auto simp: turn_ok_def collectEvent_def deref_def result_simps)
  next
    case EventError
    with accepted_error [OF acc] assms(3) show ?thesis by (auto simp: collectEvent_def deref_def)
  qed (use accepted_type [OF acc] assms(1,3) st' nt acc in \<open>auto simp: turn_ok_def collectEvent_def\<close>)
qed

text \<open>Over a normalized stream the loop ends with an acceptable turn or a stream error.\<close>

definition turn_outcome :: "Request \<Rightarrow> (ReasonerError + Result) \<Rightarrow> bool" where
  "turn_outcome rq r = (case r of
     Inl e \<Rightarrow> (\<exists>f. e = ErrStream f)
   | Inr result \<Rightarrow>
       res_FinishReason result \<noteq> '''' \<and> list_all (call_ok rq) (res_ToolCalls result)
       \<and> (rq_Tools rq \<noteq> [] \<longrightarrow> usage_ok rq (res_Usage result))
       \<and> (res_Usage result = Usage_zero \<or> usage_ok rq (res_Usage result))
       \<and> res_ToolCall result = (case res_ToolCalls result of [] \<Rightarrow> None | c # _ \<Rightarrow> Some c))"

lemma ns_Recv_error:
  assumes "ns_Recv recv close st = (Inr ev, st')" "collectEvent result ev = Inl e"
  shows "\<exists>f. e = ErrStream f"
proof (cases "validateEvent st ev")
  case None
  show ?thesis
  proof (cases "se_Type ev")
    case EventToolCall
    from accepted_call [OF None this] this assms(2) show ?thesis by (auto simp: collectEvent_def deref_def)
  next
    case EventUsage
    from accepted_usage [OF None this] this assms(2) show ?thesis by (auto simp: collectEvent_def deref_def)
  next
    case EventFinish
    from accepted_finish [OF None this] this assms(2) show ?thesis by (auto simp: collectEvent_def deref_def)
  next
    case EventError
    from accepted_error [OF None this] this assms(2) show ?thesis by (auto simp: collectEvent_def deref_def)
  qed (use accepted_type [OF None] assms(2) in \<open>auto simp: collectEvent_def\<close>)
next
  case (Some f)
  with assms(1) have "\<exists>f. ev = failureEvent f"
    using sourceFailure_event
    by (auto simp: ns_Recv_def Let_def split: if_splits prod.splits sum.splits option.splits)
  with assms(2) show ?thesis by auto
qed

lemma collectLoop_outcome:
  assumes "collectLoop (ns_Recv recv close) result st = Some (r, st')" "turn_ok rq result st"
  shows "turn_outcome rq r"
proof -
  let ?P = "\<lambda>g result st y. g = ns_Recv recv close \<longrightarrow> turn_ok rq result st \<longrightarrow> turn_outcome rq (fst y)"
  have "?P (ns_Recv recv close) result st (r, st')"
  proof (rule collectLoop.raw_induct [where P = ?P, OF _ assms(1)], goal_cases)
    case (1 loop g result st y)
    show ?case
    proof (intro impI)
      assume g: "g = ns_Recv recv close" and ok: "turn_ok rq result st"
      obtain m st1 where step: "ns_Recv recv close st = (m, st1)" by (cases "ns_Recv recv close st")
      show "turn_outcome rq (fst y)"
      proof (cases m)
        case (Inl e)
        with step have "ns_terminal st" "e = RecvEOF"
          by (auto simp: ns_Recv_def Let_def split: if_splits prod.splits sum.splits option.splits)
        with 1(2) g step Inl have "fst y = Inr (finishResult result)" by auto
        with ok \<open>ns_terminal st\<close> show ?thesis
          by (auto simp: turn_outcome_def turn_ok_def finishResult_def split: list.splits if_splits)
      next
        case (Inr ev)
        show ?thesis
        proof (cases "collectEvent result ev")
          case (Inl e)
          with 1(2) g step Inr have "fst y = Inl e" by auto
          with ns_Recv_error [OF step [unfolded Inr] Inl] show ?thesis by (simp add: turn_outcome_def)
        next
          case res: (Inr result')
          with 1(2) g step Inr have "loop g result' st1 = Some y" by auto
          with 1(1) g ns_Recv_collect [OF ok step [unfolded Inr] res] show ?thesis by blast
        qed
      qed
    qed
  qed
  with assms show ?thesis by fastforce
qed

lemma turn_ok_new: "turn_ok rq Result_zero (NewNormalizedStream rq src)"
  by (simp add: turn_ok_def NewNormalizedStream_def Result_zero_def)

section \<open>Recorded events\<close>

lemma slice_collects:
  "\<exists>y. collectLoop (ns_Recv ss_Recv ss_Close) result st = Some y"
proof (induction "length (ss_rest (ns_source st))" arbitrary: result st rule: less_induct)
  case less
  obtain m st1 where step: "ns_Recv ss_Recv ss_Close st = (m, st1)" by (cases "ns_Recv ss_Recv ss_Close st")
  have ended: "\<exists>y. collectLoop (ns_Recv ss_Recv ss_Close) result' st1 = Some y" if "ns_terminal st1" for result'
    by (subst collectLoop.simps) (simp add: ns_Recv_def that)
  show ?case
  proof (cases m)
    case (Inr ev)
    have "ns_terminal st1 \<or> length (ss_rest (ns_source st1)) < length (ss_rest (ns_source st))"
      using step Inr
      by (auto simp: ns_Recv_def ss_Recv_def Let_def split: if_splits list.splits option.splits)
    with ended less show ?thesis
      by (subst collectLoop.simps) (auto simp: step Inr split: sum.splits)
  qed (subst collectLoop.simps, simp add: step)
qed

section \<open>The stream interface\<close>

text \<open>The law of the interface \<open>Stream\<close> its users rely on: a closed stream is at its end.\<close>

locale stream =
  fixes recv :: "'s recv" and close :: "'s \<Rightarrow> 's"
  assumes closed_end: "fst (recv (close s)) = Inl RecvEOF"
begin

lemma normalized_closed_end: "fst (ns_Recv recv close (ns_Close close st)) = Inl RecvEOF"
  by (simp add: ns_Recv_def ns_Close_def)

lemma collected_closed:
  assumes "Collect recv close (Some s) = Some (r, st)"
  shows "\<exists>s'. st = Some s' \<and> fst (recv s') = Inl RecvEOF"
  using assms closed_end by (auto simp: Collect_def)

end

interpretation slice: stream ss_Recv ss_Close
  by unfold_locales (simp add: ss_Recv_def ss_Close_def)

interpretation turn: stream "ns_Recv ss_Recv ss_Close" "ns_Close ss_Close"
  by unfold_locales (rule slice.normalized_closed_end)

abbreviation collectTurn :: "sliceStream normalizedStream \<Rightarrow> ((ReasonerError + Result) \<times> sliceStream normalizedStream option) option" where
  "collectTurn st \<equiv> Collect (ns_Recv ss_Recv ss_Close) (ns_Close ss_Close) (Some st)"

section \<open>Properties\<close>

text \<open>
  A collected turn is sound, whatever the source of the stream sends: \<open>Collect\<close> over a
  normalized stream either reports a normalized stream error and nothing else, or returns a turn that
  ended with Finish, whose Tool calls are all registered with schema-conforming arguments (or the
  phase-1 tool when the request offers none), and whose Usage, required when Tools are offered, is
  within the token budget.
\<close>

theorem normalized_turn_sound:
  assumes "Collect (ns_Recv recv close) (ns_Close close) (Some (NewNormalizedStream rq src)) = Some (r, st)"
  shows "turn_outcome rq r"
  using assms collectLoop_outcome [OF _ turn_ok_new] by (auto simp: Collect_def)

text \<open>
  Every turn over recorded events ends. For any script, source error, request and context,
  collecting the stream of the deterministic Reasoner returns, with an outcome as above, and leaves
  the stream closed.
\<close>

theorem fake_turn_ends:
  "\<exists>r st. collectTurn (fst (fake_Reason ctxErr rq fake)) = Some (r, Some st)
     \<and> turn_outcome rq r \<and> fst (ns_Recv ss_Recv ss_Close st) = Inl RecvEOF"
proof -
  obtain src where src: "fst (fake_Reason ctxErr rq fake) = NewNormalizedStream rq src"
    by (simp add: fake_Reason_def Let_def)
  obtain r st where c: "collectTurn (NewNormalizedStream rq src) = Some (r, st)"
    using slice_collects [of Result_zero "NewNormalizedStream rq src"] by (auto simp: Collect_def)
  then have "turn_outcome rq r" using collectLoop_outcome [OF _ turn_ok_new] by (auto simp: Collect_def)
  with c turn.collected_closed [OF c] src show ?thesis by auto
qed

definition phase1Request :: "string \<Rightarrow> Request" where
  "phase1Request summary = \<lparr>rq_Messages = [], rq_Tools = [], rq_TaskSummary = summary,
     rq_FailureEvidence = '''', rq_TokenLimit = 1\<rparr>"

definition fakeResult :: Result where
\<open>fakeResult = (let c = \<lparr>tc_ID = ''phase1-fake-call'', tc_Name = Phase1PatchTool, tc_Arguments = ''{"patch":"fake"}''\<rparr> in
  \<lparr>res_Output = ''deterministic fake patch'', res_ToolCall = Some c, res_ToolCalls = [c], res_Usage = oneToken,
   res_FinishReason = ''tool_calls''\<rparr>)\<close>

lemma fake_arguments:
  \<open>json_Valid ''{"patch":"fake"}'' \<and> jsonValid ''{"patch":"fake"}''\<close>
  by code_simp

lemma slice_step:
  assumes "validateEvent \<lparr>ns_request = rq, ns_source = \<lparr>ss_rest = ev # rest, ss_err = err, ss_closed = False\<rparr>,
      ns_terminal = False, ns_usageSeen = seen\<rparr> ev = None"
  shows "collectLoop (ns_Recv ss_Recv ss_Close) result
      \<lparr>ns_request = rq, ns_source = \<lparr>ss_rest = ev # rest, ss_err = err, ss_closed = False\<rparr>,
       ns_terminal = False, ns_usageSeen = seen\<rparr> =
    (let ended = (se_Type ev = EventFinish \<or> se_Type ev = EventError);
         st = \<lparr>ns_request = rq, ns_source = \<lparr>ss_rest = rest, ss_err = err, ss_closed = ended\<rparr>,
               ns_terminal = ended, ns_usageSeen = (seen \<or> se_Type ev = EventUsage)\<rparr> in
     case collectEvent result ev of
       Inl e \<Rightarrow> Some (Inl e, st)
     | Inr result' \<Rightarrow> collectLoop (ns_Recv ss_Recv ss_Close) result' st)"
  using assms
  by (subst collectLoop.simps) (auto simp: ns_Recv_def ss_Recv_def ss_Close_def Let_def split: sum.splits)

lemmas event_defs = textEvent_def callEvent_def usageEvent_def finishEvent_def StreamEvent_zero_def

lemma event_types [simp]:
  "se_Type (textEvent t) = EventTextDelta" "se_Type (callEvent c) = EventToolCall"
  "se_Type (usageEvent u) = EventUsage" "se_Type (finishEvent r) = EventFinish"
  by (simp_all add: event_defs)

lemma collect_events [simp]:
  "collectEvent res (textEvent t) = Inr (res\<lparr>res_Output := res_Output res @ t\<rparr>)"
  "collectEvent res (callEvent c) = Inr (res\<lparr>res_ToolCalls := res_ToolCalls res @ [c]\<rparr>)"
  "collectEvent res (usageEvent u) = Inr (res\<lparr>res_Usage := u\<rparr>)"
  "collectEvent res (finishEvent r) = Inr (res\<lparr>res_FinishReason := r\<rparr>)"
  by (simp_all add: event_defs collectEvent_def deref_def)

lemma accept_text: "t \<noteq> '''' \<Longrightarrow> validateEvent st (textEvent t) = None"
  by (simp add: validateEvent_def validateEventShape_def variantCount_def event_defs)

lemma accept_call:
  "call_ok (ns_request st) c \<Longrightarrow> tc_Name c \<noteq> '''' \<Longrightarrow> tc_Arguments c \<noteq> '''' \<Longrightarrow> validateEvent st (callEvent c) = None"
  by (auto simp: validateEvent_def validateEventShape_def variantCount_def event_defs call_ok_def ns_contract_def
      split: option.splits)

lemma accept_usage:
  "usage_ok (ns_request st) u \<Longrightarrow> \<not> ns_usageSeen st \<Longrightarrow> validateEvent st (usageEvent u) = None"
  by (auto simp: validateEvent_def validateEventShape_def variantCount_def event_defs usage_ok_def not_less)

lemma accept_finish:
  "r \<noteq> '''' \<Longrightarrow> rq_Tools (ns_request st) = [] \<or> ns_usageSeen st \<Longrightarrow> validateEvent st (finishEvent r) = None"
  by (auto simp: validateEvent_def validateEventShape_def variantCount_def event_defs)

lemma collect_ended:
  "collectLoop (ns_Recv recv close) result \<lparr>ns_request = rq, ns_source = src, ns_terminal = True, ns_usageSeen = seen\<rparr>
     = Some (Inr (finishResult result), \<lparr>ns_request = rq, ns_source = src, ns_terminal = True, ns_usageSeen = seen\<rparr>)"
  by (subst collectLoop.simps) (simp add: ns_Recv_def)

lemma fake_collected:
  "\<exists>st. collectTurn (fst (fake_Reason None (phase1Request summary) (NewFakeReasoner\<lparr>fk_calls := n\<rparr>))) = Some (Inr fakeResult, st)"
proof -
  have call: \<open>call_ok (phase1Request summary)
      \<lparr>tc_ID = ''phase1-fake-call'', tc_Name = Phase1PatchTool, tc_Arguments = ''{"patch":"fake"}''\<rparr>\<close>
    using fake_arguments by (simp add: call_ok_def phase1Request_def)
  have usage: "usage_ok (phase1Request summary) oneToken" by (simp add: usage_ok_def phase1Request_def oneToken_def)
  have tools: "rq_Tools (phase1Request summary) = []" by (simp add: phase1Request_def)
  have name: "Phase1PatchTool \<noteq> ''''" by (simp add: Phase1PatchTool_def)
  show ?thesis
    by (simp add: Collect_def fake_Reason_def NewFakeReasoner_def NewFakeReasonerWithEvents_def NewNormalizedStream_def
        newSliceStream_def Result_zero_def fakeResult_def finishResult_def Let_def slice_step collect_ended
        accept_text accept_call accept_usage accept_finish call usage tools name)
qed

text \<open>
  The deterministic Reasoner satisfies the phase-1 seam: for the request the controller makes,
  each of its turns is collected without error into a result that \<open>ValidatePhase1Result\<close> accepts.
\<close>

theorem fake_phase1_result:
  "\<exists>st. collectTurn (fst (fake_Reason None (phase1Request summary) (NewFakeReasoner\<lparr>fk_calls := n\<rparr>))) = Some (Inr fakeResult, st)
     \<and> ValidatePhase1Result fakeResult = Inr ()"
  using fake_collected fake_arguments
  by (auto simp: ValidatePhase1Result_def fakeResult_def Phase1PatchTool_def Let_def)

theorem normalized_turn_sound_witness: "turn_outcome (phase1Request ''s'') (Inr fakeResult)"
proof -
  obtain st where "collectTurn (fst (fake_Reason None (phase1Request ''s'') (NewFakeReasoner\<lparr>fk_calls := 0\<rparr>)))
      = Some (Inr fakeResult, st)" using fake_collected by blast
  then show ?thesis unfolding fake_Reason_def Let_def fst_conv by (rule normalized_turn_sound)
qed

end
