(* ===== verification/Controller.thy ===== *)
theory Controller
  imports Reasoner_Props Storage_Properties
begin

text \<open>
  The controller of \<open>src/internal/controller/controller.go\<close>. Its collaborators (the event store,
  the Reasoner, the lease manager, the action executor) are interfaces in the source and operations
  on an abstract world \<open>'w\<close> here, so that the same definitions run over the in-memory store and
  over PostgreSQL, with any interference of other clients between two calls. A method is an
  \<^emph>\<open>action\<close>: it takes the world and returns an error or a value with the new world. A method that
  returns an error returns no usable \<open>ReconcileResult\<close>; the partial results that accompany some
  errors are not modelled.
\<close>

section \<open>Actions\<close>

datatype CtlError =
    ErrInvalidRequest | ErrRunExists | ErrManagedRunRequiresLease | ErrInjectedCrash
  | CtlStore StoreError | CtlDomain DomainError | CtlLease LeaseError | CtlReasoner ReasonerError
  | CtlContext | CtlExecutor string | CtlIntegrity string

type_synonym ('w, 'a) action = "'w \<Rightarrow> (CtlError + 'a) \<times> 'w"

definition returnA :: "'a \<Rightarrow> ('w, 'a) action" where
  "returnA x w = (Inr x, w)"

definition failA :: "CtlError \<Rightarrow> ('w, 'a) action" where
  "failA e w = (Inl e, w)"

text \<open>\<open>x, err := m; if err != nil { return err }; f(x)\<close>, and the same where the error is inspected.\<close>

definition bindA :: "('w, 'a) action \<Rightarrow> ('a \<Rightarrow> ('w, 'b) action) \<Rightarrow> ('w, 'b) action" where
  "bindA m f w = (case m w of (Inl e, w') \<Rightarrow> (Inl e, w') | (Inr x, w') \<Rightarrow> f x w')"

definition bindR :: "('w, 'a) action \<Rightarrow> (CtlError + 'a \<Rightarrow> ('w, 'b) action) \<Rightarrow> ('w, 'b) action" where
  "bindR m f w = (case m w of (r, w') \<Rightarrow> f r w')"

definition liftA :: "('e \<Rightarrow> CtlError) \<Rightarrow> ('w \<Rightarrow> ('e + 'a) \<times> 'w) \<Rightarrow> ('w, 'a) action" where
  "liftA g m w = (case m w of (r, w') \<Rightarrow> (mapErr g r, w'))"

lemma bindA_iff:
  "bindA m f w = (Inr y, w'') \<longleftrightarrow> (\<exists>x w'. m w = (Inr x, w') \<and> f x w' = (Inr y, w''))"
  by (auto simp: bindA_def split: prod.splits sum.splits)

lemma returnA_simp [simp]: "returnA x w = (Inr x, w)"
  by (simp add: returnA_def)

lemma failA_simp [simp]: "failA e w = (Inl e, w)"
  by (simp add: failA_def)

lemma bindR_simp: "bindR m f w = f (fst (m w)) (snd (m w))"
  by (simp add: bindR_def split: prod.splits)

lemma liftA_iff: "liftA g m w = (Inr x, w') \<longleftrightarrow> m w = (Inr x, w')"
  by (auto simp: liftA_def result_simps split: prod.splits)

section \<open>Collaborators\<close>

text \<open>
  \<open>es_IsManagedRun\<close> is \<open>None\<close> for a store that does not implement \<open>ManagedRunInspector\<close>.
  \<open>c_consult request\<close> is \<open>reasoner.Collect(controller.reasoner.Reason(ctx, request))\<close>.
  \<open>errorText\<close> renders an error (\<open>err.Error()\<close>) for the free-text field \<open>Reason\<close>.
\<close>

record 'w EventStoreOps =
  es_Load :: "string \<Rightarrow> 'w \<Rightarrow> (StoreError + Event list) \<times> 'w"
  es_Rebuild :: "string \<Rightarrow> 'w \<Rightarrow> (StoreError + State) \<times> 'w"
  es_Append :: "uint64 \<Rightarrow> Event \<Rightarrow> 'w \<Rightarrow> (StoreError + AppendResult) \<times> 'w"
  es_IsManagedRun :: "(string \<Rightarrow> 'w \<Rightarrow> (StoreError + bool) \<times> 'w) option"

record 'w LeaseOps =
  lo_Validate :: "Lease \<Rightarrow> 'w \<Rightarrow> (LeaseError + unit) \<times> 'w"
  lo_LookupReceipt :: "string \<Rightarrow> string \<Rightarrow> 'w \<Rightarrow> (LeaseError + ActionReceipt) \<times> 'w"
  lo_RecordReceipt :: "Lease \<Rightarrow> ActionReceipt \<Rightarrow> 'w \<Rightarrow> (LeaseError + ReceiptResult) \<times> 'w"

record ActionRequest =
  ax_State :: State
  ax_Command :: Command
  ax_Scope :: IdempotencyScope

datatype FaultPoint =
    FaultBeforeActionPlanned | FaultAfterActionPlanned | FaultAfterActionExecution
  | FaultAfterReceiptPersisted | FaultAfterActionCompleted

record 'w ManagedOptions =
  mo_Executor :: "(ActionRequest \<Rightarrow> ('w, ActionReceipt) action) option"
  mo_Artifacts :: "(string \<Rightarrow> 'w \<Rightarrow> (StoreError + ArtifactRecord) \<times> 'w) option"
  mo_Fault :: "(FaultPoint \<Rightarrow> Command \<Rightarrow> ('w, unit) action) option"
  mo_Safety :: "Command \<Rightarrow> IdempotencyScope"

record 'w Controller =
  c_env :: env
  c_store :: "'w EventStoreOps"
  c_consult :: "Request \<Rightarrow> 'w \<Rightarrow> (ReasonerError + Result) \<times> 'w"
  c_ctxErr :: "('w, unit) action"
  c_lease :: "'w LeaseOps option"
  c_options :: "'w ManagedOptions"
  c_errorText :: "CtlError \<Rightarrow> string"

record CreateRunRequest =
  cr_RunID :: string
  cr_ScenarioID :: string
  cr_SpecHash :: string
  cr_CreatedAt :: string

record ReconcileResult =
  rc_Command :: Command
  rc_Events :: "Event list"
  rc_State :: State

section \<open>Creating and reading Runs\<close>

definition storeAppend :: "'w Controller \<Rightarrow> uint64 \<Rightarrow> Event \<Rightarrow> ('w, AppendResult) action" where
  "storeAppend C v ev = liftA CtlStore (es_Append (c_store C) v ev)"

definition GetRun :: "'w Controller \<Rightarrow> string \<Rightarrow> ('w, State) action" where
  "GetRun C runID = liftA CtlStore (es_Rebuild (c_store C) runID)"

definition Events :: "'w Controller \<Rightarrow> string \<Rightarrow> ('w, Event list) action" where
  "Events C runID = liftA CtlStore (es_Load (c_store C) runID)"

definition runCreatedEvent :: "CreateRunRequest \<Rightarrow> Event" where
  "runCreatedEvent request = Event_zero\<lparr>
     ev_RunID := cr_RunID request, ev_Type := EventRunCreated,
     ev_Data := EventData_zero\<lparr>ed_ScenarioID := cr_ScenarioID request, ed_SpecHash := cr_SpecHash request\<rparr>,
     ev_IdempotencyKey := ''run-created'', ev_CorrelationID := cr_RunID request,
     ev_CreatedAt := cr_CreatedAt request\<rparr>"

definition CreateRun :: "'w Controller \<Rightarrow> CreateRunRequest \<Rightarrow> ('w, State) action" where
  "CreateRun C request =
     (if cr_RunID request = '''' \<or> cr_ScenarioID request = '''' \<or> cr_SpecHash request = ''''
      then failA ErrInvalidRequest
      else bindR (Events C (cr_RunID request)) (\<lambda>r.
        case r of
          Inr _ \<Rightarrow> failA ErrRunExists
        | Inl e \<Rightarrow>
            (if e \<noteq> CtlStore ErrRunNotFound then failA e
             else bindA (storeAppend C 0 (runCreatedEvent request)) (\<lambda>_. GetRun C (cr_RunID request)))))"

section \<open>Operator intent\<close>

fun isVersionConflict :: "CtlError \<Rightarrow> bool" where
  "isVersionConflict (CtlStore (ErrVersionConflict _)) = True"
| "isVersionConflict _ = False"

definition desiredEvent :: "string \<Rightarrow> DesiredState \<Rightarrow> uint64 \<Rightarrow> Event" where
  "desiredEvent runID d version = Event_zero\<lparr>
     ev_RunID := runID, ev_Type := EventDesiredStateChanged,
     ev_Data := EventData_zero\<lparr>ed_DesiredState := d\<rparr>,
     ev_IdempotencyKey := ''desired:'' @ DesiredState_text d @ '':v'' @ show_nat (unat version),
     ev_CorrelationID := runID\<rparr>"

definition maxDesiredStateRetries :: nat where
  "maxDesiredStateRetries = 64"

text \<open>
  The loop over the attempts that are left. Giving up wraps the sentinel \<open>ErrVersionConflict\<close>,
  which has no details.
\<close>

definition versionConflictSentinel :: VersionConflictError where
  "versionConflictSentinel = \<lparr>vce_RunID = '''', vce_Expected = 0, vce_Actual = 0\<rparr>"

fun setDesiredLoop :: "'w Controller \<Rightarrow> string \<Rightarrow> DesiredState \<Rightarrow> nat \<Rightarrow> ('w, State) action" where
  "setDesiredLoop C runID d 0 = failA (CtlStore (ErrVersionConflict versionConflictSentinel))"
| "setDesiredLoop C runID d (Suc attempts) =
     bindA (c_ctxErr C) (\<lambda>_.
     bindA (GetRun C runID) (\<lambda>state.
       if Terminal (observed state) then failA (CtlDomain ErrTerminalState)
       else if desired state = d then returnA state
       else bindR (storeAppend C (run_Version (st_Run state)) (desiredEvent runID d (run_Version (st_Run state)))) (\<lambda>r.
         case r of
           Inr _ \<Rightarrow> GetRun C runID
         | Inl e \<Rightarrow> if isVersionConflict e then setDesiredLoop C runID d attempts else failA e)))"

definition SetDesiredState :: "'w Controller \<Rightarrow> string \<Rightarrow> DesiredState \<Rightarrow> ('w, State) action" where
  "SetDesiredState C runID d =
     (if \<not> DesiredState_Valid d then failA ErrInvalidRequest
      else setDesiredLoop C runID d maxDesiredStateRetries)"

section \<open>Reconcile\<close>

text \<open>
  The state the closure \<open>appendEvent\<close> captures: the expected version and the events appended.
\<close>

type_synonym appender = "uint64 \<times> Event list"

definition refreshVersion :: "'w Controller \<Rightarrow> string \<Rightarrow> Event list \<Rightarrow> ('w, appender) action" where
  "refreshVersion C runID events =
     bindA (GetRun C runID) (\<lambda>current. returnA (run_Version (st_Run current), events))"

definition settleAppend :: "'w Controller \<Rightarrow> string \<Rightarrow> Event list \<Rightarrow> AppendResult \<Rightarrow> ('w, appender) action" where
  "settleAppend C runID events res =
     (if ar_Appended res then returnA (ev_Seq (ar_Event res), events @ [ar_Event res])
      else refreshVersion C runID events)"

definition appendEvent :: "'w Controller \<Rightarrow> string \<Rightarrow> Event \<Rightarrow> appender \<Rightarrow> ('w, appender) action" where
  "appendEvent C runID event0 = (\<lambda>(expected, events).
     let event = event0\<lparr>ev_RunID := runID, ev_CorrelationID := runID\<rparr> in
     bindR (storeAppend C expected event) (\<lambda>r.
       case r of
         Inr res \<Rightarrow> settleAppend C runID events res
       | Inl e \<Rightarrow>
           (if isVersionConflict e then
              bindA (GetRun C runID) (\<lambda>current.
              bindA (storeAppend C (run_Version (st_Run current)) event) (settleAppend C runID events))
            else failA e)))"

definition stepEvent :: "EventType \<Rightarrow> string \<Rightarrow> EventData \<Rightarrow> string \<Rightarrow> Event" where
  "stepEvent t actionID d sfx = Event_zero\<lparr>ev_Type := t, ev_Data := d\<lparr>ed_ActionID := actionID\<rparr>,
     ev_IdempotencyKey := actionID @ sfx\<rparr>"

definition appendControlledReasonerFailure :: "'w Controller \<Rightarrow> string \<Rightarrow> Command \<Rightarrow> CtlError \<Rightarrow> appender \<Rightarrow> ('w, appender) action" where
  "appendControlledReasonerFailure C runID command reason =
     appendEvent C runID (stepEvent EventToolCallFailed (cmd_ActionID command)
       (EventData_zero\<lparr>ed_Reason := c_errorText C reason\<rparr>) '':tool-call-failed'')"

definition runReasoner :: "'w Controller \<Rightarrow> string \<Rightarrow> State \<Rightarrow> Command \<Rightarrow> appender \<Rightarrow> ('w, appender) action" where
  "runReasoner C runID state command a =
     bindA (if st_PendingActionID state = ''''
            then appendEvent C runID (stepEvent EventReasoningPlanned (cmd_ActionID command) EventData_zero '':reasoning-planned'') a
            else returnA a) (\<lambda>a'.
     bindR (liftA CtlReasoner (c_consult C (phase1Request (run_ScenarioID (st_Run state))))) (\<lambda>r.
       case r of
         Inl e \<Rightarrow> appendControlledReasonerFailure C runID command e a'
       | Inr result \<Rightarrow>
           (case (ValidatePhase1Result result, res_ToolCall result) of
              (Inr _, Some call) \<Rightarrow>
                appendEvent C runID (stepEvent EventReasoningCompleted (cmd_ActionID command)
                  (EventData_zero\<lparr>ed_Output := res_Output result, ed_ToolName := tc_Name call,
                     ed_ToolArguments := tc_Arguments call\<rparr>) '':reasoning-completed'') a'
            | (Inr _, None) \<Rightarrow> failA (CtlReasoner NilDereference)
            | (Inl e, _) \<Rightarrow> appendControlledReasonerFailure C runID command (CtlReasoner e) a')))"

definition runVerify :: "'w Controller \<Rightarrow> string \<Rightarrow> State \<Rightarrow> Command \<Rightarrow> appender \<Rightarrow> ('w, appender) action" where
  "runVerify C runID state command a =
     bindA (if st_PendingActionID state = ''''
            then appendEvent C runID (stepEvent EventVerificationPlanned (cmd_ActionID command) EventData_zero '':verification-planned'') a
            else returnA a)
       (appendEvent C runID (stepEvent EventVerificationPassed (cmd_ActionID command) EventData_zero '':verification-passed''))"

definition executeCommand :: "'w Controller \<Rightarrow> string \<Rightarrow> State \<Rightarrow> Command \<Rightarrow> appender \<Rightarrow> ('w, appender) action" where
  "executeCommand C runID state command =
     (let step = (\<lambda>t d sfx. appendEvent C runID (stepEvent t (cmd_ActionID command) d sfx)) in
      case cmd_Type command of
        CommandStartAttempt \<Rightarrow> step EventAttemptStarted
          (EventData_zero\<lparr>ed_AttemptID := cmd_AttemptID command, ed_Reason := ''initial''\<rparr>) '':attempt-started''
      | CommandProvisionWorkspace \<Rightarrow> step EventWorkspaceProvisioned EventData_zero '':workspace-provisioned''
      | CommandRunReasoner \<Rightarrow> runReasoner C runID state command
      | CommandApplyPatch \<Rightarrow> step EventPatchProduced EventData_zero '':patch-produced''
      | CommandVerify \<Rightarrow> runVerify C runID state command
      | CommandSucceedRun \<Rightarrow> step EventRunSucceeded EventData_zero '':run-succeeded''
      | CommandFailRun \<Rightarrow> step EventRunFailed (EventData_zero\<lparr>ed_Reason := st_FailureReason state\<rparr>) '':run-failed''
      | CommandCancelRun \<Rightarrow> step EventRunCancelled EventData_zero '':run-cancelled''
      | _ \<Rightarrow> (\<lambda>_. failA ErrInvalidRequest))"

definition inspectManaged :: "'w Controller \<Rightarrow> string \<Rightarrow> ('w, bool) action" where
  "inspectManaged C runID =
     (case es_IsManagedRun (c_store C) of
        None \<Rightarrow> returnA False
      | Some inspect \<Rightarrow> liftA CtlStore (inspect runID))"

definition Reconcile :: "'w Controller \<Rightarrow> string \<Rightarrow> ('w, ReconcileResult) action" where
  "Reconcile C runID =
     bindA (GetRun C runID) (\<lambda>state.
       if c_lease C \<noteq> None \<or> st_PendingActionType state \<noteq> CommandNone then failA ErrManagedRunRequiresLease
       else bindA (inspectManaged C runID) (\<lambda>managed.
         if managed then failA ErrManagedRunRequiresLease
         else let command = Decide (env_hash (c_env C)) state in
           if cmd_Type command = CommandNoop
           then returnA \<lparr>rc_Command = command, rc_Events = [], rc_State = state\<rparr>
           else bindA (executeCommand C runID state command (run_Version (st_Run state), [])) (\<lambda>(_, events).
                bindA (GetRun C runID) (\<lambda>state'.
                  returnA \<lparr>rc_Command = command, rc_Events = events, rc_State = state'\<rparr>))))"

end
