(* ===== verification/Managed.thy ===== *)
theory Managed
  imports Controller
begin

text \<open>
  The leased path of \<open>src/internal/controller/managed.go\<close>: one managed action per call, recovery of
  a pending action from its durable receipt, and the action executors. The closure
  \<open>appendEvent\<close> of the source is \<open>managedAppend\<close> with its captured version and events passed
  along.
\<close>

section \<open>Events of a managed action\<close>

definition actionPlannedEvent :: "Command \<Rightarrow> IdempotencyScope \<Rightarrow> Event" where
  "actionPlannedEvent command scope = Event_zero\<lparr>
     ev_Type := EventActionPlanned,
     ev_Data := EventData_zero\<lparr>ed_ActionID := cmd_ActionID command, ed_ActionType := cmd_Type command,
       ed_AttemptID := cmd_AttemptID command, ed_IdempotencyScope := scope\<rparr>,
     ev_IdempotencyKey := cmd_ActionID command @ '':action-planned''\<rparr>"

definition actionCompletedEvent :: "ActionReceipt \<Rightarrow> Event" where
  "actionCompletedEvent receipt = Event_zero\<lparr>
     ev_Type := EventActionCompleted,
     ev_Data := (rt_Output receipt)\<lparr>
       ed_ActionID := rt_ActionID receipt, ed_ActionType := rt_ActionType receipt,
       ed_IdempotencyScope := rt_IdempotencyScope receipt, ed_ReceiptID := rt_ID receipt,
       ed_OutputDigest := rt_OutputDigest receipt, ed_ArtifactID := rt_ArtifactID receipt,
       ed_ArtifactDigest := rt_ArtifactDigest receipt\<rparr>,
     ev_IdempotencyKey := rt_ActionID receipt @ '':action-completed''\<rparr>"

definition actionFailedEvent :: "Command \<Rightarrow> string \<Rightarrow> ActionOutcome \<Rightarrow> Event" where
  "actionFailedEvent command reason outcome = Event_zero\<lparr>
     ev_Type := EventActionFailed,
     ev_Data := EventData_zero\<lparr>ed_ActionID := cmd_ActionID command, ed_ActionType := cmd_Type command,
       ed_Reason := reason, ed_Outcome := outcome\<rparr>,
     ev_IdempotencyKey := cmd_ActionID command @ '':action-failed:'' @ ActionOutcome_text outcome\<rparr>"

section \<open>Appending under a lease\<close>

definition managedAppend :: "'w Controller \<Rightarrow> string \<Rightarrow> Lease \<Rightarrow> Event \<Rightarrow> appender \<Rightarrow> ('w, appender) action" where
  "managedAppend C runID presented event0 = (\<lambda>(expected, events).
     let event = event0\<lparr>ev_RunID := runID, ev_CorrelationID := runID,
           ev_WorkerID := ls_WorkerID presented, ev_FencingToken := ls_FencingToken presented\<rparr> in
     bindR (storeAppend C expected event) (\<lambda>r.
       case r of
         Inr res \<Rightarrow> settleAppend C runID events res
       | Inl e \<Rightarrow>
           (if isVersionConflict e \<and> ev_Type event \<noteq> EventActionPlanned then
              bindA (GetRun C runID) (\<lambda>current.
              bindA (storeAppend C (run_Version (st_Run current)) event) (settleAppend C runID events))
            else failA e)))"

definition inject :: "'w Controller \<Rightarrow> FaultPoint \<Rightarrow> Command \<Rightarrow> ('w, unit) action" where
  "inject C point command =
     (case mo_Fault (c_options C) of None \<Rightarrow> returnA () | Some hook \<Rightarrow> hook point command)"

text \<open>The end of every branch that appended a result: \<open>result.State, err = GetRun(...)\<close>.\<close>

definition finishReconcile :: "'w Controller \<Rightarrow> string \<Rightarrow> Command \<Rightarrow> appender \<Rightarrow> ('w, ReconcileResult) action" where
  "finishReconcile C runID command a =
     bindA (GetRun C runID) (\<lambda>state.
       returnA \<lparr>rc_Command = command, rc_Events = snd a, rc_State = state\<rparr>)"

section \<open>Receipt evidence\<close>

definition verifyReceiptArtifact :: "'w Controller \<Rightarrow> State \<Rightarrow> ActionReceipt \<Rightarrow> ('w, unit) action" where
  "verifyReceiptArtifact C state receipt =
     (if rt_ArtifactID receipt = '''' then returnA ()
      else case mo_Artifacts (c_options C) of
        None \<Rightarrow> failA (CtlIntegrity ''Artifact verifier is not configured'')
      | Some verify \<Rightarrow>
          bindA (liftA CtlStore (verify (rt_ArtifactID receipt))) (\<lambda>record.
            if ar_RunID record \<noteq> rt_RunID receipt
               \<or> ar_AttemptID record \<noteq> st_PendingAttemptID state
               \<or> ar_ID record \<noteq> rt_ArtifactID receipt
               \<or> ar_Type record \<noteq> Phase3ReceiptArtifactType
               \<or> ar_Digest record \<noteq> rt_ArtifactDigest receipt
            then failA (CtlIntegrity ''Artifact metadata mismatch'') else returnA ()))"

definition validateReceiptEvidence :: "'w Controller \<Rightarrow> State \<Rightarrow> ActionReceipt \<Rightarrow> ('w, unit) action" where
  "validateReceiptEvidence C state receipt =
     (case ValidateManagedReceiptEvidence (c_env C) (rt_ActionType receipt) (rt_ActionID receipt)
             (st_PendingAttemptID state) (rt_Output receipt) (rt_OutputDigest receipt)
             (rt_ArtifactID receipt) (rt_ArtifactDigest receipt) of
        Inl e \<Rightarrow> failA (CtlDomain e)
      | Inr _ \<Rightarrow>
          (case ValidateActionCompletion state (ev_Data (actionCompletedEvent receipt)) of
             Inl e \<Rightarrow> failA (CtlDomain e)
           | Inr _ \<Rightarrow> verifyReceiptArtifact C state receipt))"

definition unverifiableReason :: "'w Controller \<Rightarrow> CtlError \<Rightarrow> string" where
  "unverifiableReason C e = ''durable action receipt evidence cannot be verified: '' @ c_errorText C e"

section \<open>Execution\<close>

text \<open>
  What follows a durable receipt in both callers: check the evidence, then complete the action, or
  record that its outcome cannot be established. \<open>app\<close> is the closure of \<open>managedAppender\<close>,
  \<open>after\<close> what runs after the completion.
\<close>

type_synonym 'w appendOp = "Event \<Rightarrow> appender \<Rightarrow> ('w, appender) action"

definition settleReceipt :: "'w Controller \<Rightarrow> 'w appendOp \<Rightarrow> State \<Rightarrow> Command \<Rightarrow> ActionReceipt \<Rightarrow> ('w, unit) action
    \<Rightarrow> appender \<Rightarrow> ('w, ReconcileResult) action" where
  "settleReceipt C app state command receipt after a =
     bindR (validateReceiptEvidence C state receipt) (\<lambda>r.
       case r of
         Inl e \<Rightarrow>
           bindA (app (actionFailedEvent command (unverifiableReason C e) ActionOutcomeAmbiguous) a)
             (finishReconcile C (run_ID (st_Run state)) command)
       | Inr _ \<Rightarrow>
           bindA (app (actionCompletedEvent receipt) a) (\<lambda>a'.
           bindA after (\<lambda>_. finishReconcile C (run_ID (st_Run state)) command a')))"

definition failAction :: "'w Controller \<Rightarrow> 'w appendOp \<Rightarrow> State \<Rightarrow> Command \<Rightarrow> string \<Rightarrow> ActionOutcome
    \<Rightarrow> appender \<Rightarrow> ('w, ReconcileResult) action" where
  "failAction C app state command reason outcome a =
     bindA (app (actionFailedEvent command reason outcome) a)
       (finishReconcile C (run_ID (st_Run state)) command)"

definition executeManagedAction :: "'w Controller \<Rightarrow> 'w LeaseOps \<Rightarrow> (ActionRequest \<Rightarrow> ('w, ActionReceipt) action)
    \<Rightarrow> Lease \<Rightarrow> 'w appendOp \<Rightarrow> State \<Rightarrow> Command \<Rightarrow> appender \<Rightarrow> ('w, ReconcileResult) action" where
  "executeManagedAction C L execute presented app state command a =
     bindR (execute \<lparr>ax_State = state, ax_Command = command, ax_Scope = st_PendingActionScope state\<rparr>) (\<lambda>r.
       case r of
         Inl e \<Rightarrow> failAction C app state command (c_errorText C e) ActionOutcomeFailed a
       | Inr receipt \<Rightarrow>
           bindA (inject C FaultAfterActionExecution command) (\<lambda>_.
           bindA (liftA CtlLease (lo_RecordReceipt L presented (receipt\<lparr>
               rt_RunID := run_ID (st_Run state), rt_ActionID := cmd_ActionID command,
               rt_ActionType := cmd_Type command, rt_IdempotencyScope := st_PendingActionScope state\<rparr>))) (\<lambda>recorded.
           bindA (inject C FaultAfterReceiptPersisted command) (\<lambda>_.
             settleReceipt C app state command (rs_Receipt recorded)
               (inject C FaultAfterActionCompleted command) a))))"

definition pendingCommand :: "State \<Rightarrow> Command" where
  "pendingCommand state = \<lparr>cmd_Type = st_PendingActionType state, cmd_RunID = run_ID (st_Run state),
     cmd_ActionID = st_PendingActionID state, cmd_AttemptID = st_PendingAttemptID state\<rparr>"

definition recoverPendingAction :: "'w Controller \<Rightarrow> 'w LeaseOps \<Rightarrow> (ActionRequest \<Rightarrow> ('w, ActionReceipt) action)
    \<Rightarrow> Lease \<Rightarrow> 'w appendOp \<Rightarrow> State \<Rightarrow> appender \<Rightarrow> ('w, ReconcileResult) action" where
  "recoverPendingAction C L execute presented app state a =
     (let command = pendingCommand state in
      if desired state = DesiredPaused \<or> observed state = StatusPaused
      then returnA \<lparr>rc_Command = noopCommand, rc_Events = snd a, rc_State = state\<rparr>
      else if desired state = DesiredCancelled
      then failAction C app state command ''cancel intent superseded the pending action'' ActionOutcomeFailed a
      else bindR (liftA CtlLease (lo_LookupReceipt L (run_ID (st_Run state)) (st_PendingActionID state))) (\<lambda>r.
        case r of
          Inr receipt \<Rightarrow> settleReceipt C app state command receipt (returnA ()) a
        | Inl e \<Rightarrow>
            (if e \<noteq> CtlLease ErrReceiptNotFound then failA e
             else if st_PendingActionScope state \<noteq> IdempotencyScoped
             then failAction C app state command
                    ''action outcome is ambiguous and no durable receipt proves completion'' ActionOutcomeAmbiguous a
             else executeManagedAction C L execute presented app state command a)))"

definition ReconcileLeased :: "'w Controller \<Rightarrow> string \<Rightarrow> Lease \<Rightarrow> ('w, ReconcileResult) action" where
  "ReconcileLeased C runID presented =
     (case (c_lease C, mo_Executor (c_options C)) of
        (Some L, Some execute) \<Rightarrow>
          (if ls_RunID presented \<noteq> runID then failA ErrInvalidRequest
           else bindA (liftA CtlLease (lo_Validate L presented)) (\<lambda>_.
                bindA (GetRun C runID) (\<lambda>state.
                let app = managedAppend C runID presented;
                    start = (run_Version (st_Run state), []) in
                if st_PendingActionID state \<noteq> ''''
                then recoverPendingAction C L execute presented app state start
                else let command = Decide (env_hash (c_env C)) state in
                  if cmd_Type command = CommandNoop
                  then returnA \<lparr>rc_Command = command, rc_Events = [], rc_State = state\<rparr>
                  else bindA (inject C FaultBeforeActionPlanned command) (\<lambda>_.
                    let scope = mo_Safety (c_options C) command in
                    if \<not> IdempotencyScope_Valid scope then failA ErrInvalidRequest
                    else bindR (app (actionPlannedEvent command scope) start) (\<lambda>r.
                      case r of
                        Inl e \<Rightarrow>
                          (if isVersionConflict e
                           then bindA (GetRun C runID) (\<lambda>current.
                                  returnA \<lparr>rc_Command = noopCommand, rc_Events = [], rc_State = current\<rparr>)
                           else failA e)
                      | Inr a \<Rightarrow>
                          bindA (inject C FaultAfterActionPlanned command) (\<lambda>_.
                          bindA (GetRun C runID) (\<lambda>plannedState.
                            executeManagedAction C L execute presented app plannedState command a)))))))
      | _ \<Rightarrow> failA ErrInvalidRequest)"

section \<open>Executors\<close>

definition receiptForOutput :: "env \<Rightarrow> ActionRequest \<Rightarrow> EventData \<Rightarrow> int \<Rightarrow> string \<Rightarrow> ActionReceipt" where
  "receiptForOutput E request output cost artifactID = \<lparr>
     rt_ID = '''', rt_RunID = run_ID (st_Run (ax_State request)), rt_ActionID = cmd_ActionID (ax_Command request),
     rt_ActionType = cmd_Type (ax_Command request), rt_IdempotencyScope = ax_Scope request,
     rt_Output = output, rt_OutputDigest = DigestEventData E output, rt_ArtifactID = artifactID,
     rt_ArtifactDigest = '''', rt_CostUnits = cost, rt_WorkerID = '''', rt_FencingToken = 0, rt_CreatedAt = 0\<rparr>"

definition ExecuteDeterministicAction :: "env \<Rightarrow> ActionRequest \<Rightarrow> CtlError + ActionReceipt" where
\<open>ExecuteDeterministicAction E request =
  (let answer = (\<lambda>output cost. Inr (receiptForOutput E request output cost '''')) in
   case cmd_Type (ax_Command request) of
     CommandStartAttempt \<Rightarrow>
       answer (EventData_zero\<lparr>ed_AttemptID := cmd_AttemptID (ax_Command request), ed_Reason := ''initial''\<rparr>) 0
   | CommandProvisionWorkspace \<Rightarrow> answer EventData_zero 0
   | CommandRunReasoner \<Rightarrow>
       answer (EventData_zero\<lparr>ed_Output := ''phase-3 deterministic reasoning'', ed_ToolName := Phase1PatchTool,
                 ed_ToolArguments := ''{"patch":"phase-3"}''\<rparr>) 1
   | CommandApplyPatch \<Rightarrow> answer EventData_zero 0
   | CommandVerify \<Rightarrow> answer EventData_zero 0
   | CommandSucceedRun \<Rightarrow> answer EventData_zero 0
   | CommandFailRun \<Rightarrow> answer (EventData_zero\<lparr>ed_Reason := st_FailureReason (ax_State request)\<rparr>) 0
   | CommandCancelRun \<Rightarrow> answer EventData_zero 0
   | _ \<Rightarrow> Inl (CtlExecutor ''unsupported managed action''))\<close>

text \<open>\<open>reasonerActionExecutor\<close>: only the reasoning command consults the Reasoner.\<close>

definition reasonerExecute :: "env \<Rightarrow> (Request \<Rightarrow> 'w \<Rightarrow> (ReasonerError + Result) \<times> 'w)
    \<Rightarrow> ActionRequest \<Rightarrow> ('w, ActionReceipt) action" where
  "reasonerExecute E consult request =
     (if cmd_Type (ax_Command request) \<noteq> CommandRunReasoner
      then (case ExecuteDeterministicAction E request of Inl e \<Rightarrow> failA e | Inr r \<Rightarrow> returnA r)
      else bindA (liftA CtlReasoner (consult (phase1Request (run_ScenarioID (st_Run (ax_State request)))))) (\<lambda>result.
        case (ValidatePhase1Result result, res_ToolCall result) of
          (Inr _, Some call) \<Rightarrow>
            returnA (receiptForOutput E request
              (EventData_zero\<lparr>ed_Output := res_Output result, ed_ToolName := tc_Name call,
                 ed_ToolArguments := tc_Arguments call\<rparr>) 1 '''')
        | (Inr _, None) \<Rightarrow> failA (CtlReasoner NilDereference)
        | (Inl e, _) \<Rightarrow> failA (CtlReasoner e)))"

definition artifactContent :: "string \<Rightarrow> string \<Rightarrow> string" where
  "artifactContent runID actionID =
     ''phase-3 receipt artifact'' @ [CHR 0x0A] @ ''run_id='' @ runID @ [CHR 0x0A]
     @ ''action_id='' @ actionID @ [CHR 0x0A]"

definition artifactInput :: "ActionRequest \<Rightarrow> ArtifactInput" where
  "artifactInput request = \<lparr>
     ai_ID = ExpectedActionArtifactID (cmd_ActionID (ax_Command request)),
     ai_RunID = run_ID (st_Run (ax_State request)), ai_AttemptID = st_AttemptID (ax_State request),
     ai_Type = Phase3ReceiptArtifactType,
     ai_Content = Some (artifactContent (run_ID (st_Run (ax_State request))) (cmd_ActionID (ax_Command request)))\<rparr>"

text \<open>\<open>artifactActionExecutor\<close>; \<open>artifacts\<close> is the \<open>Write\<close> of its Artifact store, if it has one.\<close>

definition artifactExecute :: "(ActionRequest \<Rightarrow> ('w, ActionReceipt) action)
    \<Rightarrow> (ArtifactInput \<Rightarrow> 'w \<Rightarrow> (StoreError + ArtifactRecord) \<times> 'w) option
    \<Rightarrow> ActionRequest \<Rightarrow> ('w, ActionReceipt) action" where
  "artifactExecute base artifacts request =
     bindA (base request) (\<lambda>receipt.
       if cmd_Type (ax_Command request) \<noteq> CommandApplyPatch then returnA receipt
       else case artifacts of
         None \<Rightarrow> failA (CtlExecutor ''PostgreSQL Artifact store is required'')
       | Some write \<Rightarrow>
           bindA (liftA CtlStore (write (artifactInput request))) (\<lambda>record.
             returnA (receipt\<lparr>rt_ArtifactID := ar_ID record, rt_ArtifactDigest := ar_Digest record\<rparr>)))"

text \<open>\<open>NewManaged\<close>: the defaults of the options.\<close>

definition NewManaged :: "'w Controller \<Rightarrow> 'w LeaseOps \<Rightarrow> (Command \<Rightarrow> IdempotencyScope) option
    \<Rightarrow> 'w ManagedOptions \<Rightarrow> 'w Controller" where
  "NewManaged C L safety options = C\<lparr>
     c_lease := Some L,
     c_options := options\<lparr>
       mo_Executor := (case mo_Executor options of
           None \<Rightarrow> Some (reasonerExecute (c_env C) (c_consult C)) | Some x \<Rightarrow> Some x),
       mo_Safety := (case safety of None \<Rightarrow> (\<lambda>_. IdempotencyScoped) | Some f \<Rightarrow> f)\<rparr>\<rparr>"

end
