(* ===== verification/Domain_Progress.thy ===== *)
theory Domain_Progress
  imports Domain_Properties
begin

text \<open>
  Progress of a Run. \<open>stage\<close> measures how far a State is in its life, failure and cancellation
  included; no accepted event lowers it, and the result of the command \<open>Decide\<close> chooses raises it.
  The termination of the loops that drive a Run rests on this measure.
\<close>

fun status_stage :: "Status \<Rightarrow> nat" where
  "status_stage StatusProvisioning = 1"
| "status_stage StatusReasoning = 2"
| "status_stage StatusActing = 3"
| "status_stage StatusVerifying = 4"
| "status_stage StatusWaitingApproval = 6"
| "status_stage StatusRepairing = 6"
| "status_stage StatusSucceeded = 7"
| "status_stage StatusFailed = 7"
| "status_stage StatusCancelled = 7"
| "status_stage _ = 0"

definition stopping :: "State \<Rightarrow> bool" where
  "stopping st \<longleftrightarrow> st_FailureReason st \<noteq> '''' \<or> desired st = DesiredCancelled"

definition stage :: "State \<Rightarrow> nat" where
  "stage st = max (status_stage (logicalState st))
     (max (if Terminal (observed st) then 8 else 0)
       (max (if stopping st then 6 else 0) (if st_VerificationPassed st then 5 else 0)))"

fun reached :: "EventType \<Rightarrow> nat" where
  "reached EventAttemptStarted = 1"
| "reached EventWorkspaceProvisioned = 2"
| "reached EventReasoningCompleted = 3"
| "reached EventPatchProduced = 4"
| "reached EventVerificationPassed = 5"
| "reached EventToolCallFailed = 6"
| "reached EventRunSucceeded = 8"
| "reached EventRunFailed = 8"
| "reached EventRunCancelled = 8"
| "reached _ = 0"

lemma reached_bound: "reached t \<le> 8"
  by (cases t) simp_all

lemma stage_bound: "stage st \<le> 8"
  by (cases "logicalState st") (simp_all add: stage_def)

definition advances :: "State \<Rightarrow> State \<Rightarrow> bool" where
  "advances st st' \<longleftrightarrow> status_stage (logicalState st) \<le> status_stage (logicalState st')
     \<and> (stopping st \<longrightarrow> stopping st') \<and> (st_VerificationPassed st \<longrightarrow> st_VerificationPassed st')"

lemma advances_stage: "advances st st' \<Longrightarrow> \<not> Terminal (observed st) \<Longrightarrow> stage st \<le> stage st'"
  by (auto simp: advances_def stage_def)

lemma advances_refl [simp]: "advances st st"
  by (simp add: advances_def)

lemma stopping_simps [simp]:
  "stopping (st\<lparr>st_PendingActionID := a\<rparr>) = stopping st"
  "stopping (st\<lparr>st_PendingActionType := t\<rparr>) = stopping st"
  "stopping (st\<lparr>st_PendingAttemptID := a\<rparr>) = stopping st"
  "stopping (st\<lparr>st_PendingActionScope := s\<rparr>) = stopping st"
  "stopping (st\<lparr>st_LastCompletedActionID := a\<rparr>) = stopping st"
  "stopping (st\<lparr>st_LastReceiptID := a\<rparr>) = stopping st"
  "stopping (st\<lparr>st_ResumeState := r\<rparr>) = stopping st"
  "stopping (st\<lparr>st_PatchProduced := b\<rparr>) = stopping st"
  "stopping (st\<lparr>st_VerificationPassed := b\<rparr>) = stopping st"
  "stopping (clearPending st) = stopping st"
  "stopping (stampEvent st ev) = stopping st"
  by (simp_all add: stopping_def clearPending_def stampEvent_def)

lemma stage_stamp [simp]: "stage (stampEvent st ev) = stage st"
  by (simp add: stage_def)

section \<open>Handlers never go back\<close>

lemma DesiredState_advances:
  "applyDesiredState st d = Inr st' \<Longrightarrow> logicalState st \<noteq> StatusPaused \<Longrightarrow> advances st st'"
  using applyDesiredState_logical [of st d st'] applyDesiredState_fields [of st d st']
  by (cases d) (auto simp: advances_def stopping_def applyDesiredState_def bindE_Inr_iff transition_iff split: if_splits)

lemma AttemptStarted_advances: "applyAttemptStarted st ev = Inr st' \<Longrightarrow> advances st st' \<and> 1 \<le> status_stage (logicalState st')"
  by (auto simp: applyAttemptStarted_def result_simps advances_def stopping_def logicalState_def)

lemma WorkspaceProvisioned_advances:
  "applyWorkspaceProvisioned st ev = Inr st' \<Longrightarrow> advances st st' \<and> 2 \<le> status_stage (logicalState st')"
  by (auto simp: applyWorkspaceProvisioned_def result_simps advances_def stopping_def logicalState_def)

lemma ReasoningCompleted_advances:
  "applyReasoningCompleted st ev = Inr st' \<Longrightarrow> advances st st' \<and> 3 \<le> status_stage (logicalState st')"
  by (auto simp: applyReasoningCompleted_def result_simps advances_def stopping_def)

lemma PatchProduced_advances:
  "applyPatchProduced st ev = Inr st' \<Longrightarrow> advances st st' \<and> 4 \<le> status_stage (logicalState st')"
  by (auto simp: applyPatchProduced_def result_simps advances_def stopping_def logicalState_def)

lemma VerificationPassed_advances:
  "applyVerificationPassed st ev = Inr st' \<Longrightarrow> advances st st' \<and> st_VerificationPassed st'"
  by (auto simp: applyVerificationPassed_def result_simps advances_def stopping_def)

lemma RunSucceeded_advances:
  "applyRunSucceeded st ev = Inr st' \<Longrightarrow> advances st st' \<and> Terminal (observed st')"
  by (auto simp: applyRunSucceeded_def result_simps advances_def stopping_def logicalState_def split: if_splits)

lemma status_stage_bound: "status_stage s \<le> 7"
  by (cases s) simp_all

lemma stopped_advances:
  "observed st' \<in> {StatusFailed, StatusCancelled} \<Longrightarrow> (stopping st \<longrightarrow> stopping st') \<Longrightarrow>
   st_VerificationPassed st' = st_VerificationPassed st \<Longrightarrow> advances st st' \<and> Terminal (observed st')"
  using status_stage_bound by (auto simp: advances_def logicalState_def)

lemma RunFailed_advances: "applyRunFailed st ev = Inr st' \<Longrightarrow> advances st st' \<and> Terminal (observed st')"
  by (rule stopped_advances)
     (auto simp: applyRunFailed_def Let_def transition_iff stopping_def split: if_splits)

lemma RunCancelled_advances: "applyRunCancelled st ev = Inr st' \<Longrightarrow> advances st st' \<and> Terminal (observed st')"
  by (rule stopped_advances)
     (auto simp: applyRunCancelled_def transition_iff stopping_def split: if_splits)

lemma ToolCallFailed_advances: "applyToolCallFailed st ev = Inr st' \<Longrightarrow> advances st st' \<and> stopping st'"
  by (auto simp: applyToolCallFailed_def result_simps advances_def stopping_def split: if_splits)

lemma result_advances:
  assumes "applyCompletedActionResult st d = Inr st'"
  shows "advances st st'"
proof (cases "ed_ActionType d")
  case CommandFailRun
  with assms show ?thesis using status_stage_bound
    by (auto simp: applyCompletedActionResult_def result_simps advances_def stopping_def split: if_splits)
next
  case CommandCancelRun
  with assms show ?thesis using status_stage_bound
    by (auto simp: applyCompletedActionResult_def result_simps advances_def stopping_def split: if_splits)
qed (use assms in \<open>auto simp: applyCompletedActionResult_def result_simps advances_def stopping_def split: if_splits\<close>)

lemma ActionPlanned_advances: "applyActionPlanned h st ev = Inr st' \<Longrightarrow> advances st st'"
  by (auto simp: applyActionPlanned_def Let_def advances_def split: if_splits)

lemma ActionCompleted_advances: "applyActionCompleted st ev = Inr st' \<Longrightarrow> advances st st'"
  using result_advances [of st "ev_Data ev"]
  by (auto simp: applyActionCompleted_def Let_def bindE_Inr_iff advances_def split: if_splits)

lemma ActionFailed_advances:
  assumes "applyActionFailed st ev = Inr st'"
  shows "advances st st'"
proof -
  let ?st = "(clearPending st)\<lparr>st_FailureReason := ed_Reason (ev_Data ev)\<rparr>"
  from assms have "ed_Reason (ev_Data ev) \<noteq> ''''"
    and "st' = ?st \<or> st' = moveTo StatusWaitingApproval ?st \<and> StatusWaitingApproval \<in> set (allowedTargets (logicalState st))"
    by (auto simp: applyActionFailed_def Let_def bindE_Inr_iff advanceManagedState_iff split: if_splits)
  moreover have "status_stage (logicalState st) \<le> 6" if "StatusWaitingApproval \<in> set (allowedTargets (logicalState st))"
    using that by (cases "logicalState st") simp_all
  ultimately show ?thesis by (auto simp: advances_def stopping_def)
qed

lemma silent_advances:
  "applyDesiredStateChanged st ev = Inr st' \<Longrightarrow> phase_ok (logicalState st) st \<Longrightarrow> advances st st'"
  "applyLeaseEvent st ev = Inr st' \<Longrightarrow> advances st st'"
  "applyReasoningPlanned st ev = Inr st' \<Longrightarrow> advances st st'"
  "applyVerificationPlanned st ev = Inr st' \<Longrightarrow> advances st st'"
  by (auto simp: applyDesiredStateChanged_def applyLeaseEvent_def applyReasoningPlanned_def advances_def
     applyVerificationPlanned_def bindE_Inr_iff split: if_splits dest: phase_ok_live DesiredState_advances)

lemma stage_status: "status_stage (logicalState st) \<le> stage st"
  by (simp add: stage_def)

text \<open>What a handler achieves: it never goes back, and it reaches the stage of its event.\<close>

definition achieves :: "State \<Rightarrow> State \<Rightarrow> EventType \<Rightarrow> bool" where
  "achieves st st' t \<longleftrightarrow> advances st st' \<and> (Terminal (observed st') \<or> reached t \<le> stage st')"

lemma handler_achieves:
  "applyAttemptStarted st ev = Inr st' \<Longrightarrow> achieves st st' EventAttemptStarted"
  "applyWorkspaceProvisioned st ev = Inr st' \<Longrightarrow> achieves st st' EventWorkspaceProvisioned"
  "applyReasoningCompleted st ev = Inr st' \<Longrightarrow> achieves st st' EventReasoningCompleted"
  "applyPatchProduced st ev = Inr st' \<Longrightarrow> achieves st st' EventPatchProduced"
  "applyVerificationPassed st ev = Inr st' \<Longrightarrow> achieves st st' EventVerificationPassed"
  "applyRunSucceeded st ev = Inr st' \<Longrightarrow> achieves st st' EventRunSucceeded"
  "applyRunFailed st ev = Inr st' \<Longrightarrow> achieves st st' EventRunFailed"
  "applyRunCancelled st ev = Inr st' \<Longrightarrow> achieves st st' EventRunCancelled"
  "applyToolCallFailed st ev = Inr st' \<Longrightarrow> achieves st st' EventToolCallFailed"
  using AttemptStarted_advances WorkspaceProvisioned_advances ReasoningCompleted_advances PatchProduced_advances
    VerificationPassed_advances RunSucceeded_advances RunFailed_advances RunCancelled_advances ToolCallFailed_advances
  by (fastforce simp: achieves_def stage_def)+

lemma silent_achieves:
  "applyDesiredStateChanged st ev = Inr st' \<Longrightarrow> phase_ok (logicalState st) st \<Longrightarrow> achieves st st' EventDesiredStateChanged"
  "applyLeaseEvent st ev = Inr st' \<Longrightarrow> reached t = 0 \<Longrightarrow> achieves st st' t"
  "applyReasoningPlanned st ev = Inr st' \<Longrightarrow> achieves st st' EventReasoningPlanned"
  "applyVerificationPlanned st ev = Inr st' \<Longrightarrow> achieves st st' EventVerificationPlanned"
  "applyActionPlanned h st ev = Inr st' \<Longrightarrow> achieves st st' EventActionPlanned"
  "applyActionCompleted st ev = Inr st' \<Longrightarrow> achieves st st' EventActionCompleted"
  "applyActionFailed st ev = Inr st' \<Longrightarrow> achieves st st' EventActionFailed"
  using silent_advances ActionPlanned_advances ActionCompleted_advances ActionFailed_advances
  by (simp_all add: achieves_def)

lemma terminal_stage: "Terminal (observed st) \<Longrightarrow> 8 \<le> stage st"
  by (simp add: stage_def)

lemma applyEvent_stage:
  assumes "applyEvent h st ev = Inr st'" "state_inv st" "\<not> Terminal (observed st)"
  shows "stage st \<le> stage st' \<and> reached (ev_Type ev) \<le> stage st'"
proof -
  from assms have P: "phase_ok (logicalState st) st" and "st_Exists st"
    by (simp_all add: state_inv_def intent_ok_def)
  then have "applyRunCreated st ev \<noteq> Inr st'" by (simp add: applyRunCreated_def)
  with assms(1) P have "achieves st st' (ev_Type ev)"
    by (cases "ev_Type ev"; simp add: applyEvent_def split: if_split_asm; simp add: handler_achieves silent_achieves)
  with advances_stage [OF _ assms(3)] reached_bound [of "ev_Type ev"] terminal_stage [of st'] show ?thesis
    unfolding achieves_def by (meson le_trans)
qed

section \<open>Logs\<close>

lemma accepts_stage:
  "accepts h es st \<Longrightarrow> ev \<in> set es \<Longrightarrow> reached (ev_Type ev) \<le> stage st"
proof (induction rule: accepts.induct)
  case (accepts_snoc es st e st')
  show ?case
  proof (cases "es = []")
    case True
    with accepts_snoc applyEvent_initial [of st h e st'] accepts_nonempty [OF accepts_snoc.hyps(1)]
    show ?thesis by simp
  next
    case False
    then have ex: "st_Exists st" using accepts_snoc accepts_exists by blast
    with accepts_snoc accepts_inv have "state_inv st" by blast
    moreover have "\<not> Terminal (observed st)" using accepts_snoc.hyps(2) ex by (simp add: envelope_ok_def)
    ultimately show ?thesis using applyEvent_stage [OF accepts_snoc.hyps(3)] accepts_snoc by auto
  qed
qed simp

lemma accepts_stage_mono:
  assumes "accepts h es st" "es \<noteq> []" "accepts h (es @ fs) st'"
  shows "stage st \<le> stage st'"
  by (rule accepts_stable [OF _ assms(1,2) _ assms(3), where P = "\<lambda>s. stage st \<le> stage s" and Q = "\<lambda>_. True"])
     (auto dest: applyEvent_stage)

section \<open>The command that is due makes progress\<close>

text \<open>The result events a command can end with on the path without leases.\<close>

fun resultEvents :: "CommandType \<Rightarrow> EventType set" where
  "resultEvents CommandStartAttempt = {EventAttemptStarted}"
| "resultEvents CommandProvisionWorkspace = {EventWorkspaceProvisioned}"
| "resultEvents CommandRunReasoner = {EventReasoningCompleted, EventToolCallFailed}"
| "resultEvents CommandApplyPatch = {EventPatchProduced}"
| "resultEvents CommandVerify = {EventVerificationPassed}"
| "resultEvents CommandSucceedRun = {EventRunSucceeded}"
| "resultEvents CommandFailRun = {EventRunFailed}"
| "resultEvents CommandCancelRun = {EventRunCancelled}"
| "resultEvents _ = {}"

lemma Decide_not_stopping:
  "cmd_Type (Decide h st) \<notin> {CommandNoop, CommandCancelRun, CommandFailRun} \<Longrightarrow> \<not> stopping st"
  by (auto simp: Decide_def stopping_def split: Status.splits if_splits)

lemma Decide_not_paused:
  assumes "cmd_Type (Decide h st) \<notin> {CommandNoop, CommandCancelRun}"
  shows "logicalState st = observed st"
  using assms by (auto simp: Decide_def logicalState_def split: Status.splits if_splits)

lemma stage_due:
  assumes "status_stage (observed st) \<le> n" "\<not> stopping st" "st_VerificationPassed st \<longrightarrow> 5 \<le> n"
    and "\<not> Terminal (observed st)" "logicalState st = observed st"
  shows "stage st \<le> n"
  using assms by (simp add: stage_def)

lemma Decide_stage:
  assumes "state_inv st" "t \<in> resultEvents (cmd_Type (Decide h st))"
  shows "stage st < reached t"
proof -
  have P: "phase_ok (logicalState st) st" using assms(1) by (simp add: state_inv_def)
  have live: "\<not> Terminal (observed st)" using assms(2) by (auto simp: Decide_def split: if_splits)
  show ?thesis
  proof (cases "cmd_Type (Decide h st) \<in> {CommandCancelRun, CommandFailRun}")
    case True
    have "stage st \<le> 7" using live status_stage_bound [of "logicalState st"] by (simp add: stage_def)
    with True assms(2) show ?thesis by auto
  next
    case False
    then have s: "\<not> stopping st" and l: "logicalState st = observed st"
      using Decide_not_stopping [of h st] Decide_not_paused [of h st] assms(2) by (cases "cmd_Type (Decide h st)"; simp)+
    note due = stage_due [OF _ s _ live l] and req = Decide_command_requires [of h st]
    show ?thesis
      using assms(2) False P l due [of 0] due [of 1] due [of 2] due [of 3] due [of 4] due [of 5] req
      by (cases "cmd_Type (Decide h st)") (auto simp: attempt_ok_def)
  qed
qed

end
