(* ===== verification/Controller_Contract.thy ===== *)
theory Controller_Contract
  imports Managed Domain_Progress
begin

text \<open>
  What the controller relies on and what it gives, for any world. The locale \<open>run_store\<close> is the
  event store as the controller sees it, other clients included: the log of a Run only grows, a
  rebuilt State is the reduction of the log, an acknowledged event is in the log. \<open>controller\<close> adds
  the Reasoner and the context. The client lemmas are proved once here; the in-memory and the
  PostgreSQL worlds interpret the locales.
\<close>

named_theorems safe_intros \<open>rules for actions that keep the world sound\<close>

section \<open>Facts about logs\<close>

lemma accepts_split:
  assumes "accepts h (xs @ ev # ys) st"
  shows "\<exists>st0 st1. accepts h xs st0 \<and> envelope_ok xs st0 ev \<and> applyEvent h st0 ev = Inr st1
    \<and> accepts h (xs @ [ev]) (stampEvent st1 ev)"
  using accepts_prefix [of h "xs @ [ev]" ys st] assms by (auto simp: accepts_snoc_iff)

text \<open>Only the first event of a log creates the Run.\<close>

lemma run_created_first:
  assumes "accepts h es st" "ev \<in> set es" "ev_Type ev = EventRunCreated"
  shows "\<exists>rest. es = ev # rest"
proof -
  obtain xs ys where es: "es = xs @ ev # ys" using assms(2) split_list by fast
  obtain st0 st1 where a: "accepts h xs st0" "applyEvent h st0 ev = Inr st1"
    using accepts_split assms(1) unfolding es by blast
  with assms(3) have "\<not> st_Exists st0" by (auto simp: applyEvent_def applyRunCreated_def split: if_splits)
  with accepts_exists [OF a(1)] es show ?thesis by simp
qed

lemma applyDesiredState_desired:
  "applyDesiredState st d = Inr st' \<Longrightarrow> desired st' = d \<and> (d = DesiredCancelled \<longrightarrow> \<not> Terminal (observed st'))"
  by (cases d) (auto simp: applyDesiredState_def bindE_Inr_iff split: if_splits)

text \<open>An accepted change of intent shows in the State of the prefix it ends.\<close>

lemma desired_event_effect:
  assumes "accepts h es st" "ev \<in> set es" "ev_Type ev = EventDesiredStateChanged"
  shows "\<exists>p st0. prefix p es \<and> accepts h p st0 \<and> desired st0 = ed_DesiredState (ev_Data ev)
    \<and> (desired st0 = DesiredCancelled \<longrightarrow> \<not> Terminal (observed st0))"
proof -
  obtain xs ys where es: "es = xs @ ev # ys" using assms(2) split_list by fast
  obtain st0 st1 where a: "applyEvent h st0 ev = Inr st1" "accepts h (xs @ [ev]) (stampEvent st1 ev)"
    using accepts_split assms(1) unfolding es by blast
  with assms(3) have "desired st1 = ed_DesiredState (ev_Data ev) \<and> (desired st1 = DesiredCancelled \<longrightarrow> \<not> Terminal (observed st1))"
    by (auto simp: applyEvent_def applyDesiredStateChanged_def dest: applyDesiredState_desired split: if_splits)
  with a(2) es show ?thesis
    by (intro exI [of _ "xs @ [ev]"] exI [of _ "stampEvent st1 ev"]) (simp add: stampEvent_def)
qed

text \<open>A log that once records the intent to cancel keeps it and never succeeds afterwards.\<close>

lemma cancelled_prefix:
  assumes "accepts h p st0" "desired st0 = DesiredCancelled" "prefix p es" "accepts h es st"
  shows "desired st = DesiredCancelled \<and> (observed st = observed st0 \<or> observed st = StatusCancelled)"
proof -
  let ?P = "\<lambda>s. desired s = DesiredCancelled \<and> (observed s = observed st0 \<or> observed s = StatusCancelled)"
  obtain fs where es: "es = p @ fs" using assms(3) by (auto simp: prefix_def)
  have ne: "p \<noteq> []"
    using assms(1,2) accepts_nonempty [of h p st0] by (auto simp: InitialState_def Run_zero_def)
  show ?thesis
  proof (rule accepts_stable [where P = ?P and Q = "\<lambda>_. True" and h = h and es = p and st = st0 and fs = fs])
    show "?P (stampEvent s' ev)" if "?P s" "st_Exists s" "applyEvent h s ev = Inr s'" for s ev s'
      using applyEvent_cancelled [OF that(3,2)] that(1) by (auto simp: stampEvent_def)
  qed (use assms ne es in simp_all)
qed

section \<open>Actions that respect a relation on worlds\<close>

text \<open>
  An action is safe for a reflexive and transitive relation when the world it leaves is related to
  the world it found, whatever it returns. The rules go through the control structure, so that the
  safety of a whole operation follows from that of the calls it makes.
\<close>

locale world_relation =
  fixes ok :: "'w \<Rightarrow> bool"
    and R :: "'w \<Rightarrow> 'w \<Rightarrow> bool"
  assumes R_refl: "ok w \<Longrightarrow> R w w"
    and R_trans: "R w w' \<Longrightarrow> R w' w'' \<Longrightarrow> R w w''"
    and R_ok: "R w w' \<Longrightarrow> ok w'"
begin

definition safe :: "('w, 'a) action \<Rightarrow> bool" where
  "safe m \<longleftrightarrow> (\<forall>w r w'. ok w \<longrightarrow> m w = (r, w') \<longrightarrow> R w w')"

lemma safeD: "safe m \<Longrightarrow> ok w \<Longrightarrow> m w = (r, w') \<Longrightarrow> R w w'"
  by (simp add: safe_def)

lemma safe_returnA [safe_intros]: "safe (returnA x)"
  by (simp add: safe_def R_refl)

lemma safe_failA [safe_intros]: "safe (failA e)"
  by (simp add: safe_def R_refl)

lemma safe_bindA [safe_intros]:
  assumes "safe m" "\<And>x. safe (f x)"
  shows "safe (bindA m f)"
  unfolding safe_def
proof (intro allI impI)
  fix w r w' assume ok: "ok w" and b: "bindA m f w = (r, w')"
  obtain q w1 where m: "m w = (q, w1)" by (cases "m w")
  have g: "R w w1" using safeD [OF assms(1) ok m] .
  show "R w w'"
  proof (cases q)
    case (Inr x)
    with b m have "f x w1 = (r, w')" by (simp add: bindA_def)
    then show ?thesis using R_trans [OF g safeD [OF assms(2) R_ok [OF g]]] by blast
  qed (use b m g in \<open>simp add: bindA_def\<close>)
qed

lemma safe_bindR [safe_intros]:
  assumes "safe m" "\<And>x. safe (f x)"
  shows "safe (bindR m f)"
  unfolding safe_def bindR_simp
  by (metis assms R_ok R_trans prod.collapse safeD)

lemma safe_if [safe_intros]: "safe m \<Longrightarrow> safe n \<Longrightarrow> safe (if b then m else n)"
  by simp

lemma safe_sum [safe_intros]:
  "(\<And>e. safe (f e)) \<Longrightarrow> (\<And>x. safe (g x)) \<Longrightarrow> safe (case r of Inl e \<Rightarrow> f e | Inr x \<Rightarrow> g x)"
  by (cases r) simp_all

lemma safe_option [safe_intros]:
  "safe f \<Longrightarrow> (\<And>x. safe (g x)) \<Longrightarrow> safe (case r of None \<Rightarrow> f | Some x \<Rightarrow> g x)"
  by (cases r) simp_all

lemma safe_prod [safe_intros]: "(\<And>a b. safe (f a b)) \<Longrightarrow> safe (case p of (a, b) \<Rightarrow> f a b)"
  by (cases p) simp

lemma safe_Let [safe_intros]: "(\<And>x. safe (f x)) \<Longrightarrow> safe (let x = t in f x)"
  by simp

lemma safe_liftA: "(\<And>w r w'. ok w \<Longrightarrow> m w = (r, w') \<Longrightarrow> R w w') \<Longrightarrow> safe (liftA g m)"
  by (auto simp: safe_def liftA_def split: prod.splits)

end

section \<open>The store as the controller sees it\<close>

locale run_store =
  fixes S :: "'w EventStoreOps"
    and h :: hash
    and log :: "'w \<Rightarrow> string \<Rightarrow> Event list"
    and ok :: "'w \<Rightarrow> bool"
  assumes ok_log: "ok w \<Longrightarrow> \<exists>st. Reduce h (log w run) = Inr st"
    and load: "ok w \<Longrightarrow> es_Load S run w = (rl, w') \<Longrightarrow>
      ok w' \<and> (\<forall>q. prefix (log w q) (log w' q)) \<and> (\<forall>es. rl = Inr es \<longrightarrow> es = log w' run)"
    and rebuild: "ok w \<Longrightarrow> es_Rebuild S run w = (rb, w') \<Longrightarrow>
      ok w' \<and> (\<forall>q. prefix (log w q) (log w' q)) \<and> (\<forall>st. rb = Inr st \<longrightarrow> Reduce h (log w' run) = Inr st)"
    and append: "ok w \<Longrightarrow> es_Append S v e w = (ra, w') \<Longrightarrow>
      ok w' \<and> (\<forall>q. prefix (log w q) (log w' q))
      \<and> (\<forall>res. ra = Inr res \<longrightarrow> ar_Event res \<in> set (log w' (ev_RunID e)) \<and> sameIdempotentEvent (ar_Event res) e)"
    and inspect: "es_IsManagedRun S = Some f \<Longrightarrow> ok w \<Longrightarrow> f run w = (ri, w') \<Longrightarrow>
      ok w' \<and> (\<forall>q. prefix (log w q) (log w' q))"
begin

definition grows :: "'w \<Rightarrow> 'w \<Rightarrow> bool" where
  "grows w w' \<longleftrightarrow> ok w' \<and> (\<forall>run. prefix (log w run) (log w' run))"

lemma growsI: "ok w' \<and> (\<forall>q. prefix (log w q) (log w' q)) \<Longrightarrow> grows w w'"
  by (simp add: grows_def)

lemma growsI': "ok w' \<and> (\<forall>q. prefix (log w q) (log w' q)) \<and> P \<Longrightarrow> grows w w'"
  by (simp add: grows_def)

lemma grows_refl: "ok w \<Longrightarrow> grows w w"
  by (simp add: grows_def)

lemma grows_trans: "grows w w' \<Longrightarrow> grows w' w'' \<Longrightarrow> grows w w''"
  unfolding grows_def by (meson prefix_order.trans)

lemma grows_ok: "grows w w' \<Longrightarrow> ok w'"
  by (simp add: grows_def)

lemma grows_event: "grows w w' \<Longrightarrow> ev \<in> set (log w run) \<Longrightarrow> ev \<in> set (log w' run)"
  unfolding grows_def by (meson set_mono_prefix subsetD)

end

sublocale run_store \<subseteq> world_relation ok grows
  by unfold_locales (fact grows_refl, fact grows_trans, fact grows_ok)

section \<open>The controller over such a store\<close>

locale controller = run_store "c_store C" "env_hash (c_env C)" log ok
  for C :: "'w Controller" and log :: "'w \<Rightarrow> string \<Rightarrow> Event list" and ok :: "'w \<Rightarrow> bool" +
  assumes consult: "ok w \<Longrightarrow> c_consult C request w = (r, w') \<Longrightarrow> ok w' \<and> (\<forall>q. prefix (log w q) (log w' q))"
    and ctxErr: "ok w \<Longrightarrow> c_ctxErr C w = (c, w') \<Longrightarrow> ok w' \<and> (\<forall>q. prefix (log w q) (log w' q))"
begin

abbreviation h :: hash where "h \<equiv> env_hash (c_env C)"

lemma safe_GetRun [safe_intros]: "safe (GetRun C run)"
  unfolding GetRun_def by (rule safe_liftA) (rule growsI' [OF rebuild])

lemma safe_Events [safe_intros]: "safe (Events C run)"
  unfolding Events_def by (rule safe_liftA) (rule growsI' [OF load])

lemma safe_storeAppend [safe_intros]: "safe (storeAppend C v e)"
  unfolding storeAppend_def by (rule safe_liftA) (rule growsI' [OF append])

lemma safe_consult [safe_intros]: "safe (liftA CtlReasoner (c_consult C rq))"
  by (rule safe_liftA) (rule growsI [OF consult])

lemma safe_ctxErr [safe_intros]: "safe (c_ctxErr C)"
  unfolding safe_def grows_def using ctxErr by blast

lemma safe_inspect [safe_intros]: "safe (inspectManaged C run)"
  unfolding inspectManaged_def
proof (cases "es_IsManagedRun (c_store C)")
  case (Some f)
  have "safe (liftA CtlStore (f run))" by (rule safe_liftA) (rule growsI [OF inspect [OF Some]])
  with Some show "safe (case es_IsManagedRun (c_store C) of None \<Rightarrow> returnA False | Some f \<Rightarrow> liftA CtlStore (f run))" by simp
qed (simp add: safe_returnA)

lemma safe_settleAppend [safe_intros]: "safe (settleAppend C run events res)"
  unfolding settleAppend_def refreshVersion_def by (intro safe_intros)

lemma safe_appendEvent [safe_intros]: "safe (appendEvent C run ev a)"
  unfolding appendEvent_def by (intro safe_intros)

lemma safe_runReasoner [safe_intros]: "safe (runReasoner C run state command a)"
  unfolding runReasoner_def appendControlledReasonerFailure_def by (intro safe_intros)

lemma safe_runVerify [safe_intros]: "safe (runVerify C run state command a)"
  unfolding runVerify_def by (intro safe_intros)

lemma safe_executeCommand [safe_intros]: "safe (executeCommand C run state command a)"
  unfolding executeCommand_def Let_def by (cases "cmd_Type command") (simp_all add: safe_intros)

lemma safe_Reconcile: "safe (Reconcile C run)"
  unfolding Reconcile_def by (intro safe_intros)

lemma safe_CreateRun: "safe (CreateRun C request)"
  unfolding CreateRun_def by (intro safe_intros)

lemma safe_setDesiredLoop: "safe (setDesiredLoop C run d n)"
proof (induction n)
  case (Suc n)
  then show ?case unfolding setDesiredLoop.simps by (intro safe_intros)
qed (simp only: setDesiredLoop.simps safe_failA)

lemma safe_SetDesiredState: "safe (SetDesiredState C run d)"
  unfolding SetDesiredState_def by (intro safe_intros safe_setDesiredLoop)

section \<open>What a successful call means\<close>

lemma GetRun_reduces:
  assumes "ok w" "GetRun C run w = (Inr st, w')"
  shows "grows w w' \<and> accepts h (log w' run) st"
  using assms rebuild [of w run "Inr st" w'] growsI'
  by (auto simp: GetRun_def liftA_iff Reduce_accepts)

lemma storeAppend_in:
  assumes "ok w" "storeAppend C v e w = (Inr res, w')"
  shows "grows w w' \<and> ar_Event res \<in> set (log w' (ev_RunID e)) \<and> sameIdempotentEvent (ar_Event res) e"
  using assms append [of w v e "Inr res" w'] growsI'
  by (auto simp: storeAppend_def liftA_iff)

lemma ok_accepts: "ok w \<Longrightarrow> \<exists>st. accepts h (log w run) st"
  using ok_log by (auto simp: Reduce_accepts)

lemma CreateRun_durable:
  assumes "ok w" "CreateRun C request w = (Inr st, w')"
  shows "grows w w' \<and> accepts h (log w' (cr_RunID request)) st
    \<and> (\<exists>e es. log w' (cr_RunID request) = e # es \<and> sameIdempotentEvent e (runCreatedEvent request))"
proof -
  from assms(2) obtain q w1 where ev: "Events C (cr_RunID request) w = (q, w1)"
    and b: "bindA (storeAppend C 0 (runCreatedEvent request)) (\<lambda>_. GetRun C (cr_RunID request)) w1 = (Inr st, w')"
    by (auto simp: CreateRun_def bindR_def split: if_splits prod.splits sum.splits)
  have g1: "grows w w1" using safeD [OF safe_Events assms(1) ev] .
  from b obtain res w2 where a: "storeAppend C 0 (runCreatedEvent request) w1 = (Inr res, w2)"
    and get: "GetRun C (cr_RunID request) w2 = (Inr st, w')" by (auto simp: bindA_iff)
  note in2 = storeAppend_in [OF grows_ok [OF g1] a]
  then have g2: "grows w1 w2" by blast
  note got = GetRun_reduces [OF grows_ok [OF g2] get]
  have "ar_Event res \<in> set (log w' (cr_RunID request))"
    using got in2 grows_event by (auto simp: runCreatedEvent_def)
  moreover have "ev_Type (ar_Event res) = EventRunCreated"
    using in2 sameIdempotentEvent_fields(2) [of "ar_Event res" "runCreatedEvent request"]
    by (simp add: runCreatedEvent_def)
  ultimately obtain rest where "log w' (cr_RunID request) = ar_Event res # rest"
    using run_created_first got by blast
  with got in2 grows_trans [OF g1 grows_trans [OF g2]] show ?thesis by blast
qed

lemma setDesired_durable:
  assumes "ok w" "setDesiredLoop C run d n w = (Inr st, w')"
  shows "accepts h (log w' run) st \<and> (\<exists>p st0. prefix p (log w' run) \<and> accepts h p st0 \<and> desired st0 = d
    \<and> (d = DesiredCancelled \<longrightarrow> \<not> Terminal (observed st0)))"
  using assms
proof (induction n arbitrary: w)
  case (Suc n)
  obtain u w1 where ctx: "c_ctxErr C w = (Inr u, w1)"
    and rest: "bindA (GetRun C run) (\<lambda>state.
       if Terminal (observed state) then failA (CtlDomain ErrTerminalState)
       else if desired state = d then returnA state
       else bindR (storeAppend C (run_Version (st_Run state)) (desiredEvent run d (run_Version (st_Run state)))) (\<lambda>r.
         case r of
           Inr _ \<Rightarrow> GetRun C run
         | Inl e \<Rightarrow> if isVersionConflict e then setDesiredLoop C run d n else failA e)) w1 = (Inr st, w')"
    using Suc.prems(2) by (auto simp: bindA_iff)
  have ok1: "ok w1" using safeD [OF safe_ctxErr Suc.prems(1) ctx] grows_ok by blast
  from rest obtain state w2 where get: "GetRun C run w1 = (Inr state, w2)" by (auto simp: bindA_iff)
  note got = GetRun_reduces [OF ok1 get]
  then have ok2: "ok w2" using grows_ok by blast
  note body = rest [unfolded bindA_def get prod.case sum.case]
  show ?case
  proof (cases "desired state = d")
    case True
    with body have "w' = w2" "st = state" "\<not> Terminal (observed state)" by (auto split: if_splits)
    with True got show ?thesis by blast
  next
    case False
    let ?e = "desiredEvent run d (run_Version (st_Run state))"
    obtain r w3 where a: "storeAppend C (run_Version (st_Run state)) ?e w2 = (r, w3)" by fastforce
    have g3: "grows w2 w3" using safeD [OF safe_storeAppend ok2 a] .
    show ?thesis
    proof (cases r)
      case (Inl e)
      with body False a have "setDesiredLoop C run d n w3 = (Inr st, w')"
        by (auto simp: bindR_def split: if_splits)
      with Suc.IH grows_ok [OF g3] show ?thesis by blast
    next
      case (Inr res)
      with body False a have "GetRun C run w3 = (Inr st, w')" by (auto simp: bindR_def split: if_splits)
      from GetRun_reduces [OF grows_ok [OF g3] this]
      have acc: "accepts h (log w' run) st" and g: "grows w3 w'" by auto
      have res: "ar_Event res \<in> set (log w3 run)" "sameIdempotentEvent (ar_Event res) ?e"
        using storeAppend_in [OF ok2 a [unfolded Inr]] by (auto simp: desiredEvent_def)
      have "ev_Type (ar_Event res) = EventDesiredStateChanged" "ed_DesiredState (ev_Data (ar_Event res)) = d"
        using sameIdempotentEvent_fields [OF res(2)] by (auto simp: desiredEvent_def)
      then show ?thesis using acc desired_event_effect [OF acc grows_event [OF g res(1)]] by (metis (full_types))
    qed
  qed
qed simp

lemma SetDesiredState_durable:
  assumes "ok w" "SetDesiredState C run d w = (Inr st, w')"
  shows "accepts h (log w' run) st \<and> (\<exists>p st0. prefix p (log w' run) \<and> accepts h p st0 \<and> desired st0 = d
    \<and> (d = DesiredCancelled \<longrightarrow> \<not> Terminal (observed st0)))"
  using assms setDesired_durable by (auto simp: SetDesiredState_def split: if_splits)

lemma cancel_accepted:
  assumes "ok w" "SetDesiredState C run DesiredCancelled w = (Inr st, w')"
  shows "accepts h (log w' run) st \<and> desired st = DesiredCancelled
    \<and> (\<exists>p st0. prefix p (log w' run) \<and> accepts h p st0 \<and> desired st0 = DesiredCancelled \<and> \<not> Terminal (observed st0))"
  using SetDesiredState_durable [OF assms] cancelled_prefix by blast

text \<open>
  The event of the request \<open>ev\<close> is in the log of the Run; the appender reports it unless it was
  there before.
\<close>

definition durable :: "string \<Rightarrow> Event \<Rightarrow> appender \<Rightarrow> appender \<Rightarrow> 'w \<Rightarrow> bool" where
  "durable run ev a a' w \<longleftrightarrow> (\<exists>e \<in> set (log w run). sameIdempotentEvent e ev \<and> (snd a' = snd a \<or> snd a' = snd a @ [e]))"

lemma durable_grows: "durable run ev a a' w \<Longrightarrow> grows w w' \<Longrightarrow> durable run ev a a' w'"
  unfolding durable_def using grows_event by blast

lemma settleAppend_durable:
  assumes "ok w" "settleAppend C run events res w = (Inr a', w')" "ar_Event res \<in> set (log w run)"
    and "sameIdempotentEvent (ar_Event res) ev"
  shows "grows w w' \<and> durable run ev (v, events) a' w'"
proof -
  have g: "grows w w'" using safeD [OF safe_settleAppend assms(1,2)] .
  with assms show ?thesis using grows_event [OF g assms(3)]
    by (auto simp: durable_def settleAppend_def refreshVersion_def bindA_iff split: if_splits)
qed

lemma appendEvent_durable:
  assumes "ok w" "appendEvent C run ev0 a w = (Inr a', w')"
  shows "grows w w' \<and> durable run (ev0\<lparr>ev_RunID := run, ev_CorrelationID := run\<rparr>) a a' w'"
proof -
  let ?e = "ev0\<lparr>ev_RunID := run, ev_CorrelationID := run\<rparr>"
  obtain v events where a: "a = (v, events)" by (cases a)
  have settled: "grows w w' \<and> durable run ?e a a' w'"
    if "ok w1" "grows w w1" "storeAppend C v' ?e w1 = (Inr res, w2)" "settleAppend C run events res w2 = (Inr a', w')"
    for v' w1 w2 res
  proof -
    note in2 = storeAppend_in [OF that(1,3)]
    have g12: "grows w1 w2" and e: "ar_Event res \<in> set (log w2 run)" "sameIdempotentEvent (ar_Event res) ?e"
      using in2 by auto
    from settleAppend_durable [OF grows_ok [OF g12] that(4) e, of v] show ?thesis
      using grows_trans [OF that(2) grows_trans [OF g12]] by (simp add: a)
  qed
  obtain r w1 where first: "storeAppend C v ?e w = (r, w1)" by fastforce
  have g1: "grows w w1" using safeD [OF safe_storeAppend assms(1) first] .
  show ?thesis
  proof (cases r)
    case (Inr res)
    with assms(2) first have "settleAppend C run events res w1 = (Inr a', w')"
      by (simp add: appendEvent_def a Let_def bindR_def)
    with settled [OF assms(1) grows_refl [OF assms(1)] first [unfolded Inr]] show ?thesis .
  next
    case (Inl e)
    with assms(2) first obtain st w2 res w3 where "GetRun C run w1 = (Inr st, w2)"
      and second: "storeAppend C (run_Version (st_Run st)) ?e w2 = (Inr res, w3)"
      and settle: "settleAppend C run events res w3 = (Inr a', w')"
      by (auto simp: appendEvent_def a Let_def bindR_def bindA_iff split: if_splits)
    then have g2: "grows w1 w2" using GetRun_reduces [OF grows_ok [OF g1]] by blast
    from settled [OF grows_ok [OF g2] grows_trans [OF g1 g2] second settle] show ?thesis .
  qed
qed

lemma durable_events: "durable run ev a a' w \<Longrightarrow> set (snd a') \<subseteq> set (snd a) \<union> set (log w run)"
  by (auto simp: durable_def)

lemma durable_step:
  assumes "durable run ((stepEvent t i d sfx)\<lparr>ev_RunID := run, ev_CorrelationID := run\<rparr>) a a' w"
  shows "\<exists>e \<in> set (log w run). ev_Type e = t \<and> ed_ActionID (ev_Data e) = i"
  using assms sameIdempotentEvent_fields(2,3) unfolding durable_def by (fastforce simp: stepEvent_def)

end

context controller
begin

definition resulted :: "string \<Rightarrow> Command \<Rightarrow> 'w \<Rightarrow> bool" where
  "resulted run c w \<longleftrightarrow> (\<exists>e \<in> set (log w run). ev_Type e \<in> resultEvents (cmd_Type c) \<and> ed_ActionID (ev_Data e) = cmd_ActionID c)"

lemma step_resulted:
  assumes "ok w" "appendEvent C run (stepEvent t (cmd_ActionID c) d sfx) a w = (Inr a', w')" "t \<in> resultEvents (cmd_Type c)"
  shows "resulted run c w' \<and> set (snd a') \<subseteq> set (snd a) \<union> set (log w' run)"
  using appendEvent_durable [OF assms(1,2)] durable_step [of run t "cmd_ActionID c" d sfx a a' w'] durable_events assms(3)
  unfolding resulted_def by blast

lemma planned_events:
  assumes "ok w" "(if p then appendEvent C run ev a else returnA a) w = (Inr a', w')"
  shows "grows w w' \<and> set (snd a') \<subseteq> set (snd a) \<union> set (log w' run)"
  using assms appendEvent_durable [of w run ev a a' w'] durable_events [of run _ a a' w'] grows_refl
  by (auto split: if_splits)

text \<open>The two-event commands: a plan, when none is pending, then the result.\<close>

lemma planned_resulted:
  assumes "ok w" "bindA (if p then appendEvent C run ev a else returnA a) f w = (Inr a', w')"
    and "\<And>b w1. ok w1 \<Longrightarrow> f b w1 = (Inr a', w') \<Longrightarrow> resulted run c w' \<and> set (snd a') \<subseteq> set (snd b) \<union> set (log w' run) \<and> grows w1 w'"
  shows "resulted run c w' \<and> set (snd a') \<subseteq> set (snd a) \<union> set (log w' run)"
proof -
  obtain b w1 where p: "(if p then appendEvent C run ev a else returnA a) w = (Inr b, w1)" and f: "f b w1 = (Inr a', w')"
    using assms(2) by (auto simp: bindA_iff)
  note planned = planned_events [OF assms(1) p]
  then have g: "grows w w1" and sub: "set (snd b) \<subseteq> set (snd a) \<union> set (log w1 run)" by auto
  note fin = assms(3) [OF grows_ok [OF g] f]
  then have "set (log w1 run) \<subseteq> set (log w' run)" using grows_event by blast
  with sub fin show ?thesis by blast
qed

lemma step_resulted_grows:
  assumes "ok w" "appendEvent C run (stepEvent t (cmd_ActionID c) d sfx) a w = (Inr a', w')" "t \<in> resultEvents (cmd_Type c)"
  shows "resulted run c w' \<and> set (snd a') \<subseteq> set (snd a) \<union> set (log w' run) \<and> grows w w'"
  using step_resulted [OF assms] safeD [OF safe_appendEvent assms(1,2)] by blast

lemma reasoner_answer_resulted:
  assumes "ok w" "cmd_Type c = CommandRunReasoner"
    and "bindR (liftA CtlReasoner (c_consult C rq)) (\<lambda>r.
       case r of
         Inl e \<Rightarrow> appendControlledReasonerFailure C run c e b
       | Inr result \<Rightarrow>
           (case (ValidatePhase1Result result, res_ToolCall result) of
              (Inr _, Some call) \<Rightarrow>
                appendEvent C run (stepEvent EventReasoningCompleted (cmd_ActionID c)
                  (EventData_zero\<lparr>ed_Output := res_Output result, ed_ToolName := tc_Name call,
                     ed_ToolArguments := tc_Arguments call\<rparr>) '':reasoning-completed'') b
            | (Inr _, None) \<Rightarrow> failA (CtlReasoner NilDereference)
            | (Inl e, _) \<Rightarrow> appendControlledReasonerFailure C run c (CtlReasoner e) b)) w = (Inr a', w')"
  shows "resulted run c w' \<and> set (snd a') \<subseteq> set (snd b) \<union> set (log w' run) \<and> grows w w'"
proof -
  obtain r w1 where r: "liftA CtlReasoner (c_consult C rq) w = (r, w1)" by fastforce
  have g: "grows w w1" using safeD [OF safe_consult assms(1) r] .
  obtain t d sfx where a: "appendEvent C run (stepEvent t (cmd_ActionID c) d sfx) b w1 = (Inr a', w')"
    and t: "t \<in> resultEvents (cmd_Type c)"
    using assms(2,3) r
    by (cases r) (auto simp: bindR_def appendControlledReasonerFailure_def split: sum.splits option.splits)
  show ?thesis using step_resulted_grows [OF grows_ok [OF g] a t] grows_trans [OF g] by blast
qed

lemma executeCommand_resulted:
  assumes "ok w" "executeCommand C run st c a w = (Inr a', w')"
  shows "resulted run c w' \<and> set (snd a') \<subseteq> set (snd a) \<union> set (log w' run)"
proof (cases "cmd_Type c")
  case CommandRunReasoner
  with assms(2) have "runReasoner C run st c a w = (Inr a', w')" by (simp add: executeCommand_def)
  from planned_resulted [OF assms(1) this [unfolded runReasoner_def] reasoner_answer_resulted [OF _ CommandRunReasoner]]
  show ?thesis .
next
  case CommandVerify
  with assms(2) have "runVerify C run st c a w = (Inr a', w')" by (simp add: executeCommand_def)
  from planned_resulted [OF assms(1) this [unfolded runVerify_def] step_resulted_grows] CommandVerify show ?thesis by simp
qed (use assms step_resulted [OF assms(1)] in \<open>simp_all add: executeCommand_def\<close>)

text \<open>
  What Reconcile reports is durable: the State is the reduction of what the Run's log was at some
  moment of the call, a command that was carried out has a result event of its own ActionID in the
  log, and the events reported are in it.
\<close>

lemma Reconcile_result:
  assumes "ok w" "Reconcile C run w = (Inr r, w')"
  shows "\<exists>p st. grows w w' \<and> prefix (log w run) p \<and> prefix p (log w' run) \<and> accepts h p st \<and> rc_Command r = Decide h st
    \<and> set (rc_Events r) \<subseteq> set (log w' run)
    \<and> (if cmd_Type (rc_Command r) = CommandNoop then rc_State r = st
       else resulted run (rc_Command r) w' \<and> accepts h (log w' run) (rc_State r))"
proof -
  have g: "grows w w'" using safeD [OF safe_Reconcile assms] .
  obtain st w1 where get: "GetRun C run w = (Inr st, w1)" using assms(2) by (auto simp: Reconcile_def bindA_iff)
  note got = GetRun_reduces [OF assms(1) get]
  then have g1: "grows w w1" by blast
  from assms(2) get obtain w2 where i: "inspectManaged C run w1 = (Inr False, w2)"
    by (auto simp: Reconcile_def bindA_iff split: if_splits)
  have g2: "grows w1 w2" using safeD [OF safe_inspect grows_ok [OF g1] i] .
  let ?c = "Decide h st"
  show ?thesis
  proof (cases "cmd_Type ?c = CommandNoop")
    case True
    with assms(2) get i have r: "r = \<lparr>rc_Command = ?c, rc_Events = [], rc_State = st\<rparr>" "w' = w2"
      by (auto simp: Reconcile_def bindA_def split: if_splits)
    with g1 g2 have "prefix (log w run) (log w1 run)" "prefix (log w1 run) (log w' run)" by (auto simp: grows_def)
    with r True g got show ?thesis by (intro exI [of _ "log w1 run"] exI [of _ st]) auto
  next
    case False
    with assms(2) get i obtain v events w3 st' where
      ex: "executeCommand C run st ?c (run_Version (st_Run st), []) w2 = (Inr (v, events), w3)"
      and get': "GetRun C run w3 = (Inr st', w')" and r: "r = \<lparr>rc_Command = ?c, rc_Events = events, rc_State = st'\<rparr>"
      by (auto simp: Reconcile_def Let_def bindA_iff split: if_splits)
    have g3: "grows w2 w3" using safeD [OF safe_executeCommand grows_ok [OF g2] ex] .
    note fin = executeCommand_resulted [OF grows_ok [OF g2] ex] and got' = GetRun_reduces [OF grows_ok [OF g3] get']
    have sub: "set (log w3 run) \<subseteq> set (log w' run)" using got' grows_event by blast
    with fin have "resulted run ?c w'" "set events \<subseteq> set (log w' run)" by (auto simp: resulted_def)
    moreover have "prefix (log w run) (log w1 run)" "prefix (log w1 run) (log w' run)"
      using g1 grows_trans [OF g2 grows_trans [OF g3]] got' by (auto simp: grows_def)
    ultimately show ?thesis using r g got got' False
      by (intro exI [of _ "log w1 run"] exI [of _ st]) auto
  qed
qed

text \<open>
  A Reconcile that carries out a command raises the stage of the Run, whoever else is at work on it.
\<close>

lemma Reconcile_progress:
  assumes "ok w" "Reconcile C run w = (Inr r, w')" "cmd_Type (rc_Command r) \<noteq> CommandNoop"
    and "accepts h (log w run) st0"
  shows "stage st0 < stage (rc_State r)"
proof -
  obtain p st where p: "prefix (log w run) p" "accepts h p st" "rc_Command r = Decide h st"
    and fin: "resulted run (rc_Command r) w'" "accepts h (log w' run) (rc_State r)"
    using Reconcile_result [OF assms(1,2)] assms(3) by auto
  obtain e where e: "e \<in> set (log w' run)" "ev_Type e \<in> resultEvents (cmd_Type (Decide h st))"
    using fin(1) p(3) by (auto simp: resulted_def)
  have "st_Exists st" using assms(3) p(3) by (cases "st_Exists st") (simp_all add: Decide_def)
  then have ne: "p \<noteq> []" and inv: "state_inv st" using p(2) accepts_exists accepts_inv by blast+
  have "stage st0 \<le> stage st"
  proof (cases "log w run = []")
    case True
    with assms(4) accepts_nonempty [of h "[]" st0] show ?thesis
      by (simp add: stage_def InitialState_def Run_zero_def logicalState_def stopping_def)
  next
    case False
    from p(1) obtain fs where "p = log w run @ fs" by (auto simp: prefix_def)
    with False accepts_stage_mono [OF assms(4)] p(2) show ?thesis by blast
  qed
  also have "stage st < reached (ev_Type e)" using Decide_stage [OF inv e(2)] .
  also have "reached (ev_Type e) \<le> stage (rc_State r)" using accepts_stage [OF fin(2) e(1)] .
  finally show ?thesis .
qed

end

end
