(* ===== verification/World.thy ===== *)
theory World
  imports Controller_Contract Store_Memory
begin

text \<open>
  The worlds the controller runs in. A world is the store, a counter of the calls made so far and
  the executor calls made so far. Before each call the other clients of the store act; what they do,
  the faults, the clock, cancelled contexts and the answers of the Reasoner are functions of the call
  counter, so that every schedule is one choice of these functions. The worlds interpret the locale
  \<open>controller\<close>: the in-memory world without hypotheses, the PostgreSQL world for reachable storages.
\<close>

section \<open>Calls\<close>

record 's world =
  wd_store :: 's
  wd_tick :: nat
  wd_calls :: "ActionRequest list"

definition tick :: "'s world \<Rightarrow> 's world" where
  "tick w = w\<lparr>wd_tick := Suc (wd_tick w)\<rparr>"

definition call :: "(nat \<Rightarrow> 's \<Rightarrow> 's) \<Rightarrow> (nat \<Rightarrow> 's \<Rightarrow> 's \<times> 'r) \<Rightarrow> 's world \<Rightarrow> 'r \<times> 's world" where
  "call others m w =
     (case m (wd_tick w) (others (wd_tick w) (wd_store w)) of
        (s, r) \<Rightarrow> (r, (tick w)\<lparr>wd_store := s\<rparr>))"

definition reading :: "(nat \<Rightarrow> 's \<Rightarrow> 's) \<Rightarrow> (nat \<Rightarrow> 's \<Rightarrow> 'r) \<Rightarrow> 's world \<Rightarrow> 'r \<times> 's world" where
  "reading others f = call others (\<lambda>n s. (s, f n s))"

definition ask :: "(nat \<Rightarrow> 'r) \<Rightarrow> 's world \<Rightarrow> 'r \<times> 's world" where
  "ask f w = (f (wd_tick w), tick w)"

lemma tick_simps [simp]:
  "wd_store (tick w) = wd_store w" "wd_calls (tick w) = wd_calls w" "wd_tick (tick w) = Suc (wd_tick w)"
  by (simp_all add: tick_def)

lemma callE:
  assumes "call others m w = (r, w')"
  obtains s where "m (wd_tick w) (others (wd_tick w) (wd_store w)) = (s, r)"
    "w' = (tick w)\<lparr>wd_store := s\<rparr>"
  using assms by (auto simp: call_def split: prod.splits)

lemma readingE:
  assumes "reading others f w = (r, w')"
  obtains "r = f (wd_tick w) (others (wd_tick w) (wd_store w))"
    "w' = (tick w)\<lparr>wd_store := others (wd_tick w) (wd_store w)\<rparr>"
  using assms by (auto simp: reading_def call_def)

lemma askE:
  assumes "ask f w = (r, w')"
  obtains "r = f (wd_tick w)" "w' = tick w"
  using assms by (auto simp: ask_def)

definition contextError :: "(nat \<Rightarrow> bool) \<Rightarrow> ('s world, unit) action" where
  "contextError cancelled = ask (\<lambda>n. if cancelled n then Inl CtlContext else Inr ())"

text \<open>\<open>New\<close>: a controller without a lease manager.\<close>

definition New :: "env \<Rightarrow> 'w EventStoreOps \<Rightarrow> (Request \<Rightarrow> 'w \<Rightarrow> (ReasonerError + Result) \<times> 'w)
    \<Rightarrow> ('w, unit) action \<Rightarrow> (CtlError \<Rightarrow> string) \<Rightarrow> 'w Controller" where
  "New E S consult ctxErr errText = \<lparr>c_env = E, c_store = S, c_consult = consult, c_ctxErr = ctxErr, c_lease = None,
     c_options = \<lparr>mo_Executor = None, mo_Artifacts = None, mo_Fault = None, mo_Safety = (\<lambda>_. ScopeNone)\<rparr>,
     c_errorText = errText\<rparr>"

section \<open>The in-memory world\<close>

record MemSchedule =
  ms_others :: "nat \<Rightarrow> (bool \<times> uint64 \<times> Event) list"
  ms_done :: "nat \<Rightarrow> bool"
  ms_answer :: "nat \<Rightarrow> Request \<Rightarrow> ReasonerError + Result"

definition memOps :: "env \<Rightarrow> MemSchedule \<Rightarrow> MemoryEventStore world EventStoreOps" where
  "memOps E X =
     (let h = env_hash E; P = env_parsers E; others = (\<lambda>n. mem_session h P (ms_others X n)) in
      \<lparr>es_Load = (\<lambda>run. reading others (\<lambda>n. mem_Load (ms_done X n) run)),
       es_Rebuild = (\<lambda>run. reading others (\<lambda>n. mem_Rebuild h (ms_done X n) run)),
       es_Append = (\<lambda>v e. call others (\<lambda>n. mem_Append h P (ms_done X n) v e)),
       es_IsManagedRun = None\<rparr>)"

definition memController :: "env \<Rightarrow> MemSchedule \<Rightarrow> (CtlError \<Rightarrow> string) \<Rightarrow> MemoryEventStore world Controller" where
  "memController E X errText =
     New E (memOps E X) (\<lambda>rq. ask (\<lambda>n. ms_answer X n rq)) (contextError (ms_done X)) errText"

interpretation memc: controller "memController E X errText" "\<lambda>w. mem_log (wd_store w)"
    "\<lambda>w. mem_inv (env_hash E) (wd_store w)"
  for E X errText
proof (unfold_locales, goal_cases)
  case (1 w run)
  then show ?case by (simp add: memController_def New_def mem.ok_log)
next
  case (2 w run rl w')
  have "mem_Load d run s = Inr es \<Longrightarrow> es = mem_log s run" for d s es
    by (auto simp: mem_Load_def mem_log_def split: if_splits option.splits)
  with 2 show ?case
    by (auto simp: memController_def New_def memOps_def Let_def mem_session_inv mem_session_requests
        mem.requests_prefix mem.requests_ok elim!: readingE)
next
  case (3 w run rb w')
  have "mem_Rebuild h d run s = Inr st \<Longrightarrow> Reduce h (mem_log s run) = Inr st" for h d s st
    by (auto simp: mem_Rebuild_def mem_Load_def mem_log_def bindE_Inr_iff result_simps split: if_splits option.splits)
  with 3 show ?case
    by (auto simp: memController_def New_def memOps_def Let_def mem_session_inv mem_session_requests
        mem.requests_prefix mem.requests_ok elim!: readingE)
next
  case (4 w v e ra w')
  let ?s = "mem_session (env_hash E) (env_parsers E) (ms_others X (wd_tick w)) (wd_store w)"
  have s: "mem_inv (env_hash E) ?s" "\<forall>q. prefix (mem_log (wd_store w) q) (mem_log ?s q)"
    using 4(1) by (simp_all add: mem_session_requests mem.requests_prefix mem.requests_ok)
  have a: "mem_Append (env_hash E) (env_parsers E) (ms_done X (wd_tick w)) v e ?s = (wd_store w', ra)"
    using 4(2) by (auto simp: memController_def New_def memOps_def Let_def elim!: callE)
  have "prefix (mem_log (wd_store w) q) (mem_log (wd_store w') q)" for q
    using s(2) mem.append_prefix [OF s(1) a, of q] prefix_order.trans by blast
  moreover note mem.append_ok [OF s(1) a]
  moreover have "ar_Event res \<in> set (mem_log (wd_store w') (ev_RunID e)) \<and> sameIdempotentEvent (ar_Event res) e"
    if "ra = Inr res" for res using mem.append_result [OF s(1)] a that by blast
  ultimately show ?case by blast
qed (auto simp: memController_def New_def memOps_def Let_def contextError_def elim!: askE)

section \<open>The PostgreSQL world\<close>

record PgSchedule =
  ps_others :: "nat \<Rightarrow> Storage \<Rightarrow> Storage"
  ps_append :: "nat \<Rightarrow> AppendChoices"
  ps_fault :: "nat \<Rightarrow> PgFault"
  ps_now :: "nat \<Rightarrow> int"
  ps_write :: "nat \<Rightarrow> WriteChoices"
  ps_done :: "nat \<Rightarrow> bool"
  ps_answer :: "nat \<Rightarrow> Request \<Rightarrow> ReasonerError + Result"
  ps_crash :: "nat \<Rightarrow> FaultPoint \<Rightarrow> Command \<Rightarrow> bool"

definition pgOps :: "env \<Rightarrow> PgSchedule \<Rightarrow> Storage world EventStoreOps" where
  "pgOps E X =
     \<lparr>es_Load = (\<lambda>run. reading (ps_others X) (\<lambda>n. pg_Load E (ps_fault X n) run)),
      es_Rebuild = (\<lambda>run. reading (ps_others X) (\<lambda>n. pg_Rebuild E (ps_fault X n) run)),
      es_Append = (\<lambda>v e. call (ps_others X) (\<lambda>n. pg_Append E (ps_append X n) v e)),
      es_IsManagedRun = Some (\<lambda>run. reading (ps_others X) (\<lambda>n. pg_IsManagedRun (ps_fault X n) run))\<rparr>"

definition pgController :: "env \<Rightarrow> PgSchedule \<Rightarrow> (CtlError \<Rightarrow> string) \<Rightarrow> Storage world Controller" where
  "pgController E X errText =
     New E (pgOps E X) (\<lambda>rq. ask (\<lambda>n. ps_answer X n rq)) (contextError (ps_done X)) errText"

text \<open>The other clients act by transactions of the storage; the clock of a receipt is read twice.\<close>

definition interferes :: "env \<Rightarrow> PgSchedule \<Rightarrow> bool" where
  "interferes E X \<longleftrightarrow> (\<forall>n s. storage_steps E s (ps_others X n s))"

definition pg_world :: "env \<Rightarrow> PgSchedule \<Rightarrow> Storage world \<Rightarrow> bool" where
  "pg_world E X w \<longleftrightarrow> reachable E (wd_store w) \<and> lossless_jsonb E \<and> interferes E X"

definition pgLease :: "env \<Rightarrow> PgSchedule \<Rightarrow> Storage world LeaseOps" where
  "pgLease E X =
     \<lparr>lo_Validate = (\<lambda>l. reading (ps_others X) (\<lambda>n. Validate (ps_fault X n) (ps_now X n) l)),
      lo_LookupReceipt = (\<lambda>run a. reading (ps_others X) (\<lambda>n. LookupReceipt (ps_fault X n) run a)),
      lo_RecordReceipt = (\<lambda>l rc. call (ps_others X)
        (\<lambda>n. RecordReceipt E (ps_fault X n) (ps_now X n) (ps_now X (Suc n)) l rc))\<rparr>"

text \<open>An executor whose calls are recorded in the world.\<close>

definition recorded :: "(ActionRequest \<Rightarrow> ('s world, 'a) action) \<Rightarrow> ActionRequest \<Rightarrow> ('s world, 'a) action" where
  "recorded execute rq w = execute rq (w\<lparr>wd_calls := wd_calls w @ [rq]\<rparr>)"

definition crashHook :: "PgSchedule \<Rightarrow> FaultPoint \<Rightarrow> Command \<Rightarrow> (Storage world, unit) action" where
  "crashHook X point command = ask (\<lambda>n. if ps_crash X n point command then Inl ErrInjectedCrash else Inr ())"

definition pgManaged :: "env \<Rightarrow> PgSchedule \<Rightarrow> (CtlError \<Rightarrow> string) \<Rightarrow> string \<Rightarrow> (Command \<Rightarrow> IdempotencyScope) option
    \<Rightarrow> Storage world Controller" where
  "pgManaged E X errText dir safety =
     (let C = pgController E X errText in
      NewManaged C (pgLease E X) safety
        \<lparr>mo_Executor = Some (recorded (artifactExecute (reasonerExecute E (c_consult C))
            (Some (\<lambda>input. call (ps_others X) (\<lambda>n. art_Write E (ps_write X n) dir input))))),
         mo_Artifacts = Some (\<lambda>i. reading (ps_others X) (\<lambda>n. art_Verify E (ps_done X n) (ps_fault X n) dir i)),
         mo_Fault = Some (crashHook X), mo_Safety = (\<lambda>_. ScopeNone)\<rparr>)"

lemma storage_steps_trans: "storage_steps E s' s'' \<Longrightarrow> storage_steps E s s' \<Longrightarrow> storage_steps E s s''"
  by (induction rule: storage_steps.induct) (auto intro: steps_step)

lemma pg_world_steps:
  assumes "pg_world E X w" "storage_steps E (wd_store w) (wd_store w')"
  shows "pg_world E X w' \<and> (\<forall>q. prefix (loadPostgresEvents E (wd_store w) q) (loadPostgresEvents E (wd_store w') q))"
  using assms reachable_steps [OF assms(2)] steps_log_prefix [OF assms(2)] by (auto simp: pg_world_def)

lemma pg_reading:
  assumes "pg_world E X w" "reading (ps_others X) f w = (r, w')"
  shows "pg_world E X w' \<and> (\<forall>q. prefix (loadPostgresEvents E (wd_store w) q) (loadPostgresEvents E (wd_store w') q))
    \<and> r = f (wd_tick w) (wd_store w') \<and> wd_calls w' = wd_calls w \<and> storage_steps E (wd_store w) (wd_store w')"
proof -
  have w': "wd_store w' = ps_others X (wd_tick w) (wd_store w)" "r = f (wd_tick w) (wd_store w')" "wd_calls w' = wd_calls w"
    using assms(2) by (auto elim!: readingE)
  moreover have st: "storage_steps E (wd_store w) (wd_store w')"
    using assms(1) w'(1) by (simp add: pg_world_def interferes_def)
  ultimately show ?thesis using pg_world_steps [OF assms(1)] by blast
qed

lemma pg_call:
  assumes "pg_world E X w" "call (ps_others X) m w = (r, w')"
    and "\<forall>n s s' r. m n s = (s', r) \<longrightarrow> storage_step E s s'"
  shows "\<exists>s. reachable E s \<and> (\<forall>q. prefix (loadPostgresEvents E (wd_store w) q) (loadPostgresEvents E s q))
    \<and> m (wd_tick w) s = (wd_store w', r) \<and> pg_world E X w'
    \<and> (\<forall>q. prefix (loadPostgresEvents E (wd_store w) q) (loadPostgresEvents E (wd_store w') q))
    \<and> wd_calls w' = wd_calls w \<and> storage_steps E (wd_store w) (wd_store w')"
proof -
  let ?s = "ps_others X (wd_tick w) (wd_store w)"
  have m: "m (wd_tick w) ?s = (wd_store w', r)" "wd_calls w' = wd_calls w" using assms(2) by (auto elim!: callE)
  have s: "storage_steps E (wd_store w) ?s" using assms(1) by (simp add: pg_world_def interferes_def)
  have s': "storage_steps E (wd_store w) (wd_store w')" using steps_step [OF s] assms(3) m(1) by blast
  show ?thesis
    using m s' pg_world_steps [OF assms(1) s'] reachable_steps [OF s] steps_log_prefix [OF s] assms(1)
    by (auto simp: pg_world_def intro!: exI [of _ ?s])
qed

lemma pg_world_inv: "pg_world E X w \<Longrightarrow> pg_ok E (wd_store w)"
  by (simp add: pg_world_def reachable_pg_ok)

interpretation pgc: controller "pgController E X errText" "\<lambda>w. loadPostgresEvents E (wd_store w)" "pg_world E X"
  for E X errText
proof (unfold_locales, goal_cases)
  case (1 w run)
  then show ?case using pg.ok_log [OF pg_world_inv] by (simp add: pgController_def New_def)
next
  case (2 w run rl w')
  have load: "pg_Load E f run s = Inr es \<Longrightarrow> es = loadPostgresEvents E s run" for f s es
    by (auto simp: pg_Load_def pg_read_def Let_def split: if_splits)
  have r: "reading (ps_others X) (\<lambda>n. pg_Load E (ps_fault X n) run) w = (rl, w')"
    using 2(2) by (simp add: pgController_def New_def pgOps_def)
  note f = pg_reading [OF 2(1) r]
  then have "es = loadPostgresEvents E (wd_store w') run" if "rl = Inr es" for es using load that by metis
  with f show ?case by blast
next
  case (3 w run rb w')
  then have r: "reading (ps_others X) (\<lambda>n. pg_Rebuild E (ps_fault X n) run) w = (rb, w')"
    by (simp add: pgController_def New_def pgOps_def)
  note f = pg_reading [OF 3(1) r]
  have inv: "pg_inv E (wd_store w')" using f pg_world_inv [of E X w'] by (simp add: pg_ok_def)
  have "Reduce (env_hash E) (loadPostgresEvents E (wd_store w') run) = Inr st" if st: "rb = Inr st" for st
  proof -
    have rb: "pg_Rebuild E (ps_fault X (wd_tick w)) run (wd_store w') = Inr st" using f st by simp
    then have "ps_fault X (wd_tick w) = PgOk" by (auto simp: pg_Rebuild_def pg_read_def split: if_splits)
    with rb pg_Rebuild_reduces [OF inv, of run] show ?thesis by (auto simp: result_simps split: if_splits)
  qed
  with f show ?case by (simp add: pgController_def New_def)
next
  case (4 w v e ra w')
  then have c: "call (ps_others X) (\<lambda>n. pg_Append E (ps_append X n) v e) w = (ra, w')"
    by (simp add: pgController_def New_def pgOps_def)
  have step: "\<forall>n s s' r. pg_Append E (ps_append X n) v e s = (s', r) \<longrightarrow> storage_step E s s'" using step_append by blast
  from pg_call [OF 4(1) c step] obtain s where s: "reachable E s"
    "pg_Append E (ps_append X (wd_tick w)) v e s = (wd_store w', ra)"
    "pg_world E X w'" "\<forall>q. prefix (loadPostgresEvents E (wd_store w) q) (loadPostgresEvents E (wd_store w') q)"
    by blast
  have "pg_ok E s" using s(1) 4(1) reachable_pg_ok by (simp add: pg_world_def)
  with s pg.append_result show ?case by blast
next
  case (5 f w run ri w')
  with pg_reading [OF 5(2), of _ ri w'] show ?case by (auto simp: pgController_def New_def pgOps_def)
qed (auto simp: pgController_def New_def contextError_def pg_world_def elim!: askE)

end
