(* ===== verification/Controller_Props.thy ===== *)
theory Controller_Props
  imports World
begin

text \<open>
  The guarantees of the controller over PostgreSQL, with any number of other controllers, workers
  and operators acting between its calls, and the life of a Run over the in-memory store.
\<close>

section \<open>A sample world\<close>

definition quiet :: PgSchedule where
  "quiet = \<lparr>ps_others = (\<lambda>_ s. s), ps_append = (\<lambda>_. sampleChoices), ps_fault = (\<lambda>_. PgOk), ps_now = (\<lambda>_. 20),
     ps_write = (\<lambda>_. \<lparr>wc_done = False, wc_fileError = False, wc_insert = PgOk, wc_load = PgOk, wc_now = 20\<rparr>),
     ps_done = (\<lambda>_. False), ps_answer = (\<lambda>_ _. Inr fakeResult), ps_crash = (\<lambda>_ _ _. False)\<rparr>"

definition freshWorld :: "'s \<Rightarrow> 's world" where
  "freshWorld s = \<lparr>wd_store = s, wd_tick = 0, wd_calls = []\<rparr>"

definition sampleController :: "Storage world Controller" where
  "sampleController = pgController briefEnv quiet (\<lambda>_. ''error'')"

definition sampleRequest :: CreateRunRequest where
  "sampleRequest = \<lparr>cr_RunID = ''run-1'', cr_ScenarioID = ''s'', cr_SpecHash = ''x'', cr_CreatedAt = ''''\<rparr>"

lemma quiet_interferes: "interferes E quiet"
  by (simp add: interferes_def quiet_def steps_refl)

lemma fresh_pg_world: "reachable briefEnv s \<Longrightarrow> pg_world briefEnv quiet (freshWorld s)"
  by (simp add: pg_world_def freshWorld_def quiet_interferes sample_lossless)

lemma sample_calls:
  "\<not> isl (fst (CreateRun sampleController sampleRequest (freshWorld emptyStorage)))"
  "\<not> isl (fst (SetDesiredState sampleController ''run-1'' DesiredCancelled (freshWorld sampleStorage3)))"
  "\<not> isl (fst (Reconcile sampleController ''run-1'' (freshWorld sampleStorage1)))"
  by code_simp+

lemma sample_start:
  "cmd_Type (rc_Command (projr (fst (Reconcile sampleController ''run-1'' (freshWorld sampleStorage1))))) = CommandStartAttempt"
  by code_simp

lemma not_isl_fst: "\<not> isl (fst p) \<Longrightarrow> \<exists>x w. p = (Inr x, w)"
  by (metis isl_def old.sum.exhaust prod.collapse)

section \<open>Properties over PostgreSQL\<close>

text \<open>
  A created Run is durable and exclusive. When \<open>CreateRun\<close> succeeds, whatever other clients did
  meanwhile, the log of the Run begins with the event of this very request, every later log of the
  Run begins with it too, and the State returned is the reduction of the log.
\<close>

theorem CreateRun_owns_run:
  assumes "pg_world E X w" "CreateRun (pgController E X errText) request w = (Inr st, w')"
    and "storage_steps E (wd_store w') s"
  shows "Reduce (env_hash E) (loadPostgresEvents E (wd_store w') (cr_RunID request)) = Inr st
    \<and> (\<exists>e es. loadPostgresEvents E s (cr_RunID request) = e # es \<and> sameIdempotentEvent e (runCreatedEvent request))"
proof -
  note d = pgc.CreateRun_durable [OF assms(1,2)]
  then have w': "pg_world E X w'" using pgc.grows_ok by blast
  from d obtain e es where e: "loadPostgresEvents E (wd_store w') (cr_RunID request) = e # es"
    "sameIdempotentEvent e (runCreatedEvent request)" by blast
  have "prefix (e # es) (loadPostgresEvents E s (cr_RunID request))"
    using steps_log_prefix [OF assms(3)] w' e(1) unfolding pg_world_def by metis
  with d e(2) show ?thesis by (auto simp: Reduce_accepts prefix_def pgController_def New_def)
qed

theorem CreateRun_owns_run_witness:
  "\<exists>st w'. CreateRun sampleController sampleRequest (freshWorld emptyStorage) = (Inr st, w')
     \<and> Reduce (env_hash briefEnv) (loadPostgresEvents briefEnv (wd_store w') ''run-1'') = Inr st"
proof -
  obtain st w' where c: "CreateRun sampleController sampleRequest (freshWorld emptyStorage) = (Inr st, w')"
    using not_isl_fst [OF sample_calls(1)] by blast
  from CreateRun_owns_run [OF fresh_pg_world [OF reachable_empty] c [unfolded sampleController_def] steps_refl] c
  show ?thesis by (simp add: sampleRequest_def)
qed

text \<open>
  (C10) An acknowledged cancellation is final. When \<open>SetDesiredState\<close> with \<open>Cancelled\<close> succeeds, then in
  whatever storage later transactions lead to, the Run still wants to be cancelled and has not
  succeeded or failed.
\<close>

theorem acknowledged_cancel_final:
  assumes "pg_world E X w" "SetDesiredState (pgController E X errText) run DesiredCancelled w = (Inr st, w')"
    and "storage_steps E (wd_store w') s"
  shows "\<exists>st'. Reduce (env_hash E) (loadPostgresEvents E s run) = Inr st' \<and> desired st' = DesiredCancelled
    \<and> observed st' \<notin> {StatusSucceeded, StatusFailed}"
proof -
  have w': "pg_world E X w'" using pgc.safeD [OF pgc.safe_SetDesiredState assms(1,2)] pgc.grows_ok by blast
  from pgc.SetDesiredState_durable [OF assms(1,2)] obtain p st0 where
    p: "prefix p (loadPostgresEvents E (wd_store w') run)" "accepts (env_hash E) p st0" "desired st0 = DesiredCancelled"
      "\<not> Terminal (observed st0)" by (auto simp: pgController_def New_def)
  have s: "reachable E s" "lossless_jsonb E" using reachable_steps [OF assms(3)] w' by (simp_all add: pg_world_def)
  have pre: "prefix p (loadPostgresEvents E s run)"
    using p(1) steps_log_prefix [OF assms(3)] w' unfolding pg_world_def by (meson prefix_order.trans)
  obtain st' where st': "accepts (env_hash E) (loadPostgresEvents E s run) st'"
    using pg.ok_log [OF reachable_pg_ok [OF s]] by (auto simp: Reduce_accepts)
  from cancelled_prefix [OF p(2,3) pre st'] p(4) st' show ?thesis by (auto simp: Reduce_accepts)
qed

theorem acknowledged_cancel_final_witness:
  "\<exists>st w' st'. SetDesiredState sampleController ''run-1'' DesiredCancelled (freshWorld sampleStorage3) = (Inr st, w')
     \<and> Reduce (env_hash briefEnv) (loadPostgresEvents briefEnv (wd_store w') ''run-1'') = Inr st'
     \<and> desired st' = DesiredCancelled"
proof -
  obtain st w' where c: "SetDesiredState sampleController ''run-1'' DesiredCancelled (freshWorld sampleStorage3) = (Inr st, w')"
    using not_isl_fst [OF sample_calls(2)] by blast
  from acknowledged_cancel_final [OF fresh_pg_world [OF sample_reachable(3)] c [unfolded sampleController_def] steps_refl] c
  show ?thesis by blast
qed

text \<open>
  What \<open>Reconcile\<close> reports is durable. The State is the reduction of what the log of the Run was at
  some moment of the call, the events reported are in the log, and unless the command is Noop the log
  holds a result event of this command with its ActionID.
\<close>

theorem Reconcile_reports_durable:
  assumes "pg_world E X w" "Reconcile (pgController E X errText) run w = (Inr r, w')"
  shows "\<exists>p. prefix (loadPostgresEvents E (wd_store w) run) p \<and> prefix p (loadPostgresEvents E (wd_store w') run)
    \<and> Reduce (env_hash E) p = Inr (rc_State r)
    \<and> set (rc_Events r) \<subseteq> set (loadPostgresEvents E (wd_store w') run)
    \<and> (cmd_Type (rc_Command r) = CommandNoop \<or>
        (\<exists>e \<in> set (loadPostgresEvents E (wd_store w') run).
           ev_Type e \<in> resultEvents (cmd_Type (rc_Command r)) \<and> ed_ActionID (ev_Data e) = cmd_ActionID (rc_Command r)))"
proof -
  have h: "env_hash (c_env (pgController E X errText)) = env_hash E" by (simp add: pgController_def New_def)
  obtain p st where r: "pgc.grows E X w w'" "prefix (loadPostgresEvents E (wd_store w) run) p"
    "prefix p (loadPostgresEvents E (wd_store w') run)" "accepts (env_hash E) p st"
    "set (rc_Events r) \<subseteq> set (loadPostgresEvents E (wd_store w') run)"
    "if cmd_Type (rc_Command r) = CommandNoop then rc_State r = st
     else pgc.resulted E run (rc_Command r) w' \<and> accepts (env_hash E) (loadPostgresEvents E (wd_store w') run) (rc_State r)"
    using pgc.Reconcile_result [OF assms] unfolding h by blast
  show ?thesis
  proof (cases "cmd_Type (rc_Command r) = CommandNoop")
    case True
    with r show ?thesis unfolding Reduce_accepts by auto
  next
    case False
    moreover have "prefix (loadPostgresEvents E (wd_store w) run) (loadPostgresEvents E (wd_store w') run)"
      using r(2,3) by (rule prefix_order.trans)
    ultimately show ?thesis using r unfolding pgc.resulted_def Reduce_accepts by auto
  qed
qed

theorem Reconcile_reports_durable_witness:
  "\<exists>r w' p. Reconcile sampleController ''run-1'' (freshWorld sampleStorage1) = (Inr r, w')
     \<and> prefix p (loadPostgresEvents briefEnv (wd_store w') ''run-1'') \<and> Reduce (env_hash briefEnv) p = Inr (rc_State r)"
proof -
  obtain r w' where c: "Reconcile sampleController ''run-1'' (freshWorld sampleStorage1) = (Inr r, w')"
    using not_isl_fst [OF sample_calls(3)] by blast
  from Reconcile_reports_durable [OF fresh_pg_world [OF sample_reachable(1)] c [unfolded sampleController_def]] c
  show ?thesis by blast
qed

lemma leased_stays:
  assumes "reachable E s" "storage_steps E s s'" "sg_leases s run \<noteq> None"
  shows "sg_leases s' run \<noteq> None"
  using steps_lease_ge [OF assms(2,1), of run] assms(3) by (auto simp: lease_ge_def split: option.splits)

text \<open>
  (C34) The compatibility path keeps off managed Runs. Once a Run has a lease row, \<open>Reconcile\<close> fails on
  it under every schedule, and it changes nothing itself.
\<close>

theorem Reconcile_refuses_leased:
  assumes "pg_world E X w" "sg_leases (wd_store w) run \<noteq> None"
    and "Reconcile (pgController E X errText) run w = (r, w')"
  shows "(\<exists>e. r = Inl e) \<and> (ps_others X = (\<lambda>_ s. s) \<longrightarrow> wd_store w' = wd_store w)"
proof -
  let ?C = "pgController E X errText"
  obtain st w1 where get: "reading (ps_others X) (\<lambda>n. pg_Rebuild E (ps_fault X n) run) w = (st, w1)" by fastforce
  note g = pg_reading [OF assms(1) get]
  obtain m w2 where ask: "reading (ps_others X) (\<lambda>n. pg_IsManagedRun (ps_fault X n) run) w1 = (m, w2)" by fastforce
  note i = pg_reading [OF _ ask]
  have "sg_leases (wd_store w2) run \<noteq> None"
    using g i assms(1,2) leased_stays unfolding pg_world_def by metis
  then have m: "m \<noteq> Inr False" using g i by (auto simp: pg_IsManagedRun_def pg_read_def split: if_splits)
  have quiet: "wd_store w1 = wd_store w" "wd_store w2 = wd_store w1" if "ps_others X = (\<lambda>_ s. s)"
    using get ask that by (auto elim!: readingE)
  have G: "GetRun ?C run w = (mapErr CtlStore st, w1)" and I: "inspectManaged ?C run w1 = (mapErr CtlStore m, w2)"
    using get ask by (simp_all add: GetRun_def inspectManaged_def liftA_def pgController_def New_def pgOps_def)
  show ?thesis
    using assms(3) m quiet
    by (cases st; cases m) (auto simp: Reconcile_def bindA_def G I result_simps split: if_splits)
qed

theorem Reconcile_refuses_leased_witness:
  "\<exists>e w'. Reconcile sampleController ''run-1'' (freshWorld sampleStorage3) = (Inl e, w') \<and> wd_store w' = sampleStorage3"
proof -
  obtain r w' where c: "Reconcile sampleController ''run-1'' (freshWorld sampleStorage3) = (r, w')" by fastforce
  have "sg_leases (wd_store (freshWorld sampleStorage3)) ''run-1'' \<noteq> None"
    by (simp add: freshWorld_def sampleStorage3_def sampleStorage2_def)
  from Reconcile_refuses_leased [OF fresh_pg_world [OF sample_reachable(3)] this c [unfolded sampleController_def]] c
  show ?thesis by (auto simp: quiet_def freshWorld_def)
qed

text \<open>
  (C28) Reconciliation makes progress. Under every schedule, a successful Reconcile that was not a Noop
  leaves the Run at a strictly larger stage than it found it; stages are at most 8, so at most eight
  such calls ever succeed in the life of a Run, whichever controllers make them.
\<close>

theorem Reconcile_advances_stage:
  assumes "pg_world E X w" "Reconcile (pgController E X errText) run w = (Inr r, w')"
    and "cmd_Type (rc_Command r) \<noteq> CommandNoop" "Reduce (env_hash E) (loadPostgresEvents E (wd_store w) run) = Inr st"
  shows "stage st < stage (rc_State r) \<and> stage (rc_State r) \<le> 8"
  using pgc.Reconcile_progress [OF assms(1-3)] assms(4) stage_bound
  by (simp add: Reduce_accepts pgController_def New_def)

theorem Reconcile_advances_stage_witness:
  "\<exists>r w' st. Reconcile sampleController ''run-1'' (freshWorld sampleStorage1) = (Inr r, w')
     \<and> Reduce (env_hash briefEnv) (loadPostgresEvents briefEnv sampleStorage1 ''run-1'') = Inr st
     \<and> stage st < stage (rc_State r)"
proof -
  obtain r w' where c: "Reconcile sampleController ''run-1'' (freshWorld sampleStorage1) = (Inr r, w')"
    using not_isl_fst [OF sample_calls(3)] by blast
  have "projr (fst (Reconcile sampleController ''run-1'' (freshWorld sampleStorage1))) = r" using c by simp
  then have n: "cmd_Type (rc_Command r) \<noteq> CommandNoop" using sample_start by simp
  obtain st where st: "Reduce (env_hash briefEnv) (loadPostgresEvents briefEnv sampleStorage1 ''run-1'') = Inr st"
    using pg.ok_log [OF reachable_pg_ok [OF sample_reachable(1) sample_lossless]] by blast
  from Reconcile_advances_stage [OF fresh_pg_world [OF sample_reachable(1)] c [unfolded sampleController_def] n, of st] c st
  show ?thesis by (auto simp: freshWorld_def)
qed

end
