(* ===== verification/Managed_Contract.thy ===== *)
theory Managed_Contract
  imports Controller_Contract
begin

text \<open>
  What the leased path relies on and what it gives, for any world. The locale \<open>managed\<close> adds the
  lease manager, the Artifact verifier, the fault hook and the executor to \<open>controller\<close>, with \<open>calls\<close>
  the executor calls made so far; \<open>quiet_managed\<close> is the same without other clients.
\<close>

section \<open>A pending action was planned\<close>

lemma applyEvent_new_pending:
  assumes "applyEvent h st ev = Inr st'" "st_Exists st" "st_PendingActionType st' \<noteq> CommandNone"
  shows "same_pending st st' \<or> ev_Type ev = EventActionPlanned
    \<and> ed_ActionID (ev_Data ev) = st_PendingActionID st' \<and> ed_ActionType (ev_Data ev) = st_PendingActionType st'"
proof (cases "ev_Type ev")
  case EventActionPlanned
  with assms show ?thesis by (auto simp: applyEvent_def applyActionPlanned_def Let_def split: if_splits)
next
  case EventDesiredStateChanged
  with assms show ?thesis
    by (auto simp: applyEvent_def applyDesiredStateChanged_def dest: applyDesiredState_pending)
next
  case EventActionCompleted
  with assms show ?thesis by (auto simp: applyEvent_def applyActionCompleted_def Let_def bindE_Inr_iff clearPending_def split: if_splits)
next
  case EventActionFailed
  with assms show ?thesis
    by (auto simp: applyEvent_def applyActionFailed_def Let_def bindE_Inr_iff advanceManagedState_iff split: if_splits)
qed (use assms in \<open>auto simp: applyEvent_def applyRunCreated_def applyLeaseEvent_def lifecycle_defs Let_def result_simps
     same_pending_def split: if_splits\<close>)

definition planned :: "Event list \<Rightarrow> string \<Rightarrow> CommandType \<Rightarrow> bool" where
  "planned es i t \<longleftrightarrow> (\<exists>ev\<in>set es. ev_Type ev = EventActionPlanned \<and> ed_ActionID (ev_Data ev) = i \<and> ed_ActionType (ev_Data ev) = t)"

lemma accepts_pending_planned:
  "accepts h es st \<Longrightarrow> st_PendingActionType st \<noteq> CommandNone \<Longrightarrow> planned es (st_PendingActionID st) (st_PendingActionType st)"
proof (induction rule: accepts.induct)
  case accepts_Nil
  then show ?case by (simp add: InitialState_def)
next
  case (accepts_snoc es st ev st')
  show ?case
  proof (cases "st_Exists st")
    case True
    have "st_PendingActionType st' \<noteq> CommandNone" using accepts_snoc.prems by (simp add: stampEvent_def)
    from applyEvent_new_pending [OF accepts_snoc.hyps(3) True this] accepts_snoc.IH this show ?thesis
      by (auto simp: planned_def same_pending_def stampEvent_def)
  next
    case False
    with accepts_snoc accepts_exists have "es = []" by blast
    with accepts_snoc.hyps(1) have "st = InitialState" using accepts_nonempty by fastforce
    with applyEvent_initial [of st h ev st'] accepts_snoc.hyps(3) have "applyRunCreated st ev = Inr st'" by simp
    with accepts_snoc.prems show ?thesis
      by (auto simp: applyRunCreated_def result_simps stampEvent_def InitialState_def split: if_splits)
  qed
qed

section \<open>The collaborators of the leased path\<close>

locale managed = controller C log ok
  for C :: "'w Controller" and log :: "'w \<Rightarrow> string \<Rightarrow> Event list" and ok :: "'w \<Rightarrow> bool" +
  fixes L :: "'w LeaseOps"
    and execute :: "ActionRequest \<Rightarrow> ('w, ActionReceipt) action"
    and calls :: "'w \<Rightarrow> ActionRequest list"
  assumes configured: "c_lease C = Some L" "mo_Executor (c_options C) = Some execute"
    and rebuild_calls: "ok w \<Longrightarrow> es_Rebuild (c_store C) q w = (rb, w') \<Longrightarrow> calls w' = calls w"
    and append_calls: "ok w \<Longrightarrow> es_Append (c_store C) v e w = (ra, w') \<Longrightarrow> calls w' = calls w"
    and validate: "ok w \<Longrightarrow> lo_Validate L l w = (rv, w') \<Longrightarrow>
      ok w' \<and> (\<forall>q. prefix (log w q) (log w' q)) \<and> calls w' = calls w"
    and lookup: "ok w \<Longrightarrow> lo_LookupReceipt L q i w = (rl, w') \<Longrightarrow>
      ok w' \<and> (\<forall>q. prefix (log w q) (log w' q)) \<and> calls w' = calls w"
    and recordReceipt: "ok w \<Longrightarrow> lo_RecordReceipt L l rc w = (rr, w') \<Longrightarrow>
      ok w' \<and> (\<forall>q. prefix (log w q) (log w' q)) \<and> calls w' = calls w"
    and fault: "mo_Fault (c_options C) = Some hook \<Longrightarrow> ok w \<Longrightarrow> hook point command w = (rf, w') \<Longrightarrow>
      ok w' \<and> (\<forall>q. prefix (log w q) (log w' q)) \<and> calls w' = calls w"
    and artifact: "mo_Artifacts (c_options C) = Some verify \<Longrightarrow> ok w \<Longrightarrow> verify i w = (rv', w') \<Longrightarrow>
      ok w' \<and> (\<forall>q. prefix (log w q) (log w' q)) \<and> calls w' = calls w"
    and executor: "ok w \<Longrightarrow> execute rq w = (rx, w') \<Longrightarrow>
      ok w' \<and> (\<forall>q. prefix (log w q) (log w' q)) \<and> calls w' = calls w @ [rq]"
begin

text \<open>Logs grow and the executor is not called.\<close>

definition still :: "'w \<Rightarrow> 'w \<Rightarrow> bool" where
  "still w w' \<longleftrightarrow> grows w w' \<and> calls w' = calls w"

lemma stillI: "ok w' \<and> (\<forall>q. prefix (log w q) (log w' q)) \<and> calls w' = calls w \<Longrightarrow> still w w'"
  by (simp add: still_def grows_def)

lemma still_grows: "still w w' \<Longrightarrow> grows w w'"
  by (simp add: still_def)

lemma still_trans: "still w w' \<Longrightarrow> still w' w'' \<Longrightarrow> still w w''"
  unfolding still_def using grows_trans by auto

end

sublocale managed \<subseteq> idle: world_relation ok still
  by unfold_locales (simp add: still_def grows_refl, rule still_trans, assumption+, rule grows_ok, rule still_grows)

context managed
begin

lemma idle_GetRun [safe_intros]: "idle.safe (GetRun C q)"
  unfolding GetRun_def
  by (rule idle.safe_liftA) (use rebuild rebuild_calls in \<open>auto intro!: stillI\<close>)

lemma idle_storeAppend [safe_intros]: "idle.safe (storeAppend C v e)"
  unfolding storeAppend_def
  by (rule idle.safe_liftA) (use append append_calls in \<open>auto intro!: stillI\<close>)

lemma idle_validate [safe_intros]: "idle.safe (liftA CtlLease (lo_Validate L l))"
  by (rule idle.safe_liftA) (rule stillI [OF validate])

lemma idle_lookup [safe_intros]: "idle.safe (liftA CtlLease (lo_LookupReceipt L q i))"
  by (rule idle.safe_liftA) (rule stillI [OF lookup])

lemma idle_record [safe_intros]: "idle.safe (liftA CtlLease (lo_RecordReceipt L l rc))"
  by (rule idle.safe_liftA) (rule stillI [OF recordReceipt])

lemma idle_inject [safe_intros]: "idle.safe (inject C point command)"
proof (cases "mo_Fault (c_options C)")
  case (Some hook)
  then show ?thesis unfolding inject_def idle.safe_def using stillI [OF fault [OF Some]] by auto
qed (simp add: inject_def idle.safe_returnA)

lemma idle_verifyReceiptArtifact: "idle.safe (verifyReceiptArtifact C state receipt)"
proof (cases "mo_Artifacts (c_options C)")
  case None
  then show ?thesis by (simp add: verifyReceiptArtifact_def idle.safe_returnA idle.safe_failA)
next
  case (Some verify)
  have "idle.safe (liftA CtlStore (verify i))" for i by (rule idle.safe_liftA) (rule stillI [OF artifact [OF Some]])
  then show ?thesis unfolding verifyReceiptArtifact_def Some option.case by (intro safe_intros)
qed

lemma idle_validateReceiptEvidence [safe_intros]: "idle.safe (validateReceiptEvidence C state receipt)"
  unfolding validateReceiptEvidence_def by (intro safe_intros idle_verifyReceiptArtifact)

lemma idle_settleAppend [safe_intros]: "idle.safe (settleAppend C q events res)"
  unfolding settleAppend_def refreshVersion_def by (intro safe_intros)

lemma idle_managedAppend [safe_intros]: "idle.safe (managedAppend C q l ev a)"
  unfolding managedAppend_def Let_def by (intro safe_intros)

lemma idle_finish [safe_intros]: "idle.safe (finishReconcile C q command a)"
  unfolding finishReconcile_def by (intro safe_intros)

lemma idle_failAction [safe_intros]: "idle.safe (failAction C (managedAppend C q l) state command reason outcome a)"
  unfolding failAction_def by (intro safe_intros)

lemma idle_settleReceipt [safe_intros]:
  "idle.safe after \<Longrightarrow> idle.safe (settleReceipt C (managedAppend C q l) state command receipt after a)"
  unfolding settleReceipt_def by (intro safe_intros)

text \<open>One executor call, and everything after it leaves the executor alone.\<close>

lemma execute_once:
  assumes "ok w" "executeManagedAction C L execute presented (managedAppend C q l) state command a w = (r, w')"
  shows "grows w w' \<and> (\<exists>rq. calls w' = calls w @ [rq] \<and> ax_Command rq = command)"
proof -
  let ?rq = "\<lparr>ax_State = state, ax_Command = command, ax_Scope = st_PendingActionScope state\<rparr>"
  obtain rx w1 where x: "execute ?rq w = (rx, w1)" by fastforce
  note ex = executor [OF assms(1) x]
  have g: "grows w w1" using ex by (simp add: grows_def)
  let ?rest = "case rx of
         Inl e \<Rightarrow> failAction C (managedAppend C q l) state command (c_errorText C e) ActionOutcomeFailed a
       | Inr receipt \<Rightarrow>
           bindA (inject C FaultAfterActionExecution command) (\<lambda>_.
           bindA (liftA CtlLease (lo_RecordReceipt L presented (receipt\<lparr>
               rt_RunID := run_ID (st_Run state), rt_ActionID := cmd_ActionID command,
               rt_ActionType := cmd_Type command, rt_IdempotencyScope := st_PendingActionScope state\<rparr>))) (\<lambda>recorded.
           bindA (inject C FaultAfterReceiptPersisted command) (\<lambda>_.
             settleReceipt C (managedAppend C q l) state command (rs_Receipt recorded)
               (inject C FaultAfterActionCompleted command) a)))"
  have "idle.safe ?rest" by (intro safe_intros)
  moreover have "?rest w1 = (r, w')" using assms(2) x by (simp add: executeManagedAction_def bindR_def)
  ultimately have "still w1 w'" using idle.safeD grows_ok [OF g] by blast
  then have "grows w w'" "calls w' = calls w @ [?rq]" using ex grows_trans [OF g] by (simp_all add: still_def)
  then show ?thesis by auto
qed

lemma managedAppend_durable:
  assumes "ok w" "managedAppend C q l ev a w = (Inr a', w')"
  shows "\<exists>e \<in> set (log w' q). ev_Type e = ev_Type ev \<and> ev_Data e = ev_Data ev"
proof -
  let ?e = "ev\<lparr>ev_RunID := q, ev_CorrelationID := q, ev_WorkerID := ls_WorkerID l, ev_FencingToken := ls_FencingToken l\<rparr>"
  obtain v events where a: "a = (v, events)" by (cases a)
  have settled: ?thesis
    if "ok w1" "storeAppend C v' ?e w1 = (Inr res, w2)" "settleAppend C q events res w2 = (Inr a', w')" for v' w1 w2 res
  proof -
    note in2 = storeAppend_in [OF that(1,2)]
    have g: "grows w2 w'" using in2 safeD [OF safe_settleAppend grows_ok that(3)] by blast
    have "ar_Event res \<in> set (log w2 q)" using in2 by simp
    from grows_event [OF g this] show ?thesis using in2 sameIdempotentEvent_fields(2,3) [of "ar_Event res" ?e]
      by (auto intro!: bexI [of _ "ar_Event res"])
  qed
  obtain r w1 where first: "storeAppend C v ?e w = (r, w1)" by fastforce
  show ?thesis
  proof (cases r)
    case (Inr res)
    with assms(2) first have "settleAppend C q events res w1 = (Inr a', w')"
      by (simp add: managedAppend_def a Let_def bindR_def)
    with settled [OF assms(1) first [unfolded Inr]] show ?thesis .
  next
    case (Inl e)
    with assms(2) first obtain st w2 res w3 where get: "GetRun C q w1 = (Inr st, w2)"
      and second: "storeAppend C (run_Version (st_Run st)) ?e w2 = (Inr res, w3)"
      and settle: "settleAppend C q events res w3 = (Inr a', w')"
      by (auto simp: managedAppend_def a Let_def bindR_def bindA_iff split: if_splits)
    have "ok w2" using safeD [OF safe_storeAppend assms(1) first] GetRun_reduces [OF _ get] grows_ok by blast
    from settled [OF this second settle] show ?thesis .
  qed
qed

lemma recover_body:
  assumes "\<not> (desired state = DesiredPaused \<or> observed state = StatusPaused)" "desired state \<noteq> DesiredCancelled"
    and "liftA CtlLease (lo_LookupReceipt L (run_ID (st_Run state)) (st_PendingActionID state)) w = (rl, w1)"
  shows "recoverPendingAction C L execute presented app state a w =
    (case rl of
       Inr receipt \<Rightarrow> settleReceipt C app state (pendingCommand state) receipt (returnA ()) a
     | Inl e \<Rightarrow>
         (if e \<noteq> CtlLease ErrReceiptNotFound then failA e
          else if st_PendingActionScope state \<noteq> IdempotencyScoped
          then failAction C app state (pendingCommand state)
                 ''action outcome is ambiguous and no durable receipt proves completion'' ActionOutcomeAmbiguous a
          else executeManagedAction C L execute presented app state (pendingCommand state) a)) w1"
  using assms by (simp add: recoverPendingAction_def Let_def bindR_def)

text \<open>Recovery calls the executor only when no receipt was found and the action may be repeated.\<close>

lemma recover_idle:
  assumes "ok w" "recoverPendingAction C L execute presented (managedAppend C q l) state a w = (r, w')"
    and "fst (lo_LookupReceipt L (run_ID (st_Run state)) (st_PendingActionID state) w) \<noteq> Inl ErrReceiptNotFound
      \<or> st_PendingActionScope state \<noteq> IdempotencyScoped"
  shows "still w w'"
proof -
  consider (paused) "desired state = DesiredPaused \<or> observed state = StatusPaused"
    | (cancelled) "\<not> (desired state = DesiredPaused \<or> observed state = StatusPaused)" "desired state = DesiredCancelled"
    | (live) "\<not> (desired state = DesiredPaused \<or> observed state = StatusPaused)" "desired state \<noteq> DesiredCancelled" by blast
  then show ?thesis
  proof cases
    case paused
    with assms(2) idle.R_refl [OF assms(1)] show ?thesis by (auto simp: recoverPendingAction_def Let_def)
  next
    case cancelled
    with assms(2) idle.safeD [OF idle_failAction assms(1)] show ?thesis by (auto simp: recoverPendingAction_def Let_def)
  next
    case live
    obtain rl w1 where look: "liftA CtlLease (lo_LookupReceipt L (run_ID (st_Run state)) (st_PendingActionID state)) w = (rl, w1)"
      by fastforce
    have s1: "still w w1" using idle.safeD [OF idle_lookup assms(1) look] .
    then have ok1: "ok w1" using still_grows grows_ok by blast
    have "rl \<noteq> Inl (CtlLease ErrReceiptNotFound) \<or> st_PendingActionScope state \<noteq> IdempotencyScoped"
      using assms(3) look by (auto simp: liftA_def result_simps split: prod.splits)
    then have "idle.safe (case rl of
          Inr receipt \<Rightarrow> settleReceipt C (managedAppend C q l) state (pendingCommand state) receipt (returnA ()) a
        | Inl e \<Rightarrow>
            (if e \<noteq> CtlLease ErrReceiptNotFound then failA e
             else if st_PendingActionScope state \<noteq> IdempotencyScoped
             then failAction C (managedAppend C q l) state (pendingCommand state)
                    ''action outcome is ambiguous and no durable receipt proves completion'' ActionOutcomeAmbiguous a
             else executeManagedAction C L execute presented (managedAppend C q l) state (pendingCommand state) a))"
      by (cases rl) (auto intro!: idle_settleReceipt idle_failAction idle.safe_returnA idle.safe_failA)
    from still_trans [OF s1 idle.safeD [OF this ok1]] assms(2) [unfolded recover_body [OF live look]] show ?thesis .
  qed
qed

lemma recover_once:
  assumes "ok w" "recoverPendingAction C L execute presented (managedAppend C q l) state a w = (r, w')"
  shows "grows w w' \<and> (calls w' = calls w \<or> st_PendingActionScope state = IdempotencyScoped
    \<and> (\<exists>rq. calls w' = calls w @ [rq] \<and> ax_Command rq = pendingCommand state))"
proof (cases "still w w'")
  case True
  then show ?thesis by (simp add: still_def)
next
  case False
  obtain rl w1 where look: "liftA CtlLease (lo_LookupReceipt L (run_ID (st_Run state)) (st_PendingActionID state)) w = (rl, w1)"
    by fastforce
  have s1: "still w w1" using idle.safeD [OF idle_lookup assms(1) look] .
  have nf: "fst (lo_LookupReceipt L (run_ID (st_Run state)) (st_PendingActionID state) w) = Inl ErrReceiptNotFound"
    and scope: "st_PendingActionScope state = IdempotencyScoped"
    using recover_idle [OF assms] False by blast+
  with look have rl: "rl = Inl (CtlLease ErrReceiptNotFound)" by (auto simp: liftA_def mapErr_def split: prod.splits)
  have live: "\<not> (desired state = DesiredPaused \<or> observed state = StatusPaused)" "desired state \<noteq> DesiredCancelled"
    using False assms(2) idle.R_refl [OF assms(1)] idle.safeD [OF idle_failAction assms(1)]
    by (auto simp: recoverPendingAction_def Let_def split: if_splits)
  have "executeManagedAction C L execute presented (managedAppend C q l) state (pendingCommand state) a w1 = (r, w')"
    using assms(2) [unfolded recover_body [OF live look]] rl scope by simp
  from execute_once [OF grows_ok [OF still_grows [OF s1]] this] scope s1 grows_trans [OF still_grows [OF s1]]
  show ?thesis by (auto simp: still_def)
qed

lemma planned_grows: "planned (log w q) i t \<Longrightarrow> grows w w' \<Longrightarrow> planned (log w' q) i t"
  unfolding planned_def using grows_event by blast

lemma pending_request_planned:
  assumes "accepts h (log w q) state" "st_PendingActionScope state = IdempotencyScoped"
  shows "planned (log w q) (cmd_ActionID (pendingCommand state)) (cmd_Type (pendingCommand state))"
proof -
  have "st_PendingActionType state \<noteq> CommandNone"
  proof (cases "log w q = []")
    case True
    with assms accepts_nonempty [of h "[]" state] show ?thesis by (auto simp: InitialState_def)
  next
    case False
    with assms(1) accepts_exists accepts_inv have "state_inv state" by blast
    with assms(2) show ?thesis by (auto simp: state_inv_def pending_ok_def split: if_splits)
  qed
  from accepts_pending_planned [OF assms(1) this] show ?thesis by (simp add: pendingCommand_def)
qed

text \<open>What a whole call may do: nothing to the executor, or one call for a planned action.\<close>

definition once :: "string \<Rightarrow> 'w \<Rightarrow> 'w \<Rightarrow> bool" where
  "once run w w' \<longleftrightarrow> grows w w' \<and> (calls w' = calls w \<or> (\<exists>rq. calls w' = calls w @ [rq]
     \<and> planned (log w' run) (cmd_ActionID (ax_Command rq)) (cmd_Type (ax_Command rq))))"

lemma still_once: "still w w' \<Longrightarrow> once run w w'"
  by (simp add: still_def once_def)

lemma still_then_once: "still w w' \<Longrightarrow> once run w' w'' \<Longrightarrow> once run w w''"
  unfolding still_def once_def using grows_trans by auto

text \<open>The fresh path, after the plan was acknowledged.\<close>

lemma execute_planned:
  assumes "ok w" "planned (log w run) (cmd_ActionID command) (cmd_Type command)"
    and "bindA (inject C FaultAfterActionPlanned command) (\<lambda>_.
         bindA (GetRun C run) (\<lambda>plannedState.
           executeManagedAction C L execute l (managedAppend C run l) plannedState command a)) w = (r, w')"
  shows "once run w w'"
proof -
  obtain i w1 where inj: "inject C FaultAfterActionPlanned command w = (i, w1)" by fastforce
  have s1: "still w w1" using idle.safeD [OF idle_inject assms(1) inj] .
  then have ok1: "ok w1" using still_grows grows_ok by blast
  obtain g w2 where get: "GetRun C run w1 = (g, w2)" by fastforce
  have s2: "still w w2" using still_trans [OF s1 idle.safeD [OF idle_GetRun ok1 get]] .
  show ?thesis
  proof (cases "isl i \<or> isl g")
    case True
    with assms(3) inj get have "w' = w1 \<or> w' = w2" by (auto simp: bindA_def split: sum.splits)
    with still_once s1 s2 show ?thesis by blast
  next
    case False
    then obtain st where "executeManagedAction C L execute l (managedAppend C run l) st command a w2 = (r, w')"
      using assms(3) inj get by (cases i; cases g) (auto simp: bindA_def)
    note ex = execute_once [OF grows_ok [OF still_grows [OF s2]] this]
    then have "planned (log w' run) (cmd_ActionID command) (cmd_Type command)"
      using planned_grows [OF assms(2)] grows_trans [OF still_grows [OF s2]] by blast
    with ex have "once run w2 w'" by (auto simp: once_def)
    with s2 show ?thesis by (rule still_then_once)
  qed
qed

text \<open>The fresh path: plan, then execute.\<close>

lemma fresh_once:
  assumes "ok w" "bindA (inject C FaultBeforeActionPlanned command) (\<lambda>_.
        if \<not> IdempotencyScope_Valid scope then failA ErrInvalidRequest
        else bindR (managedAppend C run l (actionPlannedEvent command scope) a) (\<lambda>r.
          case r of
            Inl e \<Rightarrow>
              (if isVersionConflict e
               then bindA (GetRun C run) (\<lambda>current.
                      returnA \<lparr>rc_Command = noopCommand, rc_Events = [], rc_State = current\<rparr>)
               else failA e)
          | Inr a' \<Rightarrow>
              bindA (inject C FaultAfterActionPlanned command) (\<lambda>_.
              bindA (GetRun C run) (\<lambda>plannedState.
                executeManagedAction C L execute l (managedAppend C run l) plannedState command a')))) w = (r, w')"
  shows "once run w w'"
proof -
  obtain i w1 where inj: "inject C FaultBeforeActionPlanned command w = (i, w1)" by fastforce
  have s1: "still w w1" using idle.safeD [OF idle_inject assms(1) inj] .
  then have ok1: "ok w1" using still_grows grows_ok by blast
  obtain ra w2 where app: "managedAppend C run l (actionPlannedEvent command scope) a w1 = (ra, w2)" by fastforce
  have s2: "still w w2" using still_trans [OF s1 idle.safeD [OF idle_managedAppend ok1 app]] .
  then have ok2: "ok w2" using still_grows grows_ok by blast
  show ?thesis
  proof (cases "isl i \<or> \<not> IdempotencyScope_Valid scope")
    case True
    with assms(2) inj have "w' = w1" by (auto simp: bindA_def split: sum.splits)
    with still_once s1 show ?thesis by simp
  next
    case False
    then obtain u where i: "i = Inr u" by (cases i) auto
    show ?thesis
    proof (cases ra)
      case (Inl e)
      let ?m = "if isVersionConflict e
               then bindA (GetRun C run) (\<lambda>current.
                      returnA \<lparr>rc_Command = noopCommand, rc_Events = [], rc_State = current\<rparr>)
               else failA e"
      have m: "?m w2 = (r, w')" using assms(2) inj i False app Inl by (simp add: bindA_def bindR_def)
      have "idle.safe ?m" by (intro safe_intros)
      from still_trans [OF s2 idle.safeD [OF this ok2 m]] show ?thesis by (rule still_once)
    next
      case (Inr a')
      have "planned (log w2 run) (cmd_ActionID command) (cmd_Type command)"
        using managedAppend_durable [OF ok1 app [unfolded Inr]] by (auto simp: planned_def actionPlannedEvent_def)
      from execute_planned [OF ok2 this] assms(2) inj i False app Inr have "once run w2 w'"
        by (simp add: bindA_def bindR_def)
      with s2 show ?thesis by (rule still_then_once)
    qed
  qed
qed

text \<open>A call after the lease was validated and the State was read.\<close>

lemma reconcile_loaded_once:
  assumes "ok w1" "ls_RunID l = run" "liftA CtlLease (lo_Validate L l) w = (Inr u, w1)" "GetRun C run w1 = (Inr state, w2)"
    and "ReconcileLeased C run l w = (r, w')"
  shows "once run w2 w'"
proof -
  have ok2: "ok w2" using GetRun_reduces [OF assms(1,4)] grows_ok by blast
  have acc: "accepts h (log w2 run) state" using GetRun_reduces [OF assms(1,4)] by blast
  let ?start = "(run_Version (st_Run state), [])" and ?command = "Decide h state"
  consider (recover) "st_PendingActionID state \<noteq> ''''" "recoverPendingAction C L execute l (managedAppend C run l) state ?start w2 = (r, w')"
    | (noop) "w' = w2"
    | (fresh) "bindA (inject C FaultBeforeActionPlanned ?command) (\<lambda>_.
        if \<not> IdempotencyScope_Valid (mo_Safety (c_options C) ?command) then failA ErrInvalidRequest
        else bindR (managedAppend C run l (actionPlannedEvent ?command (mo_Safety (c_options C) ?command)) ?start) (\<lambda>r.
        case r of
          Inl e \<Rightarrow>
            (if isVersionConflict e
             then bindA (GetRun C run) (\<lambda>current.
                    returnA \<lparr>rc_Command = noopCommand, rc_Events = [], rc_State = current\<rparr>)
             else failA e)
        | Inr a' \<Rightarrow>
            bindA (inject C FaultAfterActionPlanned ?command) (\<lambda>_.
            bindA (GetRun C run) (\<lambda>plannedState.
              executeManagedAction C L execute l (managedAppend C run l) plannedState ?command a')))) w2 = (r, w')"
    using assms(2-5)
    by (cases "st_PendingActionID state = ''''"; cases "cmd_Type ?command = CommandNoop")
       (simp_all add: ReconcileLeased_def configured bindA_def Let_def)
  then show ?thesis
  proof cases
    case recover
    from recover_once [OF ok2 recover(2)] pending_request_planned [OF acc] planned_grows
    show ?thesis unfolding once_def by metis
  next
    case noop
    then show ?thesis using grows_refl [OF ok2] by (simp add: once_def)
  next
    case fresh
    from fresh_once [OF ok2 fresh] show ?thesis .
  qed
qed

lemma ReconcileLeased_once:
  assumes "ok w" "ReconcileLeased C run l w = (r, w')"
  shows "once run w w'"
proof (cases "ls_RunID l = run")
  case False
  with assms show ?thesis using grows_refl by (simp add: ReconcileLeased_def configured once_def)
next
  case same: True
  obtain v w1 where val: "liftA CtlLease (lo_Validate L l) w = (v, w1)" by fastforce
  have s1: "still w w1" using idle.safeD [OF idle_validate assms(1) val] .
  then have ok1: "ok w1" using still_grows grows_ok by blast
  obtain g w2 where get: "GetRun C run w1 = (g, w2)" by fastforce
  have s2: "still w w2" using still_trans [OF s1 idle.safeD [OF idle_GetRun ok1 get]] .
  show ?thesis
  proof (cases "isl v \<or> isl g")
    case True
    with assms(2) same val get have "w' = w1 \<or> w' = w2"
      by (auto simp: ReconcileLeased_def configured bindA_def split: sum.splits)
    with s1 s2 still_once show ?thesis by blast
  next
    case False
    then obtain u state where vg: "v = Inr u" "g = Inr state" by (cases v; cases g) auto
    from reconcile_loaded_once [OF ok1 same val [unfolded vg] get [unfolded vg] assms(2)] s2
    show ?thesis using still_then_once by blast
  qed
qed

end

section \<open>Without other clients\<close>

locale quiet_managed = managed C log ok L execute calls
  for C :: "'w Controller" and log :: "'w \<Rightarrow> string \<Rightarrow> Event list" and ok :: "'w \<Rightarrow> bool" and L :: "'w LeaseOps"
    and execute :: "ActionRequest \<Rightarrow> ('w, ActionReceipt) action" and calls :: "'w \<Rightarrow> ActionRequest list" +
  assumes quiet_rebuild: "ok w \<Longrightarrow> es_Rebuild (c_store C) q w = (rb, w') \<Longrightarrow> log w' = log w"
    and quiet_append: "ok w \<Longrightarrow> es_Append (c_store C) v e w = (ra, w') \<Longrightarrow> log w' = log w \<or>
      (\<exists>e'. log w' = (log w)(ev_RunID e := log w (ev_RunID e) @ [e']) \<and> sameIdempotentEvent e' e)"
    and quiet_validate: "ok w \<Longrightarrow> lo_Validate L l w = (rv, w') \<Longrightarrow> log w' = log w"
    and quiet_lookup: "ok w \<Longrightarrow> lo_LookupReceipt L q i w = (rl, w') \<Longrightarrow> log w' = log w"
    and quiet_record: "ok w \<Longrightarrow> lo_RecordReceipt L l rc w = (rr, w') \<Longrightarrow> log w' = log w"
    and quiet_fault: "mo_Fault (c_options C) = Some hook \<Longrightarrow> ok w \<Longrightarrow> hook point command w = (rf, w') \<Longrightarrow> log w' = log w"
    and quiet_artifact: "mo_Artifacts (c_options C) = Some verify \<Longrightarrow> ok w \<Longrightarrow> verify i w = (rv', w') \<Longrightarrow> log w' = log w"
    and quiet_execute: "ok w \<Longrightarrow> execute rq w = (rx, w') \<Longrightarrow> log w' = log w"

sublocale quiet_managed \<subseteq> frozen: world_relation "\<lambda>w. ok w \<and> log w run = es" "\<lambda>w w'. ok w' \<and> log w' run = es" for run es
  by unfold_locales simp_all

context quiet_managed
begin

text \<open>
  With nothing pending, the log of a Run accepts no result of a managed action and no plan with a key
  it already holds.
\<close>

definition refused :: "Event list \<Rightarrow> Event \<Rightarrow> bool" where
  "refused es e \<longleftrightarrow> ev_Type e \<in> {EventActionCompleted, EventActionFailed} \<or> ev_IdempotencyKey e \<in> ev_IdempotencyKey ` set es"

lemma frozen_append:
  assumes "accepts h es st" "st_PendingActionID st = ''''" "refused es e"
  shows "frozen.safe run es (storeAppend C v e)"
  unfolding storeAppend_def
proof (rule frozen.safe_liftA)
  fix w r w' assume w: "ok w \<and> log w run = es" and a: "es_Append (c_store C) v e w = (r, w')"
  have ok': "ok w'" using append w a by blast
  show "ok w' \<and> log w' run = es"
  proof (rule ccontr)
    assume "\<not> (ok w' \<and> log w' run = es)"
    with ok' w quiet_append [of w v e r w'] a obtain e' where
      e': "log w' run = es @ [e']" "sameIdempotentEvent e' e" by (auto split: if_splits)
    obtain st1 st' where acc: "accepts h (es @ [e']) st'" "envelope_ok es st e'" "applyEvent h st e' = Inr st1"
      using ok_accepts [OF ok', of run] accepts_unique [OF _ assms(1)] unfolding e'(1) by (auto simp: accepts_snoc_iff)
    have "ev_Type e' = ev_Type e" "ev_IdempotencyKey e' = ev_IdempotencyKey e"
      using sameIdempotentEvent_fields [OF e'(2)] by auto
    with assms(2,3) acc(2,3) show False
      by (auto simp: refused_def envelope_ok_def applyEvent_def applyActionCompleted_def applyActionFailed_def Let_def
          bindE_Inr_iff requireManagedPendingAction_iff split: if_splits)
  qed
qed

lemma frozen_GetRun [safe_intros]: "frozen.safe run es (GetRun C q)"
  unfolding GetRun_def using quiet_rebuild rebuild by (intro frozen.safe_liftA) metis

lemma frozen_GetRun_bind:
  assumes "accepts h es st" "frozen.safe run es (f st)"
  shows "frozen.safe run es (bindA (GetRun C run) f)"
  unfolding frozen.safe_def
proof (intro allI impI)
  fix w r w' assume w: "ok w \<and> log w run = es" and b: "bindA (GetRun C run) f w = (r, w')"
  obtain g w1 where get: "GetRun C run w = (g, w1)" by fastforce
  have w1: "ok w1 \<and> log w1 run = es" using frozen.safeD [OF frozen_GetRun w get] .
  show "ok w' \<and> log w' run = es"
  proof (cases g)
    case (Inr st')
    have "st' = st" using GetRun_reduces [of w run st' w1] get w w1 Inr accepts_unique [OF _ assms(1)] by auto
    with b get Inr have "f st w1 = (r, w')" by (simp add: bindA_def)
    with frozen.safeD [OF assms(2) w1] show ?thesis by blast
  qed (use b get w1 in \<open>simp add: bindA_def\<close>)
qed

lemma frozen_lease [safe_intros]:
  "frozen.safe run es (liftA CtlLease (lo_Validate L l))"
  "frozen.safe run es (liftA CtlLease (lo_LookupReceipt L q i))"
  "frozen.safe run es (liftA CtlLease (lo_RecordReceipt L l rc))"
  using quiet_validate validate quiet_lookup lookup quiet_record recordReceipt by (intro frozen.safe_liftA; metis)+

lemma frozen_inject [safe_intros]: "frozen.safe run es (inject C point command)"
proof (cases "mo_Fault (c_options C)")
  case (Some hook)
  then show ?thesis unfolding inject_def frozen.safe_def using fault [OF Some] quiet_fault [OF Some] by auto
qed (simp add: inject_def frozen.safe_returnA)

lemma frozen_evidence [safe_intros]: "frozen.safe run es (validateReceiptEvidence C state receipt)"
proof (cases "mo_Artifacts (c_options C)")
  case None
  then show ?thesis unfolding validateReceiptEvidence_def verifyReceiptArtifact_def None option.case by (intro safe_intros)
next
  case (Some verify)
  have "frozen.safe run es (liftA CtlStore (verify i))" for i
    using artifact [OF Some] quiet_artifact [OF Some] by (intro frozen.safe_liftA) metis
  then show ?thesis unfolding validateReceiptEvidence_def verifyReceiptArtifact_def Some option.case by (intro safe_intros)
qed

lemma frozen_settle [safe_intros]: "frozen.safe run es (settleAppend C q events res)"
  unfolding settleAppend_def refreshVersion_def by (intro safe_intros)

lemma frozen_managedAppend:
  assumes "accepts h es st" "st_PendingActionID st = ''''" "refused es ev"
  shows "frozen.safe run es (managedAppend C q l ev a)"
proof -
  let ?e = "ev\<lparr>ev_RunID := q, ev_CorrelationID := q, ev_WorkerID := ls_WorkerID l, ev_FencingToken := ls_FencingToken l\<rparr>"
  have "refused es ?e" using assms(3) by (simp add: refused_def)
  note app = frozen_append [OF assms(1,2) this]
  show ?thesis unfolding managedAppend_def Let_def by (intro safe_intros app)
qed

lemma frozen_execute:
  assumes "accepts h es st" "st_PendingActionID st = ''''"
  shows "frozen.safe run es (executeManagedAction C L execute l (managedAppend C q l) state command a)"
proof -
  have x: "frozen.safe run es (execute rq)" for rq
    unfolding frozen.safe_def using executor quiet_execute by metis
  have failed: "frozen.safe run es (managedAppend C q l (actionFailedEvent c reason outcome) b)" for c reason outcome b
    by (rule frozen_managedAppend [OF assms]) (simp add: refused_def actionFailedEvent_def)
  have completed: "frozen.safe run es (managedAppend C q l (actionCompletedEvent receipt) b)" for receipt b
    by (rule frozen_managedAppend [OF assms]) (simp add: refused_def actionCompletedEvent_def)
  show ?thesis
    unfolding executeManagedAction_def failAction_def settleReceipt_def finishReconcile_def
    by (intro safe_intros x failed completed)
qed

text \<open>A Run whose next plan has a key of its log is stuck: no call changes its log.\<close>

lemma replan_frozen:
  assumes "accepts h es st" "st_PendingActionID st = ''''"
    and "cmd_ActionID (Decide h st) @ '':action-planned'' \<in> ev_IdempotencyKey ` set es"
  shows "frozen.safe run es (ReconcileLeased C run l)"
proof -
  have plan: "frozen.safe run es (managedAppend C run l (actionPlannedEvent (Decide h st) scope) a)" for scope a
    by (rule frozen_managedAppend [OF assms(1,2)]) (simp add: refused_def actionPlannedEvent_def assms(3))
  let ?start = "(run_Version (st_Run st), [])"
  have "frozen.safe run es (if st_PendingActionID st \<noteq> ''''
      then recoverPendingAction C L execute l (managedAppend C run l) st ?start
      else let command = Decide h st in
        if cmd_Type command = CommandNoop
        then returnA \<lparr>rc_Command = command, rc_Events = [], rc_State = st\<rparr>
        else bindA (inject C FaultBeforeActionPlanned command) (\<lambda>_.
          let scope = mo_Safety (c_options C) command in
          if \<not> IdempotencyScope_Valid scope then failA ErrInvalidRequest
          else bindR (managedAppend C run l (actionPlannedEvent command scope) ?start) (\<lambda>r.
            case r of
              Inl e \<Rightarrow>
                (if isVersionConflict e
                 then bindA (GetRun C run) (\<lambda>current.
                        returnA \<lparr>rc_Command = noopCommand, rc_Events = [], rc_State = current\<rparr>)
                 else failA e)
            | Inr a \<Rightarrow>
                bindA (inject C FaultAfterActionPlanned command) (\<lambda>_.
                bindA (GetRun C run) (\<lambda>plannedState.
                  executeManagedAction C L execute l (managedAppend C run l) plannedState command a)))))"
    unfolding assms(2) Let_def
    by (simp only: simp_thms if_False) (intro safe_intros plan frozen_execute [OF assms(1,2)])
  note body = this [unfolded Let_def]
  show ?thesis
    unfolding ReconcileLeased_def configured prod.case option.case Let_def
    by (rule frozen.safe_if, rule frozen.safe_failA, rule frozen.safe_bindA, rule frozen_lease,
        rule frozen_GetRun_bind [OF assms(1)], rule body)
qed

end

end
