(* ===== verification/Cli.thy ===== *)
theory Cli
  imports Controller_Props Managed_Contract
begin

text \<open>
  The command line of \<open>src/internal/cli\<close>: each \<open>run\<close> subcommand as an action that returns what it
  prints, and the demonstration with its two unbounded loops. Argument parsing is the cobra package's;
  \<open>Output\<close> is the value handed to \<open>writeJSON\<close> or to \<open>fmt.Fprintf\<close>.
\<close>

section \<open>The run subcommands\<close>

datatype Output =
    OutState State
  | OutEvents "Event list"
  | OutStep CommandType State "Event list"

definition createCommand :: "'w Controller \<Rightarrow> string \<Rightarrow> string \<Rightarrow> string \<Rightarrow> ('w, Output) action" where
  "createCommand C runID scenarioID specHash =
     bindA (CreateRun C \<lparr>cr_RunID = runID, cr_ScenarioID = scenarioID, cr_SpecHash = specHash, cr_CreatedAt = ''''\<rparr>)
       (\<lambda>state. returnA (OutState state))"

definition getCommand :: "'w Controller \<Rightarrow> string \<Rightarrow> ('w, Output) action" where
  "getCommand C runID = bindA (GetRun C runID) (\<lambda>state. returnA (OutState state))"

definition eventsCommand :: "'w Controller \<Rightarrow> string \<Rightarrow> ('w, Output) action" where
  "eventsCommand C runID = bindA (Events C runID) (\<lambda>events. returnA (OutEvents events))"

definition stepCommand :: "'w Controller \<Rightarrow> string \<Rightarrow> ('w, Output) action" where
  "stepCommand C runID =
     bindA (Reconcile C runID) (\<lambda>result.
       returnA (OutStep (cmd_Type (rc_Command result)) (rc_State result) (rc_Events result)))"

definition desiredCommand :: "'w Controller \<Rightarrow> DesiredState \<Rightarrow> string \<Rightarrow> ('w, Output) action" where
  "desiredCommand C d runID = bindA (SetDesiredState C runID d) (\<lambda>state. returnA (OutState state))"

definition cancelCommand :: "'w Controller \<Rightarrow> string \<Rightarrow> ('w, Output) action" where
  "cancelCommand C runID =
     bindA (SetDesiredState C runID DesiredCancelled) (\<lambda>state.
     bindR (Reconcile C runID) (\<lambda>r.
       case r of
         Inr result \<Rightarrow> returnA (OutState (rc_State result))
       | Inl e \<Rightarrow> if e = ErrManagedRunRequiresLease then returnA (OutState state) else failA e))"

section \<open>The demonstration\<close>

datatype DemoLine =
    LineEvent EventType
  | LineFinal Status nat
  | LineBeforePause Status
  | LinePaused Status Status
  | LineResumed Status
  | LinePauseResumeFinal Status

text \<open>The loop of the successful Run: reconcile until the State is terminal.\<close>

partial_function (option) driveRun :: "'w Controller \<Rightarrow> string \<Rightarrow> nat \<Rightarrow> DemoLine list \<Rightarrow> 'w
    \<Rightarrow> ((CtlError + DemoLine list) \<times> 'w) option" where
  [code]: "driveRun C runID printed out w =
     (case Reconcile C runID w of
        (Inl e, w') \<Rightarrow> Some (Inl e, w')
      | (Inr result, w') \<Rightarrow>
          (let out' = out @ map (\<lambda>event. LineEvent (ev_Type event)) (rc_Events result);
               printed' = printed + length (rc_Events result) in
           if Terminal (observed (rc_State result))
           then Some (Inr (out' @ [LineFinal (observed (rc_State result)) printed']), w')
           else driveRun C runID printed' out' w'))"

text \<open>The loop after the resume: \<open>for !resumed.Run.ObservedState.Terminal()\<close>.\<close>

partial_function (option) driveResumed :: "'w Controller \<Rightarrow> string \<Rightarrow> State \<Rightarrow> 'w \<Rightarrow> ((CtlError + State) \<times> 'w) option" where
  [code]: "driveResumed C runID resumed w =
     (if Terminal (observed resumed) then Some (Inr resumed, w)
      else case Reconcile C runID w of
          (Inl e, w') \<Rightarrow> Some (Inl e, w')
        | (Inr result, w') \<Rightarrow> driveResumed C runID (rc_State result) w')"

definition demoUnexpected :: CtlError where
  "demoUnexpected = CtlExecutor ''paused reconcile produced a command or events''"

fun pausedPolls :: "'w Controller \<Rightarrow> string \<Rightarrow> nat \<Rightarrow> ('w, unit) action" where
  "pausedPolls C runID 0 = returnA ()"
| "pausedPolls C runID (Suc n) =
     bindA (Reconcile C runID) (\<lambda>result.
       if cmd_Type (rc_Command result) \<noteq> CommandNoop \<or> rc_Events result \<noteq> [] then failA demoUnexpected
       else pausedPolls C runID n)"

definition printEvents :: "'w Controller \<Rightarrow> string \<Rightarrow> nat \<Rightarrow> ('w, DemoLine list) action" where
  "printEvents C runID start =
     bindA (Events C runID) (\<lambda>events. returnA (map (\<lambda>event. LineEvent (ev_Type event)) (drop start events)))"

text \<open>Sequencing of the parts, some of which may not return.\<close>

definition andThen :: "((CtlError + 'a) \<times> 'w) option \<Rightarrow> ('a \<Rightarrow> 'w \<Rightarrow> ((CtlError + 'b) \<times> 'w) option)
    \<Rightarrow> ((CtlError + 'b) \<times> 'w) option" where
  "andThen m f =
     (case m of None \<Rightarrow> None | Some (Inl e, w) \<Rightarrow> Some (Inl e, w) | Some (Inr x, w) \<Rightarrow> f x w)"

definition demoSuccess :: "'w Controller \<Rightarrow> 'w \<Rightarrow> ((CtlError + DemoLine list) \<times> 'w) option" where
  "demoSuccess C w =
     andThen (Some (CreateRun C \<lparr>cr_RunID = ''demo-success'', cr_ScenarioID = ''phase-1-success'',
         cr_SpecHash = ''phase-1-spec'', cr_CreatedAt = ''''\<rparr> w)) (\<lambda>_ w.
     andThen (Some (printEvents C ''demo-success'' 0 w)) (\<lambda>out w.
     driveRun C ''demo-success'' 1 out w))"

definition demoPauseResume :: "'w Controller \<Rightarrow> DemoLine list \<Rightarrow> 'w \<Rightarrow> ((CtlError + DemoLine list) \<times> 'w) option" where
  "demoPauseResume C out w =
     (let run = ''demo-pause-resume'' in
     andThen (Some (CreateRun C \<lparr>cr_RunID = run, cr_ScenarioID = ''phase-1-pause-resume'',
         cr_SpecHash = ''phase-1-spec'', cr_CreatedAt = ''''\<rparr> w)) (\<lambda>_ w.
     andThen (Some (Reconcile C run w)) (\<lambda>first w.
     andThen (Some (SetDesiredState C run DesiredPaused w)) (\<lambda>paused w.
     andThen (Some (pausedPolls C run 10 w)) (\<lambda>_ w.
     andThen (Some (SetDesiredState C run DesiredRunning w)) (\<lambda>resumed w.
     andThen (driveResumed C run resumed w) (\<lambda>fin w.
       Some (Inr (out @ [LineBeforePause (observed (rc_State first)), LinePaused (observed paused) (st_ResumeState paused),
         LineResumed (observed resumed), LinePauseResumeFinal (observed fin)]), w))))))))"

definition demoFake :: "'w Controller \<Rightarrow> 'w \<Rightarrow> ((CtlError + DemoLine list) \<times> 'w) option" where
  "demoFake C w = andThen (demoSuccess C w) (demoPauseResume C)"

section \<open>The path without leases\<close>

text \<open>The events of the path without leases.\<close>

definition legacyEvents :: "EventType set" where
  "legacyEvents = {EventAttemptStarted, EventWorkspaceProvisioned, EventReasoningPlanned, EventReasoningCompleted,
     EventToolCallFailed, EventPatchProduced, EventVerificationPlanned, EventVerificationPassed,
     EventRunSucceeded, EventRunFailed, EventRunCancelled}"

lemma applyEvent_legacy:
  assumes "ev_Type ev \<in> legacyEvents" "applyEvent h st ev = Inr st'"
  shows "desired st' = desired st \<and> (observed st' = StatusWaitingApproval \<longrightarrow> observed st = StatusWaitingApproval)"
  using assms
  by (auto simp: legacyEvents_def applyEvent_def lifecycle_defs Let_def result_simps moveTo_def split: if_splits)

definition active :: "State \<Rightarrow> bool" where
  "active st \<longleftrightarrow> desired st = DesiredRunning \<and> observed st \<noteq> StatusWaitingApproval"

lemma active_grows:
  assumes "accepts h es st" "es \<noteq> []" "active st" "accepts h (es @ fs) st'" "\<forall>e\<in>set fs. ev_Type e \<in> legacyEvents"
  shows "active st'"
  by (rule accepts_stable [where P = active and Q = "\<lambda>e. ev_Type e \<in> legacyEvents", OF _ assms]) (auto simp: active_def stampEvent_def dest!: applyEvent_legacy)

section \<open>A controller on its own\<close>

text \<open>
  When no other client acts, a call changes the log of a Run by at most the event it appends. The
  relation \<open>adds T run\<close> says that only events of the types \<open>T\<close> were added.
\<close>

locale solo_controller = controller C log ok
  for C :: "'w Controller" and log :: "'w \<Rightarrow> string \<Rightarrow> Event list" and ok :: "'w \<Rightarrow> bool" +
  assumes solo_rebuild: "ok w \<Longrightarrow> es_Rebuild (c_store C) q w = (rb, w') \<Longrightarrow> log w' = log w"
    and solo_append: "ok w \<Longrightarrow> es_Append (c_store C) v e w = (ra, w') \<Longrightarrow> log w' = log w \<or>
      (\<exists>e'. log w' = (log w)(ev_RunID e := log w (ev_RunID e) @ [e']) \<and> sameIdempotentEvent e' e)"
    and solo_inspect: "es_IsManagedRun (c_store C) = Some f \<Longrightarrow> ok w \<Longrightarrow> f q w = (ri, w') \<Longrightarrow> log w' = log w"
    and solo_consult: "ok w \<Longrightarrow> c_consult C request w = (r, w') \<Longrightarrow> log w' = log w"
begin

definition adds :: "EventType set \<Rightarrow> string \<Rightarrow> 'w \<Rightarrow> 'w \<Rightarrow> bool" where
  "adds T run w w' \<longleftrightarrow> ok w' \<and> (\<exists>es. log w' run = log w run @ es \<and> (\<forall>e\<in>set es. ev_Type e \<in> T))"

lemma adds_same: "ok w' \<Longrightarrow> log w' = log w \<Longrightarrow> adds T run w w'"
  by (simp add: adds_def)

lemma adds_trans:
  assumes "adds T run w w'" "adds T run w' w''"
  shows "adds T run w w''"
proof -
  obtain es where es: "log w' run = log w run @ es" "\<forall>e\<in>set es. ev_Type e \<in> T"
    using assms(1) by (auto simp: adds_def)
  obtain fs where fs: "log w'' run = log w' run @ fs" "\<forall>e\<in>set fs. ev_Type e \<in> T"
    using assms(2) by (auto simp: adds_def)
  have "log w'' run = log w run @ (es @ fs)" "\<forall>e\<in>set (es @ fs). ev_Type e \<in> T"
    using es fs by auto
  with assms(2) show ?thesis unfolding adds_def by blast
qed

lemma adds_ok: "adds T run w w' \<Longrightarrow> ok w'"
  by (simp add: adds_def)

end

sublocale solo_controller \<subseteq> own: world_relation ok "adds T run" for T run
  by unfold_locales (simp add: adds_def, rule adds_trans, assumption+, rule adds_ok)

context solo_controller
begin

lemma own_GetRun [safe_intros]: "own.safe T run (GetRun C q)"
  unfolding GetRun_def using solo_rebuild rebuild by (intro own.safe_liftA adds_same) blast+

lemma own_inspect [safe_intros]: "own.safe T run (inspectManaged C q)"
proof (cases "es_IsManagedRun (c_store C)")
  case None
  then show ?thesis by (simp add: inspectManaged_def own.safe_returnA)
next
  case (Some f)
  have "own.safe T run (liftA CtlStore (f q))"
    using solo_inspect [OF Some] inspect [OF Some] by (intro own.safe_liftA adds_same) blast+
  with Some show ?thesis by (simp add: inspectManaged_def)
qed

lemma own_consult [safe_intros]: "own.safe T run (liftA CtlReasoner (c_consult C rq))"
  using solo_consult consult by (intro own.safe_liftA adds_same) blast+

lemma own_storeAppend:
  assumes "ev_Type e \<in> T"
  shows "own.safe T run (storeAppend C v e)"
  unfolding storeAppend_def
proof (rule own.safe_liftA)
  fix w r w' assume "ok w" "es_Append (c_store C) v e w = (r, w')"
  then show "adds T run w w'"
    using solo_append [of w v e r w'] append [of w v e r w'] sameIdempotentEvent_fields(2) assms
    by (auto simp: adds_def)
qed

lemma own_settleAppend [safe_intros]: "own.safe T run (settleAppend C q events res)"
  unfolding settleAppend_def refreshVersion_def by (intro safe_intros)

lemma own_appendEvent: "ev_Type ev \<in> T \<Longrightarrow> own.safe T run (appendEvent C q ev a)"
  unfolding appendEvent_def Let_def by (intro safe_intros own_storeAppend) simp_all

lemma own_step: "t \<in> legacyEvents \<Longrightarrow> own.safe legacyEvents run (appendEvent C q (stepEvent t i d sfx) a)"
  by (rule own_appendEvent) (simp add: stepEvent_def)

lemma legacy_intro [safe_intros]:
  "EventAttemptStarted \<in> legacyEvents" "EventWorkspaceProvisioned \<in> legacyEvents" "EventReasoningPlanned \<in> legacyEvents"
  "EventReasoningCompleted \<in> legacyEvents" "EventToolCallFailed \<in> legacyEvents" "EventPatchProduced \<in> legacyEvents"
  "EventVerificationPlanned \<in> legacyEvents" "EventVerificationPassed \<in> legacyEvents" "EventRunSucceeded \<in> legacyEvents"
  "EventRunFailed \<in> legacyEvents" "EventRunCancelled \<in> legacyEvents"
  by (simp_all add: legacyEvents_def)

lemma own_runReasoner: "own.safe legacyEvents run (runReasoner C q state command a)"
  unfolding runReasoner_def appendControlledReasonerFailure_def by (intro safe_intros own_step)

lemma own_runVerify: "own.safe legacyEvents run (runVerify C q state command a)"
  unfolding runVerify_def by (intro safe_intros own_step)

lemma own_executeCommand: "own.safe legacyEvents run (executeCommand C q state command a)"
  unfolding executeCommand_def Let_def
  by (cases "cmd_Type command") (simp_all add: own_runReasoner own_runVerify own_step legacy_intro own.safe_failA)

lemma own_Reconcile: "own.safe legacyEvents run (Reconcile C q)"
  unfolding Reconcile_def by (intro safe_intros own_executeCommand)

text \<open>Alone with an active Run, Reconcile fails, ends it or leaves it active at a larger stage.\<close>

lemma solo_Reconcile:
  assumes "ok w" "accepts h (log w run) st" "active st" "Reconcile C run w = (Inr r, w')"
  shows "ok w' \<and> (Terminal (observed (rc_State r)) \<or>
    accepts h (log w' run) (rc_State r) \<and> active (rc_State r) \<and> stage st < stage (rc_State r))"
proof -
  have grow: "grows w w'" using safeD [OF safe_Reconcile assms(1,4)] .
  have "adds legacyEvents run w w'" using own.safeD [OF own_Reconcile assms(1,4)] .
  then obtain es where es: "log w' run = log w run @ es" "\<forall>e\<in>set es. ev_Type e \<in> legacyEvents" by (auto simp: adds_def)
  obtain p st1 where p: "prefix (log w run) p" "prefix p (log w' run)" "accepts h p st1" "rc_Command r = Decide h st1"
    and fin: "if cmd_Type (rc_Command r) = CommandNoop then rc_State r = st1
       else resulted run (rc_Command r) w' \<and> accepts h (log w' run) (rc_State r)"
    using Reconcile_result [OF assms(1,4)] by blast
  have ne: "log w run \<noteq> []"
    using assms(2,3) accepts_nonempty [of h "[]" st] by (auto simp: active_def InitialState_def Run_zero_def)
  obtain fs where fs: "p = log w run @ fs" "\<forall>e\<in>set fs. ev_Type e \<in> legacyEvents"
    using p(1,2) es by (auto simp: prefix_def)
  have a1: "active st1" using active_grows [OF assms(2) ne assms(3)] p(3) fs by blast
  show ?thesis
  proof (cases "cmd_Type (rc_Command r) = CommandNoop")
    case True
    have "st_Exists st1" using p(3) fs(1) ne accepts_exists by simp
    then have "state_inv st1" using p(3) accepts_inv by blast
    with True p(4) a1 have "Terminal (observed st1)" using Decide_noop_inv [of st1 h] by (auto simp: active_def)
    with True fin grows_ok [OF grow] show ?thesis by simp
  next
    case False
    with fin have acc: "accepts h (log w' run) (rc_State r)" by simp
    with active_grows [OF assms(2) ne assms(3), of es] es have "active (rc_State r)" by simp
    with acc Reconcile_progress [OF assms(1,4) False assms(2)] grows_ok [OF grow] show ?thesis by blast
  qed
qed

text \<open>The demonstration loops end: every round fails, ends the Run or raises its stage.\<close>

lemma driveRun_ends:
  assumes "ok w" "accepts h (log w run) st" "active st"
  shows "\<exists>r w'. driveRun C run n out w = Some (r, w')
    \<and> (\<forall>lines. r = Inr lines \<longrightarrow> (\<exists>s k. last lines = LineFinal s k \<and> Terminal s))"
  using assms
proof (induction "8 - stage st" arbitrary: w st n out rule: less_induct)
  case less
  obtain r w' where rc: "Reconcile C run w = (r, w')" by fastforce
  show ?case
  proof (cases r)
    case (Inl e)
    with rc show ?thesis by (simp add: driveRun.simps)
  next
    case (Inr result)
    note step = solo_Reconcile [OF less.prems rc [unfolded Inr]]
    show ?thesis
    proof (cases "Terminal (observed (rc_State result))")
      case True
      with rc Inr show ?thesis by (simp add: driveRun.simps Let_def)
    next
      case False
      with step have n: "ok w'" "accepts h (log w' run) (rc_State result)" "active (rc_State result)"
        "stage st < stage (rc_State result)" by auto
      then have "8 - stage (rc_State result) < 8 - stage st" using stage_bound [of "rc_State result"] by linarith
      from less.hyps [OF this n(1-3)] False rc Inr show ?thesis
        by (subst driveRun.simps) (simp add: Let_def)
    qed
  qed
qed

lemma driveResumed_ends:
  assumes "ok w" "accepts h (log w run) st" "active st"
  shows "\<exists>r w'. driveResumed C run st w = Some (r, w') \<and> (\<forall>fin. r = Inr fin \<longrightarrow> Terminal (observed fin))"
  using assms
proof (induction "8 - stage st" arbitrary: w st rule: less_induct)
  case less
  obtain r w' where rc: "Reconcile C run w = (r, w')" by fastforce
  show ?case
  proof (cases r)
    case (Inl e)
    with rc show ?thesis by (simp add: driveResumed.simps)
  next
    case (Inr result)
    note step = solo_Reconcile [OF less.prems rc [unfolded Inr]]
    show ?thesis
    proof (cases "Terminal (observed (rc_State result))")
      case True
      with rc Inr show ?thesis by (simp add: driveResumed.simps)
    next
      case False
      with step have n: "ok w'" "accepts h (log w' run) (rc_State result)" "active (rc_State result)"
        "stage st < stage (rc_State result)" by auto
      then have "8 - stage (rc_State result) < 8 - stage st" using stage_bound [of "rc_State result"] by linarith
      from less.hyps [OF this n(1-3)] rc Inr show ?thesis
        by (subst driveResumed.simps) simp
    qed
  qed
qed

end

interpretation alone: solo_controller "memController E (X\<lparr>ms_others := (\<lambda>_. [])\<rparr>) errText"
    "\<lambda>w. mem_log (wd_store w)" "\<lambda>w. mem_inv (env_hash E) (wd_store w)"
  for E X errText
proof (unfold_locales, goal_cases)
  case (2 w v e ra w')
  then show ?case using mem.append_log [OF 2(1)]
    by (fastforce simp: memController_def New_def memOps_def Let_def mem_session_def elim!: callE)
qed (auto simp: memController_def New_def memOps_def Let_def mem_session_def elim!: readingE askE)

section \<open>Cancelling\<close>

text \<open>Only the two guards of \<open>Reconcile\<close> report that a Run needs a lease.\<close>

definition otherErrors :: "('w, 'a) action \<Rightarrow> bool" where
  "otherErrors m \<longleftrightarrow> (\<forall>w. fst (m w) \<noteq> Inl ErrManagedRunRequiresLease)"

lemma other_errors:
  "otherErrors (returnA x)" "e \<noteq> ErrManagedRunRequiresLease \<Longrightarrow> otherErrors (failA e)"
  "otherErrors (liftA CtlStore m1)" "otherErrors (liftA CtlReasoner m2)"
  by (auto simp: otherErrors_def returnA_def failA_def liftA_def mapErr_def split: prod.splits sum.splits)

lemma other_errors_bindA: "otherErrors m \<Longrightarrow> (\<And>x. otherErrors (k x)) \<Longrightarrow> otherErrors (bindA m k)"
  unfolding otherErrors_def bindA_def by (auto split: prod.splits sum.splits) (metis fst_conv)+

lemma other_errors_bindR:
  "otherErrors m \<Longrightarrow> (\<And>r. r \<noteq> Inl ErrManagedRunRequiresLease \<Longrightarrow> otherErrors (k r)) \<Longrightarrow> otherErrors (bindR m k)"
  unfolding otherErrors_def bindR_def by (auto split: prod.splits) (metis fst_conv)+

lemmas other_errors_intros = other_errors other_errors_bindA other_errors_bindR

lemma other_errors_append:
  "otherErrors (GetRun C run)" "otherErrors (settleAppend C run events res)" "otherErrors (appendEvent C run ev a)"
proof -
  show get: "otherErrors (GetRun C run)" unfolding GetRun_def by (rule other_errors)
  then show settle: "otherErrors (settleAppend C run events res)" for events res
    unfolding settleAppend_def refreshVersion_def by (auto intro!: other_errors_intros)
  show "otherErrors (appendEvent C run ev a)"
    unfolding appendEvent_def storeAppend_def Let_def
    by (cases a) (auto intro!: other_errors_intros get settle split: sum.splits)
qed

lemma other_errors_execute: "otherErrors (executeCommand C run st command a)"
proof -
  have "otherErrors (runReasoner C run st command a)" "otherErrors (runVerify C run st command a)"
    unfolding runReasoner_def runVerify_def appendControlledReasonerFailure_def
    by (auto intro!: other_errors_intros other_errors_append split: sum.splits option.splits)
  then show ?thesis
    by (cases "cmd_Type command") (simp_all add: executeCommand_def Let_def other_errors other_errors_append)
qed

lemma Reconcile_needs_lease:
  assumes "Reconcile C run w = (Inl ErrManagedRunRequiresLease, w')" "c_lease C = None"
  shows "\<exists>st w1. GetRun C run w = (Inr st, w1)
    \<and> (w' = w1 \<and> st_PendingActionType st \<noteq> CommandNone \<or> inspectManaged C run w1 = (Inr True, w'))"
proof -
  obtain g w1 where get: "GetRun C run w = (g, w1)" by fastforce
  then have "g \<noteq> Inl ErrManagedRunRequiresLease" using other_errors_append(1) [of C run] unfolding otherErrors_def by (metis fst_conv)
  with assms(1) get obtain st where g: "g = Inr st" by (cases g) (auto simp: Reconcile_def bindA_def)
  obtain m w2 where i: "inspectManaged C run w1 = (m, w2)" by fastforce
  have "otherErrors (inspectManaged C run)" unfolding inspectManaged_def by (auto intro: other_errors split: option.splits)
  with i have m: "m \<noteq> Inl ErrManagedRunRequiresLease" unfolding otherErrors_def by (metis fst_conv)
  let ?c = "Decide (env_hash (c_env C)) st"
  let ?rest = "if cmd_Type ?c = CommandNoop then returnA \<lparr>rc_Command = ?c, rc_Events = [], rc_State = st\<rparr>
    else bindA (executeCommand C run st ?c (run_Version (st_Run st), [])) (\<lambda>(_, events).
      bindA (GetRun C run) (\<lambda>state'. returnA \<lparr>rc_Command = ?c, rc_Events = events, rc_State = state'\<rparr>))"
  have "otherErrors ?rest" by (auto intro!: other_errors_intros other_errors_append other_errors_execute split: prod.splits)
  then have "fst (?rest w2) \<noteq> Inl ErrManagedRunRequiresLease" unfolding otherErrors_def by blast
  with assms get g i m show ?thesis
    by (cases m) (auto simp: Reconcile_def bindA_def Let_def split: if_splits)
qed

context controller
begin

text \<open>A Reconcile of a Run that wants to be cancelled ends in Cancelled.\<close>

lemma cancelled_Reconcile:
  assumes "ok w" "prefix p (log w run)" "accepts h p st0" "desired st0 = DesiredCancelled" "\<not> Terminal (observed st0)"
    and "Reconcile C run w = (Inr r, w')"
  shows "observed (rc_State r) = StatusCancelled \<and> desired (rc_State r) = DesiredCancelled"
proof -
  obtain q st where q: "prefix (log w run) q" "prefix q (log w' run)" "accepts h q st" "rc_Command r = Decide h st"
    and fin: "if cmd_Type (rc_Command r) = CommandNoop then rc_State r = st
       else resulted run (rc_Command r) w' \<and> accepts h (log w' run) (rc_State r)"
    using Reconcile_result [OF assms(1,6)] by blast
  have pq: "prefix p q" using assms(2) q(1) by (rule prefix_order.trans)
  note d = cancelled_prefix [OF assms(3,4) pq q(3)]
  have ne: "q \<noteq> []" using d q(3) accepts_nonempty [of h q st] by (auto simp: InitialState_def Run_zero_def)
  then have ex: "st_Exists st" using q(3) accepts_exists by blast
  show ?thesis
  proof (cases "cmd_Type (rc_Command r) = CommandNoop")
    case True
    with q(4) ex d have "Terminal (observed st)" by (auto simp: Decide_def split: if_splits)
    with True fin d assms(5) show ?thesis by auto
  next
    case False
    with q(4) ex d have "cmd_Type (rc_Command r) = CommandCancelRun" by (auto simp: Decide_def split: if_splits)
    with False fin obtain e where e: "e \<in> set (log w' run)" "ev_Type e = EventRunCancelled"
      and acc: "accepts h (log w' run) (rc_State r)" by (auto simp: resulted_def)
    have "8 \<le> stage (rc_State r)" using accepts_stage [OF acc e(1)] e(2) by simp
    then have "Terminal (observed (rc_State r))"
      using status_stage_bound [of "logicalState (rc_State r)"] by (auto simp: stage_def split: if_splits)
    moreover have "prefix p (log w' run)" using pq q(2) by (rule prefix_order.trans)
    ultimately show ?thesis using cancelled_prefix [OF assms(3,4) _ acc] assms(5) by auto
  qed
qed

lemma cancelCommand_converges:
  assumes "ok w" "cancelCommand C run w = (Inr out, w')"
  shows "\<exists>st r w1. out = OutState st \<and> desired st = DesiredCancelled \<and> Reconcile C run w1 = (r, w') \<and> grows w w1
    \<and> (\<exists>p. prefix p (log w' run) \<and> accepts h p st) \<and> (observed st = StatusCancelled \<or> r = Inl ErrManagedRunRequiresLease)"
proof -
  obtain st w1 where set: "SetDesiredState C run DesiredCancelled w = (Inr st, w1)"
    using assms(2) by (auto simp: cancelCommand_def bindA_iff)
  note c = cancel_accepted [OF assms(1) set]
  have g: "grows w w1" using safeD [OF safe_SetDesiredState assms(1) set] .
  obtain r w2 where rec: "Reconcile C run w1 = (r, w2)" by fastforce
  show ?thesis
  proof (cases r)
    case (Inl e)
    with assms(2) set rec have "e = ErrManagedRunRequiresLease" "out = OutState st" "w2 = w'"
      by (auto simp: cancelCommand_def bindA_def bindR_def split: if_splits)
    moreover have "prefix (log w1 run) (log w2 run)" using safeD [OF safe_Reconcile grows_ok [OF g] rec] by (simp add: grows_def)
    ultimately show ?thesis using c g rec Inl by blast
  next
    case (Inr result)
    with assms(2) set rec have out: "out = OutState (rc_State result)" "w2 = w'"
      by (auto simp: cancelCommand_def bindA_def bindR_def)
    have "observed (rc_State result) = StatusCancelled \<and> desired (rc_State result) = DesiredCancelled"
      using c cancelled_Reconcile [OF grows_ok [OF g] _ _ _ _ rec [unfolded Inr]] by blast
    moreover have "\<exists>p. prefix p (log w' run) \<and> accepts h p (rc_State result)"
      using Reconcile_result [OF grows_ok [OF g] rec [unfolded Inr]] out(2) by (metis prefix_order.refl)
    ultimately show ?thesis using out g rec by blast
  qed
qed

end

section \<open>Properties\<close>

definition loneWorld :: "MemoryEventStore world" where
  "loneWorld = freshWorld (mem_session (env_hash briefEnv) (env_parsers briefEnv) [(False, 0, sampleCreate)] NewMemoryEventStore)"

definition fakeSchedule :: MemSchedule where
  "fakeSchedule = \<lparr>ms_others = (\<lambda>_. []), ms_done = (\<lambda>_. False), ms_answer = (\<lambda>_ _. Inr fakeResult)\<rparr>"

text \<open>
  (C29) The demonstration loop terminates. Over an in-memory store that no other client uses, driving an
  active Run until it is terminal returns after finitely many rounds, whatever the Reasoner answers
  and whenever contexts are cancelled; unless some round fails, the last line shows a terminal state.
\<close>

theorem driveRun_terminates:
  assumes "mem_inv (env_hash E) (wd_store w)" "Reduce (env_hash E) (mem_log (wd_store w) run) = Inr st"
    and "desired st = DesiredRunning" "observed st \<noteq> StatusWaitingApproval"
  shows "\<exists>r w'. driveRun (memController E (X\<lparr>ms_others := (\<lambda>_. [])\<rparr>) errText) run n out w = Some (r, w')
    \<and> (\<forall>lines. r = Inr lines \<longrightarrow> (\<exists>s k. last lines = LineFinal s k \<and> Terminal s))"
  by (rule alone.driveRun_ends [OF assms(1)]) (use assms in \<open>simp_all add: Reduce_accepts active_def memController_def New_def\<close>)

lemma loneWorld_state:
  "case Reduce (env_hash briefEnv) (mem_log (wd_store loneWorld) ''run-1'') of
     Inl _ \<Rightarrow> False | Inr st \<Rightarrow> desired st = DesiredRunning \<and> observed st \<noteq> StatusWaitingApproval"
  by code_simp

theorem driveRun_terminates_witness:
  "\<exists>r w'. driveRun (memController briefEnv (fakeSchedule\<lparr>ms_others := (\<lambda>_. [])\<rparr>) (\<lambda>_. ''error'')) ''run-1'' 1 [] loneWorld
     = Some (r, w')"
proof -
  obtain st where st: "Reduce (env_hash briefEnv) (mem_log (wd_store loneWorld) ''run-1'') = Inr st"
    "desired st = DesiredRunning" "observed st \<noteq> StatusWaitingApproval"
    using loneWorld_state by (auto split: sum.splits)
  have "mem_inv (env_hash briefEnv) (wd_store loneWorld)"
    by (simp add: loneWorld_def freshWorld_def mem_session_inv mem_inv_new)
  from driveRun_terminates [OF this st] show ?thesis by blast
qed

text \<open>A Run is managed once a lease was ever acquired for it or a managed action was planned.\<close>

definition managedRun :: "env \<Rightarrow> Storage \<Rightarrow> string \<Rightarrow> bool" where
  "managedRun E s run \<longleftrightarrow> sg_leases s run \<noteq> None \<or> list_ex (\<lambda>ev. ev_Type ev = EventActionPlanned) (loadPostgresEvents E s run)"

lemma needs_lease_managed:
  assumes "pg_world E X w" "Reconcile (pgController E X errText) run w = (Inl ErrManagedRunRequiresLease, w')"
  shows "managedRun E (wd_store w') run"
proof -
  let ?C = "pgController E X errText"
  have "c_lease ?C = None" by (simp add: pgController_def New_def)
  from Reconcile_needs_lease [OF assms(2) this] obtain st w1 where get: "GetRun ?C run w = (Inr st, w1)"
    and g: "w' = w1 \<and> st_PendingActionType st \<noteq> CommandNone \<or> inspectManaged ?C run w1 = (Inr True, w')" by blast
  from g show ?thesis
  proof
    assume "w' = w1 \<and> st_PendingActionType st \<noteq> CommandNone"
    moreover have "accepts (env_hash (c_env ?C)) (loadPostgresEvents E (wd_store w1) run) st"
      using pgc.GetRun_reduces [OF assms(1) get] by blast
    ultimately have "planned (loadPostgresEvents E (wd_store w') run) (st_PendingActionID st) (st_PendingActionType st)"
      using accepts_pending_planned by blast
    then show ?thesis by (auto simp: managedRun_def planned_def list_ex_iff)
  next
    assume "inspectManaged ?C run w1 = (Inr True, w')"
    then have "sg_leases (wd_store w') run \<noteq> None"
      by (auto simp: inspectManaged_def pgController_def New_def pgOps_def liftA_def mapErr_def reading_def call_def
          pg_IsManagedRun_def pg_read_def split: prod.splits sum.splits if_splits)
    then show ?thesis by (simp add: managedRun_def)
  qed
qed

text \<open>
  (C30) \<open>run cancel\<close> converges. Under every schedule of other clients of the database, when the command
  prints a State instead of an error, that State carries the intent to cancel and is Cancelled, and the
  log of the Run has a prefix that reduces to it, unless the Run is managed (it has a lease or a
  planned managed action), in which case cancelling is left to the worker.
\<close>

theorem cancel_command_converges:
  assumes "pg_world E X w" "cancelCommand (pgController E X errText) run w = (Inr out, w')"
  shows "\<exists>st. out = OutState st \<and> desired st = DesiredCancelled
    \<and> (\<exists>p. prefix p (loadPostgresEvents E (wd_store w') run) \<and> Reduce (env_hash E) p = Inr st)
    \<and> (observed st = StatusCancelled \<or> managedRun E (wd_store w') run)"
proof -
  have h: "env_hash (c_env (pgController E X errText)) = env_hash E" by (simp add: pgController_def New_def)
  show ?thesis
    using pgc.cancelCommand_converges [OF assms] needs_lease_managed pgc.grows_ok unfolding Reduce_accepts h by blast
qed

lemma sample_cancel:
  "case cancelCommand sampleController ''run-1'' (freshWorld sampleStorage1) of
     (r, w') \<Rightarrow> \<not> isl r \<and> \<not> managedRun briefEnv (wd_store w') ''run-1''"
  by code_simp

theorem cancel_command_converges_witness:
  "\<exists>st w'. cancelCommand sampleController ''run-1'' (freshWorld sampleStorage1) = (Inr (OutState st), w')
     \<and> desired st = DesiredCancelled \<and> observed st = StatusCancelled"
proof -
  obtain r w' where c: "cancelCommand sampleController ''run-1'' (freshWorld sampleStorage1) = (r, w')" by fastforce
  with sample_cancel have free: "\<not> managedRun briefEnv (wd_store w') ''run-1''" and "\<not> isl r" by simp_all
  then obtain out where "r = Inr out" by (cases r) auto
  with cancel_command_converges [OF fresh_pg_world [OF sample_reachable(1)]] c free
  show ?thesis unfolding sampleController_def by blast
qed

end
