(* ===== verification/Managed_Props.thy ===== *)
theory Managed_Props
  imports Managed_Contract Controller_Props
begin

text \<open>
  The guarantees of the leased path over PostgreSQL: at most one executor call per call and only for a
  durable plan, no second execution once a receipt is durable, a plan and a receipt behind every
  completion, and a planned action that cannot be planned again.
\<close>

section \<open>The PostgreSQL world\<close>

definition pgExecutor :: "env \<Rightarrow> PgSchedule \<Rightarrow> (CtlError \<Rightarrow> string) \<Rightarrow> string \<Rightarrow> ActionRequest \<Rightarrow> (Storage world, ActionReceipt) action" where
  "pgExecutor E X errText dir = recorded (artifactExecute (reasonerExecute E (c_consult (pgController E X errText)))
     (Some (\<lambda>input. call (ps_others X) (\<lambda>n. art_Write E (ps_write X n) dir input))))"

lemma pgManaged_simps:
  "c_store (pgManaged E X errText dir safety) = c_store (pgController E X errText)"
  "c_env (pgManaged E X errText dir safety) = c_env (pgController E X errText)"
  "c_consult (pgManaged E X errText dir safety) = c_consult (pgController E X errText)"
  "c_ctxErr (pgManaged E X errText dir safety) = c_ctxErr (pgController E X errText)"
  "c_lease (pgManaged E X errText dir safety) = Some (pgLease E X)"
  "mo_Executor (c_options (pgManaged E X errText dir safety)) = Some (pgExecutor E X errText dir)"
  "mo_Fault (c_options (pgManaged E X errText dir safety)) = Some (crashHook X)"
  "mo_Artifacts (c_options (pgManaged E X errText dir safety))
     = Some (\<lambda>i. reading (ps_others X) (\<lambda>n. art_Verify E (ps_done X n) (ps_fault X n) dir i))"
  by (simp_all add: pgManaged_def NewManaged_def pgExecutor_def Let_def)

lemma pg_steady:
  assumes "pg_world E X w" "reading (ps_others X) f w = (r, w')"
  shows "pg_world E X w' \<and> (\<forall>q. prefix (loadPostgresEvents E (wd_store w) q) (loadPostgresEvents E (wd_store w') q))
    \<and> wd_calls w' = wd_calls w"
  using pg_reading [OF assms] by blast

lemma pg_steady_call:
  assumes "pg_world E X w" "call (ps_others X) m w = (r, w')"
    and "\<forall>n s s' r. m n s = (s', r) \<longrightarrow> storage_step E s s'"
  shows "pg_world E X w' \<and> (\<forall>q. prefix (loadPostgresEvents E (wd_store w) q) (loadPostgresEvents E (wd_store w') q))
    \<and> wd_calls w' = wd_calls w"
  using pg_call [OF assms] by blast

lemma pg_ask:
  "pg_world E X w \<Longrightarrow> ask f w = (r, w') \<Longrightarrow>
    pg_world E X w' \<and> (\<forall>q. prefix (loadPostgresEvents E (wd_store w) q) (loadPostgresEvents E (wd_store w') q))
    \<and> wd_calls w' = wd_calls w"
  by (auto simp: pg_world_def elim!: askE)

text \<open>The deterministic executor consults the Reasoner or computes, then writes at most one Artifact.\<close>

lemma pg_base_execute:
  assumes "pg_world E X w" "reasonerExecute E (c_consult (pgController E X errText)) rq w = (r, w')"
  shows "pg_world E X w' \<and> (\<forall>q. prefix (loadPostgresEvents E (wd_store w) q) (loadPostgresEvents E (wd_store w') q))
    \<and> wd_calls w' = wd_calls w"
proof (cases "cmd_Type (ax_Command rq) = CommandRunReasoner")
  case False
  with assms have "w' = w" by (auto simp: reasonerExecute_def split: sum.splits)
  with assms show ?thesis by simp
next
  case True
  let ?ask = "c_consult (pgController E X errText) (phase1Request (run_ScenarioID (st_Run (ax_State rq))))"
  obtain c w1 where c: "?ask w = (c, w1)" by fastforce
  with True assms(2) have "w' = w1"
    by (cases c) (auto simp: reasonerExecute_def bindA_def liftA_def result_simps mapErr_def split: sum.splits option.splits)
  moreover have "pg_world E X w1 \<and> (\<forall>q. prefix (loadPostgresEvents E (wd_store w) q) (loadPostgresEvents E (wd_store w1) q))
    \<and> wd_calls w1 = wd_calls w" using pg_ask [OF assms(1)] c by (simp add: pgController_def New_def)
  ultimately show ?thesis by simp
qed

lemma pg_execute:
  assumes "pg_world E X w" "pgExecutor E X errText dir rq w = (r, w')"
  shows "pg_world E X w' \<and> (\<forall>q. prefix (loadPostgresEvents E (wd_store w) q) (loadPostgresEvents E (wd_store w') q))
    \<and> wd_calls w' = wd_calls w @ [rq]"
proof -
  let ?w = "w\<lparr>wd_calls := wd_calls w @ [rq]\<rparr>"
  have w: "pg_world E X ?w" using assms(1) by (simp add: pg_world_def)
  obtain b w1 where b: "reasonerExecute E (c_consult (pgController E X errText)) rq ?w = (b, w1)" by fastforce
  note base = pg_base_execute [OF w b]
  obtain q w2 where wr: "call (ps_others X) (\<lambda>n. art_Write E (ps_write X n) dir (artifactInput rq)) w1 = (q, w2)" by fastforce
  have "\<forall>n s s' r. art_Write E (ps_write X n) dir (artifactInput rq) s = (s', r) \<longrightarrow> storage_step E s s'"
    using step_artifact by blast
  note wrote = pg_steady_call [OF _ wr this]
  have "w' = w1 \<or> w' = w2"
    using assms(2) b wr
    by (cases b; cases q) (auto simp: pgExecutor_def recorded_def artifactExecute_def bindA_def liftA_def mapErr_def split: if_splits)
  then show ?thesis using base wrote by (auto intro: prefix_order.trans)
qed

interpretation pgm: managed "pgManaged E X errText dir safety" "\<lambda>w. loadPostgresEvents E (wd_store w)" "pg_world E X"
    "pgLease E X" "pgExecutor E X errText dir" wd_calls
  for E X errText dir safety
proof (unfold_locales, unfold pgManaged_simps, goal_cases)
  case 1 then show ?case by (rule pgc.ok_log)
next
  case 2 then show ?case by (rule pgc.load)
next
  case 3 then show ?case by (rule pgc.rebuild)
next
  case 4 then show ?case by (rule pgc.append)
next
  case 5 then show ?case by (rule pgc.inspect)
next
  case 6 then show ?case by (rule pgc.consult)
next
  case 7 then show ?case by (rule pgc.ctxErr)
next
  case (10 w q rb w')
  then have "reading (ps_others X) (\<lambda>n. pg_Rebuild E (ps_fault X n) q) w = (rb, w')"
    by (simp add: pgController_def New_def pgOps_def)
  from pg_steady [OF 10(1) this] show ?case by blast
next
  case (11 w v e ra w')
  have "\<forall>n s s' r. pg_Append E (ps_append X n) v e s = (s', r) \<longrightarrow> storage_step E s s'" using step_append by blast
  from pg_steady_call [OF 11(1) _ this] 11(2) show ?case by (simp add: pgController_def New_def pgOps_def)
next
  case (12 w l rv w')
  then have "reading (ps_others X) (\<lambda>n. Validate (ps_fault X n) (ps_now X n) l) w = (rv, w')" by (simp add: pgLease_def)
  from pg_steady [OF 12(1) this] show ?case .
next
  case (13 w q i rl w')
  then have "reading (ps_others X) (\<lambda>n. LookupReceipt (ps_fault X n) q i) w = (rl, w')" by (simp add: pgLease_def)
  from pg_steady [OF 13(1) this] show ?case .
next
  case (14 w l rc rr w')
  have "\<forall>n s s' r. RecordReceipt E (ps_fault X n) (ps_now X n) (ps_now X (Suc n)) l rc s = (s', r) \<longrightarrow> storage_step E s s'"
    using step_receipt by blast
  from pg_steady_call [OF 14(1) _ this] 14(2) show ?case by (simp add: pgLease_def)
next
  case (15 hook w point command rf w')
  then have "ask (\<lambda>n. if ps_crash X n point command then Inl ErrInjectedCrash else Inr ()) w = (rf, w')"
    by (auto simp: crashHook_def)
  from pg_ask [OF 15(2) this] show ?case .
next
  case (16 verify w i rv w')
  then have "reading (ps_others X) (\<lambda>n. art_Verify E (ps_done X n) (ps_fault X n) dir i) w = (rv, w')" by auto
  from pg_steady [OF 16(2) this] show ?case .
next
  case 17 then show ?case by (rule pg_execute)
qed auto

section \<open>Properties\<close>

definition crashing :: PgSchedule where
  "crashing = quiet\<lparr>ps_crash := (\<lambda>_ point _. point = FaultAfterActionExecution)\<rparr>"

definition sampleManaged :: "Storage world Controller" where
  "sampleManaged = pgManaged briefEnv crashing (\<lambda>_. ''error'') ''/a'' None"

lemma fresh_crashing: "reachable briefEnv s \<Longrightarrow> pg_world briefEnv crashing (freshWorld s)"
  using fresh_pg_world [of s] by (simp add: pg_world_def interferes_def crashing_def)

lemma sample_leased:
  "wd_calls (snd (ReconcileLeased sampleManaged ''run-1'' sampleLease (freshWorld sampleStorage3))) \<noteq> []"
  by code_simp

text \<open>
  (C11) One planned action at most. Whatever other workers, faults, crashes of the hook and lease
  takeovers happen, a call of \<open>ReconcileLeased\<close> leaves a reachable storage and makes at most one executor
  call, and only for an action whose \<open>ActionPlanned\<close> event is durable in the log of the Run.
\<close>

theorem leased_reconcile_executes_planned:
  assumes "pg_world E X w" "ReconcileLeased (pgManaged E X errText dir safety) run l w = (r, w')"
  shows "pg_world E X w' \<and> (wd_calls w' = wd_calls w \<or> (\<exists>rq. wd_calls w' = wd_calls w @ [rq] \<and>
    (\<exists>ev\<in>set (loadPostgresEvents E (wd_store w') run). ev_Type ev = EventActionPlanned
      \<and> ed_ActionID (ev_Data ev) = cmd_ActionID (ax_Command rq) \<and> ed_ActionType (ev_Data ev) = cmd_Type (ax_Command rq))))"
  using pgm.ReconcileLeased_once [OF assms] pgm.grows_ok unfolding pgm.once_def planned_def by blast

theorem leased_reconcile_executes_planned_witness:
  "\<exists>r w' rq. ReconcileLeased sampleManaged ''run-1'' sampleLease (freshWorld sampleStorage3) = (r, w')
     \<and> wd_calls w' = [rq] \<and> (\<exists>ev\<in>set (loadPostgresEvents briefEnv (wd_store w') ''run-1''). ev_Type ev = EventActionPlanned)"
proof -
  obtain r w' where c: "ReconcileLeased sampleManaged ''run-1'' sampleLease (freshWorld sampleStorage3) = (r, w')" by fastforce
  with sample_leased have "wd_calls w' \<noteq> []" by simp
  with leased_reconcile_executes_planned [OF fresh_crashing [OF sample_reachable(3)] c [unfolded sampleManaged_def]] c
  show ?thesis by (auto simp: freshWorld_def)
qed

section \<open>Recovery\<close>

lemma loaded_run: "ev \<in> set (loadPostgresEvents E s run) \<Longrightarrow> ev_RunID ev = run"
  by (auto simp: loadPostgresEvents_def run_rows_def scanPostgresEvent_def)

lemma pending_exists: "Reduce h es = Inr st \<Longrightarrow> st_PendingActionID st \<noteq> '''' \<Longrightarrow> st_Exists st"
  using accepts_nonempty [of h es st] by (auto simp: Reduce_accepts state_inv_def intent_ok_def split: if_splits)

lemma reduced_run:
  assumes "Reduce h (loadPostgresEvents E s run) = Inr st" "st_Exists st"
  shows "run_ID (st_Run st) = run"
proof -
  let ?es = "loadPostgresEvents E s run"
  have acc: "accepts h ?es st" using assms(1) by (simp add: Reduce_accepts)
  then have ne: "?es \<noteq> []" using accepts_exists assms(2) by blast
  then have "hd ?es \<in> set ?es" by simp
  moreover from accepts_nonempty [OF acc] ne have "\<forall>ev\<in>set ?es. ev_RunID ev = run_ID (st_Run st)" by simp
  ultimately show ?thesis using loaded_run by fastforce
qed

lemma quiet_liftA:
  "ps_others X = (\<lambda>_ s. s) \<Longrightarrow> liftA g (reading (ps_others X) f) w = (r, w') \<Longrightarrow> wd_store w' = wd_store w"
  by (auto simp: liftA_def elim!: readingE split: prod.splits)

lemma steps_liftA:
  "pg_world E X w \<Longrightarrow> liftA g (reading (ps_others X) f) w = (r, w') \<Longrightarrow> storage_steps E (wd_store w) (wd_store w')"
  using pg_reading by (fastforce simp: liftA_def split: prod.splits)

lemma reading_actions:
  "liftA CtlLease (lo_Validate (pgLease E X) l) = liftA CtlLease (reading (ps_others X) (\<lambda>n. Validate (ps_fault X n) (ps_now X n) l))"
  "GetRun (pgManaged E X errText dir safety) run = liftA CtlStore (reading (ps_others X) (\<lambda>n. pg_Rebuild E (ps_fault X n) run))"
  by (simp_all add: fun_eq_iff pgLease_def GetRun_def pgManaged_simps pgController_def New_def pgOps_def)

text \<open>A pending action stays pending until an accepted event completes or fails it.\<close>

lemma managed_pending:
  assumes "accepts h es st" "st_PendingActionType st \<noteq> CommandNone"
  shows "state_inv st" "st_PendingActionID st \<noteq> ''''"
proof -
  have "es \<noteq> []" using assms accepts_nonempty [of h "[]" st] by (auto simp: InitialState_def)
  then show "state_inv st" using assms(1) accepts_inv accepts_exists by blast
  then show "st_PendingActionID st \<noteq> ''''" using assms(2) by (simp add: state_inv_def pending_ok_def)
qed

definition settled :: "Event list \<Rightarrow> string \<Rightarrow> bool" where
  "settled es i \<longleftrightarrow> (\<exists>ev\<in>set es. ev_Type ev \<in> {EventActionCompleted, EventActionFailed} \<and> ed_ActionID (ev_Data ev) = i)"

lemma pending_until_settled:
  assumes "accepts h es st" "st_PendingActionType st \<noteq> CommandNone" "accepts h (es @ fs) st'"
  shows "same_pending st st' \<or> settled fs (st_PendingActionID st)"
  using assms(3)
proof (induction fs arbitrary: st' rule: rev_induct)
  case Nil
  with assms(1) accepts_unique [of h es st st'] show ?case by simp
next
  case (snoc ev fs)
  from snoc.prems obtain st1 st2 where st: "accepts h (es @ fs) st1" "applyEvent h st1 ev = Inr st2" "st' = stampEvent st2 ev"
    by (auto simp flip: append_assoc elim: accepts.cases)
  show ?case
  proof (cases "same_pending st st1")
    case True
    then have t: "st_PendingActionType st1 \<noteq> CommandNone" using assms(2) by (simp add: same_pending_def)
    from applyEvent_pending [OF st(2) managed_pending(1) [OF st(1) t] t] True st(3) show ?thesis
      by (auto simp: settled_def same_pending_def stampEvent_def)
  next
    case False
    with snoc.IH [OF st(1)] show ?thesis by (auto simp: settled_def)
  qed
qed

lemma lookup_receipt_kept:
  assumes "lossless_jsonb E" "reachable E s" "storage_steps E s s'" "lookupReceiptWithQuerier s run i = Some receipt"
  shows "lookupReceiptWithQuerier s' run i = Some receipt"
proof -
  from assms(4) obtain row where "find (\<lambda>row. rc_run_id row = run \<and> rc_action_id row = i) (sg_receipts s) = Some row"
    and scan: "scanReceipt row = receipt" by (auto simp: lookupReceiptWithQuerier_def)
  from find_eq_SomeD [OF this(1)] have row: "row \<in> set (sg_receipts s)" "rc_run_id row = run" "rc_action_id row = i" by simp_all
  have "reachable E s'" using assms(2,3) reachable_steps by blast
  from reachable_receipts [OF this assms(1)] have "distinct (map (\<lambda>rc. (rc_run_id rc, rc_action_id rc)) (sg_receipts s'))"
    by (simp add: receipt_inv_def)
  from lookup_receipt_found [OF this, of row] steps_receipts_kept [OF assms(3,2)] row scan show ?thesis by blast
qed

lemma recorded_recovery_idle:
  assumes "pg_world E X w" "Reduce (env_hash E) (loadPostgresEvents E (wd_store w) run) = Inr st" "st_PendingActionID st \<noteq> ''''"
    and "lookupReceiptWithQuerier (wd_store w) run (st_PendingActionID st) = Some receipt"
    and "recoverPendingAction (pgManaged E X errText dir safety) (pgLease E X) (pgExecutor E X errText dir) l
      (managedAppend (pgManaged E X errText dir safety) run l) st a w = (r, w')"
  shows "wd_calls w' = wd_calls w"
proof -
  have "run_ID (st_Run st) = run" using reduced_run [OF assms(2) pending_exists [OF assms(2,3)]] .
  moreover have "storage_steps E (wd_store w) (ps_others X n (wd_store w))" for n
    using assms(1) by (simp add: pg_world_def interferes_def)
  then have "lookupReceiptWithQuerier (ps_others X n (wd_store w)) run (st_PendingActionID st) = Some receipt" for n
    using lookup_receipt_kept assms(1,4) unfolding pg_world_def by blast
  ultimately have "fst (lo_LookupReceipt (pgLease E X) (run_ID (st_Run st)) (st_PendingActionID st) w) \<noteq> Inl ErrReceiptNotFound"
    by (auto simp: pgLease_def reading_def call_def LookupReceipt_def pg_read_def)
  with pgm.recover_idle [OF assms(1,5)] show ?thesis by (simp add: pgm.still_def)
qed

text \<open>
  The State a call works with is the reduction of a log between the one it started with and the one
  it leaves; with the receipt stored, the executor is idle unless that log settles the action.
\<close>

lemma recorded_action_reconciled:
  assumes "pg_world E X w" "Reduce (env_hash E) (loadPostgresEvents E (wd_store w) run) = Inr st" "st_PendingActionType st \<noteq> CommandNone"
    and "lookupReceiptWithQuerier (wd_store w) run (st_PendingActionID st) = Some receipt"
    and "ReconcileLeased (pgManaged E X errText dir safety) run l w = (r, w')"
  shows "wd_calls w' = wd_calls w \<or> (\<exists>fs gs. loadPostgresEvents E (wd_store w') run = loadPostgresEvents E (wd_store w) run @ fs @ gs
    \<and> settled fs (st_PendingActionID st) \<and> ps_others X \<noteq> (\<lambda>_ s. s))"
proof -
  let ?C = "pgManaged E X errText dir safety" and ?L = "pgLease E X" and ?x = "pgExecutor E X errText dir"
  let ?log = "\<lambda>w. loadPostgresEvents E (wd_store w) run"
  obtain v w1 where val: "liftA CtlLease (lo_Validate ?L l) w = (v, w1)" by fastforce
  have s1: "pgm.still E X w w1" using pgm.idle.safeD [OF pgm.idle_validate assms(1) val] .
  have w1: "pg_world E X w1" using s1 pgm.still_grows pgm.grows_ok by blast
  obtain g w2 where get: "GetRun ?C run w1 = (g, w2)" by fastforce
  have s2: "pgm.still E X w w2" using pgm.still_trans [OF s1 pgm.idle.safeD [OF pgm.idle_GetRun w1 get]] .
  have w2: "pg_world E X w2" using pgm.grows_ok [OF pgm.still_grows [OF s2]] .
  have steps: "storage_steps E (wd_store w) (wd_store w2)"
    using storage_steps_trans [OF steps_liftA [OF w1 get [unfolded reading_actions]] steps_liftA [OF assms(1) val [unfolded reading_actions]]] .
  have quiet: "wd_store w2 = wd_store w" if "ps_others X = (\<lambda>_ s. s)"
    using quiet_liftA [OF that get [unfolded reading_actions]] quiet_liftA [OF that val [unfolded reading_actions]] by simp
  show ?thesis
  proof (cases "ls_RunID l \<noteq> run \<or> isl v \<or> isl g")
    case True
    with assms(5) val get have "w' = w \<or> w' = w1 \<or> w' = w2"
      by (auto simp: ReconcileLeased_def pgm.configured bindA_def split: sum.splits if_splits)
    with s1 s2 show ?thesis by (auto simp: pgm.still_def)
  next
    case False
    then obtain u state where vg: "v = Inr u" "g = Inr state" "ls_RunID l = run" by (cases v; cases g) auto
    have h: "env_hash (c_env ?C) = env_hash E" by (simp add: pgManaged_simps pgController_def New_def)
    have acc: "accepts (env_hash E) (?log w2) state"
      using pgm.GetRun_reduces [OF w1 get [unfolded vg(2)]] unfolding h by blast
    have acc0: "accepts (env_hash E) (?log w) st" using assms(2) by (simp add: Reduce_accepts)
    note id = managed_pending(2) [OF acc0 assms(3)]
    obtain fs where fs: "?log w2 = ?log w @ fs"
      using s2 by (auto simp: pgm.still_def pgm.grows_def prefix_def)
    show ?thesis
    proof (cases "st_PendingActionID state = st_PendingActionID st")
      case True
      have "recoverPendingAction ?C ?L ?x l (managedAppend ?C run l) state (run_Version (st_Run state), []) w2 = (r, w')"
        using id assms(5) val get vg True by (simp add: ReconcileLeased_def pgm.configured bindA_def Let_def)
      moreover have "lookupReceiptWithQuerier (wd_store w2) run (st_PendingActionID state) = Some receipt"
        using lookup_receipt_kept [OF _ _ steps] assms(1,4) True unfolding pg_world_def by simp
      ultimately have "wd_calls w' = wd_calls w2"
        using recorded_recovery_idle [OF w2] acc id True by (simp add: Reduce_accepts)
      with s2 show ?thesis by (simp add: pgm.still_def)
    next
      case False
      have "settled fs (st_PendingActionID st)"
        using pending_until_settled [OF acc0 assms(3) acc [unfolded fs]] False by (auto simp: same_pending_def)
      moreover have "ps_others X \<noteq> (\<lambda>_ s. s)"
        using False quiet acc acc0 accepts_unique by metis
      moreover have "prefix (?log w2) (?log w')"
        using pgm.reconcile_loaded_once [OF w1 vg(3) val [unfolded vg] get [unfolded vg] assms(5)]
        unfolding pgm.once_def pgm.grows_def by blast
      ultimately show ?thesis unfolding fs prefix_def by auto
    qed
  qed
qed

text \<open>
  (C12) A durable receipt prevents re-execution. Let a managed action be pending whose receipt is durable, as
  when the worker that executed it died before recording the completion. Whatever other workers do
  before each database call, and whatever faults, expired leases, cancelled contexts and crashes occur,
  a call of \<open>ReconcileLeased\<close> by any worker does not call the executor, unless another client completed
  or failed that very action in the log during the call (so that the call went on with a later
  action); without other clients it never does.
\<close>

theorem receipt_prevents_reexecution:
  assumes "pg_world E X w" "Reduce (env_hash E) (loadPostgresEvents E (wd_store w) run) = Inr st"
    and "st_PendingActionType st \<noteq> CommandNone" "lookupReceiptWithQuerier (wd_store w) run (st_PendingActionID st) = Some receipt"
    and "ReconcileLeased (pgManaged E X errText dir safety) run l w = (r, w')"
  shows "wd_calls w' = wd_calls w
    \<or> ps_others X \<noteq> (\<lambda>_ s. s)
      \<and> (\<exists>ev\<in>set (drop (length (loadPostgresEvents E (wd_store w) run)) (loadPostgresEvents E (wd_store w') run)).
            ev_Type ev \<in> {EventActionCompleted, EventActionFailed} \<and> ed_ActionID (ev_Data ev) = st_PendingActionID st)"
  using recorded_action_reconciled [OF assms] by (auto simp: settled_def)

lemma received_pending:
  "case RecordReceipt briefEnv PgOk 30 31 sampleLease sampleReceipt sampleStorage3 of (s1, _) \<Rightarrow>
     (case Reduce (env_hash briefEnv) (loadPostgresEvents briefEnv s1 ''run-1'') of
        Inl _ \<Rightarrow> False | Inr st \<Rightarrow> st_PendingActionType st \<noteq> CommandNone \<and> lookupReceiptWithQuerier s1 ''run-1'' (st_PendingActionID st) \<noteq> None)"
  by code_simp

theorem receipt_prevents_reexecution_witness:
  "\<exists>s r w'. ReconcileLeased sampleManaged ''run-1'' sampleLease (freshWorld s) = (r, w')
     \<and> sg_receipts s \<noteq> [] \<and> wd_calls w' = []"
proof -
  obtain s1 q where s1: "RecordReceipt briefEnv PgOk 30 31 sampleLease sampleReceipt sampleStorage3 = (s1, q)" by fastforce
  with received_pending obtain st receipt where st: "Reduce (env_hash briefEnv) (loadPostgresEvents briefEnv s1 ''run-1'') = Inr st"
    "st_PendingActionType st \<noteq> CommandNone" "lookupReceiptWithQuerier s1 ''run-1'' (st_PendingActionID st) = Some receipt"
    by (auto split: sum.splits)
  have reach: "reachable briefEnv s1" by (rule reachable_step [OF sample_reachable(3) step_receipt [OF s1]])
  have quiet: "ps_others crashing = (\<lambda>_ s. s)" by (simp add: crashing_def quiet_def)
  obtain r w' where c: "ReconcileLeased sampleManaged ''run-1'' sampleLease (freshWorld s1) = (r, w')" by fastforce
  have "wd_calls w' = wd_calls (freshWorld s1)"
    using receipt_prevents_reexecution [OF fresh_crashing [OF reach] _ st(2) _ c [unfolded sampleManaged_def]] quiet
    by (simp add: freshWorld_def st)
  moreover have "sg_receipts s1 \<noteq> []" using st(3) by (auto simp: lookupReceiptWithQuerier_def)
  ultimately show ?thesis using c by (auto simp: freshWorld_def)
qed

section \<open>Completions\<close>

text \<open>In an accepted log every completion comes after a plan of the same action.\<close>

lemma completion_planned:
  assumes "accepts h (es @ ev # fs) st" "ev_Type ev = EventActionCompleted"
  shows "planned es (ed_ActionID (ev_Data ev)) (ed_ActionType (ev_Data ev))"
proof -
  have "Reduce h ((es @ [ev]) @ fs) = Inr st" using assms(1) by (simp add: Reduce_accepts)
  then have "\<exists>st'. Reduce h (es @ [ev]) = Inr st'"
    unfolding Reduce_append by (auto simp only: bindE_Inr_iff)
  then obtain st0 st1 where st0: "accepts h es st0" "applyEvent h st0 ev = Inr st1"
    by (auto simp: Reduce_accepts elim: accepts.cases)
  then have "ed_ActionID (ev_Data ev) = st_PendingActionID st0" "ed_ActionType (ev_Data ev) = st_PendingActionType st0"
    "st_PendingActionType st0 \<noteq> CommandNone"
    using assms(2)
    by (auto simp: applyEvent_def applyActionCompleted_def Let_def bindE_Inr_iff requireManagedPendingAction_iff split: if_splits)
  with accepts_pending_planned [OF st0(1)] show ?thesis by simp
qed

lemma completed_row_planned:
  assumes "pg_inv E s" "row \<in> set (sg_events s)" "er_event_type row = EventActionCompleted"
  shows "\<exists>plan\<in>set (sg_events s). er_run_id plan = er_run_id row \<and> er_event_type plan = EventActionPlanned
    \<and> er_seq plan < er_seq row \<and> ed_ActionID (er_payload plan) = ed_ActionID (er_payload row)
    \<and> ed_ActionType (er_payload plan) = ed_ActionType (er_payload row)"
proof -
  let ?run = "er_run_id row"
  have "row \<in> set (rows_of s ?run)" using assms(2) by simp
  then obtain as bs where rows: "rows_of s ?run = as @ row # bs" by (meson split_list)
  have "\<exists>st. accepts (env_hash E) (map (scanPostgresEvent E) as @ scanPostgresEvent E row # map (scanPostgresEvent E) bs) st"
    using load_reducible [OF assms(1), of ?run] by (simp add: load_rows [OF assms(1)] rows Reduce_accepts)
  with completion_planned obtain plan where plan: "plan \<in> set as" "er_event_type plan = EventActionPlanned"
    "ed_ActionID (er_payload plan) = ed_ActionID (er_payload row)" "ed_ActionType (er_payload plan) = ed_ActionType (er_payload row)"
    using assms(3) by (fastforce simp: planned_def scanPostgresEvent_def)
  have "seqs_ok s ?run" using assms(1) by (simp add: pg_inv_def)
  then have "sorted_wrt (<) (map er_seq (as @ row # bs))"
    unfolding seqs_ok_def rows by (simp del: upt_Suc add: sorted_wrt_map)
  then have "er_seq plan < er_seq row" using plan(1) by (auto simp: sorted_wrt_append)
  moreover have "plan \<in> set (rows_of s ?run)" using plan(1) rows by simp
  ultimately show ?thesis using plan by auto
qed

text \<open>
  (C7) Completions rest on a plan and a receipt. In every reachable storage each \<open>ActionCompleted\<close>
  event is exactly what one durable receipt of that Run, action and type entitles to (its output with
  the receipt's id, scope and digests), an \<open>ActionPlanned\<close> event of the same Run, action and type
  precedes it in the log, and an action has at most one receipt.
\<close>

theorem completions_backed_by_receipts:
  assumes "reachable E s" "lossless_jsonb E"
  shows "(\<forall>row\<in>set (sg_events s). er_event_type row = EventActionCompleted \<longrightarrow>
        backed (sg_receipts s) row
        \<and> (\<exists>plan\<in>set (sg_events s). er_run_id plan = er_run_id row \<and> er_event_type plan = EventActionPlanned
            \<and> er_seq plan < er_seq row \<and> ed_ActionID (er_payload plan) = ed_ActionID (er_payload row)
            \<and> ed_ActionType (er_payload plan) = ed_ActionType (er_payload row)))
    \<and> distinct (map (\<lambda>rc. (rc_run_id rc, rc_action_id rc)) (sg_receipts s))"
proof -
  have "pg_inv E s" using assms reachable_pg_ok by (simp add: pg_ok_def)
  with reachable_receipts [OF assms] show ?thesis using completed_row_planned unfolding receipt_inv_def by blast
qed

definition completedStorage :: Storage where
  "completedStorage = fst (pg_Append briefEnv sampleChoices 2
     ((actionCompletedEvent (identified sampleReceipt))\<lparr>ev_RunID := ''run-1'', ev_WorkerID := ''w1'', ev_FencingToken := 1\<rparr>)
     (fst (RecordReceipt briefEnv PgOk 15 16 sampleLease sampleReceipt sampleStorage3)))"

lemma completed_reachable: "reachable briefEnv completedStorage"
  unfolding completedStorage_def
  by (intro reachable_step [OF _ step_append [OF prod.collapse [symmetric]]]
      reachable_step [OF sample_reachable(3) step_receipt [OF prod.collapse [symmetric]]])

lemma completed_events:
  "map er_event_type (sg_events completedStorage) = [EventRunCreated, EventActionPlanned, EventActionCompleted]"
  by code_simp

theorem completions_backed_by_receipts_witness:
  "\<exists>row\<in>set (sg_events completedStorage). er_event_type row = EventActionCompleted \<and> backed (sg_receipts completedStorage) row
     \<and> (\<exists>plan\<in>set (sg_events completedStorage). er_event_type plan = EventActionPlanned \<and> er_seq plan < er_seq row
         \<and> ed_ActionID (er_payload plan) = ed_ActionID (er_payload row))"
proof -
  have "EventActionCompleted \<in> er_event_type ` set (sg_events completedStorage)"
    using completed_events by (metis list.set_intros(1,2) set_map)
  then obtain row where row: "row \<in> set (sg_events completedStorage)" "er_event_type row = EventActionCompleted" by force
  with completions_backed_by_receipts [OF completed_reachable sample_lossless] show ?thesis by blast
qed

section \<open>A cancellation that recovery gave up\<close>

lemma quiet_interferes_steps: "interferes E (X\<lparr>ps_others := (\<lambda>_ s. s)\<rparr>)"
  by (simp add: interferes_def steps_refl)

lemma calm_reading:
  "reading (\<lambda>_ s. s) f w = (r, w') \<Longrightarrow> loadPostgresEvents E (wd_store w') = loadPostgresEvents E (wd_store w)"
  by (auto elim!: readingE)

lemma calm_ask: "ask f w = (r, w') \<Longrightarrow> loadPostgresEvents E (wd_store w') = loadPostgresEvents E (wd_store w)"
  by (auto elim!: askE)

lemma calm_call:
  assumes "call (\<lambda>_ s. s) m w = (r, w')" "\<forall>n s s' r. m n s = (s', r) \<longrightarrow> sg_events s' = sg_events s"
  shows "loadPostgresEvents E (wd_store w') = loadPostgresEvents E (wd_store w)"
proof -
  have "m (wd_tick w) (wd_store w) = (wd_store w', r)" using assms(1) by (auto elim!: callE)
  with assms(2) have "sg_events (wd_store w') = sg_events (wd_store w)" by blast
  then show ?thesis by (rule load_cong)
qed

lemma receipt_keeps_events: "RecordReceipt E f now wnow l rc s = (s', r) \<Longrightarrow> sg_events s' = sg_events s"
  using RecordReceipt_effect [of E f now wnow l rc s s' r] by auto

lemma calm_execute:
  assumes "pgExecutor E (X\<lparr>ps_others := (\<lambda>_ s. s)\<rparr>) errText dir rq w = (r, w')"
  shows "loadPostgresEvents E (wd_store w') = loadPostgresEvents E (wd_store w)"
proof -
  let ?X = "X\<lparr>ps_others := (\<lambda>_ s. s)\<rparr>" and ?w = "w\<lparr>wd_calls := wd_calls w @ [rq]\<rparr>"
  obtain b w1 where b: "reasonerExecute E (c_consult (pgController E ?X errText)) rq ?w = (b, w1)" by fastforce
  have "wd_store w1 = wd_store w"
    using b by (auto simp: reasonerExecute_def bindA_def liftA_def mapErr_def pgController_def New_def ask_def
        split: if_splits sum.splits option.splits)
  moreover obtain q w2 where wr: "call (\<lambda>_ s. s) (\<lambda>n. art_Write E (ps_write X n) dir (artifactInput rq)) w1 = (q, w2)" by fastforce
  moreover have "loadPostgresEvents E (wd_store w2) = loadPostgresEvents E (wd_store w1)"
    by (rule calm_call [OF wr]) (use art_Write_effect in blast)
  moreover have "w' = w1 \<or> w' = w2"
    using assms b wr
    by (cases b; cases q) (auto simp: pgExecutor_def recorded_def artifactExecute_def bindA_def liftA_def mapErr_def split: if_splits)
  ultimately show ?thesis by auto
qed

interpretation pgq: quiet_managed "pgManaged E (X\<lparr>ps_others := (\<lambda>_ s. s)\<rparr>) errText dir safety"
    "\<lambda>w. loadPostgresEvents E (wd_store w)" "pg_world E (X\<lparr>ps_others := (\<lambda>_ s. s)\<rparr>)"
    "pgLease E (X\<lparr>ps_others := (\<lambda>_ s. s)\<rparr>)" "pgExecutor E (X\<lparr>ps_others := (\<lambda>_ s. s)\<rparr>) errText dir" wd_calls
  for E X errText dir safety
proof (unfold_locales, unfold pgManaged_simps, goal_cases)
  case (1 w q rb w')
  then show ?case using calm_reading [of _ w rb w' E] by (auto simp: pgController_def New_def pgOps_def)
next
  case (2 w v e ra w')
  then show ?case using pg.append_log [OF pg_world_inv [OF 2(1)]]
    by (fastforce simp: pgController_def New_def pgOps_def elim!: callE)
next
  case (3 w l rv w')
  then show ?case using calm_reading [of _ w rv w' E] by (auto simp: pgLease_def)
next
  case (4 w q i rl w')
  then show ?case using calm_reading [of _ w rl w' E] by (auto simp: pgLease_def)
next
  case (5 w l rc rr w')
  then show ?case using calm_call [of _ w rr w' E] receipt_keeps_events by (fastforce simp: pgLease_def)
next
  case (6 hook w point command rf w')
  then show ?case using calm_ask [of _ w rf w' E] by (auto simp: crashHook_def)
next
  case (7 verify w i rv w')
  then show ?case using calm_reading [of _ w rv w' E] by auto
next
  case 8
  from calm_execute [OF 8(2)] show ?case .
qed

text \<open>Workers that reconcile the Run one after the other, whatever each call returns.\<close>

definition attempts :: "'w Controller \<Rightarrow> string \<Rightarrow> Lease list \<Rightarrow> 'w \<Rightarrow> 'w" where
  "attempts C run leases w = fold (\<lambda>l w. snd (ReconcileLeased C run l w)) leases w"

definition stuckCancel :: Event where
  "stuckCancel = Event_zero\<lparr>ev_RunID := ''run-1'', ev_IdempotencyKey := ''x'', ev_Type := EventDesiredStateChanged,
     ev_Data := EventData_zero\<lparr>ed_DesiredState := DesiredCancelled\<rparr>\<rparr>"

definition stuckPlan :: Event where
  "stuckPlan = (actionPlannedEvent \<lparr>cmd_Type = CommandCancelRun, cmd_RunID = ''run-1'', cmd_ActionID = ''h'', cmd_AttemptID = ''''\<rparr>
     IdempotencyScoped)\<lparr>ev_RunID := ''run-1'', ev_WorkerID := ''w1'', ev_FencingToken := 1\<rparr>"

definition stuckFailure :: Event where
  "stuckFailure = (actionFailedEvent \<lparr>cmd_Type = CommandCancelRun, cmd_RunID = ''run-1'', cmd_ActionID = ''h'', cmd_AttemptID = ''''\<rparr>
     ''cancel'' ActionOutcomeFailed)\<lparr>ev_RunID := ''run-1'', ev_WorkerID := ''w1'', ev_FencingToken := 1\<rparr>"

definition stuckStorage :: Storage where
  "stuckStorage = fst (pg_Append briefEnv sampleChoices 3 stuckFailure
     (fst (pg_Append briefEnv sampleChoices 2 stuckPlan (fst (pg_Append briefEnv sampleChoices 1 stuckCancel sampleStorage2)))))"

lemma stuck_reachable: "reachable briefEnv stuckStorage"
  unfolding stuckStorage_def
  by (intro reachable_step [OF _ step_append [OF prod.collapse [symmetric]]] sample_reachable(2))

lemma stuck_state:
  "let es = loadPostgresEvents briefEnv stuckStorage ''run-1'' in
   case Reduce (env_hash briefEnv) es of
     Inl _ \<Rightarrow> False
   | Inr st \<Rightarrow> let c = Decide (env_hash briefEnv) st in st_PendingActionID st = '''' \<and> cmd_Type c = CommandCancelRun
      \<and> list_ex (\<lambda>ev. ev_IdempotencyKey ev = cmd_ActionID c @ '':action-planned'') es"
  by code_simp

text \<open>
  (C35) A managed action that was planned before is never planned again. When nothing is pending and
  the log already holds the plan key of the command that is due, then no sequence of \<open>ReconcileLeased\<close>
  calls, by whatever workers and with whatever faults, changes the log of the Run. This is where the
  recovery of a pending CancelRun ends: it records the action as failed, CancelRun stays due with the
  same ActionID, and the Run is never observed as Cancelled.
\<close>

theorem replanned_action_stuck:
  assumes "pg_world E (X\<lparr>ps_others := (\<lambda>_ s. s)\<rparr>) w"
    and "Reduce (env_hash E) (loadPostgresEvents E (wd_store w) run) = Inr st" "st_PendingActionID st = ''''"
    and "cmd_ActionID (Decide (env_hash E) st) @ '':action-planned'' \<in> ev_IdempotencyKey ` set (loadPostgresEvents E (wd_store w) run)"
  shows "loadPostgresEvents E (wd_store (attempts (pgManaged E (X\<lparr>ps_others := (\<lambda>_ s. s)\<rparr>) errText dir safety) run leases w)) run
    = loadPostgresEvents E (wd_store w) run"
proof -
  let ?X = "X\<lparr>ps_others := (\<lambda>_ s. s)\<rparr>" and ?es = "loadPostgresEvents E (wd_store w) run"
  let ?C = "pgManaged E ?X errText dir safety"
  have h: "env_hash (c_env ?C) = env_hash E" by (simp add: pgManaged_simps pgController_def New_def)
  have step: "pgq.frozen.safe E X run ?es (ReconcileLeased ?C run l)" for l
    by (rule pgq.replan_frozen [of _ _ _ _ _ _ st]) (use assms(2-4) in \<open>simp_all add: Reduce_accepts h\<close>)
  have "pg_world E ?X v \<and> loadPostgresEvents E (wd_store v) run = ?es \<Longrightarrow>
     pg_world E ?X (attempts ?C run leases v) \<and> loadPostgresEvents E (wd_store (attempts ?C run leases v)) run = ?es" for v
  proof (induction leases arbitrary: v)
    case (Cons l ls)
    obtain r v' where v': "ReconcileLeased ?C run l v = (r, v')" by fastforce
    from Cons.IH [OF pgq.frozen.safeD [OF step Cons.prems v']] show ?case by (simp add: attempts_def v')
  qed (simp add: attempts_def)
  with assms(1) show ?thesis by blast
qed

theorem replanned_action_stuck_witness:
  "loadPostgresEvents briefEnv (wd_store (attempts (pgManaged briefEnv (quiet\<lparr>ps_others := (\<lambda>_ s. s)\<rparr>) (\<lambda>_. ''error'') ''/a'' None)
      ''run-1'' [sampleLease] (freshWorld stuckStorage))) ''run-1'' = loadPostgresEvents briefEnv stuckStorage ''run-1''"
proof -
  have w: "pg_world briefEnv (quiet\<lparr>ps_others := (\<lambda>_ s. s)\<rparr>) (freshWorld stuckStorage)"
    using fresh_pg_world [OF stuck_reachable] by (simp add: pg_world_def quiet_interferes_steps)
  obtain st where st: "Reduce (env_hash briefEnv) (loadPostgresEvents briefEnv stuckStorage ''run-1'') = Inr st"
    "st_PendingActionID st = ''''" "cmd_ActionID (Decide (env_hash briefEnv) st) @ '':action-planned''
       \<in> ev_IdempotencyKey ` set (loadPostgresEvents briefEnv stuckStorage ''run-1'')"
    using stuck_state by (auto simp: Let_def list_ex_iff split: sum.splits) (metis image_eqI)
  from replanned_action_stuck [OF w, of "''run-1''" st] st show ?thesis by (simp add: freshWorld_def)
qed

end
