(* ===== verification/Worker_Loop.thy ===== *)
theory Worker_Loop
  imports Managed_Props
begin

text \<open>
  The worker process of \<open>src/internal/worker/worker.go\<close> as a state machine. A worker is three
  goroutines: the main loop of \<open>Run\<close> and \<open>runLeaseSession\<close>, the heartbeat loop and the lease renewal
  loop of the current session. They share the two error channels of capacity one, the two contexts
  and the lease of the session. The main loop is a step function over program points; \<open>background\<close>
  runs what the schedule lets the other goroutines do between two of its operations. The lease manager
  and the controller act on an abstract world, as in the theory of the controller. A renewal loop that outlives its session
  holds a cancelled context and a lease nobody reads; what it still sends to the database counts among
  the other clients of the world.
\<close>

section \<open>Data\<close>

record Config =
  cf_WorkerID :: string
  cf_RunID :: string
  cf_LeaseTTL :: int
  cf_HeartbeatInterval :: int
  cf_PollInterval :: int

record 'w ManagerOps =
  mg_Register :: "string \<Rightarrow> 'w \<Rightarrow> (LeaseError + unit) \<times> 'w"
  mg_Heartbeat :: "string \<Rightarrow> 'w \<Rightarrow> (LeaseError + unit) \<times> 'w"
  mg_Acquire :: "string \<Rightarrow> string \<Rightarrow> int \<Rightarrow> 'w \<Rightarrow> (LeaseError + AcquireResult) \<times> 'w"
  mg_Renew :: "Lease \<Rightarrow> int \<Rightarrow> 'w \<Rightarrow> (LeaseError + Lease) \<times> 'w"

datatype WorkerError =
    WkConfig | WkRegister LeaseError | WkHeartbeat LeaseError | WkAcquire LeaseError
  | WkRenewal LeaseError | WkReconcile CtlError | WkContext

datatype Pc =
    PcRegister | PcAcquire | PcHeld | PcSession | PcPoll | PcEnded WorkerError
  | PcReturned "WorkerError + unit"

text \<open>
  What the other goroutines do at a point: the heartbeat ticker fires, the renewal ticker fires and
  its call returns, the result of the call is handled, the parent context is cancelled.
\<close>

datatype Background = HeartbeatTick | RenewCall | RenewReturn | ParentCancelled

record 'w process =
  wp_world :: 'w
  wp_pc :: Pc
  wp_heartbeatErrors :: "WorkerError option"
  wp_workerDone :: bool
  wp_heartbeatOver :: bool
  wp_session :: Lease
  wp_renewalErrors :: "WorkerError option"
  wp_sessionDone :: bool
  wp_renewed :: "(LeaseError + Lease) option"
  wp_renewalOver :: bool
  wp_clock :: nat
  wp_acquired :: "Lease list"
  wp_presented :: "Lease list"
  wp_last :: "ReconcileResult option"

record Schedule =
  sd_background :: "nat \<Rightarrow> Background list"
  sd_timer :: "nat \<Rightarrow> bool"

section \<open>The other goroutines\<close>

text \<open>\<open>sendHeartbeatError\<close>: a send to a full channel is dropped.\<close>

definition sendError :: "WorkerError option \<Rightarrow> WorkerError \<Rightarrow> WorkerError option" where
  "sendError ch e = (case ch of None \<Rightarrow> Some e | Some x \<Rightarrow> Some x)"

text \<open>One round of \<open>workerHeartbeatLoop\<close>.\<close>

definition heartbeatRound :: "'w ManagerOps \<Rightarrow> Config \<Rightarrow> 'w process \<Rightarrow> 'w process" where
  "heartbeatRound M config p =
     (if wp_heartbeatOver p then p
      else case mg_Heartbeat M (cf_WorkerID config) (wp_world p) of
          (Inr _, w) \<Rightarrow> p\<lparr>wp_world := w\<rparr>
        | (Inl e, w) \<Rightarrow> p\<lparr>wp_world := w, wp_heartbeatErrors := sendError (wp_heartbeatErrors p) (WkHeartbeat e),
             wp_workerDone := True, wp_sessionDone := True, wp_heartbeatOver := True\<rparr>)"

text \<open>One round of \<open>leaseRenewalLoop\<close>, the call and the handling of its result.\<close>

definition renewalCall :: "'w ManagerOps \<Rightarrow> Config \<Rightarrow> 'w process \<Rightarrow> 'w process" where
  "renewalCall M config p =
     (if wp_renewalOver p \<or> wp_renewed p \<noteq> None then p
      else case mg_Renew M (wp_session p) (cf_LeaseTTL config) (wp_world p) of
          (r, w) \<Rightarrow> p\<lparr>wp_world := w, wp_renewed := Some r\<rparr>)"

definition renewalReturn :: "'w process \<Rightarrow> 'w process" where
  "renewalReturn p =
     (case wp_renewed p of
        None \<Rightarrow> p
      | Some (Inl e) \<Rightarrow> p\<lparr>wp_renewed := None, wp_renewalErrors := sendError (wp_renewalErrors p) (WkRenewal e),
           wp_sessionDone := True, wp_renewalOver := True\<rparr>
      | Some (Inr l) \<Rightarrow> p\<lparr>wp_renewed := None, wp_session := l\<rparr>)"

fun backgroundStep :: "'w ManagerOps \<Rightarrow> Config \<Rightarrow> Background \<Rightarrow> 'w process \<Rightarrow> 'w process" where
  "backgroundStep M config HeartbeatTick p = heartbeatRound M config p"
| "backgroundStep M config RenewCall p = renewalCall M config p"
| "backgroundStep M config RenewReturn p = renewalReturn p"
| "backgroundStep M config ParentCancelled p = p\<lparr>wp_workerDone := True, wp_sessionDone := True\<rparr>"

definition background :: "'w ManagerOps \<Rightarrow> Config \<Rightarrow> Schedule \<Rightarrow> 'w process \<Rightarrow> 'w process" where
  "background M config S p =
     fold (backgroundStep M config) (sd_background S (wp_clock p)) (p\<lparr>wp_clock := Suc (wp_clock p)\<rparr>)"

section \<open>The main loop\<close>

definition returns :: "WorkerError + unit \<Rightarrow> 'w process \<Rightarrow> 'w process" where
  "returns r p = p\<lparr>wp_pc := PcReturned r\<rparr>"

text \<open>\<open>select { case err := <-heartbeatErrors: return err; default: return other }\<close>\<close>

definition heartbeatErrorOr :: "WorkerError + unit \<Rightarrow> 'w process \<Rightarrow> 'w process" where
  "heartbeatErrorOr other p =
     (case wp_heartbeatErrors p of Some e \<Rightarrow> returns (Inl e) (p\<lparr>wp_heartbeatErrors := None\<rparr>) | None \<Rightarrow> returns other p)"

fun leaseHeld :: "LeaseError \<Rightarrow> bool" where
  "leaseHeld (LeaseError i) = (le_Cause i = CauseLeaseHeld)"
| "leaseHeld ErrLegacyExecutionInProgress = True"
| "leaseHeld _ = False"

fun lostLease :: "LeaseError \<Rightarrow> bool" where
  "lostLease (LeaseError i) = (le_Cause i = CauseLeaseExpired \<or> le_Cause i = CauseStaleLease)"
| "lostLease _ = False"

fun lostAuthority :: "WorkerError \<Rightarrow> bool" where
  "lostAuthority (WkRenewal e) = lostLease e"
| "lostAuthority (WkReconcile (CtlLease e)) = lostLease e"
| "lostAuthority _ = False"

text \<open>The end of \<open>runLeaseSession\<close> with an error, and what \<open>Run\<close> makes of it.\<close>

definition endSession :: "WorkerError \<Rightarrow> 'w process \<Rightarrow> 'w process" where
  "endSession err p = p\<lparr>wp_sessionDone := True, wp_pc := PcEnded err\<rparr>"

definition afterSession :: "WorkerError \<Rightarrow> 'w process \<Rightarrow> 'w process" where
  "afterSession err p =
     (if wp_workerDone p then heartbeatErrorOr (Inl WkContext) p
      else if lostAuthority err then p\<lparr>wp_pc := PcAcquire\<rparr>
      else returns (Inl err) p)"

definition startSession :: "Lease \<Rightarrow> 'w process \<Rightarrow> 'w process" where
  "startSession l p = p\<lparr>wp_pc := PcSession, wp_session := l, wp_renewalErrors := None, wp_sessionDone := wp_workerDone p,
     wp_renewed := None, wp_renewalOver := False, wp_acquired := wp_acquired p @ [l]\<rparr>"

definition acquireStep :: "'w ManagerOps \<Rightarrow> Config \<Rightarrow> Schedule \<Rightarrow> 'w process \<Rightarrow> 'w process" where
  "acquireStep M config S p =
     (case wp_heartbeatErrors p of
        Some e \<Rightarrow> returns (Inl e) (p\<lparr>wp_heartbeatErrors := None\<rparr>)
      | None \<Rightarrow>
          (case mg_Acquire M (cf_RunID config) (cf_WorkerID config) (cf_LeaseTTL config) (wp_world p) of
             (r, w) \<Rightarrow>
               (let p = background M config S (p\<lparr>wp_world := w\<rparr>) in
                case r of
                  Inl e \<Rightarrow>
                    (if leaseHeld e then p\<lparr>wp_pc := PcHeld\<rparr>
                     else if wp_workerDone p then heartbeatErrorOr (Inl (WkAcquire e)) p
                     else returns (Inl (WkAcquire e)) p)
                | Inr acquired \<Rightarrow>
                    (if wp_workerDone p then heartbeatErrorOr (Inr ()) p
                     else startSession (aq_Lease acquired) p))))"

text \<open>
  \<open>waitContext\<close>: when the context is done and the timer has fired too, either may win.
\<close>

definition waitContext :: "Schedule \<Rightarrow> bool \<Rightarrow> 'w process \<Rightarrow> bool" where
  "waitContext S cancelled p \<longleftrightarrow> \<not> cancelled \<or> sd_timer S (wp_clock p)"

definition sessionStep :: "'w ManagerOps \<Rightarrow> 'w Controller \<Rightarrow> Config \<Rightarrow> Schedule \<Rightarrow> 'w process \<Rightarrow> 'w process" where
  "sessionStep M C config S p =
     (case wp_renewalErrors p of
        Some e \<Rightarrow> endSession e (p\<lparr>wp_renewalErrors := None\<rparr>)
      | None \<Rightarrow>
          (let p = background M config S p; current = wp_session p in
           case ReconcileLeased C (cf_RunID config) current (wp_world p) of
             (r, w) \<Rightarrow>
               (let p = background M config S (p\<lparr>wp_world := w, wp_presented := wp_presented p @ [current]\<rparr>) in
                case r of
                  Inl e \<Rightarrow>
                    (if wp_sessionDone p
                     then (case wp_renewalErrors p of
                             Some re \<Rightarrow> endSession re (p\<lparr>wp_renewalErrors := None\<rparr>)
                           | None \<Rightarrow> endSession WkContext p)
                     else endSession (WkReconcile e) p)
                | Inr result \<Rightarrow>
                    (let p = p\<lparr>wp_last := Some result\<rparr>; s = observed (rc_State result) in
                     if Terminal s \<or> s = StatusWaitingApproval then returns (Inr ()) p
                     else if cmd_Type (rc_Command result) = CommandNoop then p\<lparr>wp_pc := PcPoll\<rparr>
                     else p\<lparr>wp_pc := PcSession\<rparr>))))"

definition workerStep :: "'w ManagerOps \<Rightarrow> 'w Controller \<Rightarrow> Config \<Rightarrow> Schedule \<Rightarrow> 'w process \<Rightarrow> 'w process" where
  "workerStep M C config S p0 =
     (case wp_pc p0 of
        PcReturned _ \<Rightarrow> p0
      | PcRegister \<Rightarrow>
          (case mg_Register M (cf_WorkerID config) (wp_world p0) of
             (Inl e, w) \<Rightarrow> returns (Inl (WkRegister e)) (p0\<lparr>wp_world := w\<rparr>)
           | (Inr _, w) \<Rightarrow> p0\<lparr>wp_world := w, wp_heartbeatOver := False, wp_pc := PcAcquire\<rparr>)
      | PcAcquire \<Rightarrow> acquireStep M config S (background M config S p0)
      | PcHeld \<Rightarrow>
          (let p = background M config S p0 in
           if waitContext S (wp_workerDone p) p then p\<lparr>wp_pc := PcAcquire\<rparr>
           else heartbeatErrorOr (Inl WkContext) p)
      | PcSession \<Rightarrow> sessionStep M C config S (background M config S p0)
      | PcPoll \<Rightarrow>
          (let p = background M config S p0 in
           if waitContext S (wp_sessionDone p) p then p\<lparr>wp_pc := PcSession\<rparr>
           else endSession WkContext p)
      | PcEnded err \<Rightarrow> afterSession err (background M config S p0))"

definition invalidConfig :: "Config \<Rightarrow> bool" where
  "invalidConfig config \<longleftrightarrow> cf_WorkerID config = '''' \<or> cf_RunID config = '''' \<or> cf_LeaseTTL config \<le> 0
     \<or> cf_HeartbeatInterval config \<le> 0 \<or> cf_HeartbeatInterval config \<ge> cf_LeaseTTL config"

definition noLease :: Lease where
  "noLease = \<lparr>ls_RunID = '''', ls_WorkerID = '''', ls_FencingToken = 0, ls_ExpiresAt = 0, ls_HeartbeatAt = 0\<rparr>"

definition startWorker :: "Config \<Rightarrow> 'w \<Rightarrow> 'w process" where
  "startWorker config w = \<lparr>wp_world = w,
     wp_pc = (if invalidConfig config then PcReturned (Inl WkConfig) else PcRegister),
     wp_heartbeatErrors = None, wp_workerDone = False, wp_heartbeatOver = True, wp_session = noLease, wp_renewalErrors = None,
     wp_sessionDone = True, wp_renewed = None, wp_renewalOver = True, wp_clock = 0, wp_acquired = [], wp_presented = [],
     wp_last = None\<rparr>"

text \<open>The process after \<open>n\<close> steps of its main loop.\<close>

definition Run_worker :: "'w ManagerOps \<Rightarrow> 'w Controller \<Rightarrow> Config \<Rightarrow> Schedule \<Rightarrow> 'w \<Rightarrow> nat \<Rightarrow> 'w process" where
  "Run_worker M C config S w n = (workerStep M C config S ^^ n) (startWorker config w)"

end
