(* ===== verification/Worker_Contract.thy ===== *)
theory Worker_Contract
  imports Worker_Loop
begin

text \<open>
  What a worker relies on and what it gives, for any world. The locale \<open>named_managed\<close> says whose
  events a log holds, \<open>worker\<close> adds the lease manager of the worker: a lease is granted for the Run and
  the worker that asked, a renewal keeps the worker and the token.
\<close>

section \<open>What a leased reconciliation reports\<close>

locale named_managed = managed C log ok L execute calls
  for C :: "'w Controller" and log :: "'w \<Rightarrow> string \<Rightarrow> Event list" and ok :: "'w \<Rightarrow> bool"
    and L :: "'w LeaseOps" and execute :: "ActionRequest \<Rightarrow> ('w, ActionReceipt) action"
    and calls :: "'w \<Rightarrow> ActionRequest list" +
  assumes named: "ok w \<Longrightarrow> ev \<in> set (log w run) \<Longrightarrow> ev_RunID ev = run"
begin

definition seen :: "string \<Rightarrow> State \<Rightarrow> 'w \<Rightarrow> bool" where
  "seen run st w \<longleftrightarrow> (\<exists>p. prefix p (log w run) \<and> accepts h p st)"

lemma seen_grows: "seen run st w \<Longrightarrow> grows w w' \<Longrightarrow> seen run st w'"
  unfolding seen_def grows_def by (meson prefix_order.trans)

text \<open>From a world where the Run exists, an action reports a State of the Run's durable log.\<close>

definition live :: "string \<Rightarrow> 'w \<Rightarrow> bool" where
  "live run w \<longleftrightarrow> ok w \<and> log w run \<noteq> []"

definition keeps :: "string \<Rightarrow> ('w, 'a) action \<Rightarrow> bool" where
  "keeps run m \<longleftrightarrow> (\<forall>w r w'. live run w \<longrightarrow> m w = (r, w') \<longrightarrow> live run w')"

definition reports :: "string \<Rightarrow> ('w, ReconcileResult) action \<Rightarrow> bool" where
  "reports run m \<longleftrightarrow> (\<forall>w r w'. live run w \<longrightarrow> m w = (Inr r, w') \<longrightarrow> seen run (rc_State r) w')"

lemma live_grows: "live run w \<Longrightarrow> grows w w' \<Longrightarrow> live run w'"
  unfolding live_def grows_def by (metis prefix_Nil)

lemma keeps_idle: "idle.safe m \<Longrightarrow> keeps run m"
  unfolding keeps_def using idle.safeD still_grows live_grows live_def by blast

lemma keeps_execute: "keeps run (execute rq)"
proof -
  have "grows w w'" if "live run w" "execute rq w = (r, w')" for w r w'
    using executor [of w rq r w'] that by (simp add: grows_def live_def)
  then show ?thesis unfolding keeps_def using live_grows by blast
qed

lemma reports_failA: "reports run (failA e)"
  by (simp add: reports_def failA_def)

lemma reports_bindA: "keeps run m \<Longrightarrow> (\<And>x. reports run (f x)) \<Longrightarrow> reports run (bindA m f)"
  unfolding reports_def keeps_def by (auto simp: bindA_iff)

lemma reports_bindR: "keeps run m \<Longrightarrow> (\<And>x. reports run (f x)) \<Longrightarrow> reports run (bindR m f)"
  unfolding reports_def keeps_def bindR_simp by (metis prod.collapse)

lemma reports_sum: "(\<And>e. reports run (f e)) \<Longrightarrow> (\<And>x. reports run (g x)) \<Longrightarrow> reports run (case r of Inl e \<Rightarrow> f e | Inr x \<Rightarrow> g x)"
  by (cases r) simp_all

lemma reports_if: "reports run m \<Longrightarrow> reports run n \<Longrightarrow> reports run (if b then m else n)"
  by simp

lemma reports_finish: "reports run (finishReconcile C run command a)"
  unfolding reports_def finishReconcile_def seen_def
  using GetRun_reduces by (fastforce simp: bindA_iff returnA_def live_def)

lemma reports_current: "reports run (bindA (GetRun C run) (\<lambda>st. returnA \<lparr>rc_Command = c, rc_Events = es, rc_State = st\<rparr>))"
  using reports_finish [of run c "(0, es)"] by (simp add: finishReconcile_def)

lemma run_name:
  assumes "ok w" "accepts h (log w run) st" "st_Exists st"
  shows "run_ID (st_Run st) = run"
proof -
  have ne: "log w run \<noteq> []" using assms(2,3) accepts_exists by blast
  then have "hd (log w run) \<in> set (log w run)" by simp
  moreover from accepts_nonempty [OF assms(2)] ne have "\<forall>ev\<in>set (log w run). ev_RunID ev = run_ID (st_Run st)" by simp
  ultimately show ?thesis using named [OF assms(1)] by fastforce
qed

lemma reports_GetRun:
  assumes "\<And>st. run_ID (st_Run st) = run \<Longrightarrow> reports run (f st)"
  shows "reports run (bindA (GetRun C run) f)"
  unfolding reports_def
proof (intro allI impI)
  fix w r w' assume w: "live run w" and b: "bindA (GetRun C run) f w = (Inr r, w')"
  then obtain st w1 where get: "GetRun C run w = (Inr st, w1)" and f: "f st w1 = (Inr r, w')" by (auto simp: bindA_iff)
  have got: "grows w w1" "accepts h (log w1 run) st" using GetRun_reduces [OF _ get] w by (auto simp: live_def)
  have w1: "live run w1" using live_grows [OF w got(1)] .
  then have "st_Exists st" using accepts_exists [OF got(2)] by (simp add: live_def)
  with run_name [OF _ got(2)] w1 have "run_ID (st_Run st) = run" by (simp add: live_def)
  from assms [OF this] w1 f show "seen run (rc_State r) w'" by (simp add: reports_def)
qed

lemma reports_failAction:
  "run_ID (st_Run state) = run \<Longrightarrow> reports run (failAction C (managedAppend C q l) state command reason outcome a)"
  unfolding failAction_def by (intro reports_bindA keeps_idle idle_managedAppend) (simp add: reports_finish)

lemma reports_settle:
  "run_ID (st_Run state) = run \<Longrightarrow> idle.safe after \<Longrightarrow>
     reports run (settleReceipt C (managedAppend C q l) state command receipt after a)"
  unfolding settleReceipt_def
  by (intro reports_bindR reports_bindA reports_sum keeps_idle idle_managedAppend idle_validateReceiptEvidence)
    (simp_all add: reports_finish)

lemma reports_execute:
  "run_ID (st_Run state) = run \<Longrightarrow>
     reports run (executeManagedAction C L execute presented (managedAppend C q l) state command a)"
  unfolding executeManagedAction_def
  by (intro reports_bindR reports_bindA reports_sum keeps_execute keeps_idle idle_inject idle_record reports_failAction
      reports_settle)

lemma recover_seen:
  assumes "live run w" "run_ID (st_Run state) = run" "seen run state w"
    and "recoverPendingAction C L execute presented (managedAppend C q l) state a w = (Inr r, w')"
  shows "seen run (rc_State r) w'"
proof -
  have "reports run (bindR (liftA CtlLease (lo_LookupReceipt L (run_ID (st_Run state)) (st_PendingActionID state))) (\<lambda>r.
        case r of
          Inr receipt \<Rightarrow> settleReceipt C (managedAppend C q l) state (pendingCommand state) receipt (returnA ()) a
        | Inl e \<Rightarrow>
            (if e \<noteq> CtlLease ErrReceiptNotFound then failA e
             else if st_PendingActionScope state \<noteq> IdempotencyScoped
             then failAction C (managedAppend C q l) state (pendingCommand state)
                    ''action outcome is ambiguous and no durable receipt proves completion'' ActionOutcomeAmbiguous a
             else executeManagedAction C L execute presented (managedAppend C q l) state (pendingCommand state) a)))"
    by (intro reports_bindR reports_sum reports_if reports_failA keeps_idle idle_lookup reports_settle reports_failAction
        reports_execute assms(2) idle.safe_returnA)
  then show ?thesis
    using assms reports_failAction [OF assms(2)] unfolding reports_def
    by (auto simp: recoverPendingAction_def Let_def returnA_def split: if_splits)
qed

text \<open>Every State that \<open>ReconcileLeased\<close> reports is the reduction of a prefix of the durable log.\<close>

lemma ReconcileLeased_seen:
  assumes "ok w" "ReconcileLeased C run l w = (Inr r, w')"
  shows "seen run (rc_State r) w'"
proof -
  obtain u w1 where val: "liftA CtlLease (lo_Validate L l) w = (Inr u, w1)"
    using assms(2) by (auto simp: ReconcileLeased_def configured bindA_iff split: if_splits)
  have ok1: "ok w1" using idle.safeD [OF idle_validate assms(1) val] still_grows grows_ok by blast
  obtain state w2 where get: "GetRun C run w1 = (Inr state, w2)"
    using assms(2) val by (auto simp: ReconcileLeased_def configured bindA_def split: if_splits sum.splits prod.splits)
  have got: "grows w1 w2" "accepts h (log w2 run) state" using GetRun_reduces [OF ok1 get] by auto
  have ok2: "ok w2" using grows_ok [OF got(1)] .
  have now: "seen run state w2" using got(2) by (auto simp: seen_def)
  let ?start = "(run_Version (st_Run state), [])" and ?c = "Decide h state"
  let ?plan = "bindA (inject C FaultBeforeActionPlanned ?c) (\<lambda>_.
          if \<not> IdempotencyScope_Valid (mo_Safety (c_options C) ?c) then failA ErrInvalidRequest
          else bindR (managedAppend C run l (actionPlannedEvent ?c (mo_Safety (c_options C) ?c)) ?start) (\<lambda>r.
            case r of
              Inl e \<Rightarrow>
                (if isVersionConflict e
                 then bindA (GetRun C run) (\<lambda>current.
                        returnA \<lparr>rc_Command = noopCommand, rc_Events = [], rc_State = current\<rparr>)
                 else failA e)
            | Inr a \<Rightarrow>
                bindA (inject C FaultAfterActionPlanned ?c) (\<lambda>_.
                bindA (GetRun C run) (\<lambda>plannedState.
                  executeManagedAction C L execute l (managedAppend C run l) plannedState ?c a))))"
  have plan: "reports run ?plan"
    by (intro reports_bindA reports_bindR reports_sum reports_if reports_failA reports_current reports_GetRun reports_execute
        keeps_idle idle_inject idle_managedAppend)
  consider (pending) "st_PendingActionID state \<noteq> ''''"
    "recoverPendingAction C L execute l (managedAppend C run l) state ?start w2 = (Inr r, w')"
    | (noop) "rc_State r = state" "w' = w2"
    | (plan) "cmd_Type ?c \<noteq> CommandNoop" "?plan w2 = (Inr r, w')"
    using assms(2) val get
    by (auto simp: ReconcileLeased_def configured bindA_def Let_def returnA_def split: if_splits)
  then show ?thesis
  proof cases
    case pending
    then have ex: "st_Exists state" using pending_exists [of h "log w2 run" state] got(2) by (simp add: Reduce_accepts)
    then have "live run w2" using accepts_exists [OF got(2)] ok2 by (simp add: live_def)
    from recover_seen [OF this run_name [OF ok2 got(2) ex] now pending(2)] show ?thesis .
  next
    case noop
    with now show ?thesis by simp
  next
    case plan2: plan
    then have "st_Exists state" by (cases "st_Exists state") (simp_all add: Decide_def)
    then have "live run w2" using accepts_exists [OF got(2)] ok2 by (simp add: live_def)
    with plan plan2(2) show ?thesis unfolding reports_def by blast
  qed
qed

end

section \<open>The worker process\<close>

definition authority :: "Lease \<Rightarrow> string \<times> string \<times> uint64" where
  "authority l = (ls_RunID l, ls_WorkerID l, ls_FencingToken l)"

definition holds :: "'w process \<Rightarrow> bool" where
  "holds p \<longleftrightarrow> authority (wp_session p) \<in> authority ` set (wp_acquired p)"

definition inSession :: "Pc \<Rightarrow> bool" where
  "inSession c \<longleftrightarrow> c = PcSession \<or> c = PcPoll"

definition converged :: "'w process \<Rightarrow> bool" where
  "converged p \<longleftrightarrow> (case wp_last p of None \<Rightarrow> False
     | Some r \<Rightarrow> Terminal (observed (rc_State r)) \<or> observed (rc_State r) = StatusWaitingApproval)"

locale worker = named_managed C log ok L execute calls
  for C :: "'w Controller" and log :: "'w \<Rightarrow> string \<Rightarrow> Event list" and ok :: "'w \<Rightarrow> bool"
    and L :: "'w LeaseOps" and execute :: "ActionRequest \<Rightarrow> ('w, ActionReceipt) action"
    and calls :: "'w \<Rightarrow> ActionRequest list" +
  fixes M :: "'w ManagerOps"
  assumes register: "ok w \<Longrightarrow> mg_Register M k w = (rr, w') \<Longrightarrow> ok w' \<and> (\<forall>q. prefix (log w q) (log w' q))"
    and heartbeat: "ok w \<Longrightarrow> mg_Heartbeat M k w = (rr, w') \<Longrightarrow> ok w' \<and> (\<forall>q. prefix (log w q) (log w' q))"
    and acquire: "ok w \<Longrightarrow> mg_Acquire M run k ttl w = (ra, w') \<Longrightarrow> ok w' \<and> (\<forall>q. prefix (log w q) (log w' q))"
    and renew: "ok w \<Longrightarrow> mg_Renew M l ttl w = (rl, w') \<Longrightarrow> ok w' \<and> (\<forall>q. prefix (log w q) (log w' q))"
    and acquired: "mg_Acquire M run k ttl w = (Inr a, w') \<Longrightarrow> ls_RunID (aq_Lease a) = run \<and> ls_WorkerID (aq_Lease a) = k"
    and renewed: "mg_Renew M l ttl w = (Inr l', w') \<Longrightarrow> authority l' = authority l"
begin

text \<open>
  Every lease presented so far carries the token of a lease acquired for this Run and worker, and the
  last reported State is a State of the durable log.
\<close>

definition core :: "Config \<Rightarrow> 'w process \<Rightarrow> bool" where
  "core config p \<longleftrightarrow> ok (wp_world p)
     \<and> (\<forall>l\<in>set (wp_acquired p). ls_RunID l = cf_RunID config \<and> ls_WorkerID l = cf_WorkerID config)
     \<and> authority ` set (wp_presented p) \<subseteq> authority ` set (wp_acquired p)
     \<and> (wp_renewalOver p \<or> holds p)
     \<and> (\<forall>l. wp_renewed p = Some (Inr l) \<longrightarrow> authority l \<in> authority ` set (wp_acquired p))
     \<and> (\<forall>r. wp_last p = Some r \<longrightarrow> seen (cf_RunID config) (rc_State r) (wp_world p))"

text \<open>What a step of another goroutine leaves as it was.\<close>

definition beside :: "'w process \<Rightarrow> 'w process \<Rightarrow> bool" where
  "beside p p' \<longleftrightarrow> grows (wp_world p) (wp_world p') \<and> wp_pc p' = wp_pc p \<and> wp_acquired p' = wp_acquired p \<and> wp_presented p' = wp_presented p
     \<and> wp_last p' = wp_last p \<and> (wp_workerDone p \<longrightarrow> wp_workerDone p') \<and> (holds p \<longrightarrow> holds p')"

lemma beside_trans: "beside p p' \<Longrightarrow> beside p' p'' \<Longrightarrow> beside p p''"
  using grows_trans by (auto simp: beside_def)

lemma core_world:
  "core config p \<Longrightarrow> grows (wp_world p) w \<Longrightarrow> core config (p\<lparr>wp_world := w\<rparr>)"
  using seen_grows grows_ok by (auto simp: core_def holds_def)

lemma grows_calls:
  "ok w \<Longrightarrow> mg_Heartbeat M k w = (rh, w') \<Longrightarrow> grows w w'"
  "ok w \<Longrightarrow> mg_Register M k w = (rh, w') \<Longrightarrow> grows w w'"
  "ok w \<Longrightarrow> mg_Renew M l ttl w = (rl, w') \<Longrightarrow> grows w w'"
  "ok w \<Longrightarrow> mg_Acquire M run k ttl w = (ra, w') \<Longrightarrow> grows w w'"
  "ok w \<Longrightarrow> ReconcileLeased C run l w = (rr, w') \<Longrightarrow> grows w w'"
  using heartbeat [of w k rh w'] register [of w k rh w'] renew [of w l ttl rl w'] acquire [of w run k ttl ra w']
    ReconcileLeased_once [of w run l rr w']
  by (simp_all add: grows_def once_def)

lemma heartbeat_core:
  assumes "core config p"
  shows "core config (heartbeatRound M config p) \<and> beside p (heartbeatRound M config p)"
proof (cases "wp_heartbeatOver p")
  case False
  obtain r w where r: "mg_Heartbeat M (cf_WorkerID config) (wp_world p) = (r, w)" by fastforce
  have "grows (wp_world p) w" using grows_calls(1) [OF _ r] assms by (simp add: core_def)
  with False r core_world [OF assms, of w] show ?thesis
    by (auto simp: heartbeatRound_def core_def beside_def holds_def split: sum.splits)
qed (use assms in \<open>simp_all add: heartbeatRound_def beside_def grows_refl core_def\<close>)

lemma renewalCall_core:
  assumes "core config p"
  shows "core config (renewalCall M config p) \<and> beside p (renewalCall M config p)"
proof (cases "wp_renewalOver p \<or> wp_renewed p \<noteq> None")
  case False
  obtain r w where r: "mg_Renew M (wp_session p) (cf_LeaseTTL config) (wp_world p) = (r, w)" by fastforce
  have "grows (wp_world p) w" using grows_calls(3) [OF _ r] assms by (simp add: core_def)
  moreover have "authority l \<in> authority ` set (wp_acquired p)" if "r = Inr l" for l
    using assms False renewed [OF r [unfolded that]] by (simp add: core_def holds_def)
  ultimately show ?thesis using False r core_world [OF assms, of w]
    by (auto simp: renewalCall_def core_def beside_def holds_def)
qed (use assms in \<open>auto simp: renewalCall_def beside_def grows_refl core_def\<close>)

lemma renewalReturn_core:
  assumes "core config p"
  shows "core config (renewalReturn p) \<and> beside p (renewalReturn p)"
  using assms
  by (auto simp: renewalReturn_def core_def beside_def grows_refl holds_def split: option.splits sum.splits)

lemma backgroundStep_core:
  assumes "core config p"
  shows "core config (backgroundStep M config b p) \<and> beside p (backgroundStep M config b p)"
proof (cases b)
  case ParentCancelled
  with assms show ?thesis by (simp add: core_def beside_def grows_refl holds_def)
qed (use heartbeat_core [OF assms] renewalCall_core [OF assms] renewalReturn_core [OF assms] in simp_all)

lemma background_core:
  assumes "core config p"
  shows "core config (background M config S p) \<and> beside p (background M config S p)"
proof -
  have "core config (fold (backgroundStep M config) bs q) \<and> beside q (fold (backgroundStep M config) bs q)"
    if "core config q" for bs q
    using that
  proof (induction bs arbitrary: q)
    case (Cons b bs)
    from backgroundStep_core [OF Cons.prems] Cons.IH show ?case using beside_trans by fastforce
  qed (simp add: beside_def grows_refl core_def)
  moreover have "core config (p\<lparr>wp_clock := Suc (wp_clock p)\<rparr>)" "beside p (p\<lparr>wp_clock := Suc (wp_clock p)\<rparr>)"
    using assms by (simp_all add: core_def beside_def holds_def grows_refl)
  ultimately show ?thesis unfolding background_def using beside_trans by blast
qed

text \<open>The main loop: a session holds an acquired authority, and success means convergence or a cancelled context.\<close>

definition inv :: "Config \<Rightarrow> 'w process \<Rightarrow> bool" where
  "inv config p \<longleftrightarrow> core config p \<and> (inSession (wp_pc p) \<longrightarrow> holds p)
     \<and> (wp_pc p = PcReturned (Inr ()) \<longrightarrow> wp_workerDone p \<or> converged p)"

lemma core_pc [simp]:
  "core config (p\<lparr>wp_pc := c\<rparr>) = core config p"
  "core config (p\<lparr>wp_heartbeatErrors := x\<rparr>) = core config p"
  "core config (p\<lparr>wp_renewalErrors := x\<rparr>) = core config p"
  "core config (p\<lparr>wp_sessionDone := b\<rparr>) = core config p"
  "core config (p\<lparr>wp_heartbeatOver := b\<rparr>) = core config p"
  by (simp_all add: core_def holds_def)

lemma inv_errors:
  assumes "core config p"
  shows "inv config (heartbeatErrorOr (Inl e) p)" "inv config (endSession e p)" "inv config (afterSession e p)"
    "wp_workerDone p \<Longrightarrow> inv config (heartbeatErrorOr (Inr ()) p)"
    "inv config (p\<lparr>wp_pc := PcAcquire\<rparr>)" "inv config (p\<lparr>wp_pc := PcHeld\<rparr>)" "inv config (returns (Inl e) p)"
  using assms
  by (simp_all add: inv_def heartbeatErrorOr_def endSession_def afterSession_def returns_def inSession_def split: option.split)

lemma inv_session: "core config p \<Longrightarrow> holds p \<Longrightarrow> c = PcSession \<or> c = PcPoll \<Longrightarrow> inv config (p\<lparr>wp_pc := c\<rparr>)"
  by (auto simp: inv_def holds_def)

lemma inv_start:
  assumes "core config p" "ls_RunID l = cf_RunID config \<and> ls_WorkerID l = cf_WorkerID config"
  shows "inv config (startSession l p)"
  using assms by (auto simp: inv_def startSession_def core_def holds_def inSession_def)

lemma inv_acquire:
  assumes "core config p"
  shows "inv config (acquireStep M config S p)"
proof (cases "wp_heartbeatErrors p")
  case None
  obtain r w where r: "mg_Acquire M (cf_RunID config) (cf_WorkerID config) (cf_LeaseTTL config) (wp_world p) = (r, w)"
    by fastforce
  have "grows (wp_world p) w" using grows_calls(4) [OF _ r] assms by (simp add: core_def)
  then have q: "core config (background M config S (p\<lparr>wp_world := w\<rparr>))" using background_core core_world [OF assms] by blast
  show ?thesis
  proof (cases r)
    case (Inl e)
    with None r show ?thesis by (simp add: acquireStep_def Let_def inv_errors [OF q])
  next
    case (Inr a)
    with None r acquired [OF r [unfolded Inr]] show ?thesis
      by (simp add: acquireStep_def Let_def inv_errors [OF q] inv_start [OF q])
  qed
qed (use assms in \<open>simp add: acquireStep_def inv_errors\<close>)

lemma inv_sessionStep:
  assumes "core config p" "holds p"
  shows "inv config (sessionStep M C config S p)"
proof (cases "wp_renewalErrors p")
  case (Some e)
  with assms show ?thesis by (simp add: sessionStep_def inv_errors)
next
  case None
  let ?q = "background M config S p"
  have q: "core config ?q" "holds ?q" using background_core [OF assms(1)] assms(2) by (auto simp: beside_def)
  obtain r w where r: "ReconcileLeased C (cf_RunID config) (wp_session ?q) (wp_world ?q) = (r, w)" by fastforce
  have g: "grows (wp_world ?q) w" using grows_calls(5) [OF _ r] q(1) by (simp add: core_def)
  let ?q' = "?q\<lparr>wp_world := w, wp_presented := wp_presented ?q @ [wp_session ?q]\<rparr>"
  have q': "core config ?q'" "holds ?q'" using core_world [OF q(1) g] q(2) by (auto simp: core_def holds_def)
  let ?s = "background M config S ?q'"
  have s: "core config ?s" "holds ?s" "grows w (wp_world ?s)"
    using background_core [OF q'(1)] q'(2) by (auto simp: beside_def)
  show ?thesis
  proof (cases r)
    case (Inl e)
    with None r show ?thesis
      by (simp add: sessionStep_def Let_def inv_errors [OF s(1)] s(1) inv_errors split: option.split)
  next
    case (Inr result)
    have "seen (cf_RunID config) (rc_State result) w"
      using ReconcileLeased_seen r q(1) unfolding Inr core_def by blast
    from seen_grows [OF this s(3)] have t: "core config (?s\<lparr>wp_last := Some result\<rparr>)" "holds (?s\<lparr>wp_last := Some result\<rparr>)"
      using s(1,2) by (auto simp: core_def holds_def)
    with None r Inr show ?thesis
      by (simp add: sessionStep_def Let_def inv_session [OF t]) (simp add: inv_def returns_def converged_def inSession_def)
  qed
qed

lemma inv_step:
  assumes "inv config p"
  shows "inv config (workerStep M C config S p)"
proof -
  have c: "core config p" using assms by (simp add: inv_def)
  note b = background_core [OF c, of S]
  have held: "holds (background M config S p)" if "inSession (wp_pc p)" using that assms b by (simp add: inv_def beside_def)
  show ?thesis
  proof (cases "wp_pc p")
    case PcRegister
    obtain r w where r: "mg_Register M (cf_WorkerID config) (wp_world p) = (r, w)" by fastforce
    have "core config (p\<lparr>wp_world := w\<rparr>)" using core_world [OF c grows_calls(2) [OF _ r]] c by (simp add: core_def)
    with PcRegister r show ?thesis
      by (cases r) (simp_all add: workerStep_def inv_def inSession_def core_def holds_def returns_def)
  next
    case PcPoll
    with held b show ?thesis by (simp add: workerStep_def Let_def inv_errors inv_session inSession_def)
  next
    case PcSession
    with held b show ?thesis by (simp add: workerStep_def inv_sessionStep inSession_def)
  qed (use assms b in \<open>simp_all add: workerStep_def Let_def inv_errors inv_acquire\<close>)
qed

lemma inv_Run:
  assumes "ok w"
  shows "inv config (Run_worker M C config S w n)"
proof (induction n)
  case 0
  with assms show ?case by (simp add: Run_worker_def startWorker_def inv_def core_def inSession_def)
next
  case (Suc n)
  then show ?case using inv_step by (simp add: Run_worker_def)
qed

lemma Run_presents:
  assumes "ok w" "l \<in> set (wp_presented (Run_worker M C config S w n))"
  shows "ls_RunID l = cf_RunID config \<and> ls_WorkerID l = cf_WorkerID config
    \<and> ls_FencingToken l \<in> ls_FencingToken ` set (wp_acquired (Run_worker M C config S w n))"
proof -
  have c: "core config (Run_worker M C config S w n)" using inv_Run [OF assms(1)] by (simp add: inv_def)
  with assms(2) have "authority l \<in> authority ` set (wp_acquired (Run_worker M C config S w n))" by (auto simp: core_def)
  then obtain a where "a \<in> set (wp_acquired (Run_worker M C config S w n))" "authority l = authority a" by auto
  with c show ?thesis by (auto simp: core_def authority_def)
qed

lemma Run_success:
  assumes "ok w" "Run_worker M C config S w n = p" "wp_pc p = PcReturned (Inr ())" "\<not> wp_workerDone p"
  shows "\<exists>es st. prefix es (log (wp_world p) (cf_RunID config)) \<and> accepts h es st
    \<and> (Terminal (observed st) \<or> observed st = StatusWaitingApproval)"
proof -
  have i: "inv config p" using inv_Run [OF assms(1)] assms(2) by blast
  with assms(3,4) obtain r where r: "wp_last p = Some r"
    "Terminal (observed (rc_State r)) \<or> observed (rc_State r) = StatusWaitingApproval"
    by (auto simp: inv_def converged_def split: option.splits)
  with i have "seen (cf_RunID config) (rc_State r) (wp_world p)" by (simp add: inv_def core_def)
  with r(2) show ?thesis unfolding seen_def by blast
qed

end

end
