(* ===== verification/Worker_Props.thy ===== *)
theory Worker_Props
  imports Worker_Contract
begin

text \<open>
  The guarantees of a worker over PostgreSQL: the leases it presents, what a successful return means,
  and two ways to leave without having reconciled the Run.
\<close>

section \<open>The lease manager of the PostgreSQL world\<close>

definition discard :: "('e + 'a) \<times> 'w \<Rightarrow> ('e + unit) \<times> 'w" where
  "discard x = (map_sum id (\<lambda>_. ()) (fst x), snd x)"

definition pgManager :: "env \<Rightarrow> PgSchedule \<Rightarrow> Storage world ManagerOps" where
  "pgManager E X =
     \<lparr>mg_Register = (\<lambda>k w. discard (call (ps_others X) (\<lambda>n. Register (ps_fault X n) (ps_now X n) k) w)),
      mg_Heartbeat = (\<lambda>k w. discard (call (ps_others X) (\<lambda>n. Heartbeat (ps_fault X n) (ps_now X n) k) w)),
      mg_Acquire = (\<lambda>run k ttl. call (ps_others X) (\<lambda>n. Acquire E \<lparr>aqc_fault = ps_fault X n, aqc_read = ps_now X n,
        aqc_write = ps_now X (Suc n), aqc_beat = ps_now X (Suc (Suc n))\<rparr> run k ttl)),
      mg_Renew = (\<lambda>l ttl. call (ps_others X) (\<lambda>n. Renew E (ps_fault X n) (ps_now X n) l ttl))\<rparr>"

lemma pg_transact_result:
  "pg_transact d f s body = (s', Inr x) \<Longrightarrow> \<exists>s''. body = Inr (s'', x)"
  by (erule pg_transact_cases) auto

lemma Acquire_owner:
  assumes "Acquire E c run k ttl s = (s', Inr a)"
  shows "ls_RunID (aq_Lease a) = run \<and> ls_WorkerID (aq_Lease a) = k"
  using assms
  by (auto simp: Acquire_def acquireBody_def putLease_def leaseRow_def scanLease_def loadLease_def Let_def bindE_Inr_iff
      split: if_splits option.splits dest!: pg_transact_result)

lemma Renew_authority:
  assumes "Renew E f now l ttl s = (s', Inr l')"
  shows "authority l' = authority l"
  using assms
  by (auto simp: Renew_def validateLeaseInTx_def scanLease_def loadLease_def Let_def bindE_Inr_iff authority_def
      split: if_splits option.splits sum.splits dest!: pg_transact_result)

lemma discardE: "discard x = (r, w) \<Longrightarrow> (\<And>q. x = (q, w) \<Longrightarrow> P) \<Longrightarrow> P"
  by (cases x) (auto simp: discard_def)

interpretation pgw: worker "pgManaged E X errText dir safety" "\<lambda>w. loadPostgresEvents E (wd_store w)" "pg_world E X"
    "pgLease E X" "pgExecutor E X errText dir" wd_calls "pgManager E X"
  for E X errText dir safety
proof (unfold_locales, goal_cases)
  case (1 w ev run)
  then show ?case using loaded_run by blast
next
  case (2 w k rr w')
  then obtain q where c: "call (ps_others X) (\<lambda>n. Register (ps_fault X n) (ps_now X n) k) w = (q, w')"
    by (auto simp: pgManager_def elim: discardE)
  have "\<forall>n s s' r. Register (ps_fault X n) (ps_now X n) k s = (s', r) \<longrightarrow> storage_step E s s'" using step_register by blast
  from pg_steady_call [OF 2(1) c this] show ?case by blast
next
  case (3 w k rr w')
  then obtain q where c: "call (ps_others X) (\<lambda>n. Heartbeat (ps_fault X n) (ps_now X n) k) w = (q, w')"
    by (auto simp: pgManager_def elim: discardE)
  have "\<forall>n s s' r. Heartbeat (ps_fault X n) (ps_now X n) k s = (s', r) \<longrightarrow> storage_step E s s'" using step_heartbeat by blast
  from pg_steady_call [OF 3(1) c this] show ?case by blast
next
  case (4 w run k ttl ra w')
  have "\<forall>n s s' r. Acquire E \<lparr>aqc_fault = ps_fault X n, aqc_read = ps_now X n,
        aqc_write = ps_now X (Suc n), aqc_beat = ps_now X (Suc (Suc n))\<rparr> run k ttl s = (s', r) \<longrightarrow> storage_step E s s'"
    using step_acquire by blast
  from pg_steady_call [OF 4(1) _ this] 4(2) show ?case by (simp add: pgManager_def)
next
  case (5 w l ttl rl w')
  have "\<forall>n s s' r. Renew E (ps_fault X n) (ps_now X n) l ttl s = (s', r) \<longrightarrow> storage_step E s s'" using step_renew by blast
  from pg_steady_call [OF 5(1) _ this] 5(2) show ?case by (simp add: pgManager_def)
next
  case (6 run k ttl w a w')
  then show ?case by (auto simp: pgManager_def elim!: callE dest: Acquire_owner)
next
  case (7 l ttl w l' w')
  then show ?case by (auto simp: pgManager_def elim!: callE dest: Renew_authority)
qed

section \<open>Properties\<close>

definition sampleConfig :: Config where
  "sampleConfig = \<lparr>cf_WorkerID = ''w1'', cf_RunID = ''run-1'', cf_LeaseTTL = 50000, cf_HeartbeatInterval = 1000, cf_PollInterval = 10\<rparr>"

definition idleSchedule :: Schedule where
  "idleSchedule = \<lparr>sd_background = (\<lambda>_. []), sd_timer = (\<lambda>_. False)\<rparr>"

definition cancelledEvent :: Event where
  "cancelledEvent = (stepEvent EventRunCancelled ''h'' EventData_zero '':cancelled'')\<lparr>ev_RunID := ''run-1''\<rparr>"

definition cancelledStorage :: Storage where
  "cancelledStorage = fst (pg_Append briefEnv sampleChoices 2 cancelledEvent (fst (pg_Append briefEnv sampleChoices 1 stuckCancel sampleStorage1)))"

definition sampleWorker :: "Schedule \<Rightarrow> Storage \<Rightarrow> nat \<Rightarrow> Storage world process" where
  "sampleWorker S s = Run_worker (pgManager briefEnv quiet) (pgManaged briefEnv quiet (\<lambda>_. ''error'') ''/a'' None) sampleConfig S (freshWorld s)"

definition outcome :: "'w process \<Rightarrow> Pc \<times> bool \<times> nat" where
  "outcome p = (wp_pc p, wp_workerDone p, length (wp_presented p))"

lemma sample_converges: "outcome (sampleWorker idleSchedule cancelledStorage 3) = (PcReturned (Inr ()), False, 1)"
  by code_simp

lemma sample_worker_world: "pg_world briefEnv quiet (freshWorld cancelledStorage)"
  unfolding cancelledStorage_def
  by (intro fresh_pg_world reachable_step [OF _ step_append [OF prod.collapse [symmetric]]] sample_reachable(1))

text \<open>
  (C13) A worker presents only authority it was granted. At every point of every schedule of its three
  goroutines and of the other clients of the database, each lease the worker has presented to
  \<open>ReconcileLeased\<close> names its own Run and worker and carries the fencing token of a lease that \<open>Acquire\<close>
  returned to it, through whatever renewals, losses and re-acquisitions.
\<close>

theorem worker_presents_acquired:
  assumes "pg_world E X w" "l \<in> set (wp_presented (Run_worker (pgManager E X) (pgManaged E X errText dir safety) config S w n))"
  shows "ls_RunID l = cf_RunID config \<and> ls_WorkerID l = cf_WorkerID config
    \<and> ls_FencingToken l \<in> ls_FencingToken ` set (wp_acquired (Run_worker (pgManager E X) (pgManaged E X errText dir safety) config S w n))"
  using pgw.Run_presents [OF assms] .

theorem worker_presents_acquired_witness:
  "\<exists>l. l \<in> set (wp_presented (sampleWorker idleSchedule cancelledStorage 3)) \<and> ls_RunID l = ''run-1'' \<and> ls_WorkerID l = ''w1''"
proof -
  have "wp_presented (sampleWorker idleSchedule cancelledStorage 3) \<noteq> []"
    using sample_converges by (auto simp: outcome_def)
  then obtain l where l: "l \<in> set (wp_presented (sampleWorker idleSchedule cancelledStorage 3))" by fastforce
  from worker_presents_acquired [OF sample_worker_world l [unfolded sampleWorker_def]] l show ?thesis
    by (auto simp: sampleConfig_def)
qed

text \<open>
  (C14) A worker that reports success has seen the Run converge. When \<open>Run\<close> returns no error and its
  context was not cancelled, the durable log of the Run has a prefix whose State is terminal or waits
  for approval, whatever the schedule.
\<close>

theorem worker_success_converged:
  assumes "pg_world E X w" "Run_worker (pgManager E X) (pgManaged E X errText dir safety) config S w n = p"
    and "wp_pc p = PcReturned (Inr ())" "\<not> wp_workerDone p"
  shows "\<exists>es st. prefix es (loadPostgresEvents E (wd_store (wp_world p)) (cf_RunID config)) \<and> Reduce (env_hash E) es = Inr st
    \<and> (Terminal (observed st) \<or> observed st = StatusWaitingApproval)"
  using pgw.Run_success [OF assms] by (simp add: Reduce_accepts pgManaged_simps pgController_def New_def)

theorem worker_success_converged_witness:
  "\<exists>es st. prefix es (loadPostgresEvents briefEnv (wd_store (wp_world (sampleWorker idleSchedule cancelledStorage 3))) ''run-1'')
     \<and> Reduce (env_hash briefEnv) es = Inr st \<and> (Terminal (observed st) \<or> observed st = StatusWaitingApproval)"
  using worker_success_converged [OF sample_worker_world sampleWorker_def [symmetric, THEN fun_cong], of idleSchedule 3]
    sample_converges by (simp add: outcome_def sampleConfig_def)

section \<open>Leaving without convergence\<close>

text \<open>
  When the context is cancelled right after the lease was acquired, \<open>Run\<close> returns the error of the
  successful \<open>Acquire\<close>, which is nil, though it never reconciled.
\<close>

definition cancelAfterAcquire :: Schedule where
  "cancelAfterAcquire = idleSchedule\<lparr>sd_background := (\<lambda>n. if n = 1 then [ParentCancelled] else [])\<rparr>"

lemma cancelled_worker_reports_success:
  "outcome (sampleWorker cancelAfterAcquire sampleStorage1 2) = (PcReturned (Inr ()), True, 0)"
  by code_simp

text \<open>
  A lease lost while the worker waits between two polls ends the worker with the error of the
  cancelled session context; the same loss noticed at the head of the loop makes it acquire again.
\<close>

lemma lost_lease_while_polling:
  assumes "wp_pc p = PcPoll" "wp_sessionDone (background M config S p)" "\<not> sd_timer S (wp_clock (background M config S p))"
    and "\<not> wp_workerDone (background M config S (workerStep M C config S p))"
  shows "wp_pc (workerStep M C config S (workerStep M C config S p)) = PcReturned (Inl WkContext)"
proof -
  let ?q = "workerStep M C config S p"
  have "wp_pc ?q = PcEnded WkContext"
    using assms(1-3) by (simp add: workerStep_def Let_def waitContext_def endSession_def)
  then show ?thesis using assms(4) by (simp add: workerStep_def [of _ _ _ _ ?q] afterSession_def returns_def)
qed

lemma lost_lease_at_loop_head:
  assumes "wp_renewalErrors p = Some (WkRenewal e)" "lostLease e"
    and "\<not> wp_workerDone (background M config S (sessionStep M C config S p))"
  shows "wp_pc (workerStep M C config S (sessionStep M C config S p)) = PcAcquire"
proof -
  have "wp_pc (sessionStep M C config S p) = PcEnded (WkRenewal e)"
    using assms(1) by (simp add: sessionStep_def endSession_def)
  then show ?thesis using assms(2,3) by (simp add: workerStep_def [of _ _ _ _ "sessionStep M C config S p"] afterSession_def)
qed

end
