(* ===== verification/Policy_Path.thy ===== *)
theory Policy_Path
  imports Store_Artifact
begin

text \<open>
  The path rules of \<open>src/internal/policy\<close>: the lexical normalization and the allowlist of
  \<open>policy.go\<close>, and the symlink check of \<open>path.go\<close> over a file tree. A tree maps the components of a
  rooted path to what \<open>lstat\<close> sees there; \<open>filepath.EvalSymlinks\<close> is its algorithm, with the bound of
  255 links after which it fails.
\<close>

section \<open>Lexical normalization\<close>

text \<open>\<open>strings.EqualFold\<close> against an ASCII text: besides ASCII, the Kelvin sign folds to k and the long s to s.\<close>

fun EqualFold :: "string \<Rightarrow> string \<Rightarrow> bool" where
  "EqualFold s [] = (s = [])"
| "EqualFold [] (c # cs) = False"
| "EqualFold (x # s) (c # cs) =
     (lower_char x = lower_char c \<and> EqualFold s cs
      \<or> lower_char c = CHR ''k'' \<and> x = CHR 0xE2 \<and> take 2 s = [CHR 0x84, CHR 0xAA] \<and> EqualFold (drop 2 s) cs
      \<or> lower_char c = CHR ''s'' \<and> x = CHR 0xC5 \<and> take 1 s = [CHR 0xBF] \<and> EqualFold (drop 1 s) cs)"

text \<open>The components of a relative path: \<open>..\<close> is kept where nothing is left to remove.\<close>

fun resolve_relative :: "string list \<Rightarrow> string list \<Rightarrow> string list" where
  "resolve_relative kept [] = rev kept"
| "resolve_relative kept (c # cs) =
     (if c = '''' \<or> c = ''.'' then resolve_relative kept cs
      else if c = ''..'' then
        (if kept = [] \<or> hd kept = ''..'' then resolve_relative (''..'' # kept) cs else resolve_relative (tl kept) cs)
      else resolve_relative (c # kept) cs)"

definition Clean :: "string \<Rightarrow> string" where
  "Clean path =
     (if IsAbs path then rooted (components path)
      else let cs = resolve_relative [] (split_slash [] path) in if cs = [] then ''.'' else join_slash cs)"

datatype PathError = ErrUnsafePath

definition normalizeLogicalPath :: "string \<Rightarrow> PathError + string" where
  "normalizeLogicalPath candidate =
     (if candidate = '''' \<or> IsAbs candidate \<or> CHR 0x00 \<in> set candidate then Inl ErrUnsafePath
      else let clean = Clean candidate in
        if clean = ''..'' \<or> has_prefix clean ''../'' then Inl ErrUnsafePath
        else let first = takeWhile (\<lambda>c. c \<noteq> CHR ''/'') clean in
          if EqualFold first ''.git'' \<or> EqualFold first ''.agentdock'' then Inl ErrUnsafePath
          else Inr clean)"

definition pathMatches :: "string \<Rightarrow> string \<Rightarrow> bool" where
  "pathMatches normalized allowed =
     (case normalizeLogicalPath allowed of
        Inl _ \<Rightarrow> False
      | Inr normalizedPrefix \<Rightarrow>
          normalizedPrefix = ''.'' \<or> normalized = normalizedPrefix \<or> has_prefix normalized (normalizedPrefix @ ''/''))"

definition PathsAllowed :: "string list \<Rightarrow> string list \<Rightarrow> bool" where
  "PathsAllowed paths allowed =
     (paths \<noteq> [] \<and> list_all (\<lambda>candidate.
        case normalizeLogicalPath candidate of
          Inl _ \<Rightarrow> False
        | Inr normalized \<Rightarrow> list_ex (pathMatches normalized) allowed) paths)"

section \<open>File trees\<close>

datatype FileNode = NodeDir | NodeFile | NodeLink string | NodeDenied

record FileTree =
  ft_node :: "string list \<Rightarrow> FileNode option"
  ft_cwd :: "string option"

datatype LstatResult = LstatNode FileNode | LstatNotExist | LstatError

text \<open>\<open>os.Lstat\<close> of a path whose parent has no symbolic links.\<close>

definition Lstat :: "FileTree \<Rightarrow> string list \<Rightarrow> LstatResult" where
  "Lstat F p =
     (if p = [] then LstatNode NodeDir
      else case (if butlast p = [] then Some NodeDir else ft_node F (butlast p)) of
        None \<Rightarrow> LstatNotExist
      | Some NodeDir \<Rightarrow>
          (case ft_node F p of
             None \<Rightarrow> LstatNotExist
           | Some NodeDenied \<Rightarrow> LstatError
           | Some n \<Rightarrow> LstatNode n)
      | Some _ \<Rightarrow> LstatError)"

function walkSymlinks :: "FileTree \<Rightarrow> nat \<Rightarrow> string list \<Rightarrow> string list \<Rightarrow> string list option" where
  "walkSymlinks F links dest [] = Some dest"
| "walkSymlinks F links dest (c # cs) =
     (if c = '''' \<or> c = ''.'' then walkSymlinks F links dest cs
      else if c = ''..'' then walkSymlinks F links (butlast dest) cs
      else case Lstat F (dest @ [c]) of
          LstatNode NodeDir \<Rightarrow> walkSymlinks F links (dest @ [c]) cs
        | LstatNode NodeFile \<Rightarrow> (if cs \<noteq> [] then None else Some (dest @ [c]))
        | LstatNode (NodeLink target) \<Rightarrow>
            (if links = 0 then None
             else walkSymlinks F (links - 1) (if IsAbs target then [] else dest) (split_slash [] target @ cs))
        | _ \<Rightarrow> None)"
  by pat_completeness auto
termination
  by (relation "inv_image (less_than <*lex*> less_than) (\<lambda>(F, links, dest, cs). (links, length cs))") auto

definition maxLinks :: nat where "maxLinks = 255"

definition EvalSymlinks :: "FileTree \<Rightarrow> string \<Rightarrow> string list option" where
  "EvalSymlinks F path = walkSymlinks F maxLinks [] (split_slash [] path)"

definition Abs_path :: "FileTree \<Rightarrow> string \<Rightarrow> string option" where
  "Abs_path F path =
     (if IsAbs path then Some (Clean path)
      else map_option (\<lambda>cwd. Clean (cwd @ ''/'' @ path)) (ft_cwd F))"

section \<open>The symlink boundary\<close>

definition withinRoot :: "string \<Rightarrow> string \<Rightarrow> bool" where
  "withinRoot root candidate =
     (case Rel root candidate of
        None \<Rightarrow> False
      | Some relative \<Rightarrow> \<not> IsAbs relative \<and> relative \<noteq> ''..'' \<and> \<not> has_prefix relative ''../'')"

fun checkParts :: "FileTree \<Rightarrow> string list \<Rightarrow> string list \<Rightarrow> string list \<Rightarrow> PathError + unit" where
  "checkParts F root current [] = Inr ()"
| "checkParts F root current (part # parts) =
     (if part = ''.'' \<or> part = '''' then checkParts F root current parts
      else case Lstat F (current @ [part]) of
          LstatNotExist \<Rightarrow> Inr ()
        | LstatError \<Rightarrow> Inl ErrUnsafePath
        | LstatNode _ \<Rightarrow>
            (case EvalSymlinks F (rooted (current @ [part])) of
               None \<Rightarrow> Inl ErrUnsafePath
             | Some resolved \<Rightarrow>
                 if \<not> withinRoot (rooted root) (rooted resolved) then Inl ErrUnsafePath
                 else checkParts F root resolved parts))"

definition NormalizePath :: "FileTree \<Rightarrow> string \<Rightarrow> string \<Rightarrow> PathError + string" where
  "NormalizePath F root candidate =
     bindE (normalizeLogicalPath candidate) (\<lambda>logical.
       case Abs_path F root of
         None \<Rightarrow> Inl ErrUnsafePath
       | Some absoluteRoot \<Rightarrow>
           (case EvalSymlinks F absoluteRoot of
              None \<Rightarrow> Inl ErrUnsafePath
            | Some canonicalRoot \<Rightarrow>
                bindE (checkParts F canonicalRoot canonicalRoot (split_slash [] logical)) (\<lambda>_. Inr logical)))"

section \<open>Facts about walking a tree\<close>

lemma EqualFold_refl: "EqualFold s s"
  by (induction s) auto

lemma has_slash_prefix_components:
  assumes "list_all plain cs" "cs \<noteq> []" "list_all plain ds" "ds \<noteq> []"
    and "has_prefix (join_slash cs) (join_slash ds @ ''/'')"
  shows "prefix ds cs"
proof -
  obtain t where t: "join_slash cs = join_slash ds @ CHR ''/'' # t" using assms(5) by (auto simp: has_prefix_iff)
  have "cs = split_slash [] (join_slash cs)" using split_join [OF assms(1,2)] by simp
  also have "\<dots> = ds @ split_slash [] t" unfolding t split_slash_append split_join [OF assms(3,4)] ..
  finally show ?thesis by simp
qed

text \<open>More links allow at least as much, and a walk along two paths is a walk along the first, then the second.\<close>

lemma walk_ConsE:
  assumes "walkSymlinks F n dest (c # cs) = Some t"
  obtains (skip) "c = '''' \<or> c = ''.''" "walkSymlinks F n dest cs = Some t"
    | (up) "c = ''..''" "walkSymlinks F n (butlast dest) cs = Some t"
    | (dir) "c \<notin> {'''', ''.'', ''..''}" "Lstat F (dest @ [c]) = LstatNode NodeDir" "walkSymlinks F n (dest @ [c]) cs = Some t"
    | (leaf) "c \<notin> {'''', ''.'', ''..''}" "Lstat F (dest @ [c]) = LstatNode NodeFile" "cs = []" "t = dest @ [c]"
    | (link) target where "c \<notin> {'''', ''.'', ''..''}" "Lstat F (dest @ [c]) = LstatNode (NodeLink target)" "n \<noteq> 0"
        "walkSymlinks F (n - 1) (if IsAbs target then [] else dest) (split_slash [] target @ cs) = Some t"
proof (cases "c \<in> {'''', ''.'', ''..''}")
  case True
  with assms skip up show thesis by (auto split: if_splits)
next
  case False
  show thesis
  proof (cases "Lstat F (dest @ [c])")
    case (LstatNode x)
    with assms False dir leaf link show thesis by (cases x) (auto split: if_splits)
  qed (use assms False in auto)
qed

lemma walk_more_links:
  "walkSymlinks F n dest cs = Some t \<Longrightarrow> n \<le> m \<Longrightarrow> walkSymlinks F m dest cs = Some t"
proof (induction F n dest cs arbitrary: m rule: walkSymlinks.induct)
  case (2 F n dest c cs)
  from 2(5) show ?case
  proof (cases rule: walk_ConsE)
    case (link target)
    have "walkSymlinks F (m - 1) (if IsAbs target then [] else dest) (split_slash [] target @ cs) = Some t"
      by (rule 2(4) [OF _ _ link(2) refl]) (use link 2(6) in auto)
    with link 2(6) show ?thesis by simp
  qed (use 2(1-3,6) in auto)
qed simp

lemma walk_append:
  "walkSymlinks F n dest (as @ bs) = Some t \<Longrightarrow>
     \<exists>m mid. m \<le> n \<and> walkSymlinks F n dest as = Some mid \<and> walkSymlinks F m mid bs = Some t"
proof (induction F n dest as rule: walkSymlinks.induct)
  case (1 F n dest)
  then show ?case by auto
next
  case (2 F n dest c cs)
  from 2(5) have "walkSymlinks F n dest (c # (cs @ bs)) = Some t" by simp
  then show ?case
  proof (cases rule: walk_ConsE)
    case (link target)
    have "\<exists>m mid. m \<le> n - 1 \<and> walkSymlinks F (n - 1) (if IsAbs target then [] else dest) (split_slash [] target @ cs) = Some mid
        \<and> walkSymlinks F m mid bs = Some t"
      by (rule 2(4) [OF _ _ link(2) refl]) (use link in auto)
    with link show ?thesis by (auto intro: le_trans [OF _ diff_le_self])
  next
    case leaf
    then show ?thesis by (auto intro!: exI [of _ n])
  qed (use 2(1-3) in auto)
qed

text \<open>A canonical path: plain names, directories all the way, at most the last one a file.\<close>

definition directory :: "FileTree \<Rightarrow> string list \<Rightarrow> bool" where
  "directory F p \<longleftrightarrow> list_all plain p \<and> (\<forall>q. prefix q p \<longrightarrow> Lstat F q = LstatNode NodeDir)"

definition canonical :: "FileTree \<Rightarrow> string list \<Rightarrow> bool" where
  "canonical F p \<longleftrightarrow> directory F p \<or> p \<noteq> [] \<and> directory F (butlast p) \<and> plain (last p) \<and> Lstat F p = LstatNode NodeFile"

lemma directory_Nil: "directory F []"
  by (simp add: directory_def Lstat_def)

lemma directory_snoc: "directory F (p @ [c]) \<longleftrightarrow> directory F p \<and> plain c \<and> Lstat F (p @ [c]) = LstatNode NodeDir"
  by (auto simp: directory_def)

lemma directory_butlast: "directory F p \<Longrightarrow> directory F (butlast p)"
  by (cases p rule: rev_cases) (auto simp: directory_snoc)

lemma walk_canonical:
  "directory F dest \<Longrightarrow> \<forall>c\<in>set cs. CHR ''/'' \<notin> set c \<Longrightarrow> walkSymlinks F n dest cs = Some t \<Longrightarrow> canonical F t"
proof (induction F n dest cs rule: walkSymlinks.induct)
  case (1 F n dest)
  then show ?case by (simp add: canonical_def)
next
  case (2 F n dest c cs)
  show ?case
  proof (cases "c = '''' \<or> c = ''.'' \<or> c = ''..''")
    case True
    with 2 directory_butlast show ?thesis by (auto split: if_splits)
  next
    case False
    then have c: "plain c" using 2(6) by (simp add: plain_def)
    show ?thesis
    proof (cases "Lstat F (dest @ [c])")
      case (LstatNode x)
      show ?thesis
      proof (cases x)
        case (NodeLink target)
        have "directory F (if IsAbs target then [] else dest)" using 2(5) directory_Nil by simp
        moreover have "\<forall>d\<in>set (split_slash [] target @ cs). CHR ''/'' \<notin> set d"
          using 2(6) split_slash_no_slash [of "[]"] by auto
        ultimately show ?thesis using 2(4) [of x target] 2(7) False LstatNode NodeLink by (simp split: if_splits)
      next
        case NodeDir
        with False LstatNode c 2(3) [of x] 2(5,6,7) show ?thesis by (simp add: directory_snoc)
      next
        case NodeFile
        with False LstatNode c 2(5,7) show ?thesis by (auto simp: canonical_def split: if_splits)
      qed (use False LstatNode 2(7) in simp)
    qed (use False 2(7) in simp_all)
  qed
qed

lemma walk_directory:
  "directory F p \<Longrightarrow> walkSymlinks F n [] (p @ cs) = walkSymlinks F n p cs"
proof (induction p arbitrary: cs rule: rev_induct)
  case (snoc c p)
  then have "directory F p" "plain c" "Lstat F (p @ [c]) = LstatNode NodeDir" by (simp_all add: directory_snoc)
  with snoc.IH [of "c # cs"] show ?case by (simp add: plain_def)
qed simp

lemma split_rooted: "list_all plain cs \<Longrightarrow> cs \<noteq> [] \<Longrightarrow> split_slash [] (rooted cs) = '''' # cs"
  using split_join by (simp add: rooted_def)

lemma canonical_plain: "canonical F p \<Longrightarrow> list_all plain p"
  by (cases p rule: rev_cases) (auto simp: canonical_def directory_def)

text \<open>\<open>withinRoot\<close> on canonical paths is the prefix order on components.\<close>

lemma strip_common_nil: "strip_common xs ys = ([], zs) \<Longrightarrow> ys = xs @ zs"
  by (induction xs ys arbitrary: zs rule: strip_common.induct) (auto split: if_splits)

lemma withinRoot_prefix:
  assumes "list_all plain r" "list_all plain p"
  shows "withinRoot (rooted r) (rooted p) \<longleftrightarrow> prefix r p"
proof
  assume w: "withinRoot (rooted r) (rooted p)"
  obtain up down where s: "strip_common r p = (up, down)" by fastforce
  have "up = []"
  proof (rule ccontr)
    assume "up \<noteq> []"
    then obtain u us where u: "up = u # us" by (cases up) auto
    let ?cs = "replicate (length up) ''..'' @ down"
    have "Rel (rooted r) (rooted p) = Some (join_slash ?cs)"
      using s u by (simp add: Rel_def rooted_abs components_rooted assms Let_def)
    moreover have "join_slash ?cs = ''..'' \<or> has_prefix (join_slash ?cs) ''../''"
      by (cases "replicate (length us) ''..'' @ down") (simp_all add: u has_prefix_iff)
    ultimately show False using w by (simp add: withinRoot_def)
  qed
  with s strip_common_nil show "prefix r p" by (auto simp: prefix_def)
next
  assume "prefix r p"
  then obtain q where q: "p = r @ q" by (auto simp: prefix_def)
  have "list_all plain q" using assms(2) q by simp
  then have "\<not> IsAbs (join_slash q) \<and> join_slash q \<noteq> ''..'' \<and> \<not> has_prefix (join_slash q) ''../''" if "q \<noteq> []"
    using that
    by (cases q rule: join_slash.cases)
       (auto simp: IsAbs_def has_prefix_iff plain_def Cons_eq_append_conv append_eq_Cons_conv)
  moreover have "Rel (rooted r) (rooted p) = Some (if q = [] then ''.'' else join_slash q)"
    by (simp add: Rel_def rooted_abs components_rooted assms Let_def) (simp add: q strip_common_prefix strip_common_prefix [of r "[]", simplified])
  ultimately show "withinRoot (rooted r) (rooted p)" by (cases "q = []") (simp_all add: withinRoot_def IsAbs_def has_prefix_def)
qed

lemma Lstat_below_file: "Lstat F p = LstatNode NodeFile \<Longrightarrow> Lstat F (p @ [c]) = LstatError"
  by (auto simp: Lstat_def split: if_splits option.splits FileNode.splits)

lemma canonical_parent:
  "canonical F p \<Longrightarrow> Lstat F (p @ [c]) = LstatNode x \<Longrightarrow> directory F p"
  using Lstat_below_file by (auto simp: canonical_def)

lemma EvalSymlinks_child:
  assumes "directory F p" "plain c"
  shows "EvalSymlinks F (rooted (p @ [c])) = walkSymlinks F maxLinks p [c]"
proof -
  have "split_slash [] (rooted (p @ [c])) = '''' # p @ [c]"
    using assms by (intro split_rooted) (auto simp: directory_def)
  then show ?thesis using walk_directory [OF assms(1)] by (simp add: EvalSymlinks_def)
qed

text \<open>What the loop accepts, a later walk along the same parts cannot leave.\<close>

lemma checkParts_confines:
  assumes "canonical F current" "list_all plain root" "prefix root current" "checkParts F root current parts = Inr ()"
    and "\<forall>c\<in>set parts. plain c \<or> c = ''.''" "n \<le> maxLinks" "walkSymlinks F n current parts = Some target"
  shows "prefix root target"
  using assms
proof (induction parts arbitrary: current n)
  case (Cons part parts)
  show ?case
  proof (cases "plain part")
    case False
    with Cons.prems(5) have "part = ''.''" by auto
    with Cons.IH [OF Cons.prems(1-3) _ _ Cons.prems(6)] Cons.prems(4,5,7) show ?thesis by simp
  next
    case True
    obtain m mid where m: "m \<le> n" "walkSymlinks F n current [part] = Some mid" "walkSymlinks F m mid parts = Some target"
      using walk_append [of F n current "[part]" parts target] Cons.prems(7) by auto
    then obtain x where x: "Lstat F (current @ [part]) = LstatNode x"
      using True by (cases "Lstat F (current @ [part])") (auto simp: plain_def)
    have dir: "directory F current" using canonical_parent [OF Cons.prems(1) x] .
    have ev: "EvalSymlinks F (rooted (current @ [part])) = Some mid"
      using EvalSymlinks_child [OF dir True] walk_more_links [OF m(2) Cons.prems(6)] by simp
    have can: "canonical F mid" using walk_canonical [OF dir _ m(2)] True by (simp add: plain_def)
    have "withinRoot (rooted root) (rooted mid)" "checkParts F root mid parts = Inr ()"
      using Cons.prems(4) True x ev by (auto simp: plain_def split: if_splits)
    then show ?thesis
      using Cons.IH [OF can Cons.prems(2) _ _ _ _ m(3)] withinRoot_prefix [OF Cons.prems(2) canonical_plain [OF can]]
        Cons.prems(5,6) m(1) by simp
  qed
qed simp

section \<open>Facts about normalized paths\<close>

lemma resolve_relative_shape:
  assumes "\<forall>c\<in>set cs. CHR ''/'' \<notin> set c" "list_all plain ds" "kept = rev ds @ replicate n ''..''"
  shows "\<exists>m es. resolve_relative kept cs = replicate m ''..'' @ es \<and> list_all plain es"
  using assms
proof (induction kept cs arbitrary: ds n rule: resolve_relative.induct)
  case (1 kept)
  then show ?case by auto
next
  case (2 kept c cs)
  consider (skip) "c = '''' \<or> c = ''.''" | (up) "c = ''..''" "ds = []" | (drops) "c = ''..''" "ds \<noteq> []" | (keep) "c \<notin> {'''', ''.'', ''..''}" by blast
  then show ?case
  proof cases
    case skip
    with 2 show ?thesis by auto
  next
    case up
    have "kept = [] \<or> hd kept = ''..''" "''..'' # kept = rev [] @ replicate (Suc n) ''..''"
      using 2(7) up by (cases n; simp)+
    with 2(2) [of "[]" "Suc n"] 2(5) up show ?thesis by simp
  next
    case drops
    then obtain es e where ds: "ds = es @ [e]" by (cases ds rule: rev_cases) auto
    with 2(6) have "e \<noteq> ''..''" "list_all plain es" by (simp_all add: plain_def [of e])
    with 2(3) [of es n] 2(5,7) drops ds show ?thesis by auto
  next
    case keep
    with 2(4) [of "ds @ [c]" n] 2(5-7) show ?thesis by (auto simp: plain_def)
  qed
qed

lemma takeWhile_join: "list_all plain ds \<Longrightarrow> ds \<noteq> [] \<Longrightarrow> takeWhile (\<lambda>c. c \<noteq> CHR ''/'') (join_slash ds) = hd ds"
proof (cases ds rule: join_slash.cases)
  case (3 c d es)
  assume "list_all plain ds"
  with 3 have "\<forall>x\<in>set c. x \<noteq> CHR ''/''" by (auto simp: plain_def)
  with 3 show ?thesis by (simp add: takeWhile_append2)
qed (auto simp: plain_def takeWhile_eq_all_conv)

lemma normalizeLogicalPath_shape:
  assumes "normalizeLogicalPath candidate = Inr p"
  shows "p = ''.'' \<or> (\<exists>ds. ds \<noteq> [] \<and> list_all plain ds \<and> p = join_slash ds
    \<and> \<not> EqualFold (hd ds) ''.git'' \<and> \<not> EqualFold (hd ds) ''.agentdock'')"
proof -
  let ?cs = "resolve_relative [] (split_slash [] candidate)"
  obtain m es where cs: "?cs = replicate m ''..'' @ es" "list_all plain es"
    using resolve_relative_shape [of "split_slash [] candidate" "[]" "[]" 0] split_slash_no_slash [of "[]"] by auto
  have p: "p = (if ?cs = [] then ''.'' else join_slash ?cs)" "p \<noteq> ''..''" "\<not> has_prefix p ''../''"
    and f: "\<not> EqualFold (takeWhile (\<lambda>c. c \<noteq> CHR ''/'') p) ''.git''" "\<not> EqualFold (takeWhile (\<lambda>c. c \<noteq> CHR ''/'') p) ''.agentdock''"
    using assms by (auto simp: normalizeLogicalPath_def Clean_def Let_def split: if_splits)
  have "m = 0"
  proof (rule ccontr)
    assume "m \<noteq> 0"
    then obtain k where "m = Suc k" by (cases m) auto
    with cs p show False by (cases "replicate k ''..'' @ es") (auto simp: has_prefix_iff)
  qed
  with cs p(1) f takeWhile_join [of es] show ?thesis by (cases "es = []") auto
qed

lemma normalized_parts:
  assumes "normalizeLogicalPath candidate = Inr p"
  shows "\<forall>c\<in>set (split_slash [] p). plain c \<or> c = ''.''"
  using normalizeLogicalPath_shape [OF assms] split_join by (auto simp: list_all_iff)

section \<open>Properties\<close>

text \<open>The components that a path names below the repository root.\<close>

definition logicalComponents :: "string \<Rightarrow> string list option" where
  "logicalComponents candidate =
     (case normalizeLogicalPath candidate of
        Inl _ \<Rightarrow> None
      | Inr p \<Rightarrow> Some (if p = ''.'' then [] else split_slash [] p))"

lemma logicalComponents_plain:
  assumes "logicalComponents candidate = Some cs"
  shows "list_all plain cs \<and> normalizeLogicalPath candidate = Inr (if cs = [] then ''.'' else join_slash cs)"
proof -
  obtain p where p: "normalizeLogicalPath candidate = Inr p" "cs = (if p = ''.'' then [] else split_slash [] p)"
    using assms by (auto simp: logicalComponents_def split: sum.splits)
  have "join_slash ds \<noteq> ''.''" if "list_all plain ds" "ds \<noteq> []" for ds
    using split_join [OF that] that by (auto simp: plain_def)
  with normalizeLogicalPath_shape [OF p(1)] p split_join show ?thesis by auto
qed

lemma pathMatches_iff:
  assumes "normalizeLogicalPath candidate = Inr p" "logicalComponents candidate = Some cs"
  shows "pathMatches p allowed \<longleftrightarrow> (\<exists>ds. logicalComponents allowed = Some ds \<and> prefix ds cs)"
proof (cases "logicalComponents allowed")
  case None
  then show ?thesis by (auto simp: pathMatches_def logicalComponents_def split: sum.splits)
next
  case (Some ds)
  note c = logicalComponents_plain [OF assms(2)] and d = logicalComponents_plain [OF Some]
  have p: "p = (if cs = [] then ''.'' else join_slash cs)" using assms(1) c by simp
  have split: "split_slash [] (join_slash ds) = ds" "join_slash ds \<noteq> ''.''" if "ds \<noteq> []"
    using that split_join [of ds] d by (auto simp: plain_def)
  have "prefix ds cs \<longleftrightarrow> ds = [] \<or> p = join_slash ds \<or> has_prefix p (join_slash ds @ ''/'')"
  proof (cases "ds = [] \<or> cs = []")
    case True
    have "join_slash ds \<noteq> ''.''" "\<not> has_prefix ''.'' (join_slash ds @ ''/'')" if "ds \<noteq> []"
      using split(2) that by (auto simp: has_prefix_iff append_eq_Cons_conv Cons_eq_append_conv)
    with True p show ?thesis by (cases "ds = []") auto
  next
    case False
    show ?thesis
    proof
      assume "prefix ds cs"
      then obtain es where cs: "cs = ds @ es" by (auto simp: prefix_def)
      have "join_slash (ds @ es) = join_slash ds @ ''/'' @ join_slash es" if "es \<noteq> []"
        using False that by (induction ds rule: join_slash.induct) (auto simp: neq_Nil_conv)
      with cs p False show "ds = [] \<or> p = join_slash ds \<or> has_prefix p (join_slash ds @ ''/'')"
        by (cases "es = []") (auto simp: has_prefix_iff)
    next
      assume "ds = [] \<or> p = join_slash ds \<or> has_prefix p (join_slash ds @ ''/'')"
      then consider "p = join_slash ds" | "has_prefix (join_slash cs) (join_slash ds @ ''/'')" using False p by auto
      then show "prefix ds cs"
      proof cases
        case 1
        have "cs = split_slash [] (join_slash cs)" using split_join [of cs] False c by simp
        also have "join_slash cs = join_slash ds" using 1 p False by simp
        finally show ?thesis using split(1) False by simp
      next
        case 2
        with False c d show ?thesis by (intro has_slash_prefix_components) auto
      qed
    qed
  qed
  with Some d split(2) show ?thesis by (auto simp: pathMatches_def)
qed

text \<open>
  The allowlist works on whole components. \<open>PathsAllowed\<close> accepts a list of paths exactly when it
  is not empty and each path normalizes to components that extend those of an allowed path, so that
  \<open>src\<close> allows \<open>src/a\<close> and not \<open>src2\<close>, and no path with a leading \<open>..\<close>, an absolute path or one inside \<open>.git\<close>.
\<close>

theorem PathsAllowed_components:
  "PathsAllowed paths allowed \<longleftrightarrow> paths \<noteq> [] \<and> (\<forall>p\<in>set paths. \<exists>cs. logicalComponents p = Some cs
     \<and> (\<exists>a\<in>set allowed. \<exists>ds. logicalComponents a = Some ds \<and> prefix ds cs))"
proof -
  have "(case normalizeLogicalPath p of Inl _ \<Rightarrow> False | Inr normalized \<Rightarrow> list_ex (pathMatches normalized) allowed)
    \<longleftrightarrow> (\<exists>cs. logicalComponents p = Some cs \<and> (\<exists>a\<in>set allowed. \<exists>ds. logicalComponents a = Some ds \<and> prefix ds cs))" for p
  proof (cases "normalizeLogicalPath p")
    case (Inr q)
    then obtain cs where "logicalComponents p = Some cs" by (simp add: logicalComponents_def)
    with Inr pathMatches_iff [OF Inr] show ?thesis by (auto simp: list_ex_iff)
  qed (simp add: logicalComponents_def)
  then show ?thesis by (simp add: PathsAllowed_def list_all_iff)
qed

definition sampleTree :: FileTree where
  "sampleTree = \<lparr>ft_node = map_of [([''w''], NodeDir), ([''w'', ''src''], NodeDir), ([''w'', ''src'', ''out''], NodeLink ''../../etc''),
      ([''w'', ''src'', ''up''], NodeLink ''../src/a.go''), ([''w'', ''src'', ''a.go''], NodeFile), ([''etc''], NodeDir)], ft_cwd = None\<rparr>"

lemma sample_paths:
  "PathsAllowed [''src/./a.go''] [''src''] \<and> \<not> PathsAllowed [''src2''] [''src''] \<and> \<not> PathsAllowed [''src/../.GIT/x''] [''.'']"
  "NormalizePath sampleTree ''/w'' ''src/up'' = Inr ''src/up''"
  "NormalizePath sampleTree ''/w'' ''src/out'' = Inl ErrUnsafePath"
  "EvalSymlinks sampleTree ''/w'' = Some [''w''] \<and> Abs_path sampleTree ''/w'' = Some ''/w''
   \<and> walkSymlinks sampleTree maxLinks [''w''] (split_slash [] ''src/up'') = Some [''w'', ''src'', ''a.go'']"
  by code_simp+

theorem PathsAllowed_components_witness:
  "(\<exists>cs. logicalComponents ''src/./a.go'' = Some cs \<and> (\<exists>ds. logicalComponents ''src'' = Some ds \<and> prefix ds cs))"
  using PathsAllowed_components [of "[''src/./a.go'']" "[''src'']"] sample_paths(1) by simp

text \<open>
  (C21) No symbolic link leads out of the workspace. When \<open>NormalizePath\<close> accepts a path below a root,
  then following the accepted path from the canonical root, through whatever symbolic links the tree
  holds, ends at a place below the canonical root.
\<close>

theorem NormalizePath_confined:
  assumes "NormalizePath F root candidate = Inr logical" "Abs_path F root = Some absoluteRoot"
    and "EvalSymlinks F absoluteRoot = Some canonicalRoot"
    and "walkSymlinks F maxLinks canonicalRoot (split_slash [] logical) = Some target"
  shows "prefix canonicalRoot target"
proof -
  have n: "normalizeLogicalPath candidate = Inr logical"
    and c: "checkParts F canonicalRoot canonicalRoot (split_slash [] logical) = Inr ()"
    using assms(1-3) by (auto simp: NormalizePath_def bindE_Inr_iff)
  have r: "canonical F canonicalRoot"
    using walk_canonical [OF directory_Nil _ assms(3) [unfolded EvalSymlinks_def]] split_slash_no_slash [of "[]"] by auto
  from checkParts_confines [OF r canonical_plain [OF r] _ c normalized_parts [OF n] _ assms(4)] show ?thesis by simp
qed

theorem NormalizePath_confined_witness:
  "NormalizePath sampleTree ''/w'' ''src/up'' = Inr ''src/up'' \<and> prefix [''w''] [''w'', ''src'', ''a.go'']"
  using NormalizePath_confined [OF sample_paths(2)] sample_paths by blast

end
