(* ===== verification/Policy.thy ===== *)
theory Policy
  imports Policy_Path Tool_Contract
begin

text \<open>
  The policy engine of \<open>src/internal/policy/policy.go\<close> and the audit vocabulary of \<open>audit.go\<close>. The YAML
  decoder is a parameter of \<open>Parse\<close>; \<open>time.ParseDuration\<close> is modelled with its overflow checks and its
  floating-point fraction. A Go map of environment variables is the list of its entries, each key once.
\<close>

section \<open>Durations\<close>

text \<open>\<open>leadingInt\<close> and \<open>leadingFraction\<close> on the digits at the head of a text.\<close>

fun leadingInt :: "int \<Rightarrow> string \<Rightarrow> int option" where
  "leadingInt x [] = Some x"
| "leadingInt x (c # cs) =
     (if x > 2 ^ 63 div 10 then None
      else let y = x * 10 + (of_char c - 48) in if y > 2 ^ 63 then None else leadingInt y cs)"

fun leadingFraction :: "int \<Rightarrow> int \<Rightarrow> string \<Rightarrow> int \<times> int" where
  "leadingFraction x scale [] = (x, scale)"
| "leadingFraction x scale (c # cs) =
     (if x > (2 ^ 63 - 1) div 10 then (x, scale)
      else let y = x * 10 + (of_char c - 48) in if y > 2 ^ 63 then (x, scale) else leadingFraction y (scale * 10) cs)"

definition unitMap :: "(string \<times> int) list" where
  "unitMap = [(''ns'', 1), (''us'', 1000), ([CHR 0xC2, CHR 0xB5, CHR ''s''], 1000), ([CHR 0xCE, CHR 0xBC, CHR ''s''], 1000),
     (''ms'', 1000000), (''s'', 1000000000), (''m'', 60000000000), (''h'', 3600000000000)]"

text \<open>\<open>uint64(float64(f) * (float64(unit) / scale))\<close>; the numbers that occur are far from infinite.\<close>

definition fractionNanos :: "int \<Rightarrow> int \<Rightarrow> int \<Rightarrow> int" where
  "fractionNanos f unit scale =
     (case (float_round f 1, float_round unit scale) of
        (Some (m, e), Some (n, g)) \<Rightarrow>
          (case float_round (times_pow2 (m * n) (e + g)) (times_pow2 1 (- (e + g))) of
             Some (k, x) \<Rightarrow> times_pow2 k x div 2 ^ nat (- x)
           | None \<Rightarrow> 0)
      | _ \<Rightarrow> 0)"

definition unit_char :: "char \<Rightarrow> bool" where
  "unit_char c \<longleftrightarrow> c \<noteq> CHR ''.'' \<and> \<not> is_digit c"

text \<open>One number with its unit, in nanoseconds, and the text after it.\<close>

definition durationItem :: "string \<Rightarrow> (int \<times> string) option" where
  "durationItem s =
     (let ints = takeWhile is_digit s; r = dropWhile is_digit s;
          post = has_prefix r ''.''; fracs = (if post then takeWhile is_digit (tl r) else []);
          r' = (if post then dropWhile is_digit (tl r) else r);
          u = takeWhile unit_char r'; (f, scale) = leadingFraction 0 1 fracs
      in case (leadingInt 0 ints, map_of unitMap u) of
           (Some v, Some unit) \<Rightarrow>
             (let w = v * unit + (if f > 0 then fractionNanos f unit scale else 0) in
              if ints = [] \<and> fracs = [] \<or> v > 2 ^ 63 div unit \<or> w > 2 ^ 63 then None
              else Some (w, dropWhile unit_char r'))
         | _ \<Rightarrow> None)"

lemma durationItem_shorter:
  assumes "durationItem s = Some (w, rest)"
  shows "length rest < length s"
proof -
  let ?r = "dropWhile is_digit s"
  let ?r' = "if has_prefix ?r ''.'' then dropWhile is_digit (tl ?r) else ?r"
  have "map_of unitMap (takeWhile unit_char ?r') \<noteq> None" "rest = dropWhile unit_char ?r'"
    using assms by (auto simp: durationItem_def Let_def split: prod.splits option.splits if_splits)
  then have u: "takeWhile unit_char ?r' \<noteq> []" "length (takeWhile unit_char ?r') + length rest = length ?r'"
    by (auto simp: unitMap_def simp flip: length_append)
  have "length ?r' \<le> length ?r" using order_trans [OF length_dropWhile_le [of is_digit "tl ?r"], of "length ?r"] by simp
  also have "length ?r \<le> length s" by (rule length_dropWhile_le)
  finally show ?thesis using u by (cases "takeWhile unit_char ?r'") auto
qed

function durationLoop :: "int \<Rightarrow> string \<Rightarrow> int option" where
  "durationLoop d s =
     (if s = [] then Some d
      else if unit_char (hd s) then None
      else case durationItem s of
          None \<Rightarrow> None
        | Some (w, rest) \<Rightarrow>
            (let d' = (d + w) mod 2 ^ 64 in if d' > 2 ^ 63 then None else durationLoop d' rest))"
  by pat_completeness auto
termination
  by (relation "measure (\<lambda>(d, s). length s)") (auto dest: durationItem_shorter)

declare durationLoop.simps [simp del]

lemma durationLoop_range: "durationLoop d s = Some t \<Longrightarrow> 0 \<le> d \<Longrightarrow> d \<le> 2 ^ 63 \<Longrightarrow> 0 \<le> t \<and> t \<le> 2 ^ 63"
proof (induction d s rule: durationLoop.induct)
  case (1 d s)
  show ?case
  proof (cases "s = [] \<or> unit_char (hd s) \<or> durationItem s = None")
    case True
    with 1(2-4) show ?thesis by (auto simp: durationLoop.simps [of d s] split: if_splits)
  next
    case False
    then obtain w rest where i: "durationItem s = Some (w, rest)" by auto
    with False 1(2) have "(d + w) mod 2 ^ 64 \<le> 2 ^ 63" "durationLoop ((d + w) mod 2 ^ 64) rest = Some t"
      by (auto simp: durationLoop.simps [of d s] Let_def split: if_splits)
    with 1(1) [OF _ _ i refl refl] False show ?thesis by simp
  qed
qed

definition ParseDuration :: "string \<Rightarrow> int option" where
  "ParseDuration s =
     (let neg = has_prefix s ''-''; body = (if neg \<or> has_prefix s ''+'' then tl s else s) in
      if body = ''0'' then Some 0
      else if body = [] then None
      else case durationLoop 0 body of
          None \<Rightarrow> None
        | Some d \<Rightarrow> if neg then Some (- d) else if d > 2 ^ 63 - 1 then None else Some d)"

lemma ParseDuration_range:
  assumes "ParseDuration s = Some t"
  shows "- (2 ^ 63) \<le> t \<and> t < 2 ^ 63"
  using assms durationLoop_range [of 0]
  by (fastforce simp: ParseDuration_def Let_def split: if_splits option.splits)

section \<open>Configuration\<close>

record Rule =
  rl_Tool :: string
  rl_Capability :: string
  rl_ReadOnly :: bool
  rl_Paths :: "string list"
  rl_Network :: bool
  rl_MaxTimeout :: int
  rl_MaxOutputBytes :: int

record PolicyConfig =
  pc_Version :: string
  pc_Default :: string
  pc_Allow :: "string list"
  pc_Rules :: "Rule list"

record rawRule =
  rw_Tool :: string
  rw_Capability :: string
  rw_ReadOnly :: bool
  rw_Paths :: "string list"
  rw_Network :: bool
  rw_MaxTimeout :: string
  rw_MaxOutputBytes :: int

record rawConfig =
  rwc_Version :: string
  rwc_Default :: string
  rwc_Allow :: "string list"
  rwc_Rules :: "rawRule list"

datatype YamlNext = YamlEOF | YamlDocument | YamlError

datatype ParseError = ErrYaml | ErrTrailing | ErrHeader | ErrRule string

definition parseRule :: "rawRule \<Rightarrow> ParseError + Rule" where
  "parseRule candidate =
     (case ParseDuration (rw_MaxTimeout candidate) of
        None \<Rightarrow> Inl (ErrRule (rw_Tool candidate))
      | Some timeout \<Rightarrow>
          if timeout \<le> 0 then Inl (ErrRule (rw_Tool candidate))
          else if rw_Tool candidate = '''' \<or> rw_Capability candidate = '''' \<or> rw_Paths candidate = []
                \<or> rw_MaxOutputBytes candidate \<le> 0
          then Inl (ErrRule (rw_Tool candidate))
          else Inr \<lparr>rl_Tool = rw_Tool candidate, rl_Capability = rw_Capability candidate, rl_ReadOnly = rw_ReadOnly candidate,
                 rl_Paths = rw_Paths candidate, rl_Network = rw_Network candidate, rl_MaxTimeout = timeout,
                 rl_MaxOutputBytes = rw_MaxOutputBytes candidate\<rparr>)"

fun parseRules :: "Rule list \<Rightarrow> rawRule list \<Rightarrow> ParseError + Rule list" where
  "parseRules rules [] = Inr rules"
| "parseRules rules (candidate # rest) = bindE (parseRule candidate) (\<lambda>rule. parseRules (rules @ [rule]) rest)"

text \<open>\<open>yaml\<close> gives the result of the first \<open>Decode\<close> and what the second one finds.\<close>

definition Parse :: "(string \<Rightarrow> rawConfig option \<times> YamlNext) \<Rightarrow> string \<Rightarrow> ParseError + PolicyConfig" where
  "Parse yaml content =
     (case yaml content of
        (None, _) \<Rightarrow> Inl ErrYaml
      | (Some raw, trailing) \<Rightarrow>
          if trailing \<noteq> YamlEOF then Inl ErrTrailing
          else if rwc_Version raw = '''' \<or> rwc_Default raw \<noteq> ''deny'' then Inl ErrHeader
          else bindE (parseRules [] (rwc_Rules raw)) (\<lambda>rules.
            Inr \<lparr>pc_Version = rwc_Version raw, pc_Default = rwc_Default raw, pc_Allow = rwc_Allow raw, pc_Rules = rules\<rparr>))"

section \<open>Audit events\<close>

datatype AuditKind =
    AuditPolicyAllowed | AuditPolicyDenied | AuditExecutionCompleted | AuditExecutionFailed | AuditExecutionTimedOut
  | AuditExecutionCanceled | AuditOutputTruncated | AuditSandboxCreated | AuditSandboxCreateFailed | AuditSandboxDestroyed
  | AuditSandboxDestroyFailed

record AuditEvent =
  ae_Kind :: AuditKind
  ae_RunID :: string
  ae_AttemptID :: string
  ae_RequestedRunID :: string
  ae_RequestedAttemptID :: string
  ae_ToolName :: string
  ae_ContractVersion :: string
  ae_PolicyVersion :: string
  ae_Capability :: string
  ae_ReadOnly :: bool
  ae_AllowedPaths :: "string list"
  ae_Network :: bool
  ae_Environment :: "string list"
  ae_TimeoutMillis :: int
  ae_OutputLimit :: int
  ae_ImageID :: string
  ae_CPU :: string
  ae_Memory :: string
  ae_PIDs :: int
  ae_Reason :: string
  ae_ExitCode :: int
  ae_OutputBytes :: int
  ae_Timestamp :: string

definition AuditEvent_zero :: "AuditKind \<Rightarrow> AuditEvent" where
  "AuditEvent_zero kind = \<lparr>ae_Kind = kind, ae_RunID = '''', ae_AttemptID = '''', ae_RequestedRunID = '''',
     ae_RequestedAttemptID = '''', ae_ToolName = '''', ae_ContractVersion = '''', ae_PolicyVersion = '''', ae_Capability = '''',
     ae_ReadOnly = False, ae_AllowedPaths = [], ae_Network = False, ae_Environment = [], ae_TimeoutMillis = 0,
     ae_OutputLimit = 0, ae_ImageID = '''', ae_CPU = '''', ae_Memory = '''', ae_PIDs = 0, ae_Reason = '''', ae_ExitCode = 0,
     ae_OutputBytes = 0, ae_Timestamp = ''''\<rparr>"

datatype AuditError = AuditContext | AuditUnavailable | AuditClosed | AuditIO

type_synonym 'a recorder = "AuditEvent \<Rightarrow> 'a \<Rightarrow> (AuditError + unit) \<times> 'a"

text \<open>\<open>Duration.Milliseconds\<close>: division truncated towards zero.\<close>

definition Milliseconds :: "int \<Rightarrow> int" where
  "Milliseconds d = sgn d * (\<bar>d\<bar> div 1000000)"

section \<open>Decisions\<close>

record PolicyRequest =
  pr_RunID :: string
  pr_AttemptID :: string
  pr_ToolName :: string
  pr_ContractVersion :: string
  pr_Capability :: string
  pr_ReadOnly :: bool
  pr_Paths :: "string list"
  pr_Network :: bool
  pr_Timeout :: int
  pr_OutputLimit :: int
  pr_Environment :: "(string \<times> string) list"

datatype PolicyError = ErrDenied string | ErrDeniedUnaudited string AuditError

definition environmentAllowed :: "(string \<times> string) list \<Rightarrow> string list \<Rightarrow> bool" where
  "environmentAllowed environment allowed = list_all (\<lambda>(key, _). key \<in> set allowed) environment"

text \<open>The switch over one rule of the requested tool: the reason of the first failing case.\<close>

definition ruleRefuses :: "PolicyConfig \<Rightarrow> PolicyRequest \<Rightarrow> Rule \<Rightarrow> string option" where
  "ruleRefuses config request rule =
     (if rl_Capability rule \<noteq> pr_Capability request then Some ''capability is not allowed''
      else if rl_ReadOnly rule \<noteq> pr_ReadOnly request then Some ''read-only property does not match policy''
      else if pr_Network request \<and> \<not> rl_Network rule then Some ''network is denied''
      else if pr_Timeout request \<le> 0 \<or> pr_Timeout request > rl_MaxTimeout rule then Some ''timeout exceeds policy''
      else if pr_OutputLimit request \<le> 0 \<or> pr_OutputLimit request > rl_MaxOutputBytes rule
      then Some ''output limit exceeds policy''
      else if \<not> PathsAllowed (pr_Paths request) (rl_Paths rule) then Some ''path is outside policy allowlist''
      else if \<not> environmentAllowed (pr_Environment request) (pc_Allow config) then Some ''environment key is not allowlisted''
      else None)"

fun decideRules :: "PolicyConfig \<Rightarrow> PolicyRequest \<Rightarrow> bool \<Rightarrow> string \<Rightarrow> Rule list \<Rightarrow> (bool \<times> string) option" where
  "decideRules config request matchedTool reason [] = Some (matchedTool, reason)"
| "decideRules config request matchedTool reason (rule # rules) =
     (if rl_Tool rule \<noteq> pr_ToolName request then decideRules config request matchedTool reason rules
      else case ruleRefuses config request rule of
          Some r \<Rightarrow> decideRules config request True r rules
        | None \<Rightarrow> None)"

definition auditEventForRequest :: "AuditKind \<Rightarrow> string \<Rightarrow> PolicyRequest \<Rightarrow> string \<Rightarrow> AuditEvent" where
  "auditEventForRequest kind policyVersion request reason = (AuditEvent_zero kind)\<lparr>
     ae_RunID := pr_RunID request, ae_AttemptID := pr_AttemptID request, ae_ToolName := pr_ToolName request,
     ae_ContractVersion := pr_ContractVersion request, ae_PolicyVersion := policyVersion,
     ae_Capability := pr_Capability request, ae_ReadOnly := pr_ReadOnly request, ae_AllowedPaths := pr_Paths request,
     ae_Network := pr_Network request, ae_Environment := sort (map fst (pr_Environment request)),
     ae_TimeoutMillis := Milliseconds (pr_Timeout request), ae_OutputLimit := pr_OutputLimit request, ae_Reason := reason\<rparr>"

definition noRule :: string where "noRule = ''no matching allow rule''"

definition policy_Decide :: "PolicyConfig \<Rightarrow> 'a recorder \<Rightarrow> PolicyRequest \<Rightarrow> 'a \<Rightarrow> (PolicyError + unit) \<times> 'a" where
  "policy_Decide config rec request a =
     (case decideRules config request False noRule (pc_Rules config) of
        None \<Rightarrow>
          (case rec (auditEventForRequest AuditPolicyAllowed (pc_Version config) request '''') a of
             (Inl e, a') \<Rightarrow> (Inl (ErrDeniedUnaudited '''' e), a')
           | (Inr _, a') \<Rightarrow> (Inr (), a'))
      | Some (matchedTool, r) \<Rightarrow>
          (let reason = (if matchedTool then r else noRule) in
           case rec (auditEventForRequest AuditPolicyDenied (pc_Version config) request reason) a of
             (Inl e, a') \<Rightarrow> (Inl (ErrDeniedUnaudited reason e), a')
           | (Inr _, a') \<Rightarrow> (Inl (ErrDenied reason), a')))"

section \<open>Recorders\<close>

text \<open>
  The clock and the state of the context passed by \<open>RecordBounded\<close> (expired or not) are functions of
  the number of the call.
\<close>

definition stamped :: "string \<Rightarrow> AuditEvent \<Rightarrow> AuditEvent" where
  "stamped now event = (if ae_Timestamp event = '''' then event\<lparr>ae_Timestamp := now\<rparr> else event)"

record MemoryAudit =
  ma_events :: "AuditEvent list"
  ma_calls :: nat

definition mem_Record :: "(nat \<Rightarrow> bool \<times> string) \<Rightarrow> MemoryAudit recorder" where
  "mem_Record clock event m =
     (case clock (ma_calls m) of (expired, now) \<Rightarrow>
        if expired then (Inl AuditContext, m\<lparr>ma_calls := Suc (ma_calls m)\<rparr>)
        else (Inr (), m\<lparr>ma_events := ma_events m @ [stamped now event], ma_calls := Suc (ma_calls m)\<rparr>))"

definition unavailable_Record :: "'a recorder" where
  "unavailable_Record event a = (Inl AuditUnavailable, a)"

definition recorderOrUnavailable :: "'a recorder option \<Rightarrow> 'a recorder" where
  "recorderOrUnavailable r = (case r of None \<Rightarrow> unavailable_Record | Some rec \<Rightarrow> rec)"

section \<open>The audit interface\<close>

text \<open>
  What a client of a recorder may rely on: an acknowledged event is in the log, one call adds at most
  one entry, and nothing is removed.
\<close>

locale audit =
  fixes rec :: "'a recorder"
    and ok :: "'a \<Rightarrow> bool"
    and log :: "'a \<Rightarrow> 'l list"
    and entry :: "'l \<Rightarrow> AuditEvent \<Rightarrow> bool"
  assumes kept: "ok a \<Longrightarrow> rec e a = (r, a') \<Longrightarrow> ok a'"
    and recorded: "ok a \<Longrightarrow> rec e a = (Inr (), a') \<Longrightarrow> \<exists>l. log a' = log a @ [l] \<and> entry l e"
    and refused: "ok a \<Longrightarrow> rec e a = (Inl x, a') \<Longrightarrow> log a' = log a \<or> (\<exists>l. log a' = log a @ [l] \<and> entry l e)"
begin

definition adds :: "AuditEvent \<Rightarrow> 'a \<Rightarrow> 'a \<Rightarrow> bool" where
  "adds e a a' \<longleftrightarrow> ok a' \<and> (\<exists>l. log a' = log a @ [l] \<and> entry l e)"

definition mayAdd :: "AuditEvent \<Rightarrow> 'a \<Rightarrow> 'a \<Rightarrow> bool" where
  "mayAdd e a a' \<longleftrightarrow> ok a' \<and> (log a' = log a \<or> adds e a a')"

lemma rec_adds: "ok a \<Longrightarrow> rec e a = (Inr (), a') \<Longrightarrow> adds e a a'"
  using kept recorded unfolding adds_def by blast

lemma rec_mayAdd:
  assumes "ok a" "rec e a = (r, a')"
  shows "mayAdd e a a'"
proof (cases r)
  case (Inl x)
  with kept [OF assms] refused [OF assms(1)] assms(2) show ?thesis unfolding mayAdd_def adds_def by blast
next
  case (Inr u)
  with rec_adds [OF assms(1)] assms(2) kept [OF assms] show ?thesis by (simp add: mayAdd_def)
qed

text \<open>Every decision is audited: an allowed one for certain, a denied one unless the recorder failed.\<close>

lemma Decide_audited:
  assumes "ok a" "policy_Decide config rec request a = (r, a')"
  shows "case r of
       Inr _ \<Rightarrow> decideRules config request False noRule (pc_Rules config) = None
         \<and> adds (auditEventForRequest AuditPolicyAllowed (pc_Version config) request '''') a a'
     | Inl (ErrDenied reason) \<Rightarrow> adds (auditEventForRequest AuditPolicyDenied (pc_Version config) request reason) a a'
     | Inl (ErrDeniedUnaudited reason e) \<Rightarrow> \<exists>kind. mayAdd (auditEventForRequest kind (pc_Version config) request reason) a a'"
  using assms rec_adds rec_mayAdd
  by (auto simp: policy_Decide_def Let_def split: option.splits prod.splits sum.splits if_splits) blast+

end

interpretation mema: audit "mem_Record clock" "\<lambda>_. True" ma_events "\<lambda>l e. \<exists>now. l = stamped now e" for clock
  by unfold_locales (auto simp: mem_Record_def split: prod.splits if_splits)

section \<open>Properties\<close>

text \<open>What it takes for a rule to admit a request.\<close>

definition admits :: "PolicyConfig \<Rightarrow> PolicyRequest \<Rightarrow> Rule \<Rightarrow> bool" where
  "admits config request rule \<longleftrightarrow> rl_Tool rule = pr_ToolName request \<and> rl_Capability rule = pr_Capability request
     \<and> rl_ReadOnly rule = pr_ReadOnly request \<and> (pr_Network request \<longrightarrow> rl_Network rule)
     \<and> 0 < pr_Timeout request \<and> pr_Timeout request \<le> rl_MaxTimeout rule
     \<and> 0 < pr_OutputLimit request \<and> pr_OutputLimit request \<le> rl_MaxOutputBytes rule
     \<and> PathsAllowed (pr_Paths request) (rl_Paths rule) \<and> fst ` set (pr_Environment request) \<subseteq> set (pc_Allow config)"

lemma admits_iff: "admits config request rule \<longleftrightarrow> rl_Tool rule = pr_ToolName request \<and> ruleRefuses config request rule = None"
  by (auto simp: admits_def ruleRefuses_def environmentAllowed_def list_all_iff)

lemma decideRules_None:
  "decideRules config request matched reason rules = None \<longleftrightarrow> (\<exists>rule\<in>set rules. admits config request rule)"
  by (induction rules arbitrary: matched reason) (auto simp: admits_iff split: option.splits)

lemma decideRules_unmatched:
  "decideRules config request matched reason rules = Some (m, r) \<Longrightarrow>
     m \<longleftrightarrow> matched \<or> (\<exists>rule\<in>set rules. rl_Tool rule = pr_ToolName request)"
  by (induction rules arbitrary: matched reason) (auto split: if_splits option.splits)

text \<open>
  (C22) Deny by default, and no decision without its record. Over any recorder, \<open>Decide\<close> allows a
  request exactly when some rule of the configuration admits it in every respect and the audit of
  the permission was acknowledged.
\<close>

theorem policy_allows_iff:
  "fst (policy_Decide config rec request a) = Inr () \<longleftrightarrow>
     (\<exists>rule\<in>set (pc_Rules config). admits config request rule)
     \<and> fst (rec (auditEventForRequest AuditPolicyAllowed (pc_Version config) request '''') a) = Inr ()"
  using decideRules_None [of config request False noRule "pc_Rules config"]
  by (auto simp: policy_Decide_def Let_def split: option.splits prod.splits sum.splits)

text \<open>Every rule of a parsed configuration is complete and bounded.\<close>

lemma parseRules_sound:
  "parseRules rules raws = Inr rs \<Longrightarrow> \<forall>r\<in>set rs - set rules. rl_Tool r \<noteq> '''' \<and> rl_Capability r \<noteq> '''' \<and> rl_Paths r \<noteq> []
     \<and> 0 < rl_MaxTimeout r \<and> rl_MaxTimeout r < 2 ^ 63 \<and> 0 < rl_MaxOutputBytes r"
proof (induction rules raws arbitrary: rs rule: parseRules.induct)
  case (2 rules raw raws)
  then obtain rule where r: "parseRule raw = Inr rule" "parseRules (rules @ [rule]) raws = Inr rs"
    by (auto simp: bindE_Inr_iff)
  have "ParseDuration x = Some t \<Longrightarrow> t < 2 ^ 63" for x t
    using ParseDuration_range [of x t] by simp
  with r(1) have "rl_Tool rule \<noteq> '''' \<and> rl_Capability rule \<noteq> '''' \<and> rl_Paths rule \<noteq> []
     \<and> 0 < rl_MaxTimeout rule \<and> rl_MaxTimeout rule < 2 ^ 63 \<and> 0 < rl_MaxOutputBytes rule"
    by (auto simp: parseRule_def split: option.splits if_splits)
  with 2(1) [OF r] show ?case by auto
qed auto

text \<open>
  A configuration that \<open>Parse\<close> accepts denies by default, names a version, and every rule of it is
  complete and bounded: a tool, a capability, at least one path, an output limit above zero and a
  timeout above zero within 64 bits, however large the numbers in the text are.
\<close>

theorem Parse_bounds:
  assumes "Parse yaml content = Inr config"
  shows "pc_Version config \<noteq> '''' \<and> pc_Default config = ''deny'' \<and> (\<forall>r\<in>set (pc_Rules config). rl_Tool r \<noteq> ''''
    \<and> rl_Capability r \<noteq> '''' \<and> rl_Paths r \<noteq> [] \<and> 0 < rl_MaxTimeout r \<and> rl_MaxTimeout r < 2 ^ 63 \<and> 0 < rl_MaxOutputBytes r)"
proof -
  obtain raw rules where raw: "yaml content = (Some raw, YamlEOF)" "rwc_Version raw \<noteq> ''''" "rwc_Default raw = ''deny''"
    "parseRules [] (rwc_Rules raw) = Inr rules"
    "config = \<lparr>pc_Version = rwc_Version raw, pc_Default = rwc_Default raw, pc_Allow = rwc_Allow raw, pc_Rules = rules\<rparr>"
    using assms by (auto simp: Parse_def bindE_Inr_iff split: prod.splits option.splits if_splits)
  from parseRules_sound [OF raw(4)] raw show ?thesis by simp
qed

definition sampleRaw :: rawConfig where
  "sampleRaw = \<lparr>rwc_Version = ''v1'', rwc_Default = ''deny'', rwc_Allow = [''LANG''], rwc_Rules = [\<lparr>rw_Tool = ''repo.read'',
     rw_Capability = ''read'', rw_ReadOnly = True, rw_Paths = [''.''], rw_Network = False, rw_MaxTimeout = ''1m1.5s'',
     rw_MaxOutputBytes = 4096\<rparr>]\<rparr>"

lemma sample_durations:
  "ParseDuration ''1m1.5s'' = Some 61500000000" "ParseDuration ''9223372036854775808ns'' = None"
  "ParseDuration ''-1.25h'' = Some (-4500000000000)" "ParseDuration ''1'' = None" "ParseDuration ''.s'' = None"
  by code_simp+

lemma sample_parsed:
  "\<exists>config. Parse (\<lambda>_. (Some sampleRaw, YamlEOF)) '''' = Inr config \<and> length (pc_Rules config) = 1"
  by (simp add: Parse_def sampleRaw_def parseRule_def sample_durations)

theorem Parse_bounds_witness:
  "\<exists>config. Parse (\<lambda>_. (Some sampleRaw, YamlEOF)) '''' = Inr config \<and> pc_Default config = ''deny''
     \<and> 0 < rl_MaxTimeout (hd (pc_Rules config))"
proof -
  obtain config where c: "Parse (\<lambda>_. (Some sampleRaw, YamlEOF)) '''' = Inr config" "length (pc_Rules config) = 1"
    using sample_parsed by blast
  then have "hd (pc_Rules config) \<in> set (pc_Rules config)" by (cases "pc_Rules config") auto
  with Parse_bounds [OF c(1)] c(1) show ?thesis by blast
qed

end
