(* ===== verification/Policy_Audit.thy ===== *)
theory Policy_Audit
  imports Policy Reasoner_Prompt
begin

text \<open>
  The file recorder of \<open>src/internal/policy/audit.go\<close>: one JSON object per line through a buffered writer
  whose first error is final. The state is the bytes of the file; what the operating system does to
  a call (an expired context, a write that stops after some bytes, a failing \<open>fsync\<close>) is a choice of
  the number of the call.
\<close>

section \<open>Encoding\<close>

fun AuditKind_text :: "AuditKind \<Rightarrow> string" where
  "AuditKind_text AuditPolicyAllowed = ''policy_allowed''"
| "AuditKind_text AuditPolicyDenied = ''policy_denied''"
| "AuditKind_text AuditExecutionCompleted = ''execution_completed''"
| "AuditKind_text AuditExecutionFailed = ''execution_failed''"
| "AuditKind_text AuditExecutionTimedOut = ''execution_timed_out''"
| "AuditKind_text AuditExecutionCanceled = ''execution_canceled''"
| "AuditKind_text AuditOutputTruncated = ''output_truncated''"
| "AuditKind_text AuditSandboxCreated = ''sandbox_created''"
| "AuditKind_text AuditSandboxCreateFailed = ''sandbox_create_failed''"
| "AuditKind_text AuditSandboxDestroyed = ''sandbox_destroyed''"
| "AuditKind_text AuditSandboxDestroyFailed = ''sandbox_destroy_failed''"

text \<open>A field with its key; \<open>omitempty\<close> leaves out an empty text, an empty slice and a zero.\<close>

definition field :: "string \<Rightarrow> string \<Rightarrow> string option" where
  "field key v = Some (marshal_string key @ '':'' @ v)"

definition textField :: "string \<Rightarrow> string \<Rightarrow> string option" where
  "textField key v = (if v = '''' then None else field key (marshal_string v))"

fun commas :: "string list \<Rightarrow> string" where
  "commas [] = ''''"
| "commas [x] = x"
| "commas (x # xs) = x @ '','' @ commas xs"

definition listField :: "string \<Rightarrow> string list \<Rightarrow> string option" where
  "listField key vs = (if vs = [] then None else field key (''['' @ commas (map marshal_string vs) @ '']''))"

definition boolText :: "bool \<Rightarrow> string" where
  "boolText b = (if b then ''true'' else ''false'')"

definition auditJSON :: "AuditEvent \<Rightarrow> string" where
  "auditJSON e = ''{'' @ commas (List.map_filter id
     [field ''kind'' (marshal_string (AuditKind_text (ae_Kind e))), textField ''run_id'' (ae_RunID e),
      textField ''attempt_id'' (ae_AttemptID e), textField ''requested_run_id'' (ae_RequestedRunID e),
      textField ''requested_attempt_id'' (ae_RequestedAttemptID e), textField ''tool_name'' (ae_ToolName e),
      textField ''contract_version'' (ae_ContractVersion e), textField ''policy_version'' (ae_PolicyVersion e),
      textField ''capability'' (ae_Capability e), field ''read_only'' (boolText (ae_ReadOnly e)),
      listField ''allowed_paths'' (ae_AllowedPaths e), field ''network'' (boolText (ae_Network e)),
      listField ''environment'' (ae_Environment e), field ''timeout_millis'' (show_int (ae_TimeoutMillis e)),
      field ''output_limit_bytes'' (show_int (ae_OutputLimit e)), textField ''image_id'' (ae_ImageID e),
      textField ''cpu_limit'' (ae_CPU e), textField ''memory_limit'' (ae_Memory e),
      (if ae_PIDs e = 0 then None else field ''pid_limit'' (show_int (ae_PIDs e))), textField ''reason'' (ae_Reason e),
      field ''exit_code'' (show_int (ae_ExitCode e)), field ''output_bytes'' (show_int (ae_OutputBytes e)),
      field ''timestamp'' (marshal_string (ae_Timestamp e))]) @ ''}''"

section \<open>The recorder\<close>

record FileAudit =
  fa_bytes :: string
  fa_failed :: bool
  fa_open :: bool
  fa_calls :: nat

record FileChoices =
  fc_expired :: bool
  fc_now :: string
  fc_stops :: "nat option"
  fc_syncFails :: bool

definition NewFileAuditRecorder :: "string \<Rightarrow> FileAudit" where
  "NewFileAuditRecorder existing = \<lparr>fa_bytes = existing, fa_failed = False, fa_open = True, fa_calls = 0\<rparr>"

text \<open>A closed file fails at the flush, which makes the error of the writer final too.\<close>

definition file_Record :: "(nat \<Rightarrow> FileChoices) \<Rightarrow> FileAudit recorder" where
  "file_Record choices event f0 =
     (let c = choices (fa_calls f0); f = f0\<lparr>fa_calls := Suc (fa_calls f0)\<rparr> in
      if fc_expired c then (Inl AuditContext, f)
      else let line = auditJSON (stamped (fc_now c) event) @ [CHR 0x0A] in
        if fa_failed f then (Inl AuditIO, f)
        else if \<not> fa_open f then (Inl AuditIO, f\<lparr>fa_failed := True\<rparr>)
        else case fc_stops c of
            Some n \<Rightarrow> (Inl AuditIO, f\<lparr>fa_bytes := fa_bytes f @ take n line, fa_failed := True\<rparr>)
          | None \<Rightarrow> (if fc_syncFails c then Inl AuditIO else Inr (), f\<lparr>fa_bytes := fa_bytes f @ line\<rparr>))"

definition file_Close :: "bool \<Rightarrow> FileAudit \<Rightarrow> (AuditError + unit) \<times> FileAudit" where
  "file_Close closeFails f =
     (if \<not> fa_open f then (Inr (), f)
      else (if fa_failed f \<or> closeFails then Inl AuditIO else Inr (), f\<lparr>fa_open := False\<rparr>))"

record AuditArtifact =
  aa_Type :: string
  aa_Path :: string
  aa_Digest :: string
  aa_Size :: int

definition file_Artifact :: "env \<Rightarrow> string \<Rightarrow> bool \<Rightarrow> FileAudit \<Rightarrow> AuditError + AuditArtifact" where
  "file_Artifact E path readFails f =
     (if \<not> fa_open f then Inl AuditClosed
      else if fa_failed f \<or> readFails then Inl AuditIO
      else Inr \<lparr>aa_Type = ''phase-4-audit-jsonl'', aa_Path = path, aa_Digest = ''sha256:'' @ env_hash E (fa_bytes f),
             aa_Size = int (length (fa_bytes f))\<rparr>)"

section \<open>Lines\<close>

text \<open>The complete lines of a file: what comes before each newline.\<close>

fun completeLines :: "string \<Rightarrow> string \<Rightarrow> string list" where
  "completeLines acc [] = []"
| "completeLines acc (c # s) = (if c = CHR 0x0A then rev acc # completeLines [] s else completeLines (c # acc) s)"

lemma completeLines_newline:
  "completeLines acc (s @ CHR 0x0A # t) = completeLines acc (s @ [CHR 0x0A]) @ completeLines [] t"
  by (induction s arbitrary: acc) auto

lemma completeLines_plain: "CHR 0x0A \<notin> set s \<Longrightarrow> completeLines acc (s @ [CHR 0x0A]) = [rev acc @ s]"
  by (induction s arbitrary: acc) auto

lemma completeLines_partial: "CHR 0x0A \<notin> set s \<Longrightarrow> completeLines acc s = []"
  by (induction s arbitrary: acc) auto

definition ended :: "string \<Rightarrow> bool" where
  "ended s \<longleftrightarrow> s = [] \<or> last s = CHR 0x0A"

lemma completeLines_ended: "ended s \<Longrightarrow> completeLines [] (s @ t) = completeLines [] s @ completeLines [] t"
  using completeLines_newline [of "[]" "butlast s" t] by (cases s rule: rev_cases) (auto simp: ended_def)

section \<open>An encoded event is one line\<close>

definition graphic :: "char \<Rightarrow> bool" where
  "graphic c \<longleftrightarrow> (of_char c :: nat) \<ge> 32"

lemma graphic_newline: "list_all graphic s \<Longrightarrow> CHR 0x0A \<notin> set s"
  by (auto simp: list_all_iff graphic_def)

lemma byte_code: "0 \<le> k \<Longrightarrow> k < 256 \<Longrightarrow> (of_char (byte k) :: nat) = nat k"
  by (simp add: byte_def nat_less_iff)

lemma hex_char_graphic: "0 \<le> d \<Longrightarrow> d < 16 \<Longrightarrow> graphic (hex_char d)"
  by (auto simp: graphic_def hex_char_def byte_code le_nat_iff)

lemma escape_ascii_graphic: "list_all graphic (escape_ascii c)"
proof -
  have "graphic (hex_char (of_char c div 16))" "graphic (hex_char (of_char c mod 16))"
    using of_char_bound [of c] by (intro hex_char_graphic; simp)+
  moreover have "graphic c" if "\<not> char_between (CHR 0x00) (CHR 0x1F) c"
    using that by (auto simp: char_between_def graphic_def)
  ultimately show ?thesis by (simp add: escape_ascii_def escape_u00_def graphic_def)
qed

lemma encode_string_graphic: "list_all graphic (encode_string s)"
proof (induction s rule: encode_string.induct)
  case (1 s)
  have "list_all graphic (take (rune_len s) s)" if "rune_len s > 1"
    using rune_bytes_high [OF that] by (auto simp: list_all_iff high_def graphic_def)
  then have "list_all graphic (encode_rune (rune_len s) s)"
    using escape_ascii_graphic [of "hd s"] by (auto simp: encode_rune_def graphic_def)
  with 1 show ?case by (subst encode_string.simps) (auto simp: Let_def)
qed

lemma marshal_string_graphic: "list_all graphic (marshal_string s)"
  by (simp add: marshal_string_def encode_string_graphic graphic_def)

lemma show_int_graphic: "list_all graphic (show_int n)"
proof -
  have "list_all graphic (show_nat m)" for m
  proof (induction m rule: show_nat.induct)
    case (1 n)
    have "graphic (char_of (48 + d))" if "d < 10" for d :: nat
      unfolding graphic_def of_char_digit [OF that] by simp
    with 1 show ?case by (subst show_nat.simps) auto
  qed
  then show ?thesis by (simp add: show_int_def graphic_def)
qed

lemma commas_graphic: "list_all (list_all graphic) xs \<Longrightarrow> list_all graphic (commas xs)"
  by (induction xs rule: commas.induct) (auto simp: graphic_def)

lemma field_graphic:
  "list_all graphic v \<Longrightarrow> field k v = Some x \<Longrightarrow> list_all graphic x"
  "textField k v = Some x \<Longrightarrow> list_all graphic x"
  "listField k vs = Some x \<Longrightarrow> list_all graphic x"
  by (auto simp: field_def textField_def listField_def marshal_string_graphic graphic_def [of "CHR '':''"]
      graphic_def [of "CHR ''[''"] graphic_def [of "CHR '']''"] list_all_iff [of "list_all graphic"] intro!: commas_graphic
      split: if_splits)

lemma boolText_graphic: "list_all graphic (boolText b)"
  by (simp add: boolText_def graphic_def)

lemma auditJSON_graphic: "list_all graphic (auditJSON e)"
proof -
  have "list_all (list_all graphic) (List.map_filter id xs)" if "list_all (\<lambda>o'. \<forall>x. o' = Some x \<longrightarrow> list_all graphic x) xs" for xs
    using that by (induction xs) (auto simp: map_filter_simps split: option.splits)
  note filtered = this
  show ?thesis
    unfolding auditJSON_def
    by (simp only: list_all_append, intro conjI commas_graphic filtered)
       (auto simp: graphic_def [of "CHR ''{''"] graphic_def [of "CHR ''}''"] split: if_splits
         dest: field_graphic(2,3) field_graphic(1) [OF boolText_graphic] field_graphic(1) [OF show_int_graphic]
           field_graphic(1) [OF marshal_string_graphic])
qed

section \<open>The file as an audit log\<close>

definition auditLine :: "string \<Rightarrow> AuditEvent \<Rightarrow> bool" where
  "auditLine l e \<longleftrightarrow> (\<exists>now. l = auditJSON (stamped now e))"

definition sound_file :: "FileAudit \<Rightarrow> bool" where
  "sound_file f \<longleftrightarrow> fa_failed f \<or> ended (fa_bytes f)"

definition fileLines :: "FileAudit \<Rightarrow> string list" where
  "fileLines f = completeLines [] (fa_bytes f)"

lemma written_line:
  assumes "ended b" "CHR 0x0A \<notin> set l"
  shows "completeLines [] (b @ l @ [CHR 0x0A]) = completeLines [] b @ [l]"
  using completeLines_ended [OF assms(1)] completeLines_plain [OF assms(2), of "[]"] by simp

lemma torn_line:
  assumes "ended b" "CHR 0x0A \<notin> set l" "t = take n (l @ [CHR 0x0A])"
  shows "completeLines [] (b @ t) = completeLines [] b \<or> completeLines [] (b @ t) = completeLines [] b @ [l]"
proof (cases "n \<le> length l")
  case True
  then have "CHR 0x0A \<notin> set t" using assms(2,3) by (auto dest: in_set_takeD)
  then show ?thesis using completeLines_ended [OF assms(1)] completeLines_partial by simp
next
  case False
  then have "t = l @ [CHR 0x0A]" using assms(3) by simp
  with written_line [OF assms(1,2)] show ?thesis by simp
qed

lemma file_Record_bytes:
  assumes "file_Record choices e f = (r, f')" "line = auditJSON (stamped (fc_now (choices (fa_calls f))) e) @ [CHR 0x0A]"
  shows "fa_bytes f' = fa_bytes f \<or> \<not> fa_failed f \<and> (\<exists>n. fa_bytes f' = fa_bytes f @ take n line)"
proof (cases "fc_stops (choices (fa_calls f))")
  case None
  then have "fa_bytes f' = fa_bytes f \<or> \<not> fa_failed f \<and> fa_bytes f' = fa_bytes f @ line"
    using assms by (auto simp: file_Record_def Let_def split: if_splits)
  moreover have "take (length line) line = line" by simp
  ultimately show ?thesis by metis
next
  case (Some n)
  with assms show ?thesis by (auto simp: file_Record_def Let_def split: if_splits)
qed

interpretation filea: audit "file_Record choices" sound_file fileLines auditLine for choices
proof (unfold_locales, goal_cases)
  case (1 a e r a')
  then show ?case
    by (auto simp: file_Record_def Let_def sound_file_def ended_def split: if_splits option.splits)
next
  case (2 a e a')
  let ?l = "auditJSON (stamped (fc_now (choices (fa_calls a))) e)"
  have "ended (fa_bytes a)" "fa_bytes a' = fa_bytes a @ ?l @ [CHR 0x0A]"
    using 2 by (auto simp: file_Record_def Let_def sound_file_def split: if_splits option.splits)
  with written_line [OF _ graphic_newline [OF auditJSON_graphic]] show ?case by (auto simp: fileLines_def auditLine_def)
next
  case (3 a e x a')
  let ?l = "auditJSON (stamped (fc_now (choices (fa_calls a))) e)"
  from file_Record_bytes [OF 3(2) refl] 3(1) consider "fa_bytes a' = fa_bytes a"
    | n where "ended (fa_bytes a)" "fa_bytes a' = fa_bytes a @ take n (?l @ [CHR 0x0A])"
    unfolding sound_file_def by blast
  then show ?case
  proof cases
    case (2 n)
    with torn_line [OF 2(1) graphic_newline [OF auditJSON_graphic] refl] show ?thesis
      by (auto simp: fileLines_def auditLine_def)
  qed (simp add: fileLines_def)
qed

text \<open>A run of the program: the events it records and which of them are acknowledged.\<close>

fun recordAll :: "'a recorder \<Rightarrow> AuditEvent list \<Rightarrow> 'a \<Rightarrow> AuditEvent list \<times> 'a" where
  "recordAll rec [] a = ([], a)"
| "recordAll rec (e # es) a =
     (case rec e a of (r, a') \<Rightarrow>
        (case recordAll rec es a' of (acknowledged, a'') \<Rightarrow> (if isl r then acknowledged else e # acknowledged, a'')))"

context audit
begin

lemma recordAll_lines:
  assumes "ok a" "recordAll rec es a = (acknowledged, a')"
  shows "ok a' \<and> (\<exists>ls. log a' = log a @ ls \<and> (\<exists>es'. subseq acknowledged es' \<and> subseq es' es \<and> list_all2 entry ls es'))"
  using assms
proof (induction es arbitrary: a acknowledged)
  case (Cons e es)
  obtain r b where r: "rec e a = (r, b)" by fastforce
  obtain ack where rest: "recordAll rec es b = (ack, a')" "acknowledged = (if isl r then ack else e # ack)"
    using Cons.prems(2) r by (auto split: prod.splits)
  have b: "ok b" using kept [OF Cons.prems(1) r] .
  obtain ls es' where tail: "ok a'" "log a' = log b @ ls" "subseq ack es'" "subseq es' es" "list_all2 entry ls es'"
    using Cons.IH [OF b rest(1)] by blast
  show ?case
  proof (cases "log b = log a \<and> isl r")
    case True
    with tail rest show ?thesis by auto
  next
    case False
    then obtain l where "log b = log a @ [l]" "entry l e"
      using recorded [OF Cons.prems(1), of e b] refused [OF Cons.prems(1), of e _ b] r by (cases r) auto
    with tail rest show ?thesis
      by (intro conjI exI [of _ "l # ls"] exI [of _ "e # es'"]) (auto split: if_splits)
  qed
qed simp

end

text \<open>
  (C23) The audit file is a faithful timeline under faults. Start with an empty file and record any
  events in order. Whatever writes are cut short, whatever \<open>fsync\<close> calls fail and whatever contexts
  expire, the complete lines of the file are the encodings of some of these events, one line each
  and in their order, and every acknowledged event is among them in that order; a line of an event that
  was written but not acknowledged may stand between them.
\<close>

theorem audit_file_timeline:
  assumes "recordAll (file_Record choices) es (NewFileAuditRecorder '''') = (acknowledged, f)"
  shows "\<exists>es'. subseq acknowledged es' \<and> subseq es' es
    \<and> list_all2 (\<lambda>l e. \<exists>now. l = auditJSON (stamped now e)) (completeLines [] (fa_bytes f)) es'"
proof -
  have "sound_file (NewFileAuditRecorder '''')" "fileLines (NewFileAuditRecorder '''') = []"
    by (simp_all add: sound_file_def NewFileAuditRecorder_def ended_def fileLines_def)
  with filea.recordAll_lines [OF _ assms] show ?thesis by (auto simp: fileLines_def auditLine_def [abs_def])
qed

definition tornChoices :: "nat \<Rightarrow> FileChoices" where
  "tornChoices n = \<lparr>fc_expired = False, fc_now = ''t'', fc_stops = (if n = 1 then Some 3 else None), fc_syncFails = False\<rparr>"

lemma sample_torn:
  "fst (recordAll (file_Record tornChoices) [AuditEvent_zero AuditPolicyDenied, AuditEvent_zero AuditPolicyAllowed]
     (NewFileAuditRecorder '''')) = [AuditEvent_zero AuditPolicyDenied]"
  by code_simp

definition tornFile :: FileAudit where
  "tornFile = snd (recordAll (file_Record tornChoices) [AuditEvent_zero AuditPolicyDenied, AuditEvent_zero AuditPolicyAllowed]
     (NewFileAuditRecorder ''''))"

theorem audit_file_timeline_witness:
  "\<exists>es'. subseq [AuditEvent_zero AuditPolicyDenied] es' \<and> subseq es' [AuditEvent_zero AuditPolicyDenied, AuditEvent_zero AuditPolicyAllowed]
     \<and> list_all2 (\<lambda>l e. \<exists>now. l = auditJSON (stamped now e)) (completeLines [] (fa_bytes tornFile)) es'"
proof -
  have "recordAll (file_Record tornChoices) [AuditEvent_zero AuditPolicyDenied, AuditEvent_zero AuditPolicyAllowed]
      (NewFileAuditRecorder '''') = ([AuditEvent_zero AuditPolicyDenied], tornFile)"
    unfolding tornFile_def by (subst sample_torn [symmetric]) (rule prod.collapse [symmetric])
  then show ?thesis by (rule audit_file_timeline)
qed

end
