(* ===== verification/Pattern_Search.thy ===== *)
theory Pattern_Search
  imports Reasoner_Prompt
begin

text \<open>
  Searching a text for a pattern, as the screens of the program do: a matcher on suffixes that agrees
  with \<open>MatchString\<close>, that a match in a part of a text is a match in the text, and that lower-casing
  and the JSON encoding of a string keep the parts of it that are plain ASCII.
\<close>

section \<open>Matching on suffixes\<close>

fun rep_rests :: "(string \<Rightarrow> nat) \<Rightarrow> nat \<Rightarrow> string \<Rightarrow> (nat \<times> string) list" where
  "rep_rests f 0 t = [(0, t)]"
| "rep_rests f (Suc n) t =
     (0, t) # (let w = f t in if w = 0 then [] else map (\<lambda>(k, e). (Suc k, e)) (rep_rests f n (drop w t)))"

text \<open>\<open>n\<close> bounds an unbounded repetition. A word boundary looks at the text before, so patterns with one are left out.\<close>

fun rests :: "nat \<Rightarrow> regexp \<Rightarrow> string \<Rightarrow> string list" where
  "rests n Empty t = [t]"
| "rests n (Rep f lo hi) t = map snd (filter (\<lambda>(k, e). lo \<le> k) (rep_rests f (case hi of None \<Rightarrow> n | Some m \<Rightarrow> m) t))"
| "rests n WordBoundary t = []"
| "rests n (Seq a b) t = concat (map (rests n b) (rests n a t))"
| "rests n (Alt a b) t = rests n a t @ rests n b t"

fun no_boundary :: "regexp \<Rightarrow> bool" where
  "no_boundary WordBoundary = False"
| "no_boundary (Seq a b) = (no_boundary a \<and> no_boundary b)"
| "no_boundary (Alt a b) = (no_boundary a \<and> no_boundary b)"
| "no_boundary _ = True"

lemma rep_ends_rests: "map (\<lambda>(k, e). (k, drop e s)) (rep_ends f n i s) = rep_rests f n (drop i s)"
proof (induction n arbitrary: i)
  case (Suc n)
  let ?g = "\<lambda>(k, e). (k, drop e s)" and ?h = "\<lambda>(k, e). (Suc k, e)"
  have "map ?g (map ?h (rep_ends f n j s)) = map ?h (map ?g (rep_ends f n j s))" for j by (simp add: case_prod_beta)
  with Suc show ?case by (simp add: Let_def add.commute)
qed simp

lemma ends_rests: "no_boundary r \<Longrightarrow> map (\<lambda>e. drop e s) (ends r s i) = rests (length s) r (drop i s)"
proof (induction r arbitrary: i)
  case (Rep f lo hi)
  show ?case unfolding ends.simps rests.simps rep_ends_rests [symmetric] by (simp add: filter_map o_def case_prod_unfold)
next
  case (Seq a b)
  have "map (\<lambda>e. drop e s) (ends (Seq a b) s i) = concat (map (\<lambda>e. map (\<lambda>e. drop e s) (ends b s e)) (ends a s i))"
    by (simp add: map_concat o_def)
  also have "\<dots> = concat (map (\<lambda>e. rests (length s) b (drop e s)) (ends a s i))" using Seq by simp
  also have "\<dots> = concat (map (rests (length s) b) (map (\<lambda>e. drop e s) (ends a s i)))" by (simp add: o_def)
  also have "map (\<lambda>e. drop e s) (ends a s i) = rests (length s) a (drop i s)" using Seq by simp
  finally show ?case by simp
qed simp_all

fun searchFrom :: "nat \<Rightarrow> regexp \<Rightarrow> string \<Rightarrow> bool" where
  "searchFrom n r [] = (rests n r [] \<noteq> [])"
| "searchFrom n r (c # t) = (rests n r (c # t) \<noteq> [] \<or> searchFrom n r t)"

lemma searchFrom_iff: "searchFrom n r s \<longleftrightarrow> (\<exists>i \<le> length s. rests n r (drop i s) \<noteq> [])"
proof (induction s)
  case (Cons c s)
  have "(\<exists>i \<le> Suc (length s). P i) \<longleftrightarrow> P 0 \<or> (\<exists>i \<le> length s. P (Suc i))" for P
    by (metis Suc_le_mono le0 not0_implies_Suc)
  with Cons show ?case by simp
qed simp

lemma MatchString_searchFrom:
  assumes "no_boundary r"
  shows "MatchString r s \<longleftrightarrow> searchFrom (length s) r s"
proof -
  have "ends r s i \<noteq> [] \<longleftrightarrow> rests (length s) r (drop i s) \<noteq> []" for i
    using ends_rests [OF assms, of s i] by (metis map_is_Nil_conv)
  then show ?thesis by (simp add: MatchString_def list_ex_iff searchFrom_iff Bex_def less_Suc_eq_le del: upt_Suc)
qed

section \<open>A match in a part of a text\<close>

definition stable :: "(string \<Rightarrow> nat) \<Rightarrow> bool" where
  "stable f \<longleftrightarrow> (\<forall>t u. 0 < f t \<longrightarrow> f t \<le> length t \<and> f (t @ u) = f t)"

fun all_stable :: "regexp \<Rightarrow> bool" where
  "all_stable (Rep f lo hi) = stable f"
| "all_stable (Seq a b) = (all_stable a \<and> all_stable b)"
| "all_stable (Alt a b) = (all_stable a \<and> all_stable b)"
| "all_stable Empty = True"
| "all_stable WordBoundary = False"

lemma all_stable_no_boundary: "all_stable r \<Longrightarrow> no_boundary r"
  by (induction r) auto

lemma rep_rests_extend:
  assumes "stable f" "(k, e) \<in> set (rep_rests f n t)" "n \<le> m"
  shows "(k, e @ u) \<in> set (rep_rests f m (t @ u))"
  using assms(2,3)
proof (induction n arbitrary: k e t m)
  case 0
  then show ?case by (cases m) auto
next
  case (Suc n)
  then obtain m' where m: "m = Suc m'" "n \<le> m'" by (cases m) auto
  show ?case
  proof (cases "(k, e) = (0, t)")
    case False
    with Suc.prems(1) obtain k' where k: "0 < f t" "k = Suc k'" "(k', e) \<in> set (rep_rests f n (drop (f t) t))"
      by (auto simp: Let_def split: if_splits)
    have "f t \<le> length t" "f (t @ u) = f t" using assms(1) k(1) by (auto simp: stable_def)
    with Suc.IH [OF k(3) m(2)] k m(1) show ?thesis by (force simp: Let_def)
  qed (simp add: m)
qed

lemma rests_extend:
  "all_stable r \<Longrightarrow> e \<in> set (rests n r t) \<Longrightarrow> n \<le> m \<Longrightarrow> e @ u \<in> set (rests m r (t @ u))"
proof (induction r arbitrary: t e)
  case (Rep f lo hi)
  from Rep.prems(2) obtain k where k: "lo \<le> k" "(k, e) \<in> set (rep_rests f (case hi of None \<Rightarrow> n | Some x \<Rightarrow> x) t)" by auto
  have "(case hi of None \<Rightarrow> n | Some x \<Rightarrow> x) \<le> (case hi of None \<Rightarrow> m | Some x \<Rightarrow> x)"
    using Rep.prems(3) by (auto split: option.splits)
  with rep_rests_extend [OF _ k(2)] Rep.prems(1) k(1) show ?case by force
qed fastforce+

lemma MatchString_part:
  assumes "all_stable r" "MatchString r t"
  shows "MatchString r (a @ t @ b)"
proof -
  note nb = all_stable_no_boundary [OF assms(1)]
  from assms(2) obtain i where "i \<le> length t" "rests (length t) r (drop i t) \<noteq> []"
    by (auto simp: MatchString_searchFrom [OF nb] searchFrom_iff)
  then obtain e where i: "i \<le> length t" "e \<in> set (rests (length t) r (drop i t))" using hd_in_set by blast
  have "e @ b \<in> set (rests (length (a @ t @ b)) r (drop i t @ b))"
    by (rule rests_extend [OF assms(1) i(2)]) simp
  then have "rests (length (a @ t @ b)) r (drop (length a + i) (a @ t @ b)) \<noteq> []"
    using i(1) by (auto simp: drop_append)
  then show ?thesis using i(1)
    by (auto simp: MatchString_searchFrom [OF nb] searchFrom_iff intro!: exI [of _ "length a + i"])
qed

section \<open>Plain characters\<close>

definition plain :: "char \<Rightarrow> bool" where
  "plain c \<longleftrightarrow> (of_char c :: nat) < 128 \<and> escape_ascii c = [c]"

lemma plain_bytes:
  assumes "plain c"
  shows "c \<noteq> CHR 0xAA" "c \<noteq> CHR 0xB0" "c \<noteq> CHR 0x84" "c \<noteq> CHR 0xE2" "c \<noteq> CHR 0xC4"
  using assms by (auto simp: plain_def)

lemma ToLower_plain_head: "plain c \<Longrightarrow> ToLower (c # s) = lower_char c # ToLower s"
  by (cases s rule: ToLower.cases) (simp_all add: plain_bytes)

lemma ToLower_plain:
  assumes "plain c"
  shows "ToLower (a @ c # s) = ToLower a @ lower_char c # ToLower s"
proof (induction a rule: ToLower.induct, goal_cases)
  case (2 a b)
  show ?case using ToLower_plain_head [OF assms] by (cases s) (simp_all add: plain_bytes [OF assms])
next
  case (4 v)
  show ?case using ToLower_plain_head [OF assms, of s] by (cases s) (simp_all add: plain_bytes [OF assms])
qed (simp_all add: plain_bytes [OF assms] ToLower_plain_head [OF assms])

lemma ToLower_part:
  assumes "list_all plain t" "t \<noteq> []"
  shows "ToLower (a @ t @ b) = ToLower a @ map lower_char t @ ToLower b"
  using assms
proof (induction t arbitrary: a)
  case (Cons c t)
  show ?case
  proof (cases "t = []")
    case False
    with Cons.IH [of "[]"] Cons.prems have "ToLower (t @ b) = map lower_char t @ ToLower b" by simp
    with Cons.prems ToLower_plain [of c a "t @ b"] show ?thesis by simp
  qed (use Cons.prems ToLower_plain [of c a b] in simp)
qed simp

section \<open>Encoded strings\<close>

lemma plain_not_continuation:
  assumes "plain c"
  shows "\<not> continuation c" "\<not> valid2 x c" "\<not> valid3 x c y" "\<not> valid3 x y c" "\<not> valid4 x c y z" "\<not> valid4 x y c z" "\<not> valid4 x y z c"
  using assms by (auto simp: plain_def continuation_def valid2_def valid3_def valid4_def char_between_def split: if_splits)

lemma rune_len_plain:
  assumes "plain c" "a \<noteq> []"
  shows "rune_len (a @ c # b) = rune_len a"
proof -
  have four: "rune_len (x # y # z # w # u) = rune_len [x, y, z, w]" for x y z w u by simp
  consider x where "a = [x]" | x y where "a = [x, y]" | x y z where "a = [x, y, z]" | x y z w u where "a = x # y # z # w # u"
    using assms(2) by (metis list.exhaust)
  then show ?thesis
  proof cases
    case 4
    then show ?thesis using four [of _ _ _ _ "_ @ _"] by simp
  qed (use plain_not_continuation [OF assms(1)] in \<open>simp split: list.splits\<close>)+
qed

lemma rune_len_le: "rune_len a \<le> length a"
  by (cases a rule: rune_len.cases) (auto split: list.splits)

lemma encode_string_plain:
  assumes "plain c"
  shows "encode_string (a @ c # b) = encode_string a @ c # encode_string b"
proof (induction a rule: encode_string.induct)
  case (1 a)
  show ?case
  proof (cases "a = []")
    case True
    have "rune_len (c # b) = 1" "escape_ascii c = [c]" using assms by (auto simp: plain_def char_between_def)
    then have "encode_string (c # b) = c # encode_string b" by (subst encode_string.simps) (simp add: encode_rune_def)
    with True show ?thesis by (simp add: encode_string.simps [of "[]"])
  next
    case False
    let ?n = "rune_len a"
    have n: "rune_len (a @ c # b) = ?n" by (rule rune_len_plain [OF assms False])
    have m: "max 1 ?n \<le> length a" using rune_len_le [of a] False by (cases a) auto
    then have "encode_rune ?n (a @ c # b) = encode_rune ?n a" using False by (auto simp: encode_rune_def)
    with n m False have "encode_string (a @ c # b) = encode_rune ?n a @ encode_string (drop (max 1 ?n) a @ c # b)"
      by (subst encode_string.simps) (simp add: Let_def)
    with 1 [OF False refl] show ?thesis by (simp add: encode_string.simps [of a] False Let_def)
  qed
qed

lemma encode_string_part:
  assumes "list_all plain t" "t \<noteq> []"
  shows "encode_string (a @ t @ b) = encode_string a @ t @ encode_string b"
  using assms
proof (induction t arbitrary: a)
  case (Cons c t)
  show ?case
  proof (cases "t = []")
    case False
    with Cons.IH [of "[]"] Cons.prems have "encode_string (t @ b) = t @ encode_string b"
      by (simp add: encode_string.simps [of "[]"])
    with Cons.prems encode_string_plain [of c a "t @ b"] show ?thesis by simp
  qed (use Cons.prems encode_string_plain [of c a b] in simp)
qed simp


section \<open>Evaluation\<close>

text \<open>
  Comparing and changing the case of characters on their bits, which the simplifier evaluates much
  faster than on their codes.
\<close>

definition bit_less_eq :: "bool \<Rightarrow> bool \<Rightarrow> bool \<Rightarrow> bool" where
  "bit_less_eq a b rest \<longleftrightarrow> (if a then b \<and> rest else b \<or> rest)"

lemma bit_less_eq_add:
  assumes "x < 2 ^ k" "y < 2 ^ k"
  shows "(x :: nat) + of_bool a * 2 ^ k \<le> y + of_bool b * 2 ^ k \<longleftrightarrow> bit_less_eq a b (x \<le> y)"
  using assms by (auto simp: bit_less_eq_def)

fun bits_value :: "bool list \<Rightarrow> nat" where
  "bits_value [] = 0"
| "bits_value (b # bs) = bits_value bs + of_bool b * 2 ^ length bs"

fun bits_less_eq :: "bool list \<Rightarrow> bool list \<Rightarrow> bool" where
  "bits_less_eq (a # as) (b # bs) = bit_less_eq a b (bits_less_eq as bs)"
| "bits_less_eq _ _ = True"

lemma bits_value_less: "bits_value bs < 2 ^ length bs"
  by (induction bs) (auto simp: of_bool_def)

lemma bits_less_eq_value: "length as = length bs \<Longrightarrow> bits_less_eq as bs \<longleftrightarrow> bits_value as \<le> bits_value bs"
proof (induction as bs rule: list_induct2)
  case (Cons a as b bs)
  with bit_less_eq_add [OF bits_value_less [of as], of "bits_value bs" a b] bits_value_less [of bs] show ?case by simp
qed simp

fun char_bits :: "char \<Rightarrow> bool list" where
  "char_bits (Char b0 b1 b2 b3 b4 b5 b6 b7) = [b7, b6, b5, b4, b3, b2, b1, b0]"

lemma of_char_bits: "(of_char (Char b0 b1 b2 b3 b4 b5 b6 b7) :: nat) =
    of_bool b0 + 2 * of_bool b1 + 4 * of_bool b2 + 8 * of_bool b3 + 16 * of_bool b4 + 32 * of_bool b5 + 64 * of_bool b6 + 128 * of_bool b7"
  by (simp add: of_char_def)

lemma char_bits_value: "bits_value (char_bits c) = of_char c"
proof (cases c)
  case (Char b0 b1 b2 b3 b4 b5 b6 b7)
  show ?thesis unfolding Char of_char_bits char_bits.simps bits_value.simps by simp
qed

lemma char_bits_length: "length (char_bits c) = 8"
  by (cases c) simp

lemma char_between_bits [code]:
  "char_between lo hi c \<longleftrightarrow> bits_less_eq (char_bits lo) (char_bits c) \<and> bits_less_eq (char_bits c) (char_bits hi)"
  by (simp add: char_between_def bits_less_eq_value char_bits_length char_bits_value)

declare char_between_code [code del]

lemma low_bits: "of_bool b0 + 2 * of_bool b1 + 4 * of_bool b2 + 8 * of_bool b3 + 16 * of_bool b4 < (32 :: nat)"
  by (simp add: of_bool_def)

lemma lower_char_bits [code]:
  "lower_char (Char b0 b1 b2 b3 b4 b5 b6 b7) =
     (let c = Char b0 b1 b2 b3 b4 b5 b6 b7 in if is_upper c then Char b0 b1 b2 b3 b4 True b6 b7 else c)"
proof (cases "is_upper (Char b0 b1 b2 b3 b4 b5 b6 b7)")
  case True
  then have "\<not> b5" using low_bits [of b0 b1 b2 b3 b4] unfolding char_between_def of_char_bits
    by (cases b5; cases b6; cases b7) auto
  then have e: "of_char (Char b0 b1 b2 b3 b4 b5 b6 b7) + 32 = (of_char (Char b0 b1 b2 b3 b4 True b6 b7) :: nat)"
    unfolding of_char_bits by simp
  from True show ?thesis unfolding lower_char_def Let_def e by (simp only: if_True char_of_char)
qed (simp only: lower_char_def Let_def if_False)

lemma upper_char_bits [code]:
  "upper_char (Char b0 b1 b2 b3 b4 b5 b6 b7) =
     (let c = Char b0 b1 b2 b3 b4 b5 b6 b7 in if is_lower c then Char b0 b1 b2 b3 b4 False b6 b7 else c)"
proof (cases "is_lower (Char b0 b1 b2 b3 b4 b5 b6 b7)")
  case True
  then have "b5" using low_bits [of b0 b1 b2 b3 b4] unfolding char_between_def of_char_bits
    by (cases b5; cases b6; cases b7) auto
  then have e: "of_char (Char b0 b1 b2 b3 b4 b5 b6 b7) - 32 = (of_char (Char b0 b1 b2 b3 b4 False b6 b7) :: nat)"
    unfolding of_char_bits by simp
  from True show ?thesis unfolding upper_char_def Let_def e by (simp only: if_True char_of_char)
qed (simp only: upper_char_def Let_def if_False)

section \<open>Searching chunk by chunk\<close>

text \<open>A character no class of a pattern accepts separates the text into parts that are searched on their own.\<close>

definition avoids :: "char \<Rightarrow> (string \<Rightarrow> nat) \<Rightarrow> bool" where
  "avoids x f \<longleftrightarrow> (\<forall>a b. f (a @ x # b) = f a \<and> f a \<le> length a)"

fun all_avoid :: "char \<Rightarrow> regexp \<Rightarrow> bool" where
  "all_avoid x (Rep f lo hi) = avoids x f"
| "all_avoid x (Seq a b) = (all_avoid x a \<and> all_avoid x b)"
| "all_avoid x (Alt a b) = (all_avoid x a \<and> all_avoid x b)"
| "all_avoid x Empty = True"
| "all_avoid x WordBoundary = False"

lemma rep_rests_avoid:
  "avoids x f \<Longrightarrow> rep_rests f n (a @ x # b) = map (\<lambda>(k, e). (k, e @ x # b)) (rep_rests f n a)"
proof (induction n arbitrary: a)
  case (Suc n)
  then have "f (a @ x # b) = f a" "f a \<le> length a" by (auto simp: avoids_def)
  with Suc show ?case by (simp add: Let_def case_prod_unfold)
qed simp

lemma rests_avoid: "all_avoid x r \<Longrightarrow> rests n r (a @ x # b) = map (\<lambda>e. e @ x # b) (rests n r a)"
proof (induction r arbitrary: a)
  case (Rep f lo hi)
  then show ?case by (simp add: rep_rests_avoid filter_map o_def case_prod_unfold)
next
  case (Seq r s)
  then have "map (rests n s) (map (\<lambda>e. e @ x # b) (rests n r a)) = map (map (\<lambda>e. e @ x # b)) (map (rests n s) (rests n r a))" by simp
  with Seq show ?case by (simp add: map_concat o_def)
qed simp_all

lemma searchFrom_avoid: "all_avoid x r \<Longrightarrow> searchFrom n r (a @ x # b) \<longleftrightarrow> searchFrom n r a \<or> searchFrom n r b"
proof (induction a)
  case Nil
  with rests_avoid [OF Nil, of n "[]" b] show ?case by simp
next
  case (Cons c a)
  with rests_avoid [OF Cons.prems, of n "c # a" b] show ?case by simp
qed

lemma has_prefix_avoid:
  assumes "x \<notin> set m"
  shows "has_prefix (a @ x # b) m \<longleftrightarrow> has_prefix a m"
proof
  assume "has_prefix (a @ x # b) m"
  then obtain t where t: "a @ x # b = m @ t" by (auto simp: has_prefix_iff)
  have "length m \<le> length a"
  proof (rule ccontr)
    assume l: "\<not> length m \<le> length a"
    then have "m ! length a = (a @ x # b) ! length a" unfolding t by (simp add: nth_append)
    also have "\<dots> = x" by (rule nth_append_length)
    finally show False using l assms by (metis nth_mem not_le)
  qed
  with t show "has_prefix a m" unfolding has_prefix_iff by (metis append_eq_append_conv_if append_take_drop_id)
next
  assume "has_prefix a m"
  then show "has_prefix (a @ x # b) m" unfolding has_prefix_iff by (metis append.assoc)
qed

lemma contains_avoid:
  assumes "x \<notin> set m"
  shows "contains (a @ x # b) m \<longleftrightarrow> contains a m \<or> contains b m"
proof (induction a)
  case Nil
  show ?case using has_prefix_avoid [OF assms, of "[]" b] by (cases m; cases b) (auto simp: has_prefix_iff)
next
  case (Cons c a)
  with has_prefix_avoid [OF assms, of "c # a" b] show ?case by simp
qed

fun chunks :: "(char \<Rightarrow> bool) \<Rightarrow> string \<Rightarrow> string \<Rightarrow> string list" where
  "chunks P acc [] = [rev acc]"
| "chunks P acc (c # s) = (if P c then rev acc # chunks P [] s else chunks P (c # acc) s)"

lemma chunks_ex:
  assumes "\<And>x a b. P x \<Longrightarrow> Q (a @ x # b) \<longleftrightarrow> Q a \<or> Q b"
  shows "list_ex Q (chunks P acc s) \<longleftrightarrow> Q (rev acc @ s)"
  using assms by (induction s arbitrary: acc) simp_all


end
