(* ===== verification/Reasoner_Replay.thy ===== *)
theory Reasoner_Replay
  imports Reasoner_Props Policy_Audit Pattern_Search
begin

text \<open>
  Recorded turns, \<open>src/internal/reasoner/replay.go\<close>: the screen and validation of a cassette, loading
  it, and the Reasoner that replays its turns in order. The encoding of a cassette as JSON is
  modelled, since the screen reads it; the reflective decoding into the struct is a parameter of
  \<open>LoadCassette\<close>.
\<close>

section \<open>Cassettes\<close>

record Cassette =
  cs_Version :: string
  cs_SystemContractVersion :: string
  cs_ScenarioID :: string
  cs_RecordingMode :: string
  cs_Redacted :: bool
  cs_Turns :: "StreamEvent list list"

definition CurrentCassetteVersion :: string where
  "CurrentCassetteVersion = ''agentdock-reasoner-cassette/v1''"

definition CodingAgentSystemContractVersion :: string where
  "CodingAgentSystemContractVersion = ''agentdock-coding-v1''"

section \<open>JSON\<close>

fun StreamEventType_text :: "StreamEventType \<Rightarrow> string" where
  "StreamEventType_text EventTextDelta = ''text_delta''"
| "StreamEventType_text EventToolCall = ''tool_call''"
| "StreamEventType_text EventUsage = ''usage''"
| "StreamEventType_text EventFinish = ''finish''"
| "StreamEventType_text EventError = ''error''"
| "StreamEventType_text (StreamEventOther t) = t"

fun ErrorClass_text :: "ErrorClass \<Rightarrow> string" where
  "ErrorClass_text ErrorInvalidRequest = ''invalid_request''"
| "ErrorClass_text ErrorInvalidEvent = ''invalid_event''"
| "ErrorClass_text ErrorInvalidTool = ''invalid_tool''"
| "ErrorClass_text ErrorInvalidToolArguments = ''invalid_tool_arguments''"
| "ErrorClass_text ErrorTokenBudgetExceeded = ''token_budget_exceeded''"
| "ErrorClass_text ErrorStreamingInterrupted = ''streaming_interrupted''"
| "ErrorClass_text ErrorProviderAuthentication = ''provider_authentication''"
| "ErrorClass_text ErrorProviderRateLimited = ''provider_rate_limited''"
| "ErrorClass_text ErrorProviderInvalidRequest = ''provider_invalid_request''"
| "ErrorClass_text ErrorProviderUnavailable = ''provider_unavailable''"
| "ErrorClass_text ErrorCanceled = ''canceled''"
| "ErrorClass_text ErrorInternal = ''internal''"
| "ErrorClass_text (ErrorClassOther t) = t"

definition objectJSON :: "string option list \<Rightarrow> string" where
  "objectJSON fs = ''{'' @ commas (List.map_filter id fs) @ ''}''"

definition arrayJSON :: "string list \<Rightarrow> string" where
  "arrayJSON elements = ''['' @ commas elements @ '']''"

definition toolCallJSON :: "ToolCall \<Rightarrow> string" where
  "toolCallJSON c = objectJSON [textField ''id'' (tc_ID c), field ''name'' (marshal_string (tc_Name c)),
     field ''arguments'' (marshal_string (tc_Arguments c))]"

definition usageJSON :: "Usage \<Rightarrow> string" where
  "usageJSON u = objectJSON [field ''input_tokens'' (show_int (sint (us_InputTokens u))),
     field ''output_tokens'' (show_int (sint (us_OutputTokens u))), field ''total_tokens'' (show_int (sint (us_TotalTokens u)))]"

definition streamErrorJSON :: "StreamError \<Rightarrow> string" where
  "streamErrorJSON f = objectJSON [field ''class'' (marshal_string (ErrorClass_text (se_Class f))),
     field ''message'' (marshal_string (se_Message f)), field ''retryable'' (boolText (se_Retryable f))]"

definition pointerField :: "string \<Rightarrow> ('a \<Rightarrow> string) \<Rightarrow> 'a option \<Rightarrow> string option" where
  "pointerField key encode p = Option.bind p (\<lambda>x. field key (encode x))"

definition eventJSON :: "StreamEvent \<Rightarrow> string" where
  "eventJSON e = objectJSON [field ''type'' (marshal_string (StreamEventType_text (se_Type e))), textField ''text'' (se_Text e),
     pointerField ''tool_call'' toolCallJSON (se_ToolCall e), pointerField ''usage'' usageJSON (se_Usage e),
     pointerField ''finish'' (\<lambda>r. objectJSON [field ''reason'' (marshal_string r)]) (se_Finish e),
     pointerField ''error'' streamErrorJSON (se_Error e)]"

definition cassetteJSON :: "Cassette \<Rightarrow> string" where
  "cassetteJSON c = objectJSON [field ''version'' (marshal_string (cs_Version c)),
     field ''system_contract_version'' (marshal_string (cs_SystemContractVersion c)),
     field ''scenario_id'' (marshal_string (cs_ScenarioID c)), field ''recording_mode'' (marshal_string (cs_RecordingMode c)),
     field ''redacted'' (boolText (cs_Redacted c)),
     field ''turns'' (arrayJSON (map (\<lambda>turn. arrayJSON (map eventJSON turn)) (cs_Turns c)))]"

section \<open>The screen\<close>

definition quoted :: "string \<Rightarrow> string" where
  "quoted s = CHR 0x22 # s @ [CHR 0x22]"

definition secretMarkers :: "string list" where
  "secretMarkers = map quoted [''api_key'', ''apikey'', ''access_key'', ''authorization'', ''password'', ''client_secret'',
       ''private_key'', ''token''] @ [''-----begin private key-----'', ''-----begin rsa private key-----'']"

definition secretPatterns :: "regexp list" where
  "secretPatterns =
    [seqs [lit class_len_i ''bearer'', Rep (class_len regexp_space) 1 None,
       Rep (class_len_i (\<lambda>c. is_lower c \<or> is_digit c \<or> c = CHR ''.'' \<or> c = CHR ''_'' \<or> c = CHR ''-'')) 8 None],
     seqs [alts [lit class_len_i ''sk-'', lit class_len_i ''ghp_'', lit class_len_i ''github_pat_'',
         seqs [lit class_len_i ''xox'', Rep (class_len_i (\<lambda>c. c = CHR ''b'' \<or> c = CHR ''p'')) 1 (Some 1), lit class_len_i ''-'']],
       Rep (class_len_i (\<lambda>c. is_lower c \<or> is_digit c \<or> c = CHR ''_'' \<or> c = CHR ''-'')) 8 None],
     seqs [lit class_len ''AKIA'', Rep (class_len (\<lambda>c. is_digit c \<or> is_upper c)) 16 (Some 16)]]"

definition containsSecretMarker :: "string \<Rightarrow> bool" where
  "containsSecretMarker v \<longleftrightarrow> list_ex (contains (ToLower v)) secretMarkers \<or> list_ex (\<lambda>r. MatchString r v) secretPatterns"

lemma class_len_stable: "stable (class_len P)"
  by (auto simp: stable_def class_len_def split: list.splits if_splits)

lemma class_len_i_stable: "stable (class_len_i P)"
  by (auto simp: stable_def class_len_i_def has_prefix_iff split: list.splits if_splits)

lemma secretPatterns_stable: "r \<in> set secretPatterns \<Longrightarrow> all_stable r"
  by (auto simp: secretPatterns_def alts_def lit_def class_len_stable class_len_i_stable)

text \<open>The punctuation of JSON is in no marker and no pattern, so an encoded text is searched in parts.\<close>

definition punctuation :: "char \<Rightarrow> bool" where
  "punctuation c \<longleftrightarrow> c = CHR '','' \<or> c = CHR '':'' \<or> c = CHR ''{'' \<or> c = CHR ''}'' \<or> c = CHR ''['' \<or> c = CHR '']''"

definition screens :: "nat \<Rightarrow> string \<Rightarrow> bool" where
  "screens n v \<longleftrightarrow> list_ex (contains (ToLower v)) secretMarkers \<or> list_ex (\<lambda>r. searchFrom n r v) secretPatterns"

lemma class_len_avoids: "\<not> P x \<Longrightarrow> avoids x (class_len P)"
  by (auto simp: avoids_def class_len_def split: list.splits)

lemma class_len_i_avoids:
  assumes "punctuation x" "\<not> P x"
  shows "avoids x (class_len_i P)"
proof -
  have "lower_char x = x" "upper_char x = x" using assms(1) by (auto simp: punctuation_def lower_char_def upper_char_def char_between_def)
  moreover have "has_prefix (a @ x # b) m \<longleftrightarrow> has_prefix a m" if "m \<in> {[CHR 0xC5, CHR 0xBF], [CHR 0xE2, CHR 0x84, CHR 0xAA]}" for a b m
    by (rule has_prefix_avoid) (use that assms(1) in \<open>auto simp: punctuation_def\<close>)
  then have "has_prefix (c # a @ x # b) m \<longleftrightarrow> has_prefix (c # a) m"
    if "m \<in> {[CHR 0xC5, CHR 0xBF], [CHR 0xE2, CHR 0x84, CHR 0xAA]}" for c a b m
    using that by (metis append_Cons)
  moreover have "\<not> has_prefix (x # b) [CHR 0xC5, CHR 0xBF]" "\<not> has_prefix (x # b) [CHR 0xE2, CHR 0x84, CHR 0xAA]" for b
    using assms(1) by (auto simp: punctuation_def has_prefix_iff)
  moreover have "has_prefix s m \<Longrightarrow> length m \<le> length s" for s m :: string by (auto simp: has_prefix_iff)
  then have "has_prefix (c # s) [CHR 0xC5, CHR 0xBF] \<Longrightarrow> 1 \<le> length s"
    "has_prefix (c # s) [CHR 0xE2, CHR 0x84, CHR 0xAA] \<Longrightarrow> 2 \<le> length s" for c s
    by fastforce+
  ultimately show ?thesis using assms(2) by (auto simp: avoids_def class_len_i_def split: list.splits)
qed

lemma secretPatterns_avoid: "punctuation x \<Longrightarrow> r \<in> set secretPatterns \<Longrightarrow> all_avoid x r"
  by (auto simp: secretPatterns_def alts_def lit_def punctuation_def char_between_def regexp_space_def
      intro!: class_len_avoids class_len_i_avoids)

lemma secretMarkers_avoid: "punctuation x \<Longrightarrow> m \<in> set secretMarkers \<Longrightarrow> x \<notin> set m"
  by (auto simp: secretMarkers_def quoted_def punctuation_def)

lemma screens_avoid:
  assumes "punctuation x"
  shows "screens n (a @ x # b) \<longleftrightarrow> screens n a \<or> screens n b"
proof -
  have "list_all (\<lambda>x. plain x \<and> lower_char x = x) '',:{}[]''" by code_simp
  with assms have p: "plain x" "lower_char x = x" by (auto simp: punctuation_def)
  show ?thesis using assms contains_avoid [OF secretMarkers_avoid] searchFrom_avoid [OF secretPatterns_avoid]
    unfolding screens_def ToLower_plain [OF p(1)] p(2) list_ex_iff by blast
qed

lemma containsSecretMarker_code [code]:
  "containsSecretMarker v \<longleftrightarrow> list_ex (screens (length v)) (chunks punctuation [] v)"
  using MatchString_searchFrom [OF all_stable_no_boundary [OF secretPatterns_stable]]
    chunks_ex [where P = punctuation and Q = "screens (length v)", OF screens_avoid]
  by (auto simp: containsSecretMarker_def screens_def list_ex_iff)

section \<open>Validation\<close>

datatype CassetteError =
    CassetteReader | CassetteRead | CassetteTooLarge | CassetteSecret | CassetteDecode | CassetteTrailing | CassetteVersion
  | CassetteHeader | CassetteEmptyTurn nat | CassetteTurn nat TurnError
and TurnError = AfterTerminal nat | EventShape StreamError | MultipleUsage | FinishWithoutUsage | MissingTerminal

fun recordedLoop :: "nat \<Rightarrow> bool \<Rightarrow> nat \<Rightarrow> StreamEvent list \<Rightarrow> TurnError + unit" where
  "recordedLoop index terminal usageCount [] = (if terminal then Inr () else Inl MissingTerminal)"
| "recordedLoop index terminal usageCount (event # turn) =
     (if terminal then Inl (AfterTerminal index)
      else case validateEventShape event of
          Some f \<Rightarrow> Inl (EventShape f)
        | None \<Rightarrow>
            if se_Type event = EventUsage then
              (if usageCount + 1 > 1 then Inl MultipleUsage else recordedLoop (index + 1) False (usageCount + 1) turn)
            else if se_Type event = EventFinish then
              (if usageCount \<noteq> 1 then Inl FinishWithoutUsage else recordedLoop (index + 1) True usageCount turn)
            else recordedLoop (index + 1) (se_Type event = EventError) usageCount turn)"

definition validateRecordedTurn :: "StreamEvent list \<Rightarrow> TurnError + unit" where
  "validateRecordedTurn turn = recordedLoop 0 False 0 turn"

fun validateTurns :: "nat \<Rightarrow> StreamEvent list list \<Rightarrow> CassetteError + unit" where
  "validateTurns index [] = Inr ()"
| "validateTurns index (turn # turns) =
     (if turn = [] then Inl (CassetteEmptyTurn index)
      else bindE (mapErr (CassetteTurn index) (validateRecordedTurn turn)) (\<lambda>_. validateTurns (index + 1) turns))"

definition validateCassette :: "Cassette \<Rightarrow> CassetteError + unit" where
  "validateCassette cassette =
     (if cs_Version cassette \<noteq> CurrentCassetteVersion then Inl CassetteVersion
      else if cs_SystemContractVersion cassette \<noteq> CodingAgentSystemContractVersion then Inl CassetteVersion
      else if cs_ScenarioID cassette = '''' \<or> cs_Turns cassette = [] then Inl CassetteHeader
      else if cs_RecordingMode cassette \<noteq> ''recorded'' \<or> \<not> cs_Redacted cassette then Inl CassetteHeader
      else if containsSecretMarker (cassetteJSON cassette) then Inl CassetteSecret
      else validateTurns 0 (cs_Turns cassette))"

text \<open>
  \<open>reader\<close> is \<open>None\<close> for a nil reader, \<open>Some None\<close> when reading fails and otherwise the bytes up to the
  end or one byte past the limit. \<open>decode\<close> gives the result of the first \<open>Decode\<close> and whether the second
  one is at the end of the input.
\<close>

definition LoadCassette :: "(string \<Rightarrow> Cassette option \<times> bool) \<Rightarrow> string option option \<Rightarrow> CassetteError + Cassette" where
  "LoadCassette decode reader =
     (case reader of
        None \<Rightarrow> Inl CassetteReader
      | Some None \<Rightarrow> Inl CassetteRead
      | Some (Some payload) \<Rightarrow>
          if int (length payload) > 4194304 then Inl CassetteTooLarge
          else if containsSecretMarker payload then Inl CassetteSecret
          else case decode payload of
              (None, _) \<Rightarrow> Inl CassetteDecode
            | (Some cassette, atEnd) \<Rightarrow>
                if \<not> atEnd then Inl CassetteTrailing
                else bindE (validateCassette cassette) (\<lambda>_. Inr cassette))"

section \<open>Replaying\<close>

record ReplayReasoner =
  ry_cassette :: Cassette
  ry_nextTurn :: nat

definition NewReplayReasoner :: "Cassette \<Rightarrow> CassetteError + ReplayReasoner" where
  "NewReplayReasoner cassette = bindE (validateCassette cassette) (\<lambda>_. Inr \<lparr>ry_cassette = cassette, ry_nextTurn = 0\<rparr>)"

text \<open>\<open>ctxErr\<close> is what \<open>ctx.Err()\<close> returns, as the classification sees it.\<close>

definition replay_Reason :: "ProviderError option \<Rightarrow> Request \<Rightarrow> ReplayReasoner \<Rightarrow> sliceStream normalizedStream \<times> ReplayReasoner" where
  "replay_Reason ctxErr request replay =
     (case ctxErr of
        Some err \<Rightarrow> (NewErrorStream request (ClassifyProviderError err), replay)
      | None \<Rightarrow>
          if ry_nextTurn replay \<ge> length (cs_Turns (ry_cassette replay))
          then (NewErrorStream request \<lparr>se_Class = ErrorInternal, se_Message = ''recorded cassette has no remaining turn'',
                  se_Retryable = False\<rparr>, replay)
          else (NewNormalizedStream request (newSliceStream (cs_Turns (ry_cassette replay) ! ry_nextTurn replay) None),
                replay\<lparr>ry_nextTurn := ry_nextTurn replay + 1\<rparr>))"

section \<open>What the screen keeps out\<close>

definition eventTexts :: "StreamEvent \<Rightarrow> string list" where
  "eventTexts e = StreamEventType_text (se_Type e) # se_Text e
     # (case se_ToolCall e of None \<Rightarrow> [] | Some c \<Rightarrow> [tc_ID c, tc_Name c, tc_Arguments c])
     @ (case se_Finish e of None \<Rightarrow> [] | Some r \<Rightarrow> [r])
     @ (case se_Error e of None \<Rightarrow> [] | Some f \<Rightarrow> [ErrorClass_text (se_Class f), se_Message f])"

definition cassetteTexts :: "Cassette \<Rightarrow> string list" where
  "cassetteTexts c = cs_ScenarioID c # concat (map eventTexts (concat (cs_Turns c)))"

lemma commas_part: "x \<in> set xs \<Longrightarrow> sublist x (commas xs)"
proof (induction xs rule: commas.induct)
  case (3 z y ys)
  show ?case
  proof (cases "x = z")
    case False
    with 3 have "sublist x (commas (y # ys))" by simp
    with sublist_append_leftI [of "commas (y # ys)" "z @ [CHR '','']"] show ?thesis by simp
  qed simp
qed auto

lemma objectJSON_part:
  assumes "Some f \<in> set fs" "sublist v f"
  shows "sublist v (objectJSON fs)"
proof -
  have "f \<in> set (List.map_filter id fs)" using assms(1) by (force simp: List.map_filter_def)
  then have "sublist f (objectJSON fs)" unfolding objectJSON_def by (meson commas_part sublist_appendI sublist_order.order.trans)
  with assms(2) show ?thesis by (rule sublist_order.order.trans)
qed

lemma arrayJSON_part: "x \<in> set xs \<Longrightarrow> sublist v x \<Longrightarrow> sublist v (arrayJSON xs)"
  unfolding arrayJSON_def by (meson commas_part sublist_appendI sublist_order.order.trans)

lemma marshal_part: "sublist (encode_string s) (marshal_string s)"
  unfolding marshal_string_def by (metis append_Cons append_Nil sublist_appendI)

lemma field_Some: "field key v = Some (marshal_string key @ '':'' @ v)"
  by (simp add: field_def)

lemma field_part: "sublist v x \<Longrightarrow> sublist v (marshal_string key @ '':'' @ x)"
  by (metis sublist_append_leftI sublist_order.order.trans)

lemma member_part:
  assumes "field key x \<in> set fs" "sublist v x"
  shows "sublist v (objectJSON fs)"
  by (rule objectJSON_part [OF assms(1) [unfolded field_Some] field_part [OF assms(2)]])

lemma textField_part:
  assumes "textField key s \<in> set fs"
  shows "sublist (encode_string s) (objectJSON fs)"
proof (cases "s = ''''")
  case True
  then show ?thesis by (simp add: encode_string.simps)
next
  case False
  with assms have "field key (marshal_string s) \<in> set fs" by (simp add: textField_def)
  then show ?thesis by (rule member_part [OF _ marshal_part])
qed

lemma pointerField_Some: "pointerField key encode (Some x) = field key (encode x)"
  by (simp add: pointerField_def)

lemma toolCallJSON_part:
  assumes "s \<in> {tc_ID c, tc_Name c, tc_Arguments c}"
  shows "sublist (encode_string s) (toolCallJSON c)"
proof -
  have "sublist (encode_string (tc_ID c)) (toolCallJSON c)" unfolding toolCallJSON_def
    by (rule textField_part [where key = "''id''"]) simp
  moreover have "sublist (encode_string (tc_Name c)) (toolCallJSON c)" unfolding toolCallJSON_def
    by (rule member_part [where key = "''name''", OF _ marshal_part]) simp
  moreover have "sublist (encode_string (tc_Arguments c)) (toolCallJSON c)" unfolding toolCallJSON_def
    by (rule member_part [where key = "''arguments''", OF _ marshal_part]) simp
  ultimately show ?thesis using assms by blast
qed

lemma streamErrorJSON_part:
  assumes "s \<in> {ErrorClass_text (se_Class f), se_Message f}"
  shows "sublist (encode_string s) (streamErrorJSON f)"
proof -
  have "sublist (encode_string (ErrorClass_text (se_Class f))) (streamErrorJSON f)" unfolding streamErrorJSON_def
    by (rule member_part [where key = "''class''", OF _ marshal_part]) simp
  moreover have "sublist (encode_string (se_Message f)) (streamErrorJSON f)" unfolding streamErrorJSON_def
    by (rule member_part [where key = "''message''", OF _ marshal_part]) simp
  ultimately show ?thesis using assms by blast
qed

lemma eventJSON_part:
  assumes "s \<in> set (eventTexts e)"
  shows "sublist (encode_string s) (eventJSON e)"
proof -
  consider "s = StreamEventType_text (se_Type e)" | "s = se_Text e"
    | c where "se_ToolCall e = Some c" "s \<in> {tc_ID c, tc_Name c, tc_Arguments c}"
    | r where "se_Finish e = Some r" "s = r"
    | f where "se_Error e = Some f" "s \<in> {ErrorClass_text (se_Class f), se_Message f}"
    using assms unfolding eventTexts_def by (cases "se_ToolCall e"; cases "se_Finish e"; cases "se_Error e") auto
  then show ?thesis
  proof cases
    case 1
    show ?thesis unfolding eventJSON_def 1
      by (rule member_part [where key = "''type''", OF _ marshal_part]) simp
  next
    case 2
    show ?thesis unfolding eventJSON_def 2 by (rule textField_part [where key = "''text''"]) simp
  next
    case (3 c)
    from toolCallJSON_part [OF 3(2)] show ?thesis unfolding eventJSON_def 3(1) pointerField_Some
      by (rule member_part [where key = "''tool_call''", rotated]) simp
  next
    case (4 r)
    have "sublist (encode_string s) (objectJSON [field ''reason'' (marshal_string r)])"
      unfolding 4 by (rule member_part [where key = "''reason''", OF _ marshal_part]) simp
    then show ?thesis unfolding eventJSON_def 4(1) pointerField_Some
      by (rule member_part [where key = "''finish''", rotated]) simp
  next
    case (5 f)
    from streamErrorJSON_part [OF 5(2)] show ?thesis unfolding eventJSON_def 5(1) pointerField_Some
      by (rule member_part [where key = "''error''", rotated]) simp
  qed
qed

lemma cassetteJSON_part:
  assumes "s \<in> set (cassetteTexts c)"
  shows "sublist (encode_string s) (cassetteJSON c)"
proof (cases "s = cs_ScenarioID c")
  case True
  show ?thesis unfolding cassetteJSON_def True by (rule member_part [where key = "''scenario_id''", OF _ marshal_part]) simp
next
  case False
  with assms obtain turn e where e: "turn \<in> set (cs_Turns c)" "e \<in> set turn" "s \<in> set (eventTexts e)"
    by (auto simp: cassetteTexts_def)
  have "sublist (encode_string s) (arrayJSON (map eventJSON turn))"
    using e(2) by (intro arrayJSON_part [OF _ eventJSON_part [OF e(3)]]) simp
  then have "sublist (encode_string s) (arrayJSON (map (\<lambda>turn. arrayJSON (map eventJSON turn)) (cs_Turns c)))"
    using e(1) by (intro arrayJSON_part [rotated]) auto
  then show ?thesis unfolding cassetteJSON_def by (rule member_part [where key = "''turns''", rotated]) simp
qed

lemma containsSecretMarker_part:
  assumes "containsSecretMarker t" "list_all plain t" "t \<noteq> []"
  shows "containsSecretMarker (a @ t @ b)"
proof -
  have l: "ToLower t = map lower_char t" using ToLower_part [OF assms(2,3), of "[]" "[]"] by simp
  have "contains (ToLower (a @ t @ b)) m" if "contains (ToLower t) m" for m
    using that unfolding ToLower_part [OF assms(2,3)] l contains_iff by (metis append.assoc)
  with assms(1) show ?thesis
    using MatchString_part [OF secretPatterns_stable] unfolding containsSecretMarker_def list_ex_iff by blast
qed

section \<open>Samples\<close>

definition sampleUsage :: Usage where
  "sampleUsage = \<lparr>us_InputTokens = 2, us_OutputTokens = 1, us_TotalTokens = 3\<rparr>"

definition listCall :: ToolCall where
\<open>listCall = \<lparr>tc_ID = ''c1'', tc_Name = ''repo.list'', tc_Arguments = ''{"path":"src"}''\<rparr>\<close>

definition cassetteOf :: "StreamEvent list list \<Rightarrow> Cassette" where
  "cassetteOf turns = \<lparr>cs_Version = CurrentCassetteVersion, cs_SystemContractVersion = CodingAgentSystemContractVersion,
     cs_ScenarioID = ''s'', cs_RecordingMode = ''recorded'', cs_Redacted = True, cs_Turns = turns\<rparr>"

definition sampleTurns :: "StreamEvent list list" where
  "sampleTurns = [[callEvent listCall, usageEvent sampleUsage, finishEvent ''tool_calls''],
     [textEvent ''ok'', usageEvent sampleUsage, finishEvent ''stop'']]"

lemma sample_cassette: "validateCassette (cassetteOf sampleTurns) = Inr ()"
  by code_simp

definition leakedCall :: ToolCall where
\<open>leakedCall = \<lparr>tc_ID = ''c1'', tc_Name = ''repo.list'', tc_Arguments = ''{"api_key":"hunter2"}''\<rparr>\<close>

lemma leaked_arguments_accepted:
  "validateCassette (cassetteOf [[callEvent leakedCall, usageEvent sampleUsage, finishEvent ''tool_calls'']]) = Inr ()"
  "containsSecretMarker (tc_Arguments leakedCall)"
  by code_simp+

end
