(* ===== verification/Tool_Service.thy ===== *)
theory Tool_Service
  imports Policy_Audit
begin

text \<open>
  The Tool service of \<open>src/internal/tools/service.go\<close> over the types of \<open>src/internal/sandbox/sandbox.go\<close>:
  every invocation goes through the scope check, the contract and its input schema, the path rules,
  the policy engine and the audit before the sandbox executes it. The sandbox, the recorders and the
  file tree below the workspace are part of a world \<open>'w\<close>; a call that returns a value beside an error
  returns both here.
\<close>

section \<open>The sandbox seam\<close>

record Scope =
  sc_RunID :: string
  sc_AttemptID :: string

record SandboxRequest =
  sq_Command :: "string list"
  sq_Stdin :: string
  sq_Environment :: "(string \<times> string) list"
  sq_Timeout :: int
  sq_OutputLimit :: int
  sq_ToolName :: string
  sq_ContractVersion :: string

record SandboxResult =
  sr_Stdout :: string
  sr_Stderr :: string
  sr_ExitCode :: int
  sr_TimedOut :: bool
  sr_Truncated :: bool

datatype SandboxError = ErrDestroyed | ErrTimeout | ErrCommandNotAllowed | ExitError int | SandboxOther

record 'w Sandbox =
  sb_Scope :: Scope
  sb_Workspace :: string
  sb_tree :: "'w \<Rightarrow> FileTree"
  sb_Execute :: "SandboxRequest \<Rightarrow> 'w \<Rightarrow> (SandboxResult \<times> SandboxError option) \<times> 'w"

section \<open>Data\<close>

record Invocation =
  iv_RunID :: string
  iv_AttemptID :: string
  iv_ToolName :: string
  iv_Input :: string
  iv_Environment :: "(string \<times> string) list"

record Response =
  rp_Stdout :: string
  rp_Stderr :: string
  rp_ExitCode :: int
  rp_TimedOut :: bool
  rp_Truncated :: bool

definition Response_zero :: Response where
  "Response_zero = \<lparr>rp_Stdout = '''', rp_Stderr = '''', rp_ExitCode = 0, rp_TimedOut = False, rp_Truncated = False\<rparr>"

datatype ServiceCause =
    NotConfigured | ScopeNotConfigured | ErrScopeMismatch | CauseTool ToolError string | CauseDecode | CausePath PathError
  | CauseContractPaths | CausePolicy PolicyError | CauseSandbox SandboxError | CauseAudit

text \<open>\<open>errors.Join\<close> of the cause and of the error of the audit.\<close>

datatype ServiceError = ServiceError ServiceCause "AuditError option"

record 'w Service =
  sv_registry :: "Registry option"
  sv_policy :: "(PolicyConfig \<times> 'w recorder) option"
  sv_sandbox :: "'w Sandbox option"
  sv_audit :: "'w recorder option"
  sv_errorText :: "ServiceCause \<Rightarrow> string"

definition service_Contracts :: "'w Service \<Rightarrow> Contract list option" where
  "service_Contracts S =
     (case sv_registry S of
        None \<Rightarrow> None
      | Some registry \<Rightarrow> (let contracts = registry_Contracts registry in if contracts = [] then None else Some contracts))"

section \<open>Building the command\<close>

text \<open>\<open>fmt.Sprintf("%.0f", x)\<close> and the order on the numbers of a decoded document.\<close>

definition float_text :: "string \<Rightarrow> string" where
  "float_text n =
     (case ParseFloat n of
        None \<Rightarrow> ''''
      | Some (m, e) \<Rightarrow>
          (if has_prefix n ''-'' then ''-'' else '''') @ show_nat (nat (round_even (times_pow2 \<bar>m\<bar> e) (times_pow2 1 (- e)))))"

definition float_less :: "string \<Rightarrow> string \<Rightarrow> bool" where
  "float_less x y =
     (case (ParseFloat x, ParseFloat y) of
        (Some (m, e), Some (n, f)) \<Rightarrow> times_pow2 (times_pow2 m e) (- f) < times_pow2 (times_pow2 n f) (- e)
      | _ \<Rightarrow> False)"

definition textAt :: "members \<Rightarrow> string \<Rightarrow> string option" where
  "textAt obj key = (case map_of obj key of Some (VString s) \<Rightarrow> Some s | _ \<Rightarrow> None)"

definition numberAt :: "members \<Rightarrow> string \<Rightarrow> string option" where
  "numberAt obj key = (case map_of obj key of Some (VNumber n) \<Rightarrow> Some n | _ \<Rightarrow> None)"

definition schemaFailure :: "string \<Rightarrow> ServiceCause + 'a" where
  "schemaFailure message = Inl (CauseTool ErrSchemaValidation message)"

definition pathValue :: "members \<Rightarrow> ServiceCause + string" where
  "pathValue obj = (case textAt obj ''path'' of Some s \<Rightarrow> if s = '''' then schemaFailure ''path is required'' else Inr s
      | None \<Rightarrow> schemaFailure ''path is required'')"

definition helper :: string where "helper = ''agentdock-sandbox-helper''"

type_synonym built = "string list \<times> string \<times> string list"

definition buildRead :: "members \<Rightarrow> ServiceCause + built" where
  "buildRead obj =
     bindE (pathValue obj) (\<lambda>path.
       case (numberAt obj ''startLine'', numberAt obj ''endLine'') of
         (None, Some _) \<Rightarrow> schemaFailure ''endLine requires startLine''
       | (None, None) \<Rightarrow> Inr ([helper, ''read'', path], '''', [path])
       | (Some start, None) \<Rightarrow> Inr ([helper, ''read'', path, float_text start], '''', [path])
       | (Some start, Some stop) \<Rightarrow>
           (if float_less stop start then schemaFailure ''endLine precedes startLine''
            else Inr ([helper, ''read'', path, float_text start, float_text stop], '''', [path])))"

definition buildSearch :: "members \<Rightarrow> ServiceCause + built" where
  "buildSearch obj =
     bindE (pathValue obj) (\<lambda>path.
       case textAt obj ''pattern'' of
         None \<Rightarrow> schemaFailure ''pattern is required''
       | Some pattern \<Rightarrow> if pattern = '''' then schemaFailure ''pattern is required'' else Inr ([helper, ''search'', pattern, path], '''', [path]))"

definition buildPatch :: "string \<Rightarrow> members \<Rightarrow> ServiceCause + built" where
  "buildPatch input obj =
     bindE (pathValue obj) (\<lambda>path.
       case (textAt obj ''old'', textAt obj ''new'') of
         (Some oldText, Some newText) \<Rightarrow>
           if oldText = '''' \<or> contains newText oldText then schemaFailure ''patch new text must not retain old text''
           else Inr ([helper, ''apply-patch''], input, [path])
       | _ \<Rightarrow> schemaFailure ''patch new text must not retain old text'')"

definition TrimSuffix :: "string \<Rightarrow> string \<Rightarrow> string" where
  "TrimSuffix s sfx = (if has_suffix s sfx then take (length s - length sfx) s else s)"

definition packagePath :: "FileTree \<Rightarrow> string \<Rightarrow> Value \<Rightarrow> ServiceCause + string" where
  "packagePath F workspace raw =
     (case raw of
        VString name \<Rightarrow>
          if name \<noteq> ''.'' \<and> \<not> has_prefix name ''./'' \<or> has_prefix name ''-'' \<or> IsAbs name then schemaFailure ''unsafe test package''
          else let trimmed = TrimSuffix name ''/...''; candidate = (if trimmed = '''' then ''.'' else trimmed) in
            bindE (mapErr CausePath (NormalizePath F workspace candidate)) (\<lambda>_. Inr candidate)
      | _ \<Rightarrow> schemaFailure ''unsafe test package'')"

fun packagePaths :: "FileTree \<Rightarrow> string \<Rightarrow> string list \<Rightarrow> Value list \<Rightarrow> ServiceCause + string list" where
  "packagePaths F workspace paths [] = Inr paths"
| "packagePaths F workspace paths (raw # rest) =
     bindE (packagePath F workspace raw) (\<lambda>p. packagePaths F workspace (paths @ [p]) rest)"

definition buildTest :: "FileTree \<Rightarrow> string \<Rightarrow> string \<Rightarrow> members \<Rightarrow> ServiceCause + built" where
  "buildTest F workspace input obj =
     (case map_of obj ''packages'' of
        Some (VArray rawPackages) \<Rightarrow>
          if rawPackages = [] then schemaFailure ''packages are required''
          else bindE (case textAt obj ''run'' of
                  Some run \<Rightarrow> if run \<noteq> '''' \<and> (has_prefix run ''-'' \<or> CHR 0x00 \<in> set run)
                    then schemaFailure ''unsafe test run expression'' else Inr ()
                | None \<Rightarrow> Inr ()) (\<lambda>_.
            bindE (packagePaths F workspace [] rawPackages) (\<lambda>paths. Inr ([helper, ''test''], input, sort paths)))
      | _ \<Rightarrow> schemaFailure ''packages are required'')"

definition buildRequest :: "FileTree \<Rightarrow> string \<Rightarrow> Contract \<Rightarrow> string \<Rightarrow> ServiceCause + built" where
  "buildRequest F workspace contract input =
     (case unmarshal_map input of
        None \<Rightarrow> Inl CauseDecode
      | Some obj \<Rightarrow>
          if ct_Name contract = ''repo.list'' then
            bindE (pathValue obj) (\<lambda>path. Inr ([helper, ''list'', path], '''', [path]))
          else if ct_Name contract = ''repo.read'' then buildRead obj
          else if ct_Name contract = ''repo.search'' then buildSearch obj
          else if ct_Name contract = ''repo.apply_patch'' then buildPatch input obj
          else if ct_Name contract = ''repo.test'' then buildTest F workspace input obj
          else Inl (CauseTool ErrUnknownTool (ct_Name contract)))"

section \<open>Invocation\<close>

definition responseJSON :: "Response \<Rightarrow> string" where
  "responseJSON r = ''{'' @ marshal_string ''stdout'' @ '':'' @ marshal_string (rp_Stdout r) @ '',''
     @ marshal_string ''stderr'' @ '':'' @ marshal_string (rp_Stderr r) @ '',''
     @ marshal_string ''exitCode'' @ '':'' @ show_int (rp_ExitCode r) @ '',''
     @ marshal_string ''timedOut'' @ '':'' @ boolText (rp_TimedOut r) @ '',''
     @ marshal_string ''truncated'' @ '':'' @ boolText (rp_Truncated r) @ ''}''"

definition auditFailure :: "AuditError + unit \<Rightarrow> AuditError option" where
  "auditFailure r = (case r of Inl e \<Rightarrow> Some e | Inr _ \<Rightarrow> None)"

text \<open>An early return: record why, return the cause joined with the error of the record.\<close>

definition refuse :: "'w recorder \<Rightarrow> AuditEvent \<Rightarrow> ServiceCause \<Rightarrow> 'w \<Rightarrow> (Response \<times> ServiceError option) \<times> 'w" where
  "refuse rec event cause w =
     (case rec event w of (r, w') \<Rightarrow> ((Response_zero, Some (ServiceError cause (auditFailure r))), w'))"

definition toolEvent :: "AuditKind \<Rightarrow> Scope \<Rightarrow> string \<Rightarrow> string \<Rightarrow> AuditEvent" where
  "toolEvent kind scope policyVersion toolName = (AuditEvent_zero kind)\<lparr>ae_RunID := sc_RunID scope,
     ae_AttemptID := sc_AttemptID scope, ae_ToolName := toolName, ae_PolicyVersion := policyVersion\<rparr>"

text \<open>After the policy allowed the request: execution, output schema and the audit of the outcome.\<close>

definition executeTool :: "'w Sandbox \<Rightarrow> 'w recorder \<Rightarrow> string \<Rightarrow> Contract \<Rightarrow> Invocation \<Rightarrow> built \<Rightarrow> 'w
    \<Rightarrow> (Response \<times> ServiceError option) \<times> 'w" where
  "executeTool B rec policyVersion contract invocation = (\<lambda>(command, stdin, paths) w.
     case sb_Execute B \<lparr>sq_Command = command, sq_Stdin = stdin, sq_Environment = iv_Environment invocation,
            sq_Timeout = ct_Timeout contract, sq_OutputLimit = ct_OutputLimit contract, sq_ToolName = ct_Name contract,
            sq_ContractVersion = ct_Version contract\<rparr> w of
       ((result, executeErr), w1) \<Rightarrow>
         (let response = \<lparr>rp_Stdout = sr_Stdout result, rp_Stderr = sr_Stderr result, rp_ExitCode = sr_ExitCode result,
                rp_TimedOut = sr_TimedOut result, rp_Truncated = sr_Truncated result\<rparr>;
              event = (\<lambda>kind. (toolEvent kind (sb_Scope B) policyVersion (iv_ToolName invocation))
                \<lparr>ae_ContractVersion := ct_Version contract\<rparr>) in
          case ValidateOutput contract (responseJSON response) of
            Inl e \<Rightarrow> refuse rec ((event AuditExecutionFailed)\<lparr>ae_Reason := ''output JSON Schema validation failed''\<rparr>)
                       (CauseTool e '''') w1
          | Inr _ \<Rightarrow>
              (case rec ((event (if executeErr = None then AuditExecutionCompleted else AuditExecutionFailed))
                     \<lparr>ae_Capability := ct_Capability contract, ae_ReadOnly := ct_ReadOnly contract, ae_AllowedPaths := paths,
                      ae_Network := ct_Network contract, ae_TimeoutMillis := Milliseconds (ct_Timeout contract),
                      ae_OutputLimit := ct_OutputLimit contract, ae_ExitCode := sr_ExitCode result,
                      ae_OutputBytes := int (length (sr_Stdout result) + length (sr_Stderr result)),
                      ae_Reason := (if executeErr = None then '''' else ''sandbox execution failed'')\<rparr>) w1 of
                 (Inr _, w2) \<Rightarrow> ((response, map_option (\<lambda>e. ServiceError (CauseSandbox e) None) executeErr), w2)
               | (Inl e, w2) \<Rightarrow>
                   ((response, Some (ServiceError (case executeErr of None \<Rightarrow> CauseAudit | Some x \<Rightarrow> CauseSandbox x) (Some e))), w2))))"

definition checkedInvoke :: "'w Service \<Rightarrow> Registry \<Rightarrow> PolicyConfig \<Rightarrow> 'w recorder \<Rightarrow> 'w Sandbox \<Rightarrow> 'w recorder \<Rightarrow> Invocation \<Rightarrow> 'w
    \<Rightarrow> (Response \<times> ServiceError option) \<times> 'w" where
  "checkedInvoke S registry config engineRec B rec invocation w =
     (let scope = sb_Scope B; version = pc_Version config; tool = iv_ToolName invocation;
          denied = toolEvent AuditPolicyDenied scope version tool in
      if iv_RunID invocation \<noteq> sc_RunID scope \<or> iv_AttemptID invocation \<noteq> sc_AttemptID scope
      then refuse rec (denied\<lparr>ae_RequestedRunID := iv_RunID invocation, ae_RequestedAttemptID := iv_AttemptID invocation,
             ae_Reason := ''invocation scope does not match the bound sandbox scope''\<rparr>) ErrScopeMismatch w
      else case registry_Get registry tool of
          None \<Rightarrow> refuse rec (denied\<lparr>ae_Reason := ''tool has no registered phase-4 contract''\<rparr>) (CauseTool ErrUnknownTool tool) w
        | Some contract \<Rightarrow>
            (let denied = denied\<lparr>ae_ContractVersion := ct_Version contract\<rparr> in
             case ValidateInput contract (iv_Input invocation) of
               Inl e \<Rightarrow> refuse rec (denied\<lparr>ae_Reason := ''input JSON Schema validation failed''\<rparr>) (CauseTool e '''') w
             | Inr _ \<Rightarrow>
                 (case buildRequest (sb_tree B w) (sb_Workspace B) contract (iv_Input invocation) of
                    Inl cause \<Rightarrow> refuse rec (denied\<lparr>ae_Reason := sv_errorText S cause\<rparr>) cause w
                  | Inr (command, stdin, paths) \<Rightarrow>
                      if list_ex (\<lambda>candidate. isl (NormalizePath (sb_tree B w) (sb_Workspace B) candidate)) paths
                      then refuse rec (denied\<lparr>ae_AllowedPaths := paths,
                             ae_Reason := ''path normalization or symlink boundary rejected the request''\<rparr>) (CausePath ErrUnsafePath) w
                      else if \<not> PathsAllowed paths (ct_AllowedPaths contract)
                      then refuse rec (denied\<lparr>ae_AllowedPaths := paths, ae_Reason := ''path is outside Tool Contract allowlist''\<rparr>)
                             CauseContractPaths w
                      else case policy_Decide config engineRec \<lparr>pr_RunID = sc_RunID scope, pr_AttemptID = sc_AttemptID scope,
                               pr_ToolName = ct_Name contract, pr_ContractVersion = ct_Version contract,
                               pr_Capability = ct_Capability contract, pr_ReadOnly = ct_ReadOnly contract, pr_Paths = paths,
                               pr_Network = ct_Network contract, pr_Timeout = ct_Timeout contract,
                               pr_OutputLimit = ct_OutputLimit contract, pr_Environment = iv_Environment invocation\<rparr> w of
                          (Inl e, w1) \<Rightarrow> ((Response_zero, Some (ServiceError (CausePolicy e) None)), w1)
                        | (Inr _, w1) \<Rightarrow> executeTool B rec version contract invocation (command, stdin, paths) w1)))"

definition Invoke :: "'w Service \<Rightarrow> Invocation \<Rightarrow> 'w \<Rightarrow> (Response \<times> ServiceError option) \<times> 'w" where
  "Invoke S invocation w =
     (case (sv_registry S, sv_policy S, sv_sandbox S, sv_audit S) of
        (Some registry, Some (config, engineRec), Some B, Some rec) \<Rightarrow>
          if sc_RunID (sb_Scope B) = '''' \<or> sc_AttemptID (sb_Scope B) = ''''
          then ((Response_zero, Some (ServiceError ScopeNotConfigured None)), w)
          else checkedInvoke S registry config engineRec B rec invocation w
      | _ \<Rightarrow> ((Response_zero, Some (ServiceError NotConfigured None)), w))"

end
