(* ===== verification/Tool_Service_Props.thy ===== *)
theory Tool_Service_Props
  imports Tool_Service
begin

text \<open>
  What the Tool service guarantees, for any recorders that keep the audit contract and any sandbox:
  an execution happens only behind every gate. The locale is interpreted on a world with the file
  recorder and an arbitrary sandbox.
\<close>

section \<open>Behind the gates\<close>

text \<open>The policy request of an invocation, and what must hold when the sandbox is called.\<close>

definition policyRequest :: "Scope \<Rightarrow> Contract \<Rightarrow> string list \<Rightarrow> Invocation \<Rightarrow> PolicyRequest" where
  "policyRequest scope contract paths invocation = \<lparr>pr_RunID = sc_RunID scope, pr_AttemptID = sc_AttemptID scope,
     pr_ToolName = ct_Name contract, pr_ContractVersion = ct_Version contract, pr_Capability = ct_Capability contract,
     pr_ReadOnly = ct_ReadOnly contract, pr_Paths = paths, pr_Network = ct_Network contract, pr_Timeout = ct_Timeout contract,
     pr_OutputLimit = ct_OutputLimit contract, pr_Environment = iv_Environment invocation\<rparr>"

definition sandboxRequest :: "Contract \<Rightarrow> Invocation \<Rightarrow> string list \<Rightarrow> string \<Rightarrow> SandboxRequest" where
  "sandboxRequest contract invocation command stdin = \<lparr>sq_Command = command, sq_Stdin = stdin,
     sq_Environment = iv_Environment invocation, sq_Timeout = ct_Timeout contract, sq_OutputLimit = ct_OutputLimit contract,
     sq_ToolName = ct_Name contract, sq_ContractVersion = ct_Version contract\<rparr>"

definition gated :: "Registry \<Rightarrow> PolicyConfig \<Rightarrow> 'w Sandbox \<Rightarrow> FileTree \<Rightarrow> Invocation \<Rightarrow> Contract \<Rightarrow> built \<Rightarrow> bool" where
  "gated registry config B F invocation contract = (\<lambda>(command, stdin, paths).
     iv_RunID invocation = sc_RunID (sb_Scope B) \<and> iv_AttemptID invocation = sc_AttemptID (sb_Scope B)
     \<and> registry_Get registry (iv_ToolName invocation) = Some contract
     \<and> ValidateInput contract (iv_Input invocation) = Inr ()
     \<and> buildRequest F (sb_Workspace B) contract (iv_Input invocation) = Inr (command, stdin, paths)
     \<and> (\<forall>p\<in>set paths. \<not> isl (NormalizePath F (sb_Workspace B) p))
     \<and> PathsAllowed paths (ct_AllowedPaths contract)
     \<and> (\<exists>rule\<in>set (pc_Rules config). admits config (policyRequest (sb_Scope B) contract paths invocation) rule))"

text \<open>An invocation that is not refused along the way reaches the policy engine through the gates.\<close>

lemma checkedInvoke_cases:
  assumes "checkedInvoke S registry config engineRec B rec invocation w = (x, w')"
  obtains (refused) event cause where "refuse rec event cause w = (x, w')"
    | (decided) contract command stdin paths r w1 where
        "iv_RunID invocation = sc_RunID (sb_Scope B)" "iv_AttemptID invocation = sc_AttemptID (sb_Scope B)"
        "registry_Get registry (iv_ToolName invocation) = Some contract"
        "ValidateInput contract (iv_Input invocation) = Inr ()"
        "buildRequest (sb_tree B w) (sb_Workspace B) contract (iv_Input invocation) = Inr (command, stdin, paths)"
        "\<forall>p\<in>set paths. \<not> isl (NormalizePath (sb_tree B w) (sb_Workspace B) p)"
        "PathsAllowed paths (ct_AllowedPaths contract)"
        "policy_Decide config engineRec (policyRequest (sb_Scope B) contract paths invocation) w = (r, w1)"
        "case r of Inl e \<Rightarrow> x = (Response_zero, Some (ServiceError (CausePolicy e) None)) \<and> w' = w1
         | Inr _ \<Rightarrow> executeTool B rec (pc_Version config) contract invocation (command, stdin, paths) w1 = (x, w')"
proof (cases "iv_RunID invocation \<noteq> sc_RunID (sb_Scope B) \<or> iv_AttemptID invocation \<noteq> sc_AttemptID (sb_Scope B)
    \<or> registry_Get registry (iv_ToolName invocation) = None")
  case True
  with assms refused show thesis
    by (cases "registry_Get registry (iv_ToolName invocation)") (auto simp: checkedInvoke_def Let_def split: if_splits)
next
  case False
  then obtain contract where c: "registry_Get registry (iv_ToolName invocation) = Some contract" by auto
  show thesis
  proof (cases "ValidateInput contract (iv_Input invocation)")
    case (Inl e)
    with assms False c refused show thesis by (auto simp: checkedInvoke_def Let_def)
  next
    case v: (Inr u)
    show thesis
    proof (cases "buildRequest (sb_tree B w) (sb_Workspace B) contract (iv_Input invocation)")
      case (Inl cause)
      with assms False c v refused show thesis by (auto simp: checkedInvoke_def Let_def)
    next
      case b: (Inr built)
      obtain command stdin paths where built: "built = (command, stdin, paths)" by (cases built)
      show thesis
      proof (cases "list_ex (\<lambda>p. isl (NormalizePath (sb_tree B w) (sb_Workspace B) p)) paths \<or> \<not> PathsAllowed paths (ct_AllowedPaths contract)")
        case True
        with assms False c v b built refused show thesis by (auto simp: checkedInvoke_def Let_def split: if_splits)
      next
        case gates: False
        obtain r w1 where r: "policy_Decide config engineRec (policyRequest (sb_Scope B) contract paths invocation) w = (r, w1)"
          by fastforce
        show thesis
        proof (rule decided [of contract command stdin paths r w1])
          show "case r of Inl e \<Rightarrow> x = (Response_zero, Some (ServiceError (CausePolicy e) None)) \<and> w' = w1
             | Inr _ \<Rightarrow> executeTool B rec (pc_Version config) contract invocation (command, stdin, paths) w1 = (x, w')"
            using assms False c v b built gates r [unfolded policyRequest_def]
            by (auto simp: checkedInvoke_def Let_def split: sum.splits)
        qed (use False c v b built gates r in \<open>auto simp: list_ex_iff\<close>)
      qed
    qed
  qed
qed

locale tool_service = audit rec ok log entry
  for rec :: "'w recorder" and ok :: "'w \<Rightarrow> bool" and log :: "'w \<Rightarrow> 'l list" and entry :: "'l \<Rightarrow> AuditEvent \<Rightarrow> bool" +
  fixes engineRec :: "'w recorder"
    and B :: "'w Sandbox"
    and execs :: "'w \<Rightarrow> SandboxRequest list"
  assumes engine: "audit engineRec ok log entry"
    and rec_execs: "rec e w = (r, w') \<Longrightarrow> execs w' = execs w"
    and engine_execs: "engineRec e w = (r, w') \<Longrightarrow> execs w' = execs w"
    and execute: "ok w \<Longrightarrow> sb_Execute B q w = (y, w') \<Longrightarrow> ok w' \<and> prefix (log w) (log w') \<and> execs w' = execs w @ [q]"
begin

definition sound :: "'w \<Rightarrow> 'w \<Rightarrow> bool" where
  "sound w w' \<longleftrightarrow> ok w' \<and> prefix (log w) (log w')"

lemma rec_sound: "ok w \<Longrightarrow> rec e w = (r, w') \<Longrightarrow> sound w w' \<and> execs w' = execs w"
  using rec_mayAdd [of w e r w'] rec_execs by (auto simp: sound_def mayAdd_def adds_def)

lemma refuse_sound: "ok w \<Longrightarrow> refuse rec event cause w = (x, w') \<Longrightarrow> sound w w' \<and> execs w' = execs w \<and> snd x \<noteq> None"
  using rec_sound by (auto simp: refuse_def split: prod.splits)

lemma executeTool_sound:
  assumes "ok w" "executeTool B rec version contract invocation (command, stdin, paths) w = (x, w')"
  shows "sound w w' \<and> execs w' = execs w @ [sandboxRequest contract invocation command stdin]"
proof -
  obtain result err w1 where e: "sb_Execute B (sandboxRequest contract invocation command stdin) w = ((result, err), w1)"
    by (metis prod.exhaust)
  note ex = execute [OF assms(1) e]
  have "\<exists>event r. rec event w1 = (r, w')"
    using assms(2) e
    by (auto simp: executeTool_def sandboxRequest_def Let_def refuse_def split: sum.splits prod.splits)
  then obtain event r where "rec event w1 = (r, w')" by blast
  from rec_sound [OF _ this] ex show ?thesis unfolding sound_def by (metis prefix_order.trans)
qed

lemma Decide_sound:
  assumes "ok w" "policy_Decide config engineRec request w = (r, w1)"
  shows "sound w w1 \<and> execs w1 = execs w \<and> (r = Inr () \<longrightarrow>
    (\<exists>l\<in>set (log w1). entry l (auditEventForRequest AuditPolicyAllowed (pc_Version config) request ''''))
    \<and> (\<exists>rule\<in>set (pc_Rules config). admits config request rule))"
proof -
  have "\<exists>event q. engineRec event w = (q, w1)"
    using assms(2) by (auto simp: policy_Decide_def Let_def split: option.splits prod.splits sum.splits if_splits)
  then obtain event q where q: "engineRec event w = (q, w1)" by blast
  have "sound w w1 \<and> execs w1 = execs w"
    using audit.rec_mayAdd [OF engine assms(1) q] engine_execs [OF q]
    by (auto simp: sound_def audit.mayAdd_def [OF engine] audit.adds_def [OF engine])
  moreover have "\<exists>l\<in>set (log w1). entry l (auditEventForRequest AuditPolicyAllowed (pc_Version config) request '''')"
    if "r = Inr ()" using audit.Decide_audited [OF engine assms] that by (auto simp: audit.adds_def [OF engine])
  moreover have "\<exists>rule\<in>set (pc_Rules config). admits config request rule" if "r = Inr ()"
    using audit.Decide_audited [OF engine assms] that decideRules_None by fastforce
  ultimately show ?thesis by blast
qed

lemma Invoke_gated:
  assumes "ok w" "sv_registry S = Some registry" "sv_policy S = Some (config, engineRec)" "sv_sandbox S = Some B" "sv_audit S = Some rec"
    and "Invoke S invocation w = ((response, err), w')"
  shows "sound w w' \<and> (execs w' = execs w \<and> err \<noteq> None \<or>
    (\<exists>contract command stdin paths. gated registry config B (sb_tree B w) invocation contract (command, stdin, paths)
      \<and> execs w' = execs w @ [sandboxRequest contract invocation command stdin]
      \<and> (\<exists>l\<in>set (log w'). entry l (auditEventForRequest AuditPolicyAllowed (pc_Version config)
            (policyRequest (sb_Scope B) contract paths invocation) ''''))))"
proof (cases "sc_RunID (sb_Scope B) = '''' \<or> sc_AttemptID (sb_Scope B) = ''''")
  case True
  with assms show ?thesis by (auto simp: Invoke_def sound_def)
next
  case False
  with assms have c: "checkedInvoke S registry config engineRec B rec invocation w = ((response, err), w')"
    by (simp add: Invoke_def)
  then show ?thesis
  proof (cases rule: checkedInvoke_cases)
    case (refused event cause)
    with refuse_sound [OF assms(1)] show ?thesis by fastforce
  next
    case (decided contract command stdin paths r w1)
    note d = Decide_sound [OF assms(1) decided(8)]
    show ?thesis
    proof (cases r)
      case (Inl e)
      with decided(9) d show ?thesis by auto
    next
      case (Inr u)
      with decided(9) have x: "executeTool B rec (pc_Version config) contract invocation (command, stdin, paths) w1 = ((response, err), w')"
        by simp
      have w1: "ok w1" using d by (simp add: sound_def)
      note e = executeTool_sound [OF w1 x]
      have s: "sound w w'" using d e unfolding sound_def by (meson prefix_order.trans)
      have "set (log w1) \<subseteq> set (log w')" using e by (auto simp: sound_def dest: set_mono_prefix)
      with d Inr have l: "\<exists>l\<in>set (log w'). entry l (auditEventForRequest AuditPolicyAllowed (pc_Version config)
            (policyRequest (sb_Scope B) contract paths invocation) '''')" by auto
      have g: "gated registry config B (sb_tree B w) invocation contract (command, stdin, paths)"
        using decided(1-7) d Inr by (simp add: gated_def)
      show ?thesis using s l g e d by (intro conjI disjI2 exI) auto
    qed
  qed
qed

end

section \<open>A world with an audit file\<close>

record 'a toolWorld =
  tw_audit :: 'a
  tw_execs :: "SandboxRequest list"

definition onAudit :: "'a recorder \<Rightarrow> ('a, 'r) toolWorld_scheme recorder" where
  "onAudit rec e w = (case rec e (tw_audit w) of (r, a) \<Rightarrow> (r, w\<lparr>tw_audit := a\<rparr>))"

text \<open>A sandbox that may answer anything and change the tree at every execution.\<close>

definition anySandbox :: "Scope \<Rightarrow> string \<Rightarrow> (SandboxRequest list \<Rightarrow> FileTree)
    \<Rightarrow> (SandboxRequest list \<Rightarrow> SandboxRequest \<Rightarrow> SandboxResult \<times> SandboxError option) \<Rightarrow> ('a, 'r) toolWorld_scheme Sandbox" where
  "anySandbox scope workspace tree answer = \<lparr>sb_Scope = scope, sb_Workspace = workspace, sb_tree = (\<lambda>w. tree (tw_execs w)),
     sb_Execute = (\<lambda>q w. (answer (tw_execs w) q, w\<lparr>tw_execs := tw_execs w @ [q]\<rparr>))\<rparr>"

lemma onAudit_eq: "onAudit rec e w = (r, w') \<longleftrightarrow> (\<exists>a. rec e (tw_audit w) = (r, a) \<and> w' = w\<lparr>tw_audit := a\<rparr>)"
  by (auto simp: onAudit_def split: prod.splits)

lemma onAudit_file: "audit (onAudit (file_Record choices)) (\<lambda>w. sound_file (tw_audit w)) (\<lambda>w. fileLines (tw_audit w)) auditLine"
  by unfold_locales (auto simp: onAudit_eq dest: filea.kept filea.recorded filea.refused)

interpretation tools: tool_service "onAudit (file_Record choices)" "\<lambda>w. sound_file (tw_audit w)" "\<lambda>w. fileLines (tw_audit w)"
    auditLine "onAudit (file_Record choices)" "anySandbox scope workspace tree answer" tw_execs
  for choices scope workspace tree answer
  by (rule tool_service.intro [OF onAudit_file], rule tool_service_axioms.intro [OF onAudit_file])
    (auto simp: onAudit_eq anySandbox_def)

section \<open>Properties\<close>

text \<open>
  (C15) The sandbox runs nothing that has not passed every gate. Whatever the recorder's faults, the
  sandbox's answers and the tree of the workspace are, an invocation executes at most one request;
  when it executes one, the scope is the sandbox's, the tool is registered, the input fits its schema,
  every path stays in the workspace and in the allowlist of the contract, a rule of the policy admits
  the request, and the audit file holds the line of the permission; when it executes none, it returns
  an error.
\<close>

theorem tool_execution_gated:
  fixes w :: "(FileAudit, 'r) toolWorld_scheme"
  assumes "sound_file (tw_audit w)" "sv_registry S = Some registry"
    and "sv_policy S = Some (config, onAudit (file_Record choices))" "sv_audit S = Some (onAudit (file_Record choices))"
    and "sv_sandbox S = Some (anySandbox scope workspace tree answer)"
    and "Invoke S invocation w = ((response, err), w')"
  shows "prefix (fileLines (tw_audit w)) (fileLines (tw_audit w')) \<and> (tw_execs w' = tw_execs w \<and> err \<noteq> None \<or>
    (\<exists>contract command stdin paths.
       gated registry config (anySandbox scope workspace tree answer :: (FileAudit, 'r) toolWorld_scheme Sandbox) (tree (tw_execs w))
         invocation contract (command, stdin, paths)
     \<and> tw_execs w' = tw_execs w @ [sandboxRequest contract invocation command stdin]
     \<and> (\<exists>l\<in>set (fileLines (tw_audit w')). auditLine l (auditEventForRequest AuditPolicyAllowed (pc_Version config)
            (policyRequest scope contract paths invocation) ''''))))"
proof -
  have b: "sb_Scope (anySandbox scope workspace tree answer) = scope"
    "sb_tree (anySandbox scope workspace tree answer) w = tree (tw_execs w)"
    by (simp_all add: anySandbox_def)
  show ?thesis using tools.Invoke_gated [OF assms(1,2,3,5,4,6)] unfolding tools.sound_def b by blast
qed

definition sampleTool :: Contract where
  "sampleTool = \<lparr>ct_Name = ''repo.list'', ct_Version = ''v1'', ct_InputSchema = ''{'' @ marshal_string ''type'' @ '':'' @ marshal_string ''object'' @ ''}'',
     ct_OutputSchema = ''{'' @ marshal_string ''type'' @ '':'' @ marshal_string ''object'' @ ''}'', ct_Capability = ''read'',
     ct_ReadOnly = True, ct_Timeout = 1000000, ct_OutputLimit = 10, ct_AllowedPaths = [''src''], ct_Network = False,
     ct_Idempotency = ''scoped''\<rparr>"

definition samplePolicy :: PolicyConfig where
  "samplePolicy = \<lparr>pc_Version = ''p1'', pc_Default = ''deny'', pc_Allow = [], pc_Rules = [\<lparr>rl_Tool = ''repo.list'', rl_Capability = ''read'',
     rl_ReadOnly = True, rl_Paths = [''.''], rl_Network = False, rl_MaxTimeout = 2000000, rl_MaxOutputBytes = 10\<rparr>]\<rparr>"

definition quietFile :: "nat \<Rightarrow> FileChoices" where
  "quietFile n = \<lparr>fc_expired = False, fc_now = ''t'', fc_stops = None, fc_syncFails = False\<rparr>"

definition sampleSandbox :: "(FileAudit, 'r) toolWorld_scheme Sandbox" where
  "sampleSandbox = anySandbox \<lparr>sc_RunID = ''r'', sc_AttemptID = ''a''\<rparr> ''/w'' (\<lambda>_. sampleTree)
     (\<lambda>_ _. (\<lparr>sr_Stdout = ''a.go'', sr_Stderr = '''', sr_ExitCode = 0, sr_TimedOut = False, sr_Truncated = False\<rparr>, None))"

definition sampleService :: "(FileAudit, 'r) toolWorld_scheme Service" where
  "sampleService = \<lparr>sv_registry = Some [(''repo.list'', sampleTool)], sv_policy = Some (samplePolicy, onAudit (file_Record quietFile)),
     sv_sandbox = Some sampleSandbox, sv_audit = Some (onAudit (file_Record quietFile)), sv_errorText = (\<lambda>_. ''error'')\<rparr>"

definition sampleInvocation :: "string \<Rightarrow> Invocation" where
  "sampleInvocation path = \<lparr>iv_RunID = ''r'', iv_AttemptID = ''a'', iv_ToolName = ''repo.list'',
     iv_Input = ''{'' @ marshal_string ''path'' @ '':'' @ marshal_string path @ ''}'', iv_Environment = []\<rparr>"

definition sampleToolWorld :: "FileAudit toolWorld" where
  "sampleToolWorld = \<lparr>tw_audit = NewFileAuditRecorder '''', tw_execs = []\<rparr>"

definition invoked :: "(Response \<times> ServiceError option) \<times> FileAudit toolWorld \<Rightarrow> bool \<times> nat \<times> nat" where
  "invoked x = (snd (fst x) = None, length (tw_execs (snd x)), length (fileLines (tw_audit (snd x))))"

lemma sample_invocations:
  "invoked (Invoke sampleService (sampleInvocation ''src'') sampleToolWorld) = (True, 1, 2)"
  "invoked (Invoke sampleService (sampleInvocation ''src/out'') sampleToolWorld) = (False, 0, 1)"
  by code_simp+

theorem tool_execution_gated_witness:
  "\<exists>response w' contract. Invoke sampleService (sampleInvocation ''src'') sampleToolWorld = ((response, None), w')
     \<and> registry_Get [(''repo.list'', sampleTool)] ''repo.list'' = Some contract \<and> length (tw_execs w') = 1"
proof -
  obtain response err w' where i: "Invoke sampleService (sampleInvocation ''src'') sampleToolWorld = ((response, err), w')"
    by (metis prod.exhaust)
  have n: "err = None" "length (tw_execs w') = 1"
    using sample_invocations(1) unfolding i by (simp_all add: invoked_def)
  have "sound_file (tw_audit sampleToolWorld)" by (simp add: sampleToolWorld_def sound_file_def ended_def NewFileAuditRecorder_def)
  note g = tool_execution_gated [OF this _ _ _ _ i]
  have s: "sv_registry sampleService = Some [(''repo.list'', sampleTool)]"
    "sv_policy sampleService = Some (samplePolicy, onAudit (file_Record quietFile))"
    "sv_audit sampleService = Some (onAudit (file_Record quietFile))" "sv_sandbox sampleService = Some sampleSandbox"
    by (simp_all add: sampleService_def)
  from g [OF s(1-3) s(4) [unfolded sampleSandbox_def]] n(1) obtain contract where
    "registry_Get [(''repo.list'', sampleTool)] (iv_ToolName (sampleInvocation ''src'')) = Some contract"
    unfolding gated_def by auto
  with i n show ?thesis by (simp add: sampleInvocation_def)
qed

end
