(* ===== verification/Replay_Props.thy ===== *)
theory Replay_Props
  imports Reasoner_Replay Tool_Service_Props
begin

text \<open>
  What recordings guarantee: the screen of an accepted cassette covers every text of it, and replaying
  gives back the recorded turns in order.
\<close>

section \<open>Recorded turns\<close>

text \<open>What a consumer should collect from a recorded turn, read off the list of its events.\<close>

definition recordedOutcome :: "StreamEvent list \<Rightarrow> ReasonerError + Result" where
  "recordedOutcome turn =
     (case List.map_filter se_Error turn of
        f # _ \<Rightarrow> Inl (ErrStream f)
      | [] \<Rightarrow> Inr (finishResult \<lparr>res_Output = concat (map se_Text turn), res_ToolCall = None,
          res_ToolCalls = List.map_filter se_ToolCall turn, res_Usage = last (Usage_zero # List.map_filter se_Usage turn),
          res_FinishReason = last ('''' # List.map_filter se_Finish turn)\<rparr>))"

text \<open>The request offers the recorded Tool calls and has the budget for the recorded Usage.\<close>

definition turn_allowed :: "Request \<Rightarrow> StreamEvent list \<Rightarrow> bool" where
  "turn_allowed rq turn \<longleftrightarrow> list_all (\<lambda>e. (\<forall>c. se_ToolCall e = Some c \<longrightarrow> call_ok rq c) \<and> (\<forall>u. se_Usage e = Some u \<longrightarrow> usage_ok rq u)) turn"

fun playedBack :: "Result \<Rightarrow> StreamEvent list \<Rightarrow> ReasonerError + Result" where
  "playedBack result [] = Inr (finishResult result)"
| "playedBack result (e # es) = bindE (collectEvent result e) (\<lambda>r. playedBack r es)"

lemma shape_collect:
  assumes "validateEventShape e = None"
  shows "collectEvent result e =
    (case se_Error e of
       Some f \<Rightarrow> Inl (ErrStream f)
     | None \<Rightarrow> Inr (result\<lparr>res_Output := res_Output result @ se_Text e,
         res_ToolCalls := res_ToolCalls result @ (case se_ToolCall e of None \<Rightarrow> [] | Some c \<Rightarrow> [c]),
         res_Usage := (case se_Usage e of None \<Rightarrow> res_Usage result | Some u \<Rightarrow> u),
         res_FinishReason := (case se_Finish e of None \<Rightarrow> res_FinishReason result | Some r \<Rightarrow> r)\<rparr>))"
proof -
  have v: "variantCount e = 1" using assms by (auto simp: validateEventShape_def split: if_splits)
  then show ?thesis using assms
    by (cases "se_Type e"; cases "se_Error e"; cases "se_ToolCall e"; cases "se_Usage e"; cases "se_Finish e"; cases "se_Text e")
      (simp_all add: validateEventShape_def variantCount_def collectEvent_def deref_def)
qed

lemma playedBack_shapes:
  assumes "list_all (\<lambda>e. validateEventShape e = None) turn"
  shows "playedBack result turn =
    (case List.map_filter se_Error turn of
       f # _ \<Rightarrow> Inl (ErrStream f)
     | [] \<Rightarrow> Inr (finishResult (result\<lparr>res_Output := res_Output result @ concat (map se_Text turn),
         res_ToolCalls := res_ToolCalls result @ List.map_filter se_ToolCall turn,
         res_Usage := last (res_Usage result # List.map_filter se_Usage turn),
         res_FinishReason := last (res_FinishReason result # List.map_filter se_Finish turn)\<rparr>)))"
  using assms
proof (induction turn arbitrary: result)
  case (Cons e turn)
  then show ?case
    by (simp add: shape_collect split: option.splits list.splits)
qed simp

lemma recordedLoop_shapes: "recordedLoop i terminal n turn = Inr () \<Longrightarrow> list_all (\<lambda>e. validateEventShape e = None) turn"
  by (induction i terminal n turn rule: recordedLoop.induct) (auto split: if_splits option.splits)

lemma playedBack_recorded:
  "validateRecordedTurn turn = Inr () \<Longrightarrow> playedBack Result_zero turn = recordedOutcome turn"
  unfolding validateRecordedTurn_def playedBack_shapes [OF recordedLoop_shapes] recordedOutcome_def
  by (cases "List.map_filter se_Error turn") (simp_all add: Result_zero_def)

section \<open>Replaying a turn\<close>

lemma shape_accepted:
  assumes "validateEventShape e = None" "turn_allowed (ns_request st) [e]"
    and "se_Type e = EventUsage \<Longrightarrow> \<not> ns_usageSeen st" "se_Type e = EventFinish \<Longrightarrow> ns_usageSeen st"
  shows "validateEvent st e = None"
proof -
  have "se_Type e = EventUsage \<Longrightarrow> \<exists>u. se_Usage e = Some u"
    using assms(1) by (auto simp: validateEventShape_def split: if_splits option.splits)
  with assms show ?thesis
    by (auto simp: validateEvent_def turn_allowed_def call_ok_def usage_ok_def ns_contract_def not_less
        split: option.splits StreamEventType.splits)
qed

lemma replay_collects:
  assumes "recordedLoop i False n turn = Inr ()" "n \<le> 1" "turn_allowed rq turn"
  shows "\<exists>st. collectLoop (ns_Recv ss_Recv ss_Close) result
      \<lparr>ns_request = rq, ns_source = \<lparr>ss_rest = turn, ss_err = None, ss_closed = False\<rparr>, ns_terminal = False, ns_usageSeen = (n = 1)\<rparr>
    = Some (playedBack result turn, st)"
  using assms
proof (induction turn arbitrary: i n result)
  case (Cons e turn)
  let ?st = "\<lparr>ns_request = rq, ns_source = \<lparr>ss_rest = e # turn, ss_err = None, ss_closed = False\<rparr>, ns_terminal = False, ns_usageSeen = (n = 1)\<rparr>"
  have shape: "validateEventShape e = None" and allowed: "turn_allowed rq [e]" "turn_allowed rq turn"
    using Cons.prems by (auto simp: turn_allowed_def split: option.splits)
  have acc: "validateEvent ?st e = None"
    by (rule shape_accepted [OF shape]) (use Cons.prems allowed shape in \<open>auto split: if_splits\<close>)
  have ended: "\<exists>st. collectLoop (ns_Recv ss_Recv ss_Close) r (\<lparr>ns_request = rq, ns_source = src, ns_terminal = True, ns_usageSeen = b\<rparr>)
      = Some (playedBack r turn, st)" if "se_Type e = EventFinish \<or> se_Type e = EventError" for r b src
    using that Cons.prems(1) shape by (cases turn) (auto simp: collect_ended split: if_splits)
  have step: "\<exists>st. collectLoop (ns_Recv ss_Recv ss_Close) r (\<lparr>ns_request = rq,
      ns_source = \<lparr>ss_rest = turn, ss_err = None, ss_closed = False\<rparr>, ns_terminal = False, ns_usageSeen = (n = 1 \<or> se_Type e = EventUsage)\<rparr>)
      = Some (playedBack r turn, st)" if "se_Type e \<noteq> EventFinish" "se_Type e \<noteq> EventError" for r
  proof (cases "se_Type e = EventUsage")
    case True
    with Cons.prems shape have "recordedLoop (i + 1) False 1 turn = Inr ()" "n = 0" by (auto split: if_splits)
    with Cons.IH [OF this(1) _ allowed(2)] True show ?thesis by simp
  next
    case False
    with Cons.prems shape that have "recordedLoop (i + 1) False n turn = Inr ()" by (simp split: if_splits)
    with Cons.IH [OF this Cons.prems(2) allowed(2)] False show ?thesis by simp
  qed
  show ?case
  proof (cases "collectEvent result e")
    case (Inl x)
    then show ?thesis unfolding slice_step [OF acc] by (simp add: Let_def)
  next
    case (Inr r)
    with ended [of r] step [of r] show ?thesis unfolding slice_step [OF acc]
      by (cases "se_Type e = EventFinish \<or> se_Type e = EventError") (auto simp: Let_def)
  qed
qed simp

section \<open>Replaying a cassette\<close>

definition exhausted :: StreamError where
  "exhausted = \<lparr>se_Class = ErrorInternal, se_Message = ''recorded cassette has no remaining turn'', se_Retryable = False\<rparr>"

text \<open>The outcomes a client collects that makes one request after the other.\<close>

fun replayAll :: "Request list \<Rightarrow> ReplayReasoner \<Rightarrow> (ReasonerError + Result) option list" where
  "replayAll [] replay = []"
| "replayAll (rq # rqs) replay =
     (case replay_Reason None rq replay of (st, replay') \<Rightarrow> map_option fst (collectTurn st) # replayAll rqs replay')"

lemma collectTurn_recorded:
  assumes "validateRecordedTurn turn = Inr ()" "turn_allowed rq turn"
  shows "\<exists>st. collectTurn (NewNormalizedStream rq (newSliceStream turn None)) = Some (recordedOutcome turn, st)"
  using replay_collects [OF assms(1) [unfolded validateRecordedTurn_def] _ assms(2), of Result_zero]
  by (auto simp: Collect_def NewNormalizedStream_def newSliceStream_def playedBack_recorded [OF assms(1)])

lemma errorTurn_recorded:
  assumes "se_Class f \<noteq> ErrorClassOther ''''" "se_Message f \<noteq> ''''"
  shows "\<exists>st. collectTurn (NewErrorStream rq f) = Some (Inl (ErrStream f), st)"
proof -
  have "validateRecordedTurn [failureEvent f] = Inr ()" "turn_allowed rq [failureEvent f]"
    using assms by (auto simp: validateRecordedTurn_def validateEventShape_def variantCount_def failureEvent_def StreamEvent_zero_def
        turn_allowed_def)
  from collectTurn_recorded [OF this] show ?thesis
    by (simp add: NewErrorStream_def NewEventStream_def recordedOutcome_def failureEvent_def StreamEvent_zero_def)
qed

lemma replayAll_exhausted:
  assumes "length (cs_Turns (ry_cassette replay)) \<le> ry_nextTurn replay"
  shows "replayAll rqs replay = map (\<lambda>_. Some (Inl (ErrStream exhausted))) rqs"
proof (induction rqs)
  case (Cons rq rqs)
  obtain st where "collectTurn (NewErrorStream rq exhausted) = Some (Inl (ErrStream exhausted), st)"
    using errorTurn_recorded [of exhausted rq] by (auto simp: exhausted_def)
  with Cons assms show ?case by (simp add: replay_Reason_def exhausted_def)
qed simp

lemma validateTurns_all: "validateTurns i turns = Inr () \<Longrightarrow> list_all (\<lambda>t. validateRecordedTurn t = Inr ()) turns"
  by (induction i turns rule: validateTurns.induct) (auto simp: result_simps split: if_splits)

lemma replayAll_from:
  assumes "list_all (\<lambda>t. validateRecordedTurn t = Inr ()) (cs_Turns (ry_cassette replay))"
    and "list_all2 turn_allowed rqs (drop (ry_nextTurn replay) (cs_Turns (ry_cassette replay)))"
  shows "replayAll (rqs @ extra) replay =
    map (Some \<circ> recordedOutcome) (drop (ry_nextTurn replay) (cs_Turns (ry_cassette replay)))
    @ map (\<lambda>_. Some (Inl (ErrStream exhausted))) extra"
  using assms
proof (induction rqs arbitrary: replay)
  case Nil
  then show ?case by (simp add: replayAll_exhausted)
next
  case (Cons rq rqs)
  let ?n = "ry_nextTurn replay" and ?turns = "cs_Turns (ry_cassette replay)"
  have n: "?n < length ?turns" using Cons.prems(2) by (cases "?n < length ?turns") auto
  then have d: "drop ?n ?turns = ?turns ! ?n # drop (Suc ?n) ?turns" by (simp add: Cons_nth_drop_Suc)
  have t: "turn_allowed rq (?turns ! ?n)" "list_all2 turn_allowed rqs (drop (Suc ?n) ?turns)" using Cons.prems(2) unfolding d by auto
  have v: "validateRecordedTurn (?turns ! ?n) = Inr ()" using Cons.prems(1) n by (simp add: list_all_length)
  obtain st where c: "collectTurn (NewNormalizedStream rq (newSliceStream (?turns ! ?n) None)) = Some (recordedOutcome (?turns ! ?n), st)"
    using collectTurn_recorded [OF v t(1)] by blast
  have r: "replay_Reason None rq replay =
      (NewNormalizedStream rq (newSliceStream (?turns ! ?n) None), replay\<lparr>ry_nextTurn := ?n + 1\<rparr>)"
    using n by (simp add: replay_Reason_def)
  have "replayAll (rqs @ extra) (replay\<lparr>ry_nextTurn := ?n + 1\<rparr>) =
      map (Some \<circ> recordedOutcome) (drop (Suc ?n) ?turns) @ map (\<lambda>_. Some (Inl (ErrStream exhausted))) extra"
    using Cons.IH [of "replay\<lparr>ry_nextTurn := ?n + 1\<rparr>"] Cons.prems(1) t(2) by simp
  then show ?case unfolding append_Cons replayAll.simps r d by (simp add: c)
qed

section \<open>Properties\<close>

text \<open>
  (C27) Replaying is faithful. A Reasoner built from an accepted cassette answers successive requests
  that offer the recorded Tool calls and admit the recorded Usage with exactly the recorded turns, in
  order: the concatenated text, all Tool calls, the Usage and the finish reason, or the recorded error.
  Every further request is answered with the error that no turn remains.
\<close>

theorem replay_faithful:
  assumes "NewReplayReasoner cassette = Inr replay" "list_all2 turn_allowed rqs (cs_Turns cassette)"
  shows "replayAll (rqs @ extra) replay =
    map (Some \<circ> recordedOutcome) (cs_Turns cassette) @ map (\<lambda>_. Some (Inl (ErrStream exhausted))) extra"
proof -
  have "validateTurns 0 (cs_Turns cassette) = Inr ()" "replay = \<lparr>ry_cassette = cassette, ry_nextTurn = 0\<rparr>"
    using assms(1) by (auto simp: NewReplayReasoner_def validateCassette_def result_simps split: if_splits)
  with replayAll_from [of replay rqs extra] validateTurns_all assms(2) show ?thesis by simp
qed

text \<open>
  The screen of an accepted cassette covers every text of it. No part of the scenario, of a text
  delta, of the fields of a Tool call, of a finish reason or of an error that consists of characters
  JSON does not escape is credential-shaped, so no key of the screened formats is in a recording.
\<close>

theorem cassette_screened:
  assumes "validateCassette cassette = Inr ()" "s \<in> set (cassetteTexts cassette)" "sublist t s" "list_all plain t"
  shows "\<not> containsSecretMarker t"
proof
  assume m: "containsSecretMarker t"
  have e: "\<not> containsSecretMarker ''''" by code_simp
  with m have t: "t \<noteq> []" by auto
  obtain a b where s: "s = a @ t @ b" using assms(3) by (auto simp: sublist_def)
  have "sublist (encode_string a @ t @ encode_string b) (cassetteJSON cassette)"
    using cassetteJSON_part [OF assms(2)] unfolding s encode_string_part [OF assms(4) t] .
  then obtain x y where "cassetteJSON cassette = (x @ encode_string a) @ t @ (encode_string b @ y)" by (auto simp: sublist_def)
  with containsSecretMarker_part [OF m assms(4) t] have "containsSecretMarker (cassetteJSON cassette)" by metis
  with assms(1) show False by (auto simp: validateCassette_def split: if_splits)
qed

definition replayRequest :: Request where
  "replayRequest = \<lparr>rq_Messages = [], rq_Tools = [sampleTool], rq_TaskSummary = ''s'', rq_FailureEvidence = '''', rq_TokenLimit = 5\<rparr>"

lemma sample_allowed: "list_all2 turn_allowed [replayRequest, replayRequest] sampleTurns"
proof -
  have "ValidateInput sampleTool (tc_Arguments listCall) = Inr () \<and> jsonValid (tc_Arguments listCall) \<and> tc_ID listCall \<noteq> ''''
      \<and> ct_Name sampleTool = tc_Name listCall" by code_simp
  then have "call_ok replayRequest listCall" by (simp add: call_ok_def replayRequest_def)
  moreover have "usage_ok replayRequest sampleUsage" by (simp add: usage_ok_def replayRequest_def sampleUsage_def)
  ultimately show ?thesis by (simp add: sampleTurns_def turn_allowed_def event_defs)
qed

theorem replay_faithful_witness:
  "replayAll [replayRequest, replayRequest, replayRequest] \<lparr>ry_cassette = cassetteOf sampleTurns, ry_nextTurn = 0\<rparr> =
     [Some (recordedOutcome (sampleTurns ! 0)), Some (recordedOutcome (sampleTurns ! 1)), Some (Inl (ErrStream exhausted))]"
proof -
  have "NewReplayReasoner (cassetteOf sampleTurns) = Inr \<lparr>ry_cassette = cassetteOf sampleTurns, ry_nextTurn = 0\<rparr>"
    by (simp add: NewReplayReasoner_def sample_cassette)
  from replay_faithful [OF this, of "[replayRequest, replayRequest]" "[replayRequest]"] sample_allowed
  show ?thesis by (simp add: cassetteOf_def) (simp add: sampleTurns_def)
qed

theorem cassette_screened_witness:
  "validateCassette (cassetteOf sampleTurns) = Inr () \<and> \<not> containsSecretMarker ''repo.list''"
proof -
  have "''repo.list'' \<in> set (cassetteTexts (cassetteOf sampleTurns))"
    by (simp add: cassetteTexts_def cassetteOf_def sampleTurns_def eventTexts_def event_defs listCall_def)
  moreover have "list_all plain ''repo.list''" by code_simp
  ultimately show ?thesis using cassette_screened [OF sample_cassette, of "''repo.list''" "''repo.list''"] sample_cassette by simp
qed


end
