(* ===== verification/Coding_Agent.thy ===== *)
theory Coding_Agent
  imports Replay_Props
begin

text \<open>
  The bounded model and tool loop of \<open>src/internal/reasoner/coding_agent.go\<close>. A Reasoner is a port:
  \<open>Reason\<close> returns a stream (or nil) and changes the world, the stream has the two operations of its
  interface. Whether the context is cancelled is asked once per turn and is a function of the turn.
\<close>

section \<open>Types\<close>

record ('w, 's) ReasonerPort =
  rs_Reason :: "Request \<Rightarrow> 'w \<Rightarrow> 's option \<times> 'w"
  rs_Recv :: "'s recv"
  rs_Close :: "'s \<Rightarrow> 's"

record ('w, 's) CodingAgent =
  cg_reasoner :: "('w, 's) ReasonerPort"
  cg_tools :: "'w Service"
  cg_serviceContracts :: "Contract list"
  cg_maxTurns :: nat

record CodingAgentResult =
  ar_Text :: string
  ar_Messages :: "Message list"
  ar_Usage :: Usage
  ar_Turns :: nat
  ar_ToolCallCount :: nat

record CodingAgentRequest =
  aq_RunID :: string
  aq_AttemptID :: string
  aq_Reasoner :: Request

datatype AgentError =
    AgentArguments | AgentRequest RequestError | AgentContracts | AgentContext | AgentReasoner ReasonerError
  | AgentTool string ServiceError | ErrTurnBudgetExceeded

text \<open>\<open>maxTurns\<close> is positive, so it is a natural number afterwards.\<close>

definition NewCodingAgent :: "('w, 's) ReasonerPort option \<Rightarrow> 'w Service option \<Rightarrow> int \<Rightarrow> AgentError + ('w, 's) CodingAgent" where
  "NewCodingAgent runReasoner service maxTurns =
     (case (runReasoner, service) of
        (Some R, Some S) \<Rightarrow>
          if maxTurns \<le> 0 then Inl AgentArguments
          else (case service_Contracts S of
              None \<Rightarrow> Inl AgentContracts
            | Some contracts \<Rightarrow>
                Inr \<lparr>cg_reasoner = R, cg_tools = S, cg_serviceContracts = contracts, cg_maxTurns = nat maxTurns\<rparr>)
      | _ \<Rightarrow> Inl AgentArguments)"

section \<open>The loop\<close>

definition toolMessage :: "ToolCall \<Rightarrow> string \<Rightarrow> Message" where
  "toolMessage call payload = \<lparr>msg_Role = RoleTool, msg_Content = payload, msg_ToolCalls = [], msg_ToolCallID = tc_ID call,
     msg_ToolName = tc_Name call\<rparr>"

definition assistantMessage :: "Result \<Rightarrow> Message" where
  "assistantMessage turnResult = \<lparr>msg_Role = RoleAssistant, msg_Content = res_Output turnResult,
     msg_ToolCalls = res_ToolCalls turnResult, msg_ToolCallID = '''', msg_ToolName = ''''\<rparr>"

definition agentInvocation :: "CodingAgentRequest \<Rightarrow> ToolCall \<Rightarrow> Invocation" where
  "agentInvocation request call = \<lparr>iv_RunID = aq_RunID request, iv_AttemptID = aq_AttemptID request, iv_ToolName = tc_Name call,
     iv_Input = tc_Arguments call, iv_Environment = []\<rparr>"

definition addMessage :: "CodingAgentResult \<Rightarrow> Message \<Rightarrow> CodingAgentResult" where
  "addMessage result m = result\<lparr>ar_Messages := ar_Messages result @ [m]\<rparr>"

fun invokeCalls :: "'w Service \<Rightarrow> CodingAgentRequest \<Rightarrow> CodingAgentResult \<Rightarrow> ToolCall list \<Rightarrow> 'w
    \<Rightarrow> (AgentError + CodingAgentResult) \<times> 'w" where
  "invokeCalls S request result [] w = (Inr result, w)"
| "invokeCalls S request result (call # calls) w =
     (case Invoke S (agentInvocation request call) w of
        ((response, Some e), w') \<Rightarrow> (Inl (AgentTool (tc_Name call) e), w')
      | ((response, None), w') \<Rightarrow>
          invokeCalls S request
            ((addMessage result (toolMessage call (responseJSON response)))\<lparr>ar_ToolCallCount := ar_ToolCallCount result + 1\<rparr>)
            calls w')"

definition addUsage :: "Usage \<Rightarrow> Usage \<Rightarrow> Usage" where
  "addUsage u v = \<lparr>us_InputTokens = us_InputTokens u + us_InputTokens v, us_OutputTokens = us_OutputTokens u + us_OutputTokens v,
     us_TotalTokens = us_TotalTokens u + us_TotalTokens v\<rparr>"

definition addTurn :: "CodingAgentResult \<Rightarrow> Result \<Rightarrow> CodingAgentResult" where
  "addTurn result turnResult = result\<lparr>ar_Turns := ar_Turns result + 1, ar_Text := ar_Text result @ res_Output turnResult,
     ar_Usage := addUsage (ar_Usage result) (res_Usage turnResult)\<rparr>"

definition turnRequest :: "CodingAgentRequest \<Rightarrow> CodingAgentResult \<Rightarrow> goint \<Rightarrow> Request" where
  "turnRequest request result remaining =
     (aq_Reasoner request)\<lparr>rq_Messages := ar_Messages result, rq_TokenLimit := remaining\<rparr>"

definition budgetError :: StreamError where
  "budgetError = \<lparr>se_Class = ErrorTokenBudgetExceeded, se_Message = ''Coding Agent cumulative token budget exceeded'',
     se_Retryable = False\<rparr>"

text \<open>The turns that are left; \<open>None\<close> when the stream of a turn never ends.\<close>

fun turnLoop :: "('w, 's) CodingAgent \<Rightarrow> (nat \<Rightarrow> bool) \<Rightarrow> CodingAgentRequest \<Rightarrow> nat \<Rightarrow> CodingAgentResult \<Rightarrow> goint \<Rightarrow> 'w
    \<Rightarrow> ((AgentError + CodingAgentResult) \<times> 'w) option" where
  "turnLoop agent cancelled request 0 result remaining w = Some (Inl ErrTurnBudgetExceeded, w)"
| "turnLoop agent cancelled request (Suc left) result remaining w =
     (if cancelled (ar_Turns result + 1) then Some (Inl AgentContext, w)
      else case rs_Reason (cg_reasoner agent) (turnRequest request result remaining) w of
        (st, w1) \<Rightarrow>
          (case Collect (rs_Recv (cg_reasoner agent)) (rs_Close (cg_reasoner agent)) st of
             None \<Rightarrow> None
           | Some (Inl e, _) \<Rightarrow> Some (Inl (AgentReasoner e), w1)
           | Some (Inr turnResult, _) \<Rightarrow>
               (let result1 = addTurn result turnResult;
                    remaining1 = remaining - us_TotalTokens (res_Usage turnResult) in
                if sint remaining1 < 0 then Some (Inl (AgentReasoner (ErrStream budgetError)), w1)
                else let result2 = addMessage result1 (assistantMessage turnResult) in
                  if res_ToolCalls turnResult = [] then
                    Some (if res_FinishReason turnResult = ''tool_calls'' then Inl (AgentReasoner ErrInvalidResult) else Inr result2, w1)
                  else case invokeCalls (cg_tools agent) request result2 (res_ToolCalls turnResult) w1 of
                      (Inl e, w2) \<Rightarrow> Some (Inl e, w2)
                    | (Inr result3, w2) \<Rightarrow> turnLoop agent cancelled request left result3 remaining1 w2)))"

definition agent_Run :: "('w, 's) CodingAgent \<Rightarrow> (nat \<Rightarrow> bool) \<Rightarrow> CodingAgentRequest \<Rightarrow> 'w
    \<Rightarrow> ((AgentError + CodingAgentResult) \<times> 'w) option" where
  "agent_Run agent cancelled request w =
     (if aq_RunID request = '''' \<or> aq_AttemptID request = '''' then Some (Inl AgentArguments, w)
      else case ValidatePhase5Request (aq_Reasoner request) of
          Inl e \<Rightarrow> Some (Inl (AgentRequest e), w)
        | Inr _ \<Rightarrow>
            if \<not> ContractSetsEqual (rq_Tools (aq_Reasoner request)) (cg_serviceContracts agent) then Some (Inl AgentContracts, w)
            else turnLoop agent cancelled request (cg_maxTurns agent)
                   \<lparr>ar_Text = '''', ar_Messages = rq_Messages (aq_Reasoner request), ar_Usage = Usage_zero, ar_Turns = 0, ar_ToolCallCount = 0\<rparr>
                   (rq_TokenLimit (aq_Reasoner request)) w)"

end
