(* ===== verification/Coding_Agent_Props.thy ===== *)
theory Coding_Agent_Props
  imports Coding_Agent
begin

text \<open>
  What a run of the coding agent guarantees: its bounds, the shape and validity of the transcript, that
  every effect on the sandbox went through the tool service, and that it returns on recorded turns.
\<close>

section \<open>One turn\<close>

lemma turnLoop_cases [consumes 1, case_names spent cancelled failed finished tool continue]:
  assumes "turnLoop agent cancelled request left result remaining w = Some (r, w')"
  obtains "left = 0" "r = Inl ErrTurnBudgetExceeded" "w' = w"
  | "r = Inl AgentContext" "w' = w"
  | st e where "rs_Reason (cg_reasoner agent) (turnRequest request result remaining) w = (st, w')" "r = Inl (AgentReasoner e)"
  | st turnResult st' where "left > 0" "rs_Reason (cg_reasoner agent) (turnRequest request result remaining) w = (st, w')"
      "Collect (rs_Recv (cg_reasoner agent)) (rs_Close (cg_reasoner agent)) st = Some (Inr turnResult, st')"
      "0 \<le> sint (remaining - us_TotalTokens (res_Usage turnResult))" "res_ToolCalls turnResult = []"
      "r = Inr (addMessage (addTurn result turnResult) (assistantMessage turnResult))"
  | st w1 turnResult st' e where "rs_Reason (cg_reasoner agent) (turnRequest request result remaining) w = (st, w1)"
      "Collect (rs_Recv (cg_reasoner agent)) (rs_Close (cg_reasoner agent)) st = Some (Inr turnResult, st')"
      "invokeCalls (cg_tools agent) request (addMessage (addTurn result turnResult) (assistantMessage turnResult))
         (res_ToolCalls turnResult) w1 = (Inl e, w')" "r = Inl e"
  | st w1 turnResult st' result3 w2 n where "rs_Reason (cg_reasoner agent) (turnRequest request result remaining) w = (st, w1)"
      "Collect (rs_Recv (cg_reasoner agent)) (rs_Close (cg_reasoner agent)) st = Some (Inr turnResult, st')"
      "0 \<le> sint (remaining - us_TotalTokens (res_Usage turnResult))" "res_ToolCalls turnResult \<noteq> []"
      "invokeCalls (cg_tools agent) request (addMessage (addTurn result turnResult) (assistantMessage turnResult))
         (res_ToolCalls turnResult) w1 = (Inr result3, w2)" "left = Suc n"
      "turnLoop agent cancelled request n result3 (remaining - us_TotalTokens (res_Usage turnResult)) w2 = Some (r, w')"
proof (cases left)
  case 0
  with assms that(1) show ?thesis by simp
next
  case (Suc n)
  obtain st w1 where s: "rs_Reason (cg_reasoner agent) (turnRequest request result remaining) w = (st, w1)" by fastforce
  show ?thesis
  proof (cases "cancelled (ar_Turns result + 1)")
    case True
    with assms Suc that(2) show ?thesis by simp
  next
    case False
    with assms Suc s obtain x st' where c: "Collect (rs_Recv (cg_reasoner agent)) (rs_Close (cg_reasoner agent)) st = Some (x, st')"
      by (auto split: option.splits prod.splits)
    show ?thesis
    proof (cases x)
      case (Inl e)
      with assms Suc s c False have "r = Inl (AgentReasoner e)" "w' = w1" by auto
      with s that(3) show ?thesis by blast
    next
      case (Inr turnResult)
      let ?rem = "remaining - us_TotalTokens (res_Usage turnResult)"
      let ?res = "addMessage (addTurn result turnResult) (assistantMessage turnResult)"
      show ?thesis
      proof (cases "sint ?rem < 0 \<or> res_ToolCalls turnResult = []")
        case True
        with assms Suc s c Inr False have "w' = w1" "(\<exists>e. r = Inl (AgentReasoner e)) \<or>
            0 \<le> sint ?rem \<and> res_ToolCalls turnResult = [] \<and> r = Inr ?res" by (auto simp: Let_def split: if_splits)
        with s c Inr Suc that(3,4) show ?thesis by blast
      next
        case live: False
        obtain y w2 where y: "invokeCalls (cg_tools agent) request ?res (res_ToolCalls turnResult) w1 = (y, w2)" by fastforce
        show ?thesis
        proof (cases y)
          case (Inl e)
          with assms Suc s c Inr False live y have "r = Inl e" "w' = w2" by (auto simp: Let_def)
          with s c Inr y Inl that(5) show ?thesis by blast
        next
          case (Inr result3)
          with assms Suc s c \<open>x = Inr turnResult\<close> False live y
          have "turnLoop agent cancelled request n result3 ?rem w2 = Some (r, w')" by (auto simp: Let_def)
          with that(6) s c \<open>x = Inr turnResult\<close> live y Inr Suc show ?thesis by (metis not_le)
        qed
      qed
    qed
  qed
qed

section \<open>Transcripts\<close>

text \<open>The tool messages that answer a list of calls, each in its place.\<close>

definition answers :: "ToolCall list \<Rightarrow> Message list \<Rightarrow> bool" where
  "answers calls ms \<longleftrightarrow> list_all2 (\<lambda>c m. msg_Role m = RoleTool \<and> msg_ToolCallID m = tc_ID c \<and> msg_ToolName m = tc_Name c
     \<and> msg_ToolCalls m = []) calls ms"

text \<open>\<open>n\<close> turns of an assistant message with calls and the answers to all of them, \<open>k\<close> calls in total.\<close>

inductive exchanges :: "Message list \<Rightarrow> nat \<Rightarrow> nat \<Rightarrow> bool" where
  start: "exchanges [] 0 0"
| turn: "exchanges ms n k \<Longrightarrow> msg_Role a = RoleAssistant \<Longrightarrow> msg_ToolCalls a \<noteq> [] \<Longrightarrow> answers (msg_ToolCalls a) rs
    \<Longrightarrow> exchanges (ms @ a # rs) (Suc n) (k + length (msg_ToolCalls a))"

lemma invokeCalls_answers:
  assumes "invokeCalls S request result calls w = (Inr result', w')"
  shows "\<exists>rs. answers calls rs \<and> result' = result\<lparr>ar_Messages := ar_Messages result @ rs,
    ar_ToolCallCount := ar_ToolCallCount result + length calls\<rparr>"
  using assms
proof (induction S request result calls w rule: invokeCalls.induct)
  case (1 S request result w)
  then show ?case by (auto simp: answers_def)
next
  case (2 S request result call calls w)
  obtain response e w1 where i: "Invoke S (agentInvocation request call) w = ((response, e), w1)" by (metis prod.exhaust)
  with 2(2) have e: "e = None" by (cases e) auto
  let ?r = "(addMessage result (toolMessage call (responseJSON response)))\<lparr>ar_ToolCallCount := ar_ToolCallCount result + 1\<rparr>"
  from 2(2) i e have "invokeCalls S request ?r calls w1 = (Inr result', w')" by simp
  from 2(1) [OF i [symmetric] refl e this] obtain rs where rs: "answers calls rs" "result' = ?r\<lparr>ar_Messages := ar_Messages ?r @ rs,
      ar_ToolCallCount := ar_ToolCallCount ?r + length calls\<rparr>" by blast
  then show ?case
    by (intro exI [of _ "toolMessage call (responseJSON response) # rs"])
      (simp add: answers_def addMessage_def toolMessage_def)
qed

lemma validateMessages_append:
  "validateMessages i (a @ b) = Inr () \<longleftrightarrow> validateMessages i a = Inr () \<and> validateMessages (i + length a) b = Inr ()"
  by (induction i a rule: validateMessages.induct) auto

lemma answers_valid:
  assumes "answers calls ms" "list_all call_wellformed calls"
  shows "validateMessages i ms = Inr ()"
  using assms(1) [unfolded answers_def] assms(2)
  by (induction calls ms arbitrary: i rule: list_all2_induct) (auto simp: messageAllowed_def call_wellformed_def)

lemma assistant_valid:
  "list_all call_wellformed (res_ToolCalls turnResult) \<Longrightarrow> validateMessages i [assistantMessage turnResult] = Inr ()"
  by (simp add: messageAllowed_def assistantMessage_def)

section \<open>Budgets\<close>

lemma goint_sub:
  assumes "0 \<le> sint (a :: goint)" "0 \<le> sint (b :: goint)"
  shows "sint (a - b) = sint a - sint b"
proof -
  have "sint a < 2 ^ 63" "sint b < 2 ^ 63" using sint_lt [of a] sint_lt [of b] by simp_all
  then have "signed_take_bit 63 (sint a - sint b) = sint a - sint b"
    using assms by (intro signed_take_bit_int_eq_self) auto
  then show ?thesis by (simp add: sint_word_ariths)
qed

text \<open>What holds between turns: the tokens left and used add up to the limit and the transcript is complete and valid.\<close>

definition agent_inv :: "Request \<Rightarrow> CodingAgentResult \<Rightarrow> goint \<Rightarrow> bool" where
  "agent_inv rq result remaining \<longleftrightarrow> 0 \<le> sint remaining \<and> sint remaining \<le> sint (rq_TokenLimit rq)
     \<and> us_TotalTokens (ar_Usage result) = rq_TokenLimit rq - remaining \<and> validateMessages 0 (ar_Messages result) = Inr ()
     \<and> (\<exists>ms. ar_Messages result = rq_Messages rq @ ms \<and> exchanges ms (ar_Turns result) (ar_ToolCallCount result))"

lemma jsonValid_nonempty: "\<not> jsonValid ''''"
  by code_simp

lemma validateTools_valid: "validateTools seen cs = Inr () \<Longrightarrow> c \<in> set cs \<Longrightarrow> contract_Validate c = Inr ()"
  by (induction seen cs rule: validateTools.induct) (auto simp: result_simps split: if_splits)

lemma contract_named: "contract_Validate c = Inr () \<Longrightarrow> ct_Name c \<noteq> ''''"
  by (auto simp: contract_Validate_def)

lemma call_ok_wellformed:
  assumes "ValidatePhase5Request rq = Inr ()" "rq_Tools rq' = rq_Tools rq" "call_ok rq' c"
  shows "call_wellformed c"
proof -
  have t: "rq_Tools rq \<noteq> []" "validateTools {} (rq_Tools rq) = Inr ()"
    using assms(1) by (auto simp: ValidatePhase5Request_def result_simps split: if_splits)
  with assms(2,3) obtain k where k: "find (\<lambda>k. ct_Name k = tc_Name c) (rq_Tools rq) = Some k" "tc_ID c \<noteq> ''''" "jsonValid (tc_Arguments c)"
    by (auto simp: call_ok_def split: option.splits)
  then have "k \<in> set (rq_Tools rq)" "ct_Name k = tc_Name c" by (auto simp: find_Some_iff)
  with validateTools_valid [OF t(2)] contract_named have "tc_Name c \<noteq> ''''" by metis
  with k jsonValid_nonempty show ?thesis by (auto simp: call_wellformed_def)
qed


text \<open>The result of a run that took at most \<open>bound\<close> turns.\<close>

definition run_bounded :: "CodingAgentRequest \<Rightarrow> nat \<Rightarrow> CodingAgentResult \<Rightarrow> bool" where
  "run_bounded request bound result \<longleftrightarrow> 1 \<le> ar_Turns result \<and> ar_Turns result \<le> bound
     \<and> 0 \<le> sint (us_TotalTokens (ar_Usage result))
     \<and> sint (us_TotalTokens (ar_Usage result)) \<le> sint (rq_TokenLimit (aq_Reasoner request))
     \<and> validateMessages 0 (ar_Messages result) = Inr ()
     \<and> (\<exists>ms a. ar_Messages result = rq_Messages (aq_Reasoner request) @ ms @ [a] \<and> msg_Role a = RoleAssistant
          \<and> msg_ToolCalls a = [] \<and> exchanges ms (ar_Turns result - 1) (ar_ToolCallCount result))"

section \<open>The Reasoner port\<close>

text \<open>
  What the agent relies on: the stream of a turn is the normalized stream of the request of that turn,
  over some source.
\<close>

locale reasoner_port =
  fixes R :: "('w, 's normalizedStream) ReasonerPort" and recv :: "'s recv" and close :: "'s \<Rightarrow> 's"
  assumes normalized: "rs_Reason R rq w = (st, w') \<Longrightarrow> \<exists>src. st = Some (NewNormalizedStream rq src)"
    and recv: "rs_Recv R = ns_Recv recv close"
    and close: "rs_Close R = ns_Close close"
begin

lemma turn_outcome:
  assumes "rs_Reason R rq w = (st, w')" "Collect (rs_Recv R) (rs_Close R) st = Some (r, st')"
  shows "turn_outcome rq r"
proof -
  obtain src where "st = Some (NewNormalizedStream rq src)" using normalized [OF assms(1)] by blast
  with assms(2) show ?thesis using collectLoop_outcome [OF _ turn_ok_new] by (auto simp: Collect_def recv close)
qed

lemma turn_step:
  assumes "ValidatePhase5Request (aq_Reasoner request) = Inr ()" "agent_inv (aq_Reasoner request) result remaining"
    and "rs_Reason R (turnRequest request result remaining) w = (st, w')"
    and "Collect (rs_Recv R) (rs_Close R) st = Some (Inr turnResult, st')"
    and "0 \<le> sint (remaining - us_TotalTokens (res_Usage turnResult))"
  shows "list_all call_wellformed (res_ToolCalls turnResult)"
    and "sint (remaining - us_TotalTokens (res_Usage turnResult)) \<le> sint (rq_TokenLimit (aq_Reasoner request))"
    and "us_TotalTokens (ar_Usage (addTurn result turnResult)) =
      rq_TokenLimit (aq_Reasoner request) - (remaining - us_TotalTokens (res_Usage turnResult))"
proof -
  let ?rq = "turnRequest request result remaining"
  have o: "turn_outcome ?rq (Inr turnResult)" using turn_outcome [OF assms(3,4)] .
  have tools: "rq_Tools ?rq = rq_Tools (aq_Reasoner request)" by (simp add: turnRequest_def)
  show "list_all call_wellformed (res_ToolCalls turnResult)"
    using o call_ok_wellformed [OF assms(1) tools] by (auto simp: turn_outcome_def list_all_iff)
  have "rq_Tools (aq_Reasoner request) \<noteq> []" using assms(1) by (auto simp: ValidatePhase5Request_def split: if_splits)
  with o tools have "0 \<le> sint (us_TotalTokens (res_Usage turnResult))" by (simp add: turn_outcome_def usage_ok_def)
  then show "sint (remaining - us_TotalTokens (res_Usage turnResult)) \<le> sint (rq_TokenLimit (aq_Reasoner request))"
    using assms(2) by (simp add: goint_sub agent_inv_def)
  show "us_TotalTokens (ar_Usage (addTurn result turnResult)) =
      rq_TokenLimit (aq_Reasoner request) - (remaining - us_TotalTokens (res_Usage turnResult))"
    using assms(2) by (simp add: agent_inv_def addTurn_def addUsage_def)
qed

lemma finished_bounded:
  assumes "ValidatePhase5Request (aq_Reasoner request) = Inr ()" "agent_inv (aq_Reasoner request) result remaining"
    and "rs_Reason R (turnRequest request result remaining) w = (st, w')"
    and "Collect (rs_Recv R) (rs_Close R) st = Some (Inr turnResult, st')"
    and "0 \<le> sint (remaining - us_TotalTokens (res_Usage turnResult))" "res_ToolCalls turnResult = []"
    and "ar_Turns result < bound"
  shows "run_bounded request bound (addMessage (addTurn result turnResult) (assistantMessage turnResult))"
proof -
  note t = turn_step [OF assms(1-5)]
  obtain ms where ms: "ar_Messages result = rq_Messages (aq_Reasoner request) @ ms" "exchanges ms (ar_Turns result) (ar_ToolCallCount result)"
    using assms(2) by (auto simp: agent_inv_def)
  let ?rem = "remaining - us_TotalTokens (res_Usage turnResult)" and ?limit = "rq_TokenLimit (aq_Reasoner request)"
  have "0 \<le> sint ?limit" using assms(2) by (auto simp: agent_inv_def)
  then have "sint (?limit - ?rem) = sint ?limit - sint ?rem" using assms(5) by (rule goint_sub)
  moreover have "validateMessages 0 (ar_Messages result @ [assistantMessage turnResult]) = Inr ()"
    using assms(2) assistant_valid [OF t(1)] by (simp add: validateMessages_append agent_inv_def del: validateMessages.simps)
  ultimately show ?thesis unfolding run_bounded_def
    using t(2,3) assms(5-7) ms
    by (auto simp: addMessage_def addTurn_def assistantMessage_def simp del: validateMessages.simps
        intro!: exI [of _ ms])
qed

lemma continue_inv:
  assumes "ValidatePhase5Request (aq_Reasoner request) = Inr ()" "agent_inv (aq_Reasoner request) result remaining"
    and "rs_Reason R (turnRequest request result remaining) w = (st, w1)"
    and "Collect (rs_Recv R) (rs_Close R) st = Some (Inr turnResult, st')"
    and "0 \<le> sint (remaining - us_TotalTokens (res_Usage turnResult))" "res_ToolCalls turnResult \<noteq> []"
    and "invokeCalls S request (addMessage (addTurn result turnResult) (assistantMessage turnResult))
         (res_ToolCalls turnResult) w1 = (Inr result3, w2)"
  shows "agent_inv (aq_Reasoner request) result3 (remaining - us_TotalTokens (res_Usage turnResult)) \<and> ar_Turns result3 = Suc (ar_Turns result)"
proof -
  note t = turn_step [OF assms(1-5)]
  let ?a = "assistantMessage turnResult"
  obtain ms where ms: "ar_Messages result = rq_Messages (aq_Reasoner request) @ ms" "exchanges ms (ar_Turns result) (ar_ToolCallCount result)"
    using assms(2) by (auto simp: agent_inv_def)
  obtain rs where rs: "answers (res_ToolCalls turnResult) rs" and r3: "ar_Messages result3 = ar_Messages result @ ?a # rs"
    "ar_ToolCallCount result3 = ar_ToolCallCount result + length (res_ToolCalls turnResult)" "ar_Turns result3 = Suc (ar_Turns result)"
    "ar_Usage result3 = ar_Usage (addTurn result turnResult)"
    using invokeCalls_answers [OF assms(7)] by (auto simp: addMessage_def addTurn_def)
  have "exchanges (ms @ ?a # rs) (Suc (ar_Turns result)) (ar_ToolCallCount result + length (msg_ToolCalls ?a))"
    by (rule exchanges.turn [OF ms(2)]) (use rs assms(6) in \<open>simp_all add: assistantMessage_def\<close>)
  moreover have "validateMessages 0 ((ar_Messages result @ [?a]) @ rs) = Inr ()"
    using assms(2) assistant_valid [OF t(1)] answers_valid [OF rs t(1)]
    by (simp add: validateMessages_append agent_inv_def del: validateMessages.simps append_assoc)
  ultimately show ?thesis using t(2,3) assms(5) r3 ms(1) unfolding agent_inv_def
    by (auto simp: assistantMessage_def)
qed

lemma turnLoop_bounded:
  assumes "cg_reasoner agent = R" "ValidatePhase5Request (aq_Reasoner request) = Inr ()"
    and "turnLoop agent cancelled request left result remaining w = Some (Inr final, w')"
    and "agent_inv (aq_Reasoner request) result remaining"
  shows "run_bounded request (ar_Turns result + left) final"
  using assms(3,4)
proof (induction left arbitrary: result remaining w)
  case (Suc n)
  from Suc.prems(1) show ?case
  proof (cases rule: turnLoop_cases)
    case (finished st turnResult st')
    from finished_bounded [OF assms(2) Suc.prems(2) finished(2,3) [unfolded assms(1)] finished(4,5)] finished(6)
    show ?thesis by simp
  next
    case (continue st w1 turnResult st' result3 w2 m)
    note c = continue_inv [OF assms(2) Suc.prems(2) continue(1,2) [unfolded assms(1)] continue(3,4,5)]
    from Suc.IH [of result3 _ w2] continue(6,7) c show ?thesis by fastforce
  qed auto
qed simp

end


section \<open>Effects\<close>

text \<open>A sandbox request that the tool service built for a call of the agent and let through every gate.\<close>

definition gatedCall :: "Registry \<Rightarrow> PolicyConfig \<Rightarrow> 'w Sandbox \<Rightarrow> CodingAgentRequest \<Rightarrow> SandboxRequest \<Rightarrow> bool" where
  "gatedCall registry config B request q \<longleftrightarrow> (\<exists>tree call contract command stdin paths.
     gated registry config B tree (agentInvocation request call) contract (command, stdin, paths)
     \<and> q = sandboxRequest contract (agentInvocation request call) command stdin)"

text \<open>The service of a run: an audit file with any faults and a sandbox with any answers.\<close>

locale service_run =
  fixes S :: "(FileAudit, 'r) toolWorld_scheme Service" and registry :: Registry and config :: PolicyConfig
    and choices :: "nat \<Rightarrow> FileChoices" and scope :: Scope and workspace :: string
    and tree :: "SandboxRequest list \<Rightarrow> FileTree"
    and answer :: "SandboxRequest list \<Rightarrow> SandboxRequest \<Rightarrow> SandboxResult \<times> SandboxError option"
  assumes registry: "sv_registry S = Some registry"
    and policy: "sv_policy S = Some (config, onAudit (file_Record choices))"
    and recorder: "sv_audit S = Some (onAudit (file_Record choices))"
    and sandbox: "sv_sandbox S = Some (anySandbox scope workspace tree answer)"
begin

abbreviation effects :: "CodingAgentRequest \<Rightarrow> (FileAudit, 'r) toolWorld_scheme \<Rightarrow> (FileAudit, 'r) toolWorld_scheme \<Rightarrow> nat \<Rightarrow> bool" where
  "effects request w w' n \<equiv> sound_file (tw_audit w') \<and> (\<exists>qs. tw_execs w' = tw_execs w @ qs \<and> length qs = n
     \<and> list_all (gatedCall registry config (anySandbox scope workspace tree answer :: (FileAudit, 'r) toolWorld_scheme Sandbox) request) qs)"

lemma effects_trans: "effects request w w1 n \<Longrightarrow> effects request w1 w2 m \<Longrightarrow> effects request w w2 (n + m)"
  by force

lemma Invoke_effects:
  assumes "sound_file (tw_audit w)" "Invoke S (agentInvocation request call) w = ((response, err), w')"
  shows "(err \<noteq> None \<and> effects request w w' 0) \<or> effects request w w' 1"
proof -
  have b: "sb_tree (anySandbox scope workspace tree answer) w = tree (tw_execs w)" by (simp add: anySandbox_def)
  have "sound_file (tw_audit w') \<and> (tw_execs w' = tw_execs w \<and> err \<noteq> None \<or>
      (\<exists>contract command stdin paths. gated registry config (anySandbox scope workspace tree answer :: (FileAudit, 'r) toolWorld_scheme Sandbox)
          (tree (tw_execs w)) (agentInvocation request call) contract (command, stdin, paths)
        \<and> tw_execs w' = tw_execs w @ [sandboxRequest contract (agentInvocation request call) command stdin]))"
    using tools.Invoke_gated [OF assms(1) registry policy sandbox recorder assms(2)] unfolding tools.sound_def b by blast
  then show ?thesis unfolding gatedCall_def by fastforce
qed

lemma invokeCalls_effects:
  assumes "invokeCalls S request result calls w = (r, w')" "sound_file (tw_audit w)"
  shows "\<exists>n. effects request w w' n \<and> (isl r \<or> n = length calls)"
  using assms
proof (induction calls arbitrary: result w)
  case Nil
  then show ?case by (auto intro!: exI [of _ 0])
next
  case (Cons call calls)
  obtain response e w1 where i: "Invoke S (agentInvocation request call) w = ((response, e), w1)" by (metis prod.exhaust)
  note step = Invoke_effects [OF Cons.prems(2) i]
  show ?case
  proof (cases e)
    case (Some x)
    with Cons.prems i have "isl r" "w' = w1" by auto
    with step show ?thesis by blast
  next
    case None
    with Cons.prems i obtain result1 where n: "invokeCalls S request result1 calls w1 = (r, w')" by simp
    from step None have s: "effects request w w1 1" by blast
    with Cons.IH [OF n] obtain m where "effects request w1 w' m" "isl r \<or> m = length calls" by blast
    with effects_trans [OF s this(1)] show ?thesis by (metis One_nat_def length_Cons plus_1_eq_Suc)
  qed
qed

lemma turnLoop_effects:
  assumes "cg_tools agent = S"
    and apart: "\<And>rq v st v'. rs_Reason (cg_reasoner agent) rq v = (st, v') \<Longrightarrow> tw_audit v' = tw_audit v \<and> tw_execs v' = tw_execs v"
    and "turnLoop agent cancelled request left result remaining w = Some (r, w')" "sound_file (tw_audit w)"
  shows "\<exists>n. effects request w w' n \<and> (\<forall>final. r = Inr final \<longrightarrow> ar_ToolCallCount final = ar_ToolCallCount result + n)"
  using assms(3,4)
proof (induction left arbitrary: result remaining w)
  case 0
  then show ?case by (auto intro!: exI [of _ 0])
next
  case (Suc k)
  from Suc.prems(1) show ?case
  proof (cases rule: turnLoop_cases)
    case cancelled
    with Suc.prems(2) show ?thesis by (auto intro!: exI [of _ 0])
  next
    case (failed st e)
    with apart [OF failed(1)] Suc.prems(2) show ?thesis by (auto intro!: exI [of _ 0])
  next
    case (finished st turnResult st')
    with apart [OF finished(2)] Suc.prems(2) show ?thesis by (auto simp: addMessage_def addTurn_def intro!: exI [of _ 0])
  next
    case (tool st w1 turnResult st' e)
    note a = apart [OF tool(1)]
    from invokeCalls_effects [OF tool(3) [unfolded assms(1)]] a Suc.prems(2) tool(4) show ?thesis by fastforce
  next
    case (continue st w1 turnResult st' result3 w2 m)
    note a = apart [OF continue(1)]
    from invokeCalls_effects [OF continue(5) [unfolded assms(1)]] a Suc.prems(2)
    have e: "effects request w w2 (length (res_ToolCalls turnResult))" by fastforce
    have c: "ar_ToolCallCount result3 = ar_ToolCallCount result + length (res_ToolCalls turnResult)"
      using invokeCalls_answers [OF continue(5)] by (auto simp: addMessage_def addTurn_def)
    have k: "turnLoop agent cancelled request k result3 (remaining - us_TotalTokens (res_Usage turnResult)) w2 = Some (r, w')"
      using continue(6,7) by simp
    obtain n where n: "effects request w2 w' n" "\<forall>final. r = Inr final \<longrightarrow> ar_ToolCallCount final = ar_ToolCallCount result3 + n"
      using Suc.IH [OF k] e by blast
    with effects_trans [OF e n(1)] c show ?thesis by (intro exI [of _ "length (res_ToolCalls turnResult) + n"]) auto
  qed auto
qed

end


section \<open>Reasoners of the program\<close>

record ('a, 'r) agentWorld = "'a toolWorld" +
  aw_reasoner :: 'r

definition onReasoner :: "(Request \<Rightarrow> 'r \<Rightarrow> 's \<times> 'r) \<Rightarrow> Request \<Rightarrow> ('a, 'r) agentWorld \<Rightarrow> 's option \<times> ('a, 'r) agentWorld" where
  "onReasoner reason rq w = (case reason rq (aw_reasoner w) of (st, r) \<Rightarrow> (Some st, w\<lparr>aw_reasoner := r\<rparr>))"

definition slicePort :: "(Request \<Rightarrow> 'r \<Rightarrow> sliceStream normalizedStream \<times> 'r) \<Rightarrow> (('a, 'r) agentWorld, sliceStream normalizedStream) ReasonerPort" where
  "slicePort reason = \<lparr>rs_Reason = onReasoner reason, rs_Recv = ns_Recv ss_Recv ss_Close, rs_Close = ns_Close ss_Close\<rparr>"

definition replayPort :: "(ReplayReasoner \<Rightarrow> ProviderError option) \<Rightarrow> (('a, ReplayReasoner) agentWorld, sliceStream normalizedStream) ReasonerPort" where
  "replayPort errs = slicePort (\<lambda>rq replay. replay_Reason (errs replay) rq replay)"

definition fakePort :: "(nat \<Rightarrow> RecvError option) \<Rightarrow> (('a, FakeReasoner) agentWorld, sliceStream normalizedStream) ReasonerPort" where
  "fakePort errs = slicePort (\<lambda>rq fake. fake_Reason (errs (fk_calls fake)) rq fake)"

lemma slicePort_port:
  fixes reason :: "Request \<Rightarrow> 'r \<Rightarrow> sliceStream normalizedStream \<times> 'r"
  assumes "\<And>rq r. \<exists>src. fst (reason rq r) = NewNormalizedStream rq src"
  shows "reasoner_port (slicePort reason :: (('a, 'r) agentWorld, sliceStream normalizedStream) ReasonerPort) ss_Recv ss_Close"
proof
  fix rq st and w w' :: "('a, 'r) agentWorld"
  assume "rs_Reason (slicePort reason) rq w = (st, w')"
  then have "st = Some (fst (reason rq (aw_reasoner w)))" by (auto simp: slicePort_def onReasoner_def split: prod.splits)
  with assms show "\<exists>src. st = Some (NewNormalizedStream rq src)" by auto
qed (simp_all add: slicePort_def)

interpretation replayer: reasoner_port "replayPort errs" ss_Recv ss_Close for errs
  unfolding replayPort_def
  by (rule slicePort_port) (auto simp: replay_Reason_def NewErrorStream_def NewEventStream_def split: option.splits)

interpretation faker: reasoner_port "fakePort errs" ss_Recv ss_Close for errs
  unfolding fakePort_def by (rule slicePort_port) (auto simp: fake_Reason_def Let_def)

lemma slicePort_apart:
  "rs_Reason (slicePort reason) rq v = (st, v') \<Longrightarrow> tw_audit v' = tw_audit v \<and> tw_execs v' = tw_execs v"
  by (auto simp: slicePort_def onReasoner_def split: prod.splits)

lemma slicePort_collects: "\<exists>r st'. Collect (rs_Recv (slicePort reason)) (rs_Close (slicePort reason)) st = Some (r, st')"
proof (cases st)
  case (Some s)
  obtain r s' where "collectLoop (ns_Recv ss_Recv ss_Close) Result_zero s = Some (r, s')"
    using slice_collects [of Result_zero s] by auto
  with Some show ?thesis by (simp add: Collect_def slicePort_def)
qed (simp add: Collect_def)

lemma turnLoop_returns:
  assumes "cg_reasoner agent = slicePort reason"
  shows "\<exists>y. turnLoop agent cancelled request left result remaining w = Some y"
proof (induction left arbitrary: result remaining w)
  case (Suc n)
  obtain st w1 where s: "rs_Reason (cg_reasoner agent) (turnRequest request result remaining) w = (st, w1)" by fastforce
  obtain r st' where "Collect (rs_Recv (cg_reasoner agent)) (rs_Close (cg_reasoner agent)) st = Some (r, st')"
    using slicePort_collects unfolding assms by blast
  with s Suc show ?case by (auto simp: Let_def split: sum.splits prod.splits)
qed simp

lemma agent_Run_returns:
  assumes "cg_reasoner agent = slicePort reason"
  shows "\<exists>y. agent_Run agent cancelled request w = Some y"
  using turnLoop_returns [OF assms] by (auto simp: agent_Run_def split: sum.splits)

section \<open>The service of a run\<close>

definition auditedService :: "Registry \<Rightarrow> PolicyConfig \<Rightarrow> (nat \<Rightarrow> FileChoices) \<Rightarrow> Scope \<Rightarrow> string \<Rightarrow> (SandboxRequest list \<Rightarrow> FileTree)
    \<Rightarrow> (SandboxRequest list \<Rightarrow> SandboxRequest \<Rightarrow> SandboxResult \<times> SandboxError option) \<Rightarrow> (ServiceCause \<Rightarrow> string)
    \<Rightarrow> (FileAudit, 'r) toolWorld_scheme Service" where
  "auditedService registry config choices scope workspace tree answer errorText =
     \<lparr>sv_registry = Some registry, sv_policy = Some (config, onAudit (file_Record choices)),
      sv_sandbox = Some (anySandbox scope workspace tree answer), sv_audit = Some (onAudit (file_Record choices)), sv_errorText = errorText\<rparr>"

interpretation audited: service_run "auditedService registry config choices scope workspace tree answer errorText"
    registry config choices scope workspace tree answer
  for registry config choices scope workspace tree answer errorText
  by unfold_locales (simp_all add: auditedService_def)

section \<open>Properties\<close>

lemma new_agent:
  assumes "NewCodingAgent (Some R) (Some S) maxTurns = Inr agent"
  shows "cg_reasoner agent = R" "cg_tools agent = S" "cg_maxTurns agent = nat maxTurns" "0 < maxTurns"
  using assms by (auto simp: NewCodingAgent_def split: if_splits option.splits)

text \<open>
  (C25) A run of the coding agent stays within its bounds. For every Reasoner that streams normalized
  turns, a run that returns a result took between one and \<open>maxTurns\<close> turns, used no more tokens than the
  limit in total (the sum does not wrap around), and returns a transcript that extends the one of the
  request by complete exchanges, every Tool call answered in its place, and a closing assistant message;
  the transcript is one the request validation accepts again.
\<close>

theorem agent_run_bounded:
  assumes "reasoner_port R recv close" "NewCodingAgent (Some R) (Some S) maxTurns = Inr agent"
    and "agent_Run agent cancelled request w = Some (Inr result, w')"
  shows "run_bounded request (nat maxTurns) result"
proof -
  note n = new_agent [OF assms(2)]
  let ?r = "\<lparr>ar_Text = '''', ar_Messages = rq_Messages (aq_Reasoner request), ar_Usage = Usage_zero, ar_Turns = 0, ar_ToolCallCount = 0\<rparr>"
  have v: "ValidatePhase5Request (aq_Reasoner request) = Inr ()"
    and t: "turnLoop agent cancelled request (nat maxTurns) ?r (rq_TokenLimit (aq_Reasoner request)) w = Some (Inr result, w')"
    using assms(3) n(3) by (auto simp: agent_Run_def split: if_splits sum.splits)
  have "agent_inv (aq_Reasoner request) ?r (rq_TokenLimit (aq_Reasoner request))"
    using v by (auto simp: agent_inv_def ValidatePhase5Request_def Usage_zero_def result_simps exchanges.start split: if_splits)
  from reasoner_port.turnLoop_bounded [OF assms(1) n(1) v t this] show ?thesis by simp
qed

text \<open>
  (C24) A run of the coding agent touches the sandbox only through the tool service. Whatever the
  Reasoner answers, the faults of the audit file and the answers of the sandbox are, and however the run
  ends, the requests it executed are a sequence of requests that the service built for calls with the
  Run and the Attempt of the request and that passed every gate; when the run succeeds there is exactly
  one for each counted Tool call.
\<close>

theorem agent_effects_gated:
  fixes w :: "(FileAudit, 'r) agentWorld"
  assumes "NewCodingAgent (Some (slicePort reason)) (Some (auditedService registry config choices scope workspace tree answer errorText)) maxTurns
      = Inr agent"
    and "sound_file (tw_audit w)" "agent_Run agent cancelled request w = Some (r, w')"
  shows "\<exists>qs. tw_execs w' = tw_execs w @ qs
    \<and> list_all (gatedCall registry config (anySandbox scope workspace tree answer :: (FileAudit, 'r) agentWorld Sandbox) request) qs
    \<and> (\<forall>result. r = Inr result \<longrightarrow> length qs = ar_ToolCallCount result)"
proof -
  note n = new_agent [OF assms(1)]
  let ?r = "\<lparr>ar_Text = '''', ar_Messages = rq_Messages (aq_Reasoner request), ar_Usage = Usage_zero, ar_Turns = 0, ar_ToolCallCount = 0\<rparr>"
  consider "isl r" "w' = w" | "turnLoop agent cancelled request (cg_maxTurns agent) ?r (rq_TokenLimit (aq_Reasoner request)) w = Some (r, w')"
    using assms(3) by (auto simp: agent_Run_def split: if_splits sum.splits)
  then show ?thesis
  proof cases
    case 2
    from audited.turnLoop_effects [OF n(2) _ 2 assms(2)] n(1) slicePort_apart show ?thesis by fastforce
  qed (auto simp: isl_def)
qed

text \<open>
  (C26) A run over recorded or scripted turns returns. Whatever the cassette, the script, the tool service, the
  context and the limits are, \<open>Run\<close> comes back with a result or an error.
\<close>

theorem recorded_run_returns:
  "(\<exists>y. agent_Run \<lparr>cg_reasoner = replayPort errs, cg_tools = S, cg_serviceContracts = contracts, cg_maxTurns = n\<rparr> cancelled request w = Some y)
   \<and> (\<exists>y. agent_Run \<lparr>cg_reasoner = fakePort ferrs, cg_tools = T, cg_serviceContracts = contracts, cg_maxTurns = n\<rparr> cancelled request v = Some y)"
  unfolding replayPort_def fakePort_def by (intro conjI agent_Run_returns) simp_all


section \<open>A run over a recording\<close>

definition sampleAgent :: "((FileAudit, ReplayReasoner) agentWorld, sliceStream normalizedStream) CodingAgent" where
  "sampleAgent = \<lparr>cg_reasoner = replayPort (\<lambda>_. None), cg_tools = sampleService, cg_serviceContracts = [sampleTool], cg_maxTurns = 3\<rparr>"

definition sampleRequest :: "goint \<Rightarrow> CodingAgentRequest" where
  "sampleRequest limit = \<lparr>aq_RunID = ''r'', aq_AttemptID = ''a'', aq_Reasoner = replayRequest\<lparr>rq_TokenLimit := limit\<rparr>\<rparr>"

definition sampleAgentWorld :: "(FileAudit, ReplayReasoner) agentWorld" where
  "sampleAgentWorld = \<lparr>tw_audit = NewFileAuditRecorder '''', tw_execs = [],
     aw_reasoner = \<lparr>ry_cassette = cassetteOf sampleTurns, ry_nextTurn = 0\<rparr>\<rparr>"

definition sampleRun :: "goint \<Rightarrow> ((AgentError + CodingAgentResult) \<times> (FileAudit, ReplayReasoner) agentWorld) option" where
  "sampleRun limit = agent_Run sampleAgent (\<lambda>_. False) (sampleRequest limit) sampleAgentWorld"

fun runSummary :: "((AgentError + CodingAgentResult) \<times> (FileAudit, ReplayReasoner) agentWorld) option \<Rightarrow> (AgentError option \<times> nat \<times> nat \<times> nat) option" where
  "runSummary (Some (Inr result, w)) = Some (None, ar_Turns result, ar_ToolCallCount result, length (tw_execs w))"
| "runSummary (Some (Inl e, w)) = Some (Some e, ry_nextTurn (aw_reasoner w), 0, length (tw_execs w))"
| "runSummary None = None"

declare collectLoop.simps [code]

lemma sample_run: "runSummary (sampleRun 9) = Some (None, 2, 1, 1)"
  by code_simp


lemma sample_agent:
  "NewCodingAgent (Some (replayPort (\<lambda>_. None))) (Some sampleService) 3 = Inr sampleAgent"
proof -
  have "service_Contracts (sampleService :: (FileAudit, ReplayReasoner) agentWorld Service) = Some [sampleTool]" by code_simp
  then show ?thesis by (simp add: NewCodingAgent_def sampleAgent_def)
qed

lemma sample_result:
  obtains result w' where "agent_Run sampleAgent (\<lambda>_. False) (sampleRequest 9) sampleAgentWorld = Some (Inr result, w')"
    "ar_Turns result = 2" "ar_ToolCallCount result = 1" "length (tw_execs w') = 1"
proof -
  obtain y where y: "sampleRun 9 = Some y" using sample_run by (cases "sampleRun 9") auto
  obtain r w' where "y = (r, w')" by fastforce
  with y sample_run that show thesis by (cases r) (auto simp: sampleRun_def)
qed

text \<open>
  A budget that is exactly used up is no reason to stop: the agent asks for another turn with the token
  limit 0, which a normalized stream does not check, and only then reports the exceeded budget.
\<close>

lemma exact_budget_asks_again:
  "runSummary (sampleRun 3) = Some (Some (AgentReasoner (ErrStream budgetError)), 2, 0, 1)"
  by code_simp

theorem agent_run_bounded_witness:
  "\<exists>result w'. agent_Run sampleAgent (\<lambda>_. False) (sampleRequest 9) sampleAgentWorld = Some (Inr result, w')
     \<and> run_bounded (sampleRequest 9) 3 result \<and> ar_Turns result = 2"
proof -
  obtain result w' where r: "agent_Run sampleAgent (\<lambda>_. False) (sampleRequest 9) sampleAgentWorld = Some (Inr result, w')"
    "ar_Turns result = 2" by (rule sample_result)
  from agent_run_bounded [OF replayer.reasoner_port_axioms sample_agent r(1)] r show ?thesis by auto
qed

lemma sampleService_audited:
  "sampleService = auditedService [(''repo.list'', sampleTool)] samplePolicy quietFile \<lparr>sc_RunID = ''r'', sc_AttemptID = ''a''\<rparr> ''/w'' (\<lambda>_. sampleTree)
     (\<lambda>_ _. (\<lparr>sr_Stdout = ''a.go'', sr_Stderr = '''', sr_ExitCode = 0, sr_TimedOut = False, sr_Truncated = False\<rparr>, None)) (\<lambda>_. ''error'')"
  by (simp add: sampleService_def auditedService_def sampleSandbox_def)

theorem agent_effects_gated_witness:
  "\<exists>result w' q. agent_Run sampleAgent (\<lambda>_. False) (sampleRequest 9) sampleAgentWorld = Some (Inr result, w')
     \<and> tw_execs w' = [q] \<and> gatedCall [(''repo.list'', sampleTool)] samplePolicy (sampleSandbox :: (FileAudit, ReplayReasoner) agentWorld Sandbox)
         (sampleRequest 9) q"
proof -
  obtain result w' where r: "agent_Run sampleAgent (\<lambda>_. False) (sampleRequest 9) sampleAgentWorld = Some (Inr result, w')"
    "length (tw_execs w') = 1" by (rule sample_result)
  have f: "sound_file (tw_audit sampleAgentWorld)"
    by (simp add: sampleAgentWorld_def sound_file_def ended_def NewFileAuditRecorder_def)
  have e: "tw_execs sampleAgentWorld = []" by (simp add: sampleAgentWorld_def)
  from agent_effects_gated [OF sample_agent [unfolded sampleService_audited replayPort_def] f r(1)]
  obtain qs where "tw_execs w' = qs" "list_all (gatedCall [(''repo.list'', sampleTool)] samplePolicy
      (sampleSandbox :: (FileAudit, ReplayReasoner) agentWorld Sandbox) (sampleRequest 9)) qs"
    unfolding e sampleSandbox_def by auto
  with r show ?thesis by (cases qs) auto
qed


end
