(* ===== verification/Sandbox_Output.thy ===== *)
theory Sandbox_Output
  imports Tool_Service
begin

text \<open>
  The bounded capture of command output in \<open>src/internal/sandbox/docker.go\<close>: \<open>limitedBuffer\<close>, alone or
  with an \<open>outputBudget\<close> it shares with a second buffer. The pointer to the budget is a second component
  of the state; the mutex makes each write atomic, so the writes of the two streams are one sequence.
\<close>

section \<open>Buffers\<close>

record outputBudget =
  ob_limit :: int
  ob_stored :: int
  ob_total :: int
  ob_truncated :: bool

record limitedBuffer =
  lb_buffer :: string
  lb_limit :: int
  lb_total :: int
  lb_truncated :: bool

definition limitedBuffer_zero :: "int \<Rightarrow> limitedBuffer" where
  "limitedBuffer_zero limit = \<lparr>lb_buffer = '''', lb_limit = limit, lb_total = 0, lb_truncated = False\<rparr>"

definition outputBudget_zero :: "int \<Rightarrow> outputBudget" where
  "outputBudget_zero limit = \<lparr>ob_limit = limit, ob_stored = 0, ob_total = 0, ob_truncated = False\<rparr>"

definition budget_Write :: "string \<Rightarrow> limitedBuffer \<Rightarrow> outputBudget \<Rightarrow> limitedBuffer \<times> outputBudget" where
  "budget_Write content writer budget0 =
     (let original = int (length content);
          w = writer\<lparr>lb_total := lb_total writer + original\<rparr>;
          budget = budget0\<lparr>ob_total := ob_total budget0 + original\<rparr>;
          remaining = ob_limit budget - ob_stored budget in
      if remaining > 0 then
        (if original > remaining then
           (w\<lparr>lb_buffer := lb_buffer w @ take (nat remaining) content, lb_truncated := True\<rparr>,
            budget\<lparr>ob_stored := ob_stored budget + remaining, ob_truncated := True\<rparr>)
         else (w\<lparr>lb_buffer := lb_buffer w @ content\<rparr>, budget\<lparr>ob_stored := ob_stored budget + original\<rparr>))
      else if original > 0 then (w\<lparr>lb_truncated := True\<rparr>, budget\<lparr>ob_truncated := True\<rparr>)
      else (w, budget))"

definition plain_Write :: "string \<Rightarrow> limitedBuffer \<Rightarrow> limitedBuffer" where
  "plain_Write content writer =
     (let original = int (length content);
          w = writer\<lparr>lb_total := lb_total writer + original\<rparr>;
          remaining = lb_limit w - int (length (lb_buffer w)) in
      if remaining > 0 then
        (if original > remaining then w\<lparr>lb_buffer := lb_buffer w @ take (nat remaining) content, lb_truncated := True\<rparr>
         else w\<lparr>lb_buffer := lb_buffer w @ content\<rparr>)
      else if original > 0 then w\<lparr>lb_truncated := True\<rparr>
      else w)"

text \<open>A write is tagged with whether it goes to the second stream, the standard error.\<close>

type_synonym writes = "(bool \<times> string) list"

record capture =
  cp_stdout :: limitedBuffer
  cp_stderr :: limitedBuffer
  cp_budget :: outputBudget

definition capture_zero :: "int \<Rightarrow> capture" where
  "capture_zero limit = \<lparr>cp_stdout = limitedBuffer_zero 0, cp_stderr = limitedBuffer_zero 0, cp_budget = outputBudget_zero limit\<rparr>"

fun captureWrite :: "bool \<times> string \<Rightarrow> capture \<Rightarrow> capture" where
  "captureWrite (err, content) c =
     (if err then case budget_Write content (cp_stderr c) (cp_budget c) of (b, budget) \<Rightarrow> c\<lparr>cp_stderr := b, cp_budget := budget\<rparr>
      else case budget_Write content (cp_stdout c) (cp_budget c) of (b, budget) \<Rightarrow> c\<lparr>cp_stdout := b, cp_budget := budget\<rparr>)"

definition captured :: "int \<Rightarrow> writes \<Rightarrow> capture" where
  "captured limit ws = foldl (\<lambda>c w. captureWrite w c) (capture_zero limit) ws"

definition limitedOutput :: "int \<Rightarrow> writes \<Rightarrow> limitedBuffer" where
  "limitedOutput limit ws = foldl (\<lambda>b w. plain_Write (snd w) b) (limitedBuffer_zero limit) ws"

section \<open>What is kept\<close>

definition taggedBytes :: "writes \<Rightarrow> (bool \<times> char) list" where
  "taggedBytes ws = concat (map (\<lambda>(err, content). map (Pair err) content) ws)"

definition streamOf :: "bool \<Rightarrow> (bool \<times> char) list \<Rightarrow> string" where
  "streamOf err bytes = map snd (filter (\<lambda>b. fst b = err) bytes)"

lemma taggedBytes_snoc: "taggedBytes (ws @ [(err, content)]) = taggedBytes ws @ map (Pair err) content"
  by (simp add: taggedBytes_def)

lemma streamOf_append: "streamOf err (a @ b) = streamOf err a @ streamOf err b"
  by (simp add: streamOf_def)

lemma streamOf_tagged: "streamOf err (map (Pair e) content) = (if e = err then content else [])"
  by (simp add: streamOf_def filter_map o_def)

lemma captured_invariant:
  assumes "0 \<le> limit"
  shows "lb_buffer (cp_stdout (captured limit ws)) = streamOf False (take (nat limit) (taggedBytes ws))
    \<and> lb_buffer (cp_stderr (captured limit ws)) = streamOf True (take (nat limit) (taggedBytes ws))
    \<and> ob_limit (cp_budget (captured limit ws)) = limit
    \<and> ob_stored (cp_budget (captured limit ws)) = min limit (int (length (taggedBytes ws)))
    \<and> ob_total (cp_budget (captured limit ws)) = int (length (taggedBytes ws))
    \<and> (ob_truncated (cp_budget (captured limit ws)) \<longleftrightarrow> limit < int (length (taggedBytes ws)))"
proof (induction ws rule: rev_induct)
  case Nil
  show ?case using assms
    by (simp add: captured_def capture_zero_def taggedBytes_def streamOf_def limitedBuffer_zero_def outputBudget_zero_def)
next
  case (snoc w ws)
  obtain err content where w: "w = (err, content)" by fastforce
  let ?c = "captured limit ws" and ?n = "length (taggedBytes ws)"
  have step: "captured limit (ws @ [w]) = captureWrite (err, content) ?c" by (simp add: captured_def w)
  have t: "take (nat limit) (taggedBytes (ws @ [w])) = take (nat limit) (taggedBytes ws) @ map (Pair err) (take (nat limit - ?n) content)"
    by (simp add: w taggedBytes_snoc take_map)
  have remaining: "ob_limit (cp_budget ?c) - ob_stored (cp_budget ?c) = limit - min limit (int ?n)"
    using snoc by simp
  have n: "nat (limit - min limit (int ?n)) = nat limit - ?n" by linarith
  show ?case unfolding step t streamOf_append streamOf_tagged
    using snoc remaining n
    by (auto simp: budget_Write_def Let_def w taggedBytes_snoc)
qed

text \<open>
  (C33) The captured output is exactly the beginning of what the command wrote. For every interleaving
  of writes to the two streams, the two buffers hold the bytes of their stream among the first
  \<open>limit\<close> bytes written in total, together \<open>min limit total\<close> bytes; all bytes are counted and the
  truncation is reported exactly when bytes were dropped.
\<close>

theorem output_bounded:
  assumes "0 \<le> limit"
  shows "lb_buffer (cp_stdout (captured limit ws)) = streamOf False (take (nat limit) (taggedBytes ws))
    \<and> lb_buffer (cp_stderr (captured limit ws)) = streamOf True (take (nat limit) (taggedBytes ws))
    \<and> int (length (lb_buffer (cp_stdout (captured limit ws))) + length (lb_buffer (cp_stderr (captured limit ws))))
        = min limit (int (length (taggedBytes ws)))
    \<and> ob_total (cp_budget (captured limit ws)) = int (length (taggedBytes ws))
    \<and> (ob_truncated (cp_budget (captured limit ws)) \<longleftrightarrow> limit < int (length (taggedBytes ws)))"
proof -
  have "length (streamOf False xs) + length (streamOf True xs) = length xs" for xs
    using sum_length_filter_compl [of "\<lambda>b. fst b = False" xs] by (simp add: streamOf_def)
  from this [of "take (nat limit) (taggedBytes ws)"] captured_invariant [OF assms, of ws] assms show ?thesis
    by (auto simp: min_def)
qed

theorem output_bounded_witness:
  "lb_buffer (cp_stdout (captured 3 [(False, ''ab''), (True, ''c''), (False, ''d'')])) = ''ab''
     \<and> ob_truncated (cp_budget (captured 3 [(False, ''ab''), (True, ''c''), (False, ''d'')]))"
  using output_bounded [of 3 "[(False, ''ab''), (True, ''c''), (False, ''d'')]"]
  by (simp add: taggedBytes_def streamOf_def)


end
