(* ===== verification/Docker_Containers.thy ===== *)
theory Docker_Containers
  imports Sandbox_Output "HOL-Library.AList"
begin

text \<open>
  The container lifecycle of \<open>src/internal/sandbox/docker.go\<close>: the commands the sandbox gives to the
  Docker command line, how it reads the answers, and its bookkeeping of the containers it owns. The
  Docker daemon is a parameter, any function of the history of commands that gives the next answer, so
  nothing is assumed about it; the decoding of an inspection from JSON, the contexts of the calls and
  the order in which Go visits a map are parameters as well.
\<close>

section \<open>Texts\<close>

function trim_left :: "string \<Rightarrow> string" where
  "trim_left s = (if space_len s = 0 then s else trim_left (drop (space_len s) s))"
  by pat_completeness auto
termination
proof (relation "measure length")
  fix s
  assume "space_len s \<noteq> 0"
  then show "(drop (space_len s) s, s) \<in> measure length" by (cases s) auto
qed simp

declare trim_left.simps [simp del]

text \<open>The bytes of a space at the end of a text, given reversed.\<close>

definition last_space :: "string \<Rightarrow> nat" where
  "last_space r = (if space_len (take 1 r) = 1 then 1 else if space_len (rev (take 2 r)) = 2 then 2
     else if space_len (rev (take 3 r)) = 3 then 3 else 0)"

function trim_right :: "string \<Rightarrow> string" where
  "trim_right r = (if r = [] \<or> last_space r = 0 then r else trim_right (drop (last_space r) r))"
  by pat_completeness auto
termination
  by (relation "measure length") auto

declare trim_right.simps [simp del]

definition TrimSpace :: "string \<Rightarrow> string" where
  "TrimSpace s = rev (trim_right (rev (trim_left s)))"

fun split_at :: "char \<Rightarrow> string \<Rightarrow> string \<Rightarrow> string list" where
  "split_at x acc [] = [rev acc]"
| "split_at x acc (c # s) = (if c = x then rev acc # split_at x [] s else split_at x (c # acc) s)"

definition isHex :: "char \<Rightarrow> bool" where
  "isHex c \<longleftrightarrow> is_digit c \<or> char_between CHR ''a'' CHR ''f'' c \<or> char_between CHR ''A'' CHR ''F'' c"

definition isObjectID :: "string \<Rightarrow> bool" where
  "isObjectID v \<longleftrightarrow> (length v = 40 \<or> length v = 64) \<and> list_all isHex v"

definition nameChar :: "char \<Rightarrow> bool" where
  "nameChar c \<longleftrightarrow> is_lower c \<or> is_upper c \<or> is_digit c \<or> c = CHR ''-'' \<or> c = CHR ''_''"

text \<open>One character for each rune of the value, at most 40.\<close>

function safeNameLoop :: "string \<Rightarrow> string \<Rightarrow> string" where
  "safeNameLoop built v =
     (if v = [] then built
      else let built' = built @ [if nameChar (hd v) then hd v else CHR ''-''] in
        if length built' \<ge> 40 then built' else safeNameLoop built' (drop (max 1 (rune_len v)) v))"
  by pat_completeness auto
termination
  by (relation "measure (\<lambda>(b, v). length v)") auto

declare safeNameLoop.simps [simp del]

definition safeName :: "string \<Rightarrow> string" where
  "safeName v = (let built = safeNameLoop '''' v in if built = '''' then ''scope'' else built)"

section \<open>Configuration and state\<close>

record DockerConfig =
  dc_Image :: string
  dc_CPU :: string
  dc_Memory :: string
  dc_PIDs :: int
  dc_CommandTimeout :: int
  dc_OutputLimit :: int
  dc_EnvAllowlist :: "string list"

text \<open>\<open>ExitStatus\<close> is an \<open>exec.ExitError\<close>, \<open>CommandOther\<close> any other failure to run the command.\<close>

datatype CommandError = ExitStatus int | CommandOther

record DockerCommand =
  cm_args :: "string list"
  cm_stdin :: string

record DockerAnswer =
  da_err :: "CommandError option"
  da_writes :: writes

type_synonym history = "(DockerCommand \<times> DockerAnswer) list"

datatype ContextError = ContextDeadline | ContextCanceled

datatype DockerError =
    ErrContainerOwnership | ErrContainerOutcomeUnknown | DockerDestroyed | DockerTimeout | DockerNotAllowed | DockerExit int
  | DockerCanceled | DockerCommandFailed | DockerInvalidOutput | DockerAudit AuditError | DockerWorktree | DockerFiles
  | DockerConfigInvalid | DockerCreatedMismatch

text \<open>
  What a sandbox is bound to when it is created: configuration, scope, owner token, workspace, and the
  parameters. \<open>dx_order\<close> is the order in which a loop visits the keys of a map.
\<close>

record 'a dockerEnv =
  dx_config :: DockerConfig
  dx_scope :: Scope
  dx_ownerToken :: string
  dx_workspace :: string
  dx_daemon :: "history \<Rightarrow> DockerCommand \<Rightarrow> DockerAnswer"
  dx_decode :: "string \<Rightarrow> (string \<times> (string \<times> string) list) option"
  dx_context :: "history \<Rightarrow> ContextError option"
  dx_order :: "string list \<Rightarrow> string list"
  dx_record :: "'a recorder"

text \<open>
  The fields of \<open>dockerSandbox\<close> that change, with the counter of the provider, the history of Docker
  and the state of the audit. \<open>ds_owned\<close>: the provider still lists the sandbox as owned and pending.
  The time at which a container became uncertain is only diagnostic and left out.
\<close>

record 'a dockerState =
  ds_containers :: "(string \<times> string) list"
  ds_uncertain :: "string list"
  ds_provisioningFailed :: bool
  ds_destroying :: bool
  ds_destroyed :: bool
  ds_destroyAudited :: bool
  ds_owned :: bool
  ds_counter :: nat
  ds_history :: history
  ds_audit :: 'a

section \<open>Docker commands\<close>

definition docker :: "'a dockerEnv \<Rightarrow> string list \<Rightarrow> string \<Rightarrow> ('a, 'z) dockerState_scheme \<Rightarrow> DockerAnswer \<times> ('a, 'z) dockerState_scheme" where
  "docker E args stdin s =
     (let c = \<lparr>cm_args = args, cm_stdin = stdin\<rparr>; a = dx_daemon E (ds_history s) c
      in (a, s\<lparr>ds_history := ds_history s @ [(c, a)]\<rparr>))"

definition combinedOutput :: "DockerAnswer \<Rightarrow> string" where
  "combinedOutput a = concat (map snd (da_writes a))"

definition labelOf :: "(string \<times> string) list \<Rightarrow> string \<Rightarrow> string" where
  "labelOf labels key = (case map_of labels key of None \<Rightarrow> '''' | Some v \<Rightarrow> v)"

definition ownsLabels :: "'a dockerEnv \<Rightarrow> (string \<times> string) list \<Rightarrow> bool" where
  "ownsLabels E labels \<longleftrightarrow> labelOf labels ''agentdock.phase'' = ''4''
     \<and> labelOf labels ''agentdock.run_id'' = sc_RunID (dx_scope E)
     \<and> labelOf labels ''agentdock.attempt_id'' = sc_AttemptID (dx_scope E)
     \<and> labelOf labels ''agentdock.owner_token'' = dx_ownerToken E"

definition inspectFormat :: string where
\<open>inspectFormat = ''{"id":{{json .Id}},"labels":{{json .Config.Labels}}}''\<close>

definition inspectArgs :: "string \<Rightarrow> string list" where
  "inspectArgs reference = [''inspect'', ''--format'', inspectFormat, reference]"

text \<open>The answer to an inspection: the identity, whether the container exists and whether it is owned.\<close>

definition readInspection :: "'a dockerEnv \<Rightarrow> DockerAnswer \<Rightarrow> DockerError + string \<times> bool \<times> bool" where
  "readInspection E a =
     (if da_err a \<noteq> None then
        if contains (combinedOutput a) ''No such object'' \<or> contains (combinedOutput a) ''No such container''
        then Inr ('''', False, False) else Inl DockerCommandFailed
      else case dx_decode E (combinedOutput a) of
          None \<Rightarrow> Inl DockerInvalidOutput
        | Some (ident, labels) \<Rightarrow>
            if length ident \<noteq> 64 \<or> \<not> isObjectID ident then Inl DockerInvalidOutput
            else Inr (ident, True, ownsLabels E labels))"

definition inspectContainer :: "'a dockerEnv \<Rightarrow> string \<Rightarrow> ('a, 'z) dockerState_scheme
    \<Rightarrow> (DockerError + string \<times> bool \<times> bool) \<times> ('a, 'z) dockerState_scheme" where
  "inspectContainer E reference s = (case docker E (inspectArgs reference) '''' s of (a, s') \<Rightarrow> (readInspection E a, s'))"

definition fixedEnvironment :: "(string \<times> string) list" where
  "fixedEnvironment =
     [(''GOCACHE'', ''/workspace/.agentdock/go-cache''), (''GOENV'', ''off''), (''GOFLAGS'', ''''), (''GOTOOLCHAIN'', ''local''),
      (''GOTMPDIR'', ''/workspace/.agentdock/tmp''), (''HOME'', ''/workspace/.agentdock/home''), (''TMPDIR'', ''/workspace/.agentdock/tmp'')]"

definition environmentArgs :: "(string \<times> string) list \<Rightarrow> string list" where
  "environmentArgs environment =
     concat (map (\<lambda>key. [''--env'', key @ ''='' @ (case map_of environment key of Some v \<Rightarrow> v | None \<Rightarrow> labelOf fixedEnvironment key)])
       (remdups_adj (sort (map fst fixedEnvironment @ map fst environment))))"

definition isolationArgs :: "'a dockerEnv \<Rightarrow> string list" where
  "isolationArgs E =
     [''--network'', ''none'', ''--ipc'', ''none'', ''--read-only'', ''--user'', ''65532:65532'', ''--cap-drop'', ''ALL'',
      ''--security-opt'', ''no-new-privileges'', ''--cpus'', dc_CPU (dx_config E), ''--memory'', dc_Memory (dx_config E),
      ''--pids-limit'', show_int (dc_PIDs (dx_config E)),
      ''--mount'', ''type=bind,src='' @ dx_workspace E @ '',dst=/workspace'',
      ''--mount'', ''type=bind,src='' @ Clean (dx_workspace E @ ''/.git'') @ '',dst=/workspace/.git,readonly'',
      ''--workdir'', ''/workspace'']"

definition createArgs :: "'a dockerEnv \<Rightarrow> string \<Rightarrow> SandboxRequest \<Rightarrow> string list" where
  "createArgs E name request =
     [''create'', ''--interactive'', ''--name'', name, ''--label'', ''agentdock.phase=4'',
      ''--label'', ''agentdock.run_id='' @ sc_RunID (dx_scope E), ''--label'', ''agentdock.attempt_id='' @ sc_AttemptID (dx_scope E),
      ''--label'', ''agentdock.owner_token='' @ dx_ownerToken E]
     @ isolationArgs E @ environmentArgs (sq_Environment request) @ [dc_Image (dx_config E)] @ sq_Command request"

definition createContainer :: "'a dockerEnv \<Rightarrow> string \<Rightarrow> SandboxRequest \<Rightarrow> ('a, 'z) dockerState_scheme
    \<Rightarrow> (DockerError + string) \<times> ('a, 'z) dockerState_scheme" where
  "createContainer E name request s =
     (case docker E (createArgs E name request) '''' s of (a, s1) \<Rightarrow>
        if da_err a \<noteq> None then (Inl DockerCommandFailed, s1)
        else let containerID = TrimSpace (combinedOutput a) in
          if length containerID \<noteq> 64 \<or> \<not> isObjectID containerID then (Inl DockerInvalidOutput, s1)
          else case inspectContainer E containerID s1 of
              (Inl e, s2) \<Rightarrow> (Inl e, s2)
            | (Inr (ownedID, exists, owned), s2) \<Rightarrow>
                if \<not> exists \<or> \<not> owned \<or> ownedID \<noteq> containerID then (Inl DockerCreatedMismatch, s2) else (Inr containerID, s2))"

section \<open>Tracked containers\<close>

definition tracked :: "('a, 'z) dockerState_scheme \<Rightarrow> string \<Rightarrow> string option" where
  "tracked s name = map_of (ds_containers s) name"

definition track :: "string \<Rightarrow> string \<Rightarrow> ('a, 'z) dockerState_scheme \<Rightarrow> ('a, 'z) dockerState_scheme" where
  "track name containerID s = s\<lparr>ds_containers := AList.update name containerID (ds_containers s)\<rparr>"

definition settle :: "string \<Rightarrow> ('a, 'z) dockerState_scheme \<Rightarrow> ('a, 'z) dockerState_scheme" where
  "settle name s = s\<lparr>ds_uncertain := filter (\<lambda>n. n \<noteq> name) (ds_uncertain s)\<rparr>"

definition forget :: "string \<Rightarrow> ('a, 'z) dockerState_scheme \<Rightarrow> ('a, 'z) dockerState_scheme" where
  "forget name s = settle name (s\<lparr>ds_containers := AList.delete name (ds_containers s)\<rparr>)"

definition markContainerCreateUnknown :: "string \<Rightarrow> ('a, 'z) dockerState_scheme \<Rightarrow> ('a, 'z) dockerState_scheme" where
  "markContainerCreateUnknown name s = (if name \<in> set (ds_uncertain s) then s else s\<lparr>ds_uncertain := name # ds_uncertain s\<rparr>)"

text \<open>An error is the list of what \<open>errors.Join\<close> joined; the empty list is nil.\<close>

type_synonym errs = "DockerError list"

definition startOwnedContainer :: "'a dockerEnv \<Rightarrow> string \<Rightarrow> string \<Rightarrow> ('a, 'z) dockerState_scheme
    \<Rightarrow> ((DockerError + CommandError option) \<times> writes) \<times> ('a, 'z) dockerState_scheme" where
  "startOwnedContainer E containerID stdin s =
     (case inspectContainer E containerID s of
        (Inl e, s1) \<Rightarrow> ((Inl e, []), s1)
      | (Inr (ownedID, exists, owned), s1) \<Rightarrow>
          if \<not> exists \<or> \<not> owned \<or> ownedID \<noteq> containerID then ((Inl ErrContainerOwnership, []), s1)
          else case docker E [''start'', ''-a'', ''-i'', containerID] stdin s1 of
              (a, s2) \<Rightarrow> ((Inr (da_err a), da_writes a), s2))"

definition killTrackedContainer :: "'a dockerEnv \<Rightarrow> string \<Rightarrow> ('a, 'z) dockerState_scheme \<Rightarrow> errs \<times> ('a, 'z) dockerState_scheme" where
  "killTrackedContainer E name s =
     (case tracked s name of
        None \<Rightarrow> ([], s)
      | Some containerID \<Rightarrow>
          if containerID = '''' then ([], s)
          else case inspectContainer E containerID s of
              (Inl e, s1) \<Rightarrow> ([e], s1)
            | (Inr (ownedID, exists, owned), s1) \<Rightarrow>
                if \<not> exists then ([], s1)
                else if \<not> owned \<or> ownedID \<noteq> containerID then ([ErrContainerOwnership], s1)
                else case docker E [''kill'', containerID] '''' s1 of (a, s2) \<Rightarrow>
                    (if da_err a \<noteq> None \<and> \<not> contains (combinedOutput a) ''is not running'' then [DockerCommandFailed] else [], s2))"

definition removeOwnedContainer :: "'a dockerEnv \<Rightarrow> string \<Rightarrow> ('a, 'z) dockerState_scheme \<Rightarrow> (DockerError + bool) \<times> ('a, 'z) dockerState_scheme" where
  "removeOwnedContainer E reference s =
     (case inspectContainer E reference s of
        (Inl e, s1) \<Rightarrow> (Inl e, s1)
      | (Inr (containerID, exists, owned), s1) \<Rightarrow>
          if \<not> exists then (Inr True, s1)
          else if \<not> owned then (Inl ErrContainerOwnership, s1)
          else case docker E [''rm'', ''-f'', containerID] '''' s1 of (a, s2) \<Rightarrow>
              (if da_err a \<noteq> None \<and> \<not> contains (combinedOutput a) ''No such container'' then Inl DockerCommandFailed else Inr True, s2))"

text \<open>The second half of \<open>removeTrackedContainer\<close>, with the immutable identity known.\<close>

definition removeKnown :: "'a dockerEnv \<Rightarrow> string \<Rightarrow> string \<Rightarrow> ('a, 'z) dockerState_scheme \<Rightarrow> errs \<times> ('a, 'z) dockerState_scheme" where
  "removeKnown E name containerID s =
     (case removeOwnedContainer E containerID s of
        (Inl e, s') \<Rightarrow> ([e], s')
      | (Inr removed, s') \<Rightarrow> ([], if removed then forget name s' else s'))"

definition removeTrackedContainer :: "'a dockerEnv \<Rightarrow> string \<Rightarrow> ('a, 'z) dockerState_scheme \<Rightarrow> errs \<times> ('a, 'z) dockerState_scheme" where
  "removeTrackedContainer E name s =
     (case tracked s name of
        None \<Rightarrow> ([], s)
      | Some containerID \<Rightarrow>
          if containerID \<noteq> '''' then removeKnown E name containerID s
          else case inspectContainer E name s of
              (Inl e, s1) \<Rightarrow> ([e], s1)
            | (Inr (ownedID, exists, owned), s1) \<Rightarrow>
                if \<not> exists then
                  (if name \<in> set (ds_uncertain s1) then ([ErrContainerOutcomeUnknown], s1) else ([], forget name s1))
                else if \<not> owned then ([ErrContainerOwnership], forget name s1)
                else removeKnown E name ownedID (settle name (track name ownedID s1)))"

section \<open>The scan of owned containers\<close>

definition cutTab :: "string \<Rightarrow> (string \<times> string) option" where
  "cutTab line = (if CHR 0x09 \<in> set line then Some (takeWhile (\<lambda>c. c \<noteq> CHR 0x09) line, tl (dropWhile (\<lambda>c. c \<noteq> CHR 0x09) line)) else None)"

definition scanArgs :: "'a dockerEnv \<Rightarrow> string list" where
  "scanArgs E = [''ps'', ''-a'', ''--no-trunc'', ''--filter'', ''label=agentdock.owner_token='' @ dx_ownerToken E,
     ''--format'', ''{{.ID}}'' @ [CHR 0x09] @ ''{{.Names}}'']"

text \<open>The deletion of every entry that has the name or the identity of the removed container.\<close>

definition forgetMatching :: "string \<Rightarrow> string \<Rightarrow> ('a, 'z) dockerState_scheme \<Rightarrow> ('a, 'z) dockerState_scheme" where
  "forgetMatching name containerID s =
     foldl (\<lambda>s entry. forget (fst entry) s) s (filter (\<lambda>(n, i). n = name \<or> i = containerID) (ds_containers s))"

definition scanLine :: "'a dockerEnv \<Rightarrow> string \<Rightarrow> ('a, 'z) dockerState_scheme \<Rightarrow> errs \<times> ('a, 'z) dockerState_scheme" where
  "scanLine E line s =
     (if line = '''' then ([], s)
      else case cutTab line of
          None \<Rightarrow> ([DockerInvalidOutput], s)
        | Some (containerID, name) \<Rightarrow>
            if \<not> isObjectID containerID \<or> name = '''' then ([DockerInvalidOutput], s)
            else case inspectContainer E containerID s of
                (Inl e, s1) \<Rightarrow> ([e], s1)
              | (Inr (ownedID, exists, owned), s1) \<Rightarrow>
                  if \<not> exists \<or> \<not> owned \<or> ownedID \<noteq> containerID then ([], s1)
                  else case removeOwnedContainer E containerID s1 of
                      (Inl e, s2) \<Rightarrow> ([e], s2)
                    | (Inr removed, s2) \<Rightarrow> if \<not> removed then ([DockerCommandFailed], s2) else ([], forgetMatching name containerID s2))"

fun eachOf :: "('x \<Rightarrow> 's \<Rightarrow> errs \<times> 's) \<Rightarrow> 'x list \<Rightarrow> 's \<Rightarrow> errs \<times> 's" where
  "eachOf f [] s = ([], s)"
| "eachOf f (x # xs) s = (case f x s of (e, s1) \<Rightarrow> case eachOf f xs s1 of (es, s2) \<Rightarrow> (e @ es, s2))"

definition removeProviderOwnedContainers :: "'a dockerEnv \<Rightarrow> ('a, 'z) dockerState_scheme \<Rightarrow> errs \<times> ('a, 'z) dockerState_scheme" where
  "removeProviderOwnedContainers E s =
     (case docker E (scanArgs E) '''' s of (a, s1) \<Rightarrow>
        let c = captured 1048576 (da_writes a);
            output = lb_buffer (cp_stdout c) @ lb_buffer (cp_stderr c) in
        if da_err a \<noteq> None then ([DockerCommandFailed], s1)
        else if ob_truncated (cp_budget c) then ([DockerInvalidOutput], s1)
        else eachOf (scanLine E) (split_at (CHR 0x0A) '''' (TrimSpace output)) s1)"

section \<open>After a failed creation\<close>

text \<open>\<open>attempts\<close> inspections by name; the delays between them have no effect on the state.\<close>

fun reinspect :: "'a dockerEnv \<Rightarrow> nat \<Rightarrow> string \<Rightarrow> ('a, 'z) dockerState_scheme \<Rightarrow> errs \<times> ('a, 'z) dockerState_scheme" where
  "reinspect E 0 name s = ([ErrContainerOutcomeUnknown], s)"
| "reinspect E (Suc attempts) name s =
     (case inspectContainer E name s of
        (Inl e, s1) \<Rightarrow> ([e], s1)
      | (Inr (containerID, exists, owned), s1) \<Rightarrow>
          if exists then
            (if \<not> owned then ([ErrContainerOwnership], forget name s1)
             else removeTrackedContainer E name (settle name (track name containerID s1)))
          else reinspect E attempts name s1)"

definition cleanupFailedCreate :: "'a dockerEnv \<Rightarrow> string \<Rightarrow> ('a, 'z) dockerState_scheme \<Rightarrow> errs \<times> ('a, 'z) dockerState_scheme" where
  "cleanupFailedCreate E name s = reinspect E 5 name s"


end
