(* ===== verification/Docker_Sandbox.thy ===== *)
theory Docker_Sandbox
  imports Docker_Containers
begin

unbundle bit_operations_syntax

text \<open>
  The Docker sandbox of \<open>src/internal/sandbox/docker.go\<close>: execution of one command in a fresh container
  with its audit, the destruction of the sandbox, the hiding of the Git pointer of the worktree and the
  creation of a sandbox by its provider. The worktree is an interface in the source and a state with a
  destroy operation here. Every file-system call may fail; a write that fails may have replaced the
  content by a part of the new one.
\<close>

section \<open>State\<close>

datatype FileFault = FileRefused | FilePartial nat

record ('a, 't) sandboxEnv =
  sx_docker :: "'a dockerEnv"
  sx_files :: "nat \<Rightarrow> FileFault option"
  sx_worktreeDestroy :: "'t \<Rightarrow> bool \<times> 't"

text \<open>\<open>pf_regular\<close>, content and permission bits of the file \<open>.git\<close> of the workspace.\<close>

record pointerFile =
  pf_regular :: bool
  pf_content :: string
  pf_mode :: int

record ('a, 't) sandboxState = "'a dockerState" +
  ds_pointerFile :: "pointerFile option"
  ds_rootMode :: int
  ds_fileCalls :: nat
  ds_gitPointer :: "string option"
  ds_worktree :: 't

section \<open>Audit\<close>

definition auditD :: "('a, 't) sandboxEnv \<Rightarrow> AuditEvent \<Rightarrow> ('a, 't) sandboxState \<Rightarrow> errs \<times> ('a, 't) sandboxState" where
  "auditD X event s =
     (case dx_record (sx_docker X) event (ds_audit s) of
        (r, a) \<Rightarrow> ((case r of Inl e \<Rightarrow> [DockerAudit e] | Inr _ \<Rightarrow> []), s\<lparr>ds_audit := a\<rparr>))"

definition sandboxEvent :: "('a, 't) sandboxEnv \<Rightarrow> AuditKind \<Rightarrow> string \<Rightarrow> AuditEvent" where
  "sandboxEvent X kind reason =
     (let E = sx_docker X; c = dx_config E in
      (AuditEvent_zero kind)\<lparr>ae_RunID := sc_RunID (dx_scope E), ae_AttemptID := sc_AttemptID (dx_scope E), ae_Reason := reason,
        ae_ImageID := dc_Image c, ae_CPU := dc_CPU c, ae_Memory := dc_Memory c, ae_PIDs := dc_PIDs c\<rparr>)"

definition executionAuditEvent :: "('a, 't) sandboxEnv \<Rightarrow> AuditKind \<Rightarrow> SandboxRequest \<Rightarrow> int \<Rightarrow> int \<Rightarrow> string \<Rightarrow> AuditEvent" where
  "executionAuditEvent X kind request timeout outputLimit reason =
     (sandboxEvent X kind reason)\<lparr>ae_ToolName := sq_ToolName request, ae_ContractVersion := sq_ContractVersion request,
        ae_TimeoutMillis := Milliseconds timeout, ae_OutputLimit := outputLimit\<rparr>"

definition recordDenied :: "('a, 't) sandboxEnv \<Rightarrow> SandboxRequest \<Rightarrow> DockerError \<Rightarrow> ('a, 't) sandboxState \<Rightarrow> errs \<times> ('a, 't) sandboxState" where
  "recordDenied X request cause s =
     (let c = dx_config (sx_docker X);
          reason = (if cause = DockerDestroyed then ''sandbox execution request rejected because Sandbox destruction started''
                    else ''sandbox execution request rejected by fixed command or environment boundary'') in
      case auditD X (executionAuditEvent X AuditPolicyDenied request (dc_CommandTimeout c) (dc_OutputLimit c) reason) s of
        (auditErr, s') \<Rightarrow> (cause # auditErr, s'))"

definition recordTruncation :: "('a, 't) sandboxEnv \<Rightarrow> SandboxRequest \<Rightarrow> int \<Rightarrow> int \<Rightarrow> ('a, 't) sandboxState \<Rightarrow> errs \<times> ('a, 't) sandboxState" where
  "recordTruncation X request outputBytes outputLimit =
     auditD X ((sandboxEvent X AuditOutputTruncated ''combined stdout and stderr exceeded configured limit'')
       \<lparr>ae_ToolName := sq_ToolName request, ae_ContractVersion := sq_ContractVersion request, ae_OutputBytes := outputBytes,
        ae_OutputLimit := outputLimit\<rparr>)"

definition recordContainerCleanupFailure :: "('a, 't) sandboxEnv \<Rightarrow> SandboxRequest \<Rightarrow> int \<Rightarrow> int \<Rightarrow> ('a, 't) sandboxState
    \<Rightarrow> errs \<times> ('a, 't) sandboxState" where
  "recordContainerCleanupFailure X request timeout outputLimit =
     auditD X (executionAuditEvent X AuditExecutionFailed request timeout outputLimit
       ''owned-container cleanup failed; container remains tracked for Destroy retry'')"

definition recordDestroy :: "('a, 't) sandboxEnv \<Rightarrow> ('a, 't) sandboxState \<Rightarrow> errs \<times> ('a, 't) sandboxState" where
  "recordDestroy X s =
     (case auditD X (sandboxEvent X AuditSandboxDestroyed ''container set and disposable worktree removed'') s of
        (e, s') \<Rightarrow> if e \<noteq> [] then (e, s') else ([], s'\<lparr>ds_destroyAudited := True\<rparr>))"

definition recordDestroyFailed :: "('a, 't) sandboxEnv \<Rightarrow> errs \<Rightarrow> ('a, 't) sandboxState \<Rightarrow> errs \<times> ('a, 't) sandboxState" where
  "recordDestroyFailed X cause =
     auditD X (sandboxEvent X AuditSandboxDestroyFailed
       (if ErrContainerOutcomeUnknown \<in> set cause
        then ''Docker create outcome remains unknown; Sandbox owner and worktree retained for explicit retry''
        else ''sandbox cleanup failed and may be retried''))"

section \<open>Execution\<close>

definition helperCommands :: "string list" where
  "helperCommands = [''list'', ''read'', ''search'', ''apply-patch'', ''test'', ''probe'', ''cleanup'']"

definition validateContainerCommand :: "string list \<Rightarrow> bool" where
  "validateContainerCommand command =
     (case command of program # sub # _ \<Rightarrow> program = helper \<and> sub \<in> set helperCommands | _ \<Rightarrow> False)"

definition validateEnvironment :: "'a dockerEnv \<Rightarrow> (string \<times> string) list \<Rightarrow> bool" where
  "validateEnvironment E environment =
     list_all (\<lambda>(key, _). key \<notin> set (map fst fixedEnvironment) \<and> key \<in> set (dc_EnvAllowlist (dx_config E))) environment"

definition clamp :: "int \<Rightarrow> int \<Rightarrow> int" where
  "clamp v bound = (if v \<le> 0 \<or> v > bound then bound else v)"

definition nextContainerName :: "('a, 't) sandboxEnv \<Rightarrow> string \<Rightarrow> ('a, 't) sandboxState \<Rightarrow> string \<times> ('a, 't) sandboxState" where
  "nextContainerName X purpose s =
     (let E = sx_docker X; sequence = ds_counter s + 1 in
      (''agentdock-p4-'' @ safeName (sc_RunID (dx_scope E)) @ ''-'' @ safeName (sc_AttemptID (dx_scope E)) @ ''-''
         @ take 12 (dx_ownerToken E) @ ''-'' @ purpose @ ''-'' @ show_nat sequence, s\<lparr>ds_counter := sequence\<rparr>))"

definition result_zero :: SandboxResult where
  "result_zero = \<lparr>sr_Stdout = '''', sr_Stderr = '''', sr_ExitCode = 0, sr_TimedOut = False, sr_Truncated = False\<rparr>"

definition interruptedBeforeStart :: "('a, 't) sandboxEnv \<Rightarrow> SandboxRequest \<Rightarrow> int \<Rightarrow> int \<Rightarrow> ContextError \<Rightarrow> errs \<Rightarrow> ('a, 't) sandboxState
    \<Rightarrow> (SandboxResult \<times> errs) \<times> ('a, 't) sandboxState" where
  "interruptedBeforeStart X request timeout outputLimit cause provisioningErr s =
     (case cause of
        ContextCanceled \<Rightarrow>
          (case auditD X (executionAuditEvent X AuditExecutionCanceled request timeout outputLimit
                   ''caller canceled before the owned container started'') s of
             (auditErr, s') \<Rightarrow> ((result_zero, DockerCanceled # provisioningErr @ auditErr), s'))
      | ContextDeadline \<Rightarrow>
          (case auditD X (executionAuditEvent X AuditExecutionTimedOut request timeout outputLimit
                   ''caller deadline expired before the owned container started'') s of
             (auditErr, s') \<Rightarrow> ((result_zero\<lparr>sr_TimedOut := True\<rparr>, DockerTimeout # provisioningErr @ auditErr), s')))"

definition exitCode :: "DockerError + CommandError option \<Rightarrow> int" where
  "exitCode r = (case r of Inr None \<Rightarrow> 0 | Inr (Some (ExitStatus n)) \<Rightarrow> n | _ \<Rightarrow> - 1)"

definition startError :: "DockerError + CommandError option \<Rightarrow> errs" where
  "startError r = (case r of Inl e \<Rightarrow> [e] | Inr None \<Rightarrow> [] | Inr (Some _) \<Rightarrow> [DockerCommandFailed])"

text \<open>The branches of an expired or cancelled context: the container is killed and removed.\<close>

definition terminateContainer :: "('a, 't) sandboxEnv \<Rightarrow> SandboxRequest \<Rightarrow> string \<Rightarrow> int \<Rightarrow> int \<Rightarrow> int \<Rightarrow> SandboxResult \<Rightarrow> AuditKind \<Rightarrow> string
    \<Rightarrow> DockerError \<Rightarrow> ('a, 't) sandboxState \<Rightarrow> (SandboxResult \<times> errs) \<times> ('a, 't) sandboxState" where
  "terminateContainer X request name timeout limit outputBytes result kind reason cause s =
     (case killTrackedContainer (sx_docker X) name s of (killErr, s1) \<Rightarrow>
      case removeTrackedContainer (sx_docker X) name s1 of (removeErr, s2) \<Rightarrow>
      case auditD X ((executionAuditEvent X kind request timeout limit reason)\<lparr>ae_OutputBytes := outputBytes\<rparr>) s2 of (audit1, s3) \<Rightarrow>
      case (if sr_Truncated result then recordTruncation X request outputBytes limit s3 else ([], s3)) of (audit2, s4) \<Rightarrow>
      case (if removeErr \<noteq> [] then recordContainerCleanupFailure X request timeout limit s4 else ([], s4)) of (audit3, s5) \<Rightarrow>
        ((result, cause # killErr @ removeErr @ audit1 @ audit2 @ audit3), s5))"

text \<open>The branch of a command that ran to its end.\<close>

definition finishContainer :: "('a, 't) sandboxEnv \<Rightarrow> SandboxRequest \<Rightarrow> string \<Rightarrow> int \<Rightarrow> int \<Rightarrow> int \<Rightarrow> SandboxResult \<Rightarrow> errs
    \<Rightarrow> ('a, 't) sandboxState \<Rightarrow> (SandboxResult \<times> errs) \<times> ('a, 't) sandboxState" where
  "finishContainer X request name timeout limit outputBytes result startErr s =
     (case removeTrackedContainer (sx_docker X) name s of (removeErr, s1) \<Rightarrow>
      case (if sr_Truncated result then recordTruncation X request outputBytes limit s1 else ([], s1)) of (truncationErr, s2) \<Rightarrow>
        if startErr \<noteq> [] then
          (case auditD X ((executionAuditEvent X AuditExecutionFailed request timeout limit ''container command returned non-zero'')
                  \<lparr>ae_ExitCode := sr_ExitCode result, ae_OutputBytes := outputBytes\<rparr>) s2 of (audit1, s3) \<Rightarrow>
           case (if removeErr \<noteq> [] then recordContainerCleanupFailure X request timeout limit s3 else ([], s3)) of (audit2, s4) \<Rightarrow>
             ((result, DockerExit (sr_ExitCode result) # startErr @ removeErr @ truncationErr @ audit1 @ audit2), s4))
        else if removeErr \<noteq> [] then
          (case auditD X (executionAuditEvent X AuditExecutionFailed request timeout limit
                  ''container command completed but owned-container cleanup failed'') s2 of
             (auditErr, s3) \<Rightarrow> ((result, removeErr @ truncationErr @ auditErr), s3))
        else if truncationErr \<noteq> [] then ((result, truncationErr), s2)
        else case auditD X ((executionAuditEvent X AuditExecutionCompleted request timeout limit '''')\<lparr>ae_OutputBytes := outputBytes\<rparr>) s2 of
            (auditErr, s3) \<Rightarrow> ((result, auditErr), s3))"

definition runContainer :: "('a, 't) sandboxEnv \<Rightarrow> SandboxRequest \<Rightarrow> string \<Rightarrow> string \<Rightarrow> int \<Rightarrow> int \<Rightarrow> ('a, 't) sandboxState
    \<Rightarrow> (SandboxResult \<times> errs) \<times> ('a, 't) sandboxState" where
  "runContainer X request name containerID timeout limit s =
     (case startOwnedContainer (sx_docker X) containerID (sq_Stdin request) s of ((started, ws), s1) \<Rightarrow>
        let c = captured limit ws;
            result = \<lparr>sr_Stdout = lb_buffer (cp_stdout c), sr_Stderr = lb_buffer (cp_stderr c), sr_ExitCode = exitCode started,
              sr_TimedOut = False, sr_Truncated = ob_truncated (cp_budget c)\<rparr>;
            outputBytes = ob_total (cp_budget c) in
        case dx_context (sx_docker X) (ds_history s1) of
          Some ContextDeadline \<Rightarrow>
            terminateContainer X request name timeout limit outputBytes (result\<lparr>sr_TimedOut := True\<rparr>) AuditExecutionTimedOut
              ''command deadline exceeded; owned container termination was requested'' DockerTimeout s1
        | Some ContextCanceled \<Rightarrow>
            terminateContainer X request name timeout limit outputBytes result AuditExecutionCanceled
              ''caller canceled command; owned container termination was requested'' DockerCanceled s1
        | None \<Rightarrow> finishContainer X request name timeout limit outputBytes result (startError started) s1)"

definition docker_Execute :: "('a, 't) sandboxEnv \<Rightarrow> SandboxRequest \<Rightarrow> ('a, 't) sandboxState \<Rightarrow> (SandboxResult \<times> errs) \<times> ('a, 't) sandboxState" where
  "docker_Execute X request s =
     (let E = sx_docker X; denied = (\<lambda>cause. case recordDenied X request cause s of (e, s') \<Rightarrow> ((result_zero, e), s')) in
      if ds_destroyed s \<or> ds_destroying s \<or> ds_provisioningFailed s then denied DockerDestroyed
      else if \<not> validateContainerCommand (sq_Command request) then denied DockerNotAllowed
      else if \<not> validateEnvironment E (sq_Environment request) then denied DockerNotAllowed
      else let timeout = clamp (sq_Timeout request) (dc_CommandTimeout (dx_config E));
               limit = clamp (sq_OutputLimit request) (dc_OutputLimit (dx_config E)) in
        case dx_context E (ds_history s) of
          Some ctxErr \<Rightarrow> interruptedBeforeStart X request timeout limit ctxErr [] s
        | None \<Rightarrow>
            (case nextContainerName X ''exec'' s of (name, s0) \<Rightarrow>
             case createContainer E name request (track name '''' s0) of
               (Inl e, s1) \<Rightarrow>
                 (case cleanupFailedCreate E name (markContainerCreateUnknown name s1) of (cleanupErr, s2) \<Rightarrow>
                  case dx_context E (ds_history s2) of
                    Some ctxErr \<Rightarrow> interruptedBeforeStart X request timeout limit ctxErr (e # cleanupErr) s2
                  | None \<Rightarrow>
                      (case auditD X (executionAuditEvent X AuditExecutionFailed request timeout limit ''Docker container creation failed'') s2 of
                         (auditErr, s3) \<Rightarrow> ((result_zero, e # cleanupErr @ auditErr), s3)))
             | (Inr containerID, s1) \<Rightarrow>
                 runContainer X request name containerID timeout limit (settle name (track name containerID s1))))"

section \<open>The Git pointer\<close>

definition sanitizedGitPointer :: string where
  "sanitizedGitPointer = ''gitdir: /agentdock/not-mounted'' @ [CHR 0x0A]"

definition fileCall :: "('a, 't) sandboxEnv \<Rightarrow> ('a, 't) sandboxState \<Rightarrow> FileFault option \<times> ('a, 't) sandboxState" where
  "fileCall X s = (sx_files X (ds_fileCalls s), s\<lparr>ds_fileCalls := ds_fileCalls s + 1\<rparr>)"

text \<open>
  \<open>os.WriteFile\<close> on the pointer: a new file gets the given permission bits, an existing one keeps its own.
  \<open>os.Chmod\<close> and the calls that only read fail without an effect. The octal modes 0444 and 0600 are 292
  and 384.
\<close>

definition writePointer :: "('a, 't) sandboxEnv \<Rightarrow> string \<Rightarrow> int \<Rightarrow> ('a, 't) sandboxState \<Rightarrow> errs \<times> ('a, 't) sandboxState" where
  "writePointer X content mode s =
     (let old = (case ds_pointerFile s of None \<Rightarrow> \<lparr>pf_regular = True, pf_content = '''', pf_mode = mode\<rparr> | Some f \<Rightarrow> f) in
      case fileCall X s of
        (None, s') \<Rightarrow> ([], s'\<lparr>ds_pointerFile := Some (old\<lparr>pf_content := content\<rparr>)\<rparr>)
      | (Some FileRefused, s') \<Rightarrow> ([DockerFiles], s')
      | (Some (FilePartial n), s') \<Rightarrow> ([DockerFiles], s'\<lparr>ds_pointerFile := Some (old\<lparr>pf_content := take n content\<rparr>)\<rparr>))"

definition chmodPointer :: "('a, 't) sandboxEnv \<Rightarrow> int \<Rightarrow> ('a, 't) sandboxState \<Rightarrow> errs \<times> ('a, 't) sandboxState" where
  "chmodPointer X mode s =
     (case (fileCall X s, ds_pointerFile s) of
        ((None, s'), Some f) \<Rightarrow> ([], s'\<lparr>ds_pointerFile := Some (f\<lparr>pf_mode := mode\<rparr>)\<rparr>)
      | ((_, s'), _) \<Rightarrow> ([DockerFiles], s'))"

definition rollbackPointer :: "('a, 't) sandboxEnv \<Rightarrow> string \<Rightarrow> int \<Rightarrow> ('a, 't) sandboxState \<Rightarrow> (errs + string) \<times> ('a, 't) sandboxState" where
  "rollbackPointer X original mode s =
     (case writePointer X original mode s of (writeErr, s1) \<Rightarrow>
      case chmodPointer X mode s1 of (chmodErr, s2) \<Rightarrow> (Inl (DockerFiles # writeErr @ chmodErr), s2))"

definition protectRoot :: "('a, 't) sandboxEnv \<Rightarrow> ('a, 't) sandboxState \<Rightarrow> bool \<times> ('a, 't) sandboxState" where
  "protectRoot X s =
     (case fileCall X s of
        (Some _, s1) \<Rightarrow> (False, s1)
      | (None, s1) \<Rightarrow>
          (case fileCall X s1 of
             (Some _, s2) \<Rightarrow> (False, s2)
           | (None, s2) \<Rightarrow> (True, s2\<lparr>ds_rootMode := ds_rootMode s2 OR 7\<rparr>)))"

definition hideWorktreeGitPointer :: "('a, 't) sandboxEnv \<Rightarrow> ('a, 't) sandboxState \<Rightarrow> (errs + string) \<times> ('a, 't) sandboxState" where
  "hideWorktreeGitPointer X s =
     (case (fileCall X s, ds_pointerFile s) of
        ((None, s1), Some f) \<Rightarrow>
          if \<not> pf_regular f then (Inl [DockerFiles], s1)
          else (case fileCall X s1 of
              (Some _, s2) \<Rightarrow> (Inl [DockerFiles], s2)
            | (None, s2) \<Rightarrow>
                (case writePointer X sanitizedGitPointer 292 s2 of
                   (e # es, s3) \<Rightarrow> (Inl (e # es), s3)
                 | ([], s3) \<Rightarrow>
                     (case chmodPointer X 292 s3 of
                        (e # es, s4) \<Rightarrow> rollbackPointer X (pf_content f) (pf_mode f) s4
                      | ([], s4) \<Rightarrow>
                          (case protectRoot X s4 of
                             (False, s5) \<Rightarrow> rollbackPointer X (pf_content f) (pf_mode f) s5
                           | (True, s5) \<Rightarrow> (Inr (pf_content f), s5)))))
      | ((_, s1), _) \<Rightarrow> (Inl [DockerFiles], s1))"

definition restoreWorktreeGitPointer :: "('a, 't) sandboxEnv \<Rightarrow> string \<Rightarrow> ('a, 't) sandboxState \<Rightarrow> errs \<times> ('a, 't) sandboxState" where
  "restoreWorktreeGitPointer X original s =
     (case chmodPointer X 384 s of
        (e # es, s1) \<Rightarrow> (e # es, s1)
      | ([], s1) \<Rightarrow> writePointer X original 384 s1)"

section \<open>Destruction\<close>

definition cleanupRequest :: SandboxRequest where
  "cleanupRequest = \<lparr>sq_Command = [helper, ''cleanup''], sq_Stdin = '''', sq_Environment = [], sq_Timeout = 0, sq_OutputLimit = 0,
     sq_ToolName = '''', sq_ContractVersion = ''''\<rparr>"

definition cleanupWorkspace :: "('a, 't) sandboxEnv \<Rightarrow> ('a, 't) sandboxState \<Rightarrow> errs \<times> ('a, 't) sandboxState" where
  "cleanupWorkspace X s =
     (let E = sx_docker X in
      case nextContainerName X ''cleanup'' s of (name, s0) \<Rightarrow>
      case createContainer E name cleanupRequest (track name '''' s0) of
        (Inl e, s1) \<Rightarrow>
          (case cleanupFailedCreate E name (markContainerCreateUnknown name s1) of (cleanupErr, s2) \<Rightarrow> (e # cleanupErr, s2))
      | (Inr containerID, s1) \<Rightarrow>
          (case startOwnedContainer E containerID '''' (settle name (track name containerID s1)) of ((started, _), s2) \<Rightarrow>
           case removeTrackedContainer E name s2 of (removeErr, s3) \<Rightarrow> (startError started @ removeErr, s3)))"

definition killAndRemove :: "'a dockerEnv \<Rightarrow> string \<Rightarrow> ('a, 'z) dockerState_scheme \<Rightarrow> errs \<times> ('a, 'z) dockerState_scheme" where
  "killAndRemove E name s =
     (case killTrackedContainer E name s of (killErr, s1) \<Rightarrow>
      case removeTrackedContainer E name s1 of (removeErr, s2) \<Rightarrow>
        (killErr @ (if ErrContainerOutcomeUnknown \<in> set removeErr then [] else removeErr), s2))"

text \<open>The containers of a sandbox: those tracked, those the scan finds, and the rest once more.\<close>

definition removeContainers :: "'a dockerEnv \<Rightarrow> ('a, 'z) dockerState_scheme \<Rightarrow> errs \<times> ('a, 'z) dockerState_scheme" where
  "removeContainers E s =
     (case eachOf (killAndRemove E) (dx_order E (map fst (ds_containers s))) s of (e1, s1) \<Rightarrow>
      case removeProviderOwnedContainers E s1 of (e2, s2) \<Rightarrow>
      case eachOf (removeTrackedContainer E) (dx_order E (map fst (ds_containers s2))) s2 of (e3, s3) \<Rightarrow> (e1 @ e2 @ e3, s3))"

definition restorePointer :: "('a, 't) sandboxEnv \<Rightarrow> ('a, 't) sandboxState \<Rightarrow> errs \<times> ('a, 't) sandboxState" where
  "restorePointer X s = (case ds_gitPointer s of None \<Rightarrow> ([], s) | Some original \<Rightarrow> restoreWorktreeGitPointer X original s)"

definition hideAgain :: "('a, 't) sandboxEnv \<Rightarrow> ('a, 't) sandboxState \<Rightarrow> errs \<times> ('a, 't) sandboxState" where
  "hideAgain X s =
     (case ds_gitPointer s of
        None \<Rightarrow> ([], s)
      | Some _ \<Rightarrow> (case hideWorktreeGitPointer X s of (r, s') \<Rightarrow> ((case r of Inl e \<Rightarrow> e | Inr _ \<Rightarrow> []), s')))"

definition forgetProviderOwnership :: "('a, 't) sandboxState \<Rightarrow> ('a, 't) sandboxState" where
  "forgetProviderOwnership s = s\<lparr>ds_owned := False\<rparr>"

text \<open>The audit of the end of the sandbox; ownership is given up only once it is recorded.\<close>

definition auditedEnd :: "('a, 't) sandboxEnv \<Rightarrow> ('a, 't) sandboxState \<Rightarrow> errs \<times> ('a, 't) sandboxState" where
  "auditedEnd X s = (case recordDestroy X s of (e, s') \<Rightarrow> if e = [] then ([], forgetProviderOwnership s') else (e, s'))"

definition removeWorktree :: "('a, 't) sandboxEnv \<Rightarrow> ('a, 't) sandboxState \<Rightarrow> errs \<times> ('a, 't) sandboxState" where
  "removeWorktree X s =
     (case restorePointer X s of (restoreErr, s1) \<Rightarrow>
      case sx_worktreeDestroy X (ds_worktree s1) of
        (True, t) \<Rightarrow> (case auditedEnd X (s1\<lparr>ds_worktree := t, ds_destroyed := True\<rparr>) of (auditErr, s2) \<Rightarrow> (restoreErr @ auditErr, s2))
      | (False, t) \<Rightarrow> (case hideAgain X (s1\<lparr>ds_worktree := t\<rparr>) of (sanitizeErr, s2) \<Rightarrow> (restoreErr @ DockerWorktree # sanitizeErr, s2)))"

definition destroySteps :: "('a, 't) sandboxEnv \<Rightarrow> ('a, 't) sandboxState \<Rightarrow> errs \<times> ('a, 't) sandboxState" where
  "destroySteps X s =
     (case removeContainers (sx_docker X) (s\<lparr>ds_destroying := True\<rparr>) of (containerErr, s1) \<Rightarrow>
        if containerErr \<noteq> [] \<or> ds_containers s1 \<noteq> [] then
          (if containerErr = [] then [ErrContainerOutcomeUnknown] else containerErr, s1)
        else if ds_provisioningFailed s1 then removeWorktree X s1
        else case cleanupWorkspace X s1 of
            (e # es, s2) \<Rightarrow> (e # es, s2)
          | ([], s2) \<Rightarrow> removeWorktree X s2)"

definition docker_Destroy :: "('a, 't) sandboxEnv \<Rightarrow> ('a, 't) sandboxState \<Rightarrow> errs \<times> ('a, 't) sandboxState" where
  "docker_Destroy X s =
     (if ds_destroyed s then
        (if ds_destroyAudited s then ([], forgetProviderOwnership s) else auditedEnd X s)
      else case destroySteps X s of (e, s1) \<Rightarrow>
        if e \<noteq> [] \<and> \<not> ds_destroyed s1
        then (case recordDestroyFailed X e s1 of (auditErr, s2) \<Rightarrow> (e @ auditErr, s2))
        else (e, s1))"

section \<open>Provisioning\<close>

text \<open>\<open>strconv.ParseFloat\<close> of the CPU limit is a parameter, given as whether the value is positive and finite.\<close>

definition parseUint :: "string \<Rightarrow> int option" where
  "parseUint s = (if s = '''' \<or> \<not> list_all is_digit s then None
     else let n = foldl (\<lambda>n c. 10 * n + (of_char c - 48)) 0 s in if n < 18446744073709551616 then Some n else None)"

definition validateDockerConfig :: "(string \<Rightarrow> bool) \<Rightarrow> DockerConfig \<Rightarrow> bool" where
  "validateDockerConfig cpuValid config =
     (cpuValid (dc_CPU config)
      \<and> (let memory = ToLower (dc_Memory config);
             number = (if memory \<noteq> '''' \<and> last memory \<in> set ''bkmg'' then butlast memory else memory) in
         memory \<noteq> '''' \<and> (case parseUint number of None \<Rightarrow> False | Some v \<Rightarrow> v \<noteq> 0))
      \<and> dc_PIDs config > 0 \<and> dc_CommandTimeout config > 0 \<and> dc_OutputLimit config > 0)"

definition NewDockerProvider :: "DockerConfig \<Rightarrow> DockerConfig" where
  "NewDockerProvider config = config\<lparr>
     dc_Image := (if dc_Image config = '''' then ''agentdock-sandbox:phase4'' else dc_Image config),
     dc_CPU := (if dc_CPU config = '''' then ''1'' else dc_CPU config),
     dc_Memory := (if dc_Memory config = '''' then ''512m'' else dc_Memory config),
     dc_PIDs := (if dc_PIDs config = 0 then 128 else dc_PIDs config),
     dc_CommandTimeout := (if dc_CommandTimeout config = 0 then 60000000000 else dc_CommandTimeout config),
     dc_OutputLimit := (if dc_OutputLimit config = 0 then 1048576 else dc_OutputLimit config)\<rparr>"

definition resolveImage :: "DockerAnswer \<Rightarrow> string option" where
  "resolveImage a =
     (if da_err a \<noteq> None then None
      else let imageID = TrimSpace (combinedOutput a) in
        if has_prefix imageID ''sha256:'' \<and> length imageID = 71 then Some imageID else None)"

text \<open>
  \<open>prepareWorkspacePermissions\<close> visits the entries of the workspace with their permission bits; \<open>fails\<close>
  tells the visits at which the walk, the file information or the change of the mode fails.
\<close>

datatype EntryKind = EntryDir | EntryRegular | EntrySymlink | EntryOther

definition preparedMode :: "EntryKind \<Rightarrow> int \<Rightarrow> int" where
  "preparedMode kind mode = (case kind of EntryDir \<Rightarrow> mode OR 7 | EntryRegular \<Rightarrow> mode OR 6 | _ \<Rightarrow> mode)"

fun prepareWorkspacePermissions :: "(nat \<Rightarrow> bool) \<Rightarrow> nat \<Rightarrow> (EntryKind \<times> int) list \<Rightarrow> bool \<times> (EntryKind \<times> int) list" where
  "prepareWorkspacePermissions fails n [] = (True, [])"
| "prepareWorkspacePermissions fails n ((kind, mode) # entries) =
     (if fails n then (False, (kind, mode) # entries)
      else case prepareWorkspacePermissions fails (n + 1) entries of (ok, rest) \<Rightarrow> (ok, (kind, preparedMode kind mode) # rest))"

text \<open>
  A failure after the worktree exists destroys what was made; the first result says whether the caller
  gets the sandbox, which is so after a failure only when the destruction failed too.
\<close>

definition recordCreateFailed :: "('a, 't) sandboxEnv \<Rightarrow> string \<Rightarrow> errs \<Rightarrow> ('a, 't) sandboxState \<Rightarrow> errs \<times> ('a, 't) sandboxState" where
  "recordCreateFailed X stage cause s =
     (case auditD X (sandboxEvent X AuditSandboxCreateFailed (''sandbox provisioning failed during '' @ stage)) s of
        (auditErr, s') \<Rightarrow> (cause @ auditErr, s'))"

definition failProvisioning :: "('a, 't) sandboxEnv \<Rightarrow> string \<Rightarrow> errs \<Rightarrow> ('a, 't) sandboxState \<Rightarrow> (bool \<times> errs) \<times> ('a, 't) sandboxState" where
  "failProvisioning X stage cause s =
     (case docker_Destroy X s of (cleanupErr, s1) \<Rightarrow>
      case recordCreateFailed X stage (cause @ cleanupErr) s1 of (reported, s2) \<Rightarrow> ((cleanupErr \<noteq> [], reported), s2))"

definition newPendingSandbox :: "nat \<Rightarrow> history \<Rightarrow> 'a \<Rightarrow> pointerFile option \<Rightarrow> int \<Rightarrow> 't \<Rightarrow> ('a, 't) sandboxState" where
  "newPendingSandbox counter h recorded pointer rootMode t =
     \<lparr>ds_containers = [], ds_uncertain = [], ds_provisioningFailed = True, ds_destroying = False, ds_destroyed = False,
      ds_destroyAudited = False, ds_owned = True, ds_counter = counter, ds_history = h, ds_audit = recorded,
      ds_pointerFile = pointer, ds_rootMode = rootMode, ds_fileCalls = 0, ds_gitPointer = None, ds_worktree = t\<rparr>"

definition provision :: "('a, 't) sandboxEnv \<Rightarrow> bool \<Rightarrow> ('a, 't) sandboxState \<Rightarrow> (bool \<times> errs) \<times> ('a, 't) sandboxState" where
  "provision X prepared s =
     (if \<not> prepared then failProvisioning X ''workspace permission setup'' [DockerFiles] s
      else case hideWorktreeGitPointer X s of
          (Inl e, s1) \<Rightarrow> failProvisioning X ''Git pointer sanitization'' e s1
        | (Inr original, s1) \<Rightarrow>
            let s2 = s1\<lparr>ds_gitPointer := Some original\<rparr> in
            case auditD X (sandboxEvent X AuditSandboxCreated ''disposable worktree provisioned; no execution container started'') s2 of
              (e # es, s3) \<Rightarrow> failProvisioning X ''sandbox_created audit'' (e # es) s3
            | ([], s3) \<Rightarrow> ((True, []), s3\<lparr>ds_provisioningFailed := False\<rparr>))"


text \<open>
  \<open>Create\<close> of the provider. \<open>X\<close> is the environment of the sandbox but for the image and the owner token,
  \<open>token\<close> the new owner token (\<open>None\<close>: generating one failed), \<open>worktree\<close> the worktree handle and whether
  creating it succeeded, \<open>prepared\<close> the result of preparing the permissions.
\<close>

datatype ('a, 't) creation =
    NotCreated errs history 'a
  | Created "('a, 't) sandboxEnv" "('a, 't) sandboxState" bool errs

definition createFailed :: "('a, 't) sandboxEnv \<Rightarrow> string \<Rightarrow> string \<Rightarrow> DockerError \<Rightarrow> history \<Rightarrow> 'a \<Rightarrow> ('a, 't) creation" where
  "createFailed X stage imageID cause h a =
     (case dx_record (sx_docker X) ((sandboxEvent X AuditSandboxCreateFailed (''sandbox provisioning failed during '' @ stage))
             \<lparr>ae_ImageID := imageID\<rparr>) a of
        (r, a') \<Rightarrow> NotCreated (cause # (case r of Inl e \<Rightarrow> [DockerAudit e] | Inr _ \<Rightarrow> [])) h a')"

definition imageArgs :: "string \<Rightarrow> string list" where
  "imageArgs reference = [''image'', ''inspect'', ''--format'', ''{{.Id}}'', reference]"

definition docker_Create :: "('a, 't) sandboxEnv \<Rightarrow> (string \<Rightarrow> bool) \<Rightarrow> string option \<Rightarrow> 't option \<times> bool \<Rightarrow> bool \<Rightarrow> pointerFile option \<Rightarrow> int
    \<Rightarrow> nat \<Rightarrow> history \<Rightarrow> 'a \<Rightarrow> ('a, 't) creation" where
  "docker_Create X cpuValid token worktree prepared pointer rootMode counter h a =
     (let E = sx_docker X in
      if \<not> validateDockerConfig cpuValid (dx_config E) then createFailed X ''configuration validation'' '''' DockerConfigInvalid h a
      else let c = \<lparr>cm_args = imageArgs (dc_Image (dx_config E)), cm_stdin = ''''\<rparr>; answer = dx_daemon E h c; h1 = h @ [(c, answer)] in
        case resolveImage answer of
          None \<Rightarrow> createFailed X ''immutable image resolution'' '''' DockerCommandFailed h1 a
        | Some imageID \<Rightarrow>
            (case token of
               None \<Rightarrow> createFailed X ''owner token generation'' imageID DockerFiles h1 a
             | Some ownerToken \<Rightarrow>
                 (let X' = X\<lparr>sx_docker := E\<lparr>dx_config := (dx_config E)\<lparr>dc_Image := imageID\<rparr>, dx_ownerToken := ownerToken\<rparr>\<rparr> in
                  case worktree of
                    (None, _) \<Rightarrow> createFailed X' ''disposable worktree creation'' imageID DockerWorktree h1 a
                  | (Some t, ok) \<Rightarrow>
                      (let s = newPendingSandbox counter h1 a pointer rootMode t in
                       if \<not> ok then
                         (case recordCreateFailed X' ''disposable worktree creation'' [DockerWorktree] s of
                            (e, s') \<Rightarrow> Created X' s' True e)
                       else case provision X' prepared s of ((handle, e), s') \<Rightarrow> Created X' s' handle e))))"

end
