(* ===== verification/Docker_Boundary.thy ===== *)
theory Docker_Boundary
  imports Docker_Sandbox
begin

text \<open>
  The boundary of a container: the environment it is created with, and the Git pointer of the workspace,
  which is hidden before the first container and restored before the worktree is removed.
\<close>

section \<open>Environment\<close>

definition environmentKeys :: "(string \<times> string) list \<Rightarrow> string list" where
  "environmentKeys environment = remdups_adj (sort (map fst fixedEnvironment @ map fst environment))"

definition environmentPairs :: "(string \<times> string) list \<Rightarrow> (string \<times> string) list" where
  "environmentPairs environment =
     map (\<lambda>k. (k, case map_of environment k of Some v \<Rightarrow> v | None \<Rightarrow> labelOf fixedEnvironment k)) (environmentKeys environment)"

lemma environment_args: "environmentArgs environment = concat (map (\<lambda>(k, v). [''--env'', k @ ''='' @ v]) (environmentPairs environment))"
  by (simp add: environmentArgs_def environmentPairs_def environmentKeys_def comp_def)

lemma distinct_remdups_adj_sort: "sorted xs \<Longrightarrow> distinct (remdups_adj xs)"
  by (induction xs rule: remdups_adj.induct) (auto simp: antisym)

lemma map_of_pairs: "map_of (map (\<lambda>k. (k, f k)) ks) k = (if k \<in> set ks then Some (f k) else None)"
  by (induction ks) auto

lemma environment_keys:
  "map fst (environmentPairs environment) = environmentKeys environment"
  "set (environmentKeys environment) = fst ` set fixedEnvironment \<union> fst ` set environment"
  "sorted (environmentKeys environment)" "distinct (environmentKeys environment)"
  by (simp_all add: environmentPairs_def environmentKeys_def comp_def sorted_remdups_adj distinct_remdups_adj_sort)

text \<open>
  (C32) The environment of a container, for every request whose environment the sandbox accepts: one
  setting per name in the order of the names, the fixed settings of the sandbox with their fixed values
  whatever the request sets, and otherwise exactly the settings of the request, all of them under names
  of the allow list.
\<close>

theorem container_environment:
  assumes "validateEnvironment E environment"
  shows "\<exists>settings. environmentArgs environment = concat (map (\<lambda>(k, v). [''--env'', k @ ''='' @ v]) settings)
    \<and> sorted (map fst settings) \<and> distinct (map fst settings)
    \<and> map_of settings = map_of environment ++ map_of fixedEnvironment
    \<and> set (map fst settings) \<subseteq> fst ` set fixedEnvironment \<union> set (dc_EnvAllowlist (dx_config E))"
proof (intro exI [of _ "environmentPairs environment"] conjI)
  have allowed: "k \<notin> fst ` set fixedEnvironment \<and> k \<in> set (dc_EnvAllowlist (dx_config E))" if "k \<in> fst ` set environment" for k
    using assms that by (fastforce simp: validateEnvironment_def list_all_iff)
  show "set (map fst (environmentPairs environment)) \<subseteq> fst ` set fixedEnvironment \<union> set (dc_EnvAllowlist (dx_config E))"
    unfolding environment_keys using allowed by blast
  show "map_of (environmentPairs environment) = map_of environment ++ map_of fixedEnvironment"
  proof
    fix k
    have "map_of (environmentPairs environment) k = (if k \<in> set (environmentKeys environment)
        then Some (case map_of environment k of Some v \<Rightarrow> v | None \<Rightarrow> labelOf fixedEnvironment k) else None)"
      by (simp add: environmentPairs_def map_of_pairs)
    also have "\<dots> = (map_of environment ++ map_of fixedEnvironment) k"
    proof (cases "map_of fixedEnvironment k")
      case None
      then have "k \<notin> fst ` set fixedEnvironment" by (simp add: map_of_eq_None_iff)
      moreover have "k \<in> fst ` set environment \<longleftrightarrow> map_of environment k \<noteq> None" by (simp add: map_of_eq_None_iff)
      ultimately show ?thesis using None unfolding environment_keys by (auto simp: map_add_def)
    next
      case (Some v)
      then have "k \<in> fst ` set fixedEnvironment" by (meson domI domIff map_of_eq_None_iff)
      with allowed have "map_of environment k = None" by (auto simp: map_of_eq_None_iff)
      with Some \<open>k \<in> fst ` set fixedEnvironment\<close> show ?thesis unfolding environment_keys by (simp add: labelOf_def)
    qed
    finally show "map_of (environmentPairs environment) k = (map_of environment ++ map_of fixedEnvironment) k" .
  qed
qed (simp_all add: environment_args environment_keys)

definition allowingLocale :: "unit dockerEnv" where
  "allowingLocale = \<lparr>dx_config = \<lparr>dc_Image = '''', dc_CPU = '''', dc_Memory = '''', dc_PIDs = 1, dc_CommandTimeout = 1, dc_OutputLimit = 1,
       dc_EnvAllowlist = [''LANG'']\<rparr>, dx_scope = \<lparr>sc_RunID = '''', sc_AttemptID = ''''\<rparr>, dx_ownerToken = '''', dx_workspace = '''',
     dx_daemon = (\<lambda>_ _. \<lparr>da_err = None, da_writes = []\<rparr>), dx_decode = (\<lambda>_. None), dx_context = (\<lambda>_. None), dx_order = (\<lambda>ns. ns),
     dx_record = (\<lambda>_ a. (Inr (), a))\<rparr>"

theorem container_environment_witness:
  "\<not> validateEnvironment allowingLocale [(''HOME'', ''/'')] \<and> (\<exists>settings. environmentArgs [(''LANG'', ''C'')]
     = concat (map (\<lambda>(k, v). [''--env'', k @ ''='' @ v]) settings) \<and> map_of settings ''LANG'' = Some ''C''
     \<and> map_of settings ''HOME'' = Some ''/workspace/.agentdock/home'')"
proof
  show "\<not> validateEnvironment allowingLocale [(''HOME'', ''/'')]" by code_simp
  have "validateEnvironment allowingLocale [(''LANG'', ''C'')]" by code_simp
  from container_environment [OF this] show "\<exists>settings. environmentArgs [(''LANG'', ''C'')]
     = concat (map (\<lambda>(k, v). [''--env'', k @ ''='' @ v]) settings) \<and> map_of settings ''LANG'' = Some ''C''
     \<and> map_of settings ''HOME'' = Some ''/workspace/.agentdock/home''" by (auto simp: fixedEnvironment_def)
qed

section \<open>The Git pointer\<close>

lemma write_pointer:
  "writePointer X content mode s = ([], s') \<Longrightarrow> ds_pointerFile s = Some f \<Longrightarrow> ds_pointerFile s' = Some (f\<lparr>pf_content := content\<rparr>)"
  by (auto simp: writePointer_def fileCall_def Let_def split: option.splits FileFault.splits)

lemma chmod_pointer:
  "chmodPointer X mode s = ([], s') \<Longrightarrow> ds_pointerFile s = Some f \<Longrightarrow> ds_pointerFile s' = Some (f\<lparr>pf_mode := mode\<rparr>)"
  by (auto simp: chmodPointer_def fileCall_def split: option.splits)

lemma protect_pointer: "protectRoot X s = (b, s') \<Longrightarrow> ds_pointerFile s' = ds_pointerFile s"
  by (auto simp: protectRoot_def fileCall_def split: option.splits)

text \<open>The steps of a hiding that succeeds.\<close>

lemma hide_steps:
  assumes "hideWorktreeGitPointer X s = (Inr original, s')"
  obtains f s2 s3 s4 where "ds_pointerFile s = Some f" "pf_regular f" "original = pf_content f" "ds_pointerFile s2 = Some f"
    "writePointer X sanitizedGitPointer 292 s2 = ([], s3)" "chmodPointer X 292 s3 = ([], s4)" "protectRoot X s4 = (True, s')"
proof -
  let ?s2 = "s\<lparr>ds_fileCalls := ds_fileCalls s + 2\<rparr>"
  obtain e3 s3 where w: "writePointer X sanitizedGitPointer 292 ?s2 = (e3, s3)" by fastforce
  obtain e4 s4 where m: "chmodPointer X 292 s3 = (e4, s4)" by fastforce
  obtain b s5 where r: "protectRoot X s4 = (b, s5)" by fastforce
  have no: "fst (rollbackPointer X content mode t) \<noteq> Inr c" for content mode t c
    by (simp add: rollbackPointer_def split: prod.splits)
  obtain f where f: "ds_pointerFile s = Some f"
    using assms by (cases "ds_pointerFile s") (auto simp: hideWorktreeGitPointer_def fileCall_def split: option.splits)
  have "pf_regular f \<and> original = pf_content f \<and> e3 = [] \<and> e4 = [] \<and> b \<and> s5 = s'"
    using assms f w m r no [THEN notE] by (cases e3; cases e4; cases b)
      (auto simp: hideWorktreeGitPointer_def fileCall_def rollbackPointer_def split: option.splits if_splits prod.splits)
  with that [of f ?s2 s3 s4] f w m r show thesis by simp
qed

text \<open>
  The Git pointer of a workspace: when hiding it succeeds, the pointer was a regular file, it now
  names no repository and is read-only, and what is kept is its content; restoring with what is kept gives
  the pointer its content back, whatever was changed in between in its content and mode.
\<close>

theorem git_pointer_round_trip:
  assumes "hideWorktreeGitPointer X s = (Inr original, s1)"
  shows "\<exists>f. ds_pointerFile s = Some f \<and> pf_regular f
    \<and> ds_pointerFile s1 = Some (f\<lparr>pf_content := sanitizedGitPointer, pf_mode := 292\<rparr>)
    \<and> (\<forall>t u g. ds_pointerFile t = Some g \<and> restoreWorktreeGitPointer X original t = ([], u)
         \<longrightarrow> ds_pointerFile u = Some (g\<lparr>pf_content := pf_content f, pf_mode := 384\<rparr>))"
proof -
  obtain f s2 s3 s4 where h: "ds_pointerFile s = Some f" "pf_regular f" "original = pf_content f" "ds_pointerFile s2 = Some f"
    "writePointer X sanitizedGitPointer 292 s2 = ([], s3)" "chmodPointer X 292 s3 = ([], s4)" "protectRoot X s4 = (True, s1)"
    using hide_steps [OF assms] by blast
  have "ds_pointerFile s1 = Some (f\<lparr>pf_content := sanitizedGitPointer, pf_mode := 292\<rparr>)"
    using chmod_pointer [OF h(6) write_pointer [OF h(5,4)]] protect_pointer [OF h(7)] by simp
  moreover have "ds_pointerFile u = Some (g\<lparr>pf_content := pf_content f, pf_mode := 384\<rparr>)"
    if t: "ds_pointerFile t = Some g" "restoreWorktreeGitPointer X original t = ([], u)" for t u g
  proof -
    obtain t1 where "chmodPointer X 384 t = ([], t1)" "writePointer X original 384 t1 = ([], u)"
      using t(2) by (auto simp: restoreWorktreeGitPointer_def split: prod.splits list.splits)
    with chmod_pointer [OF _ t(1)] write_pointer h(3) show ?thesis by fastforce
  qed
  ultimately show ?thesis using h(1,2) by blast
qed

definition freshSandbox :: "pointerFile option \<Rightarrow> (unit, unit) sandboxState" where
  "freshSandbox pointer = newPendingSandbox 0 [] () pointer 493 ()"

definition withFaults :: "(nat \<Rightarrow> FileFault option) \<Rightarrow> (unit, unit) sandboxEnv" where
  "withFaults faults = \<lparr>sx_docker = allowingLocale, sx_files = faults, sx_worktreeDestroy = (\<lambda>t. (True, t))\<rparr>"

definition samplePointer :: pointerFile where
  "samplePointer = \<lparr>pf_regular = True, pf_content = ''gitdir: /g'', pf_mode = 420\<rparr>"

theorem git_pointer_round_trip_witness:
  "\<exists>s1. hideWorktreeGitPointer (withFaults (\<lambda>_. None)) (freshSandbox (Some samplePointer)) = (Inr ''gitdir: /g'', s1)
     \<and> ds_pointerFile s1 = Some (samplePointer\<lparr>pf_content := sanitizedGitPointer, pf_mode := 292\<rparr>)"
proof -
  let ?h = "hideWorktreeGitPointer (withFaults (\<lambda>_. None)) (freshSandbox (Some samplePointer))"
  have "fst ?h = Inr ''gitdir: /g''" by code_simp
  then have h: "?h = (Inr ''gitdir: /g'', snd ?h)" by (metis prod.collapse)
  have "ds_pointerFile (freshSandbox (Some samplePointer)) = Some samplePointer" by (simp add: freshSandbox_def newPendingSandbox_def)
  with git_pointer_round_trip [OF h] h show ?thesis by (metis option.inject)
qed

text \<open>
  A failed attempt is undone when its last two steps fail, but not when the write of the sanitized
  content fails: a partial write leaves a pointer that is neither the original nor the sanitized one, and
  nothing more is tried.
\<close>

lemma partial_hide_not_undone:
  "hideWorktreeGitPointer (withFaults (\<lambda>n. if n = 2 then Some (FilePartial 6) else None)) (freshSandbox (Some samplePointer))
     = (Inl [DockerFiles], (freshSandbox (Some samplePointer))\<lparr>ds_fileCalls := 3, ds_pointerFile := Some (samplePointer\<lparr>pf_content := ''gitdir''\<rparr>)\<rparr>)"
  by (simp add: hideWorktreeGitPointer_def writePointer_def fileCall_def withFaults_def freshSandbox_def newPendingSandbox_def
    samplePointer_def sanitizedGitPointer_def Let_def)

end
