(* ===== verification/Sandbox_Helper.thy ===== *)
theory Sandbox_Helper
  imports Docker_Sandbox
begin

text \<open>
  The program inside the container, \<open>src/cmd/sandbox-helper/main.go\<close>: its path check, the listing and
  searching of the workspace, reading of lines, the application of a patch, the arguments of a test run
  and the clean-up of permissions. The workspace is a tree for the walks and a table of names for a
  patch; every call of the file system may fail. How \<open>os.Root\<close> resolves a name, following links that stay
  inside the root, and the decoding of a request from JSON are parameters. Closing a file that was only
  read does not fail. The probes are not modelled.
\<close>

section \<open>Paths\<close>

function utf8_ValidString :: "string \<Rightarrow> bool" where
  "utf8_ValidString s = (if s = [] then True else if rune_len s = 0 then False else utf8_ValidString (drop (rune_len s) s))"
  by pat_completeness auto
termination
  by (relation "measure length") (auto simp: neq_Nil_conv)

declare utf8_ValidString.simps [simp del]

text \<open>\<open>fs.ValidPath\<close>.\<close>

definition ValidPath :: "string \<Rightarrow> bool" where
  "ValidPath name \<longleftrightarrow> utf8_ValidString name
     \<and> (name = ''.'' \<or> list_all (\<lambda>elem. elem \<noteq> '''' \<and> elem \<noteq> ''.'' \<and> elem \<noteq> ''..'') (split_slash [] name))"

datatype HelperFailure =
    SubcommandRequired | UnknownSubcommand | OpenRootFailed | UsageFailed | LineNumberInvalid | UnsafePath | ReservedPath
  | ListFailed | ReadFailed | SearchFailed | DecodeFailed | PatchOldEmpty | PatchRetainsOld | PatchReadFailed | PatchCount nat
  | PatchStillContains | PatchStatFailed | TemporaryFailed | WriteFailed | SyncFailed | CloseFailed | PublishFailed
  | PackagesRequired | TestStateFailed | UnsafeRun | PackageOutside | TestRunFailed | TestExit int | CleanupFailed

definition firstElement :: "string \<Rightarrow> string" where
  "firstElement name = takeWhile (\<lambda>c. c \<noteq> CHR ''/'') name"

definition reservedPath :: "string \<Rightarrow> bool" where
  "reservedPath candidate \<longleftrightarrow> EqualFold (firstElement candidate) ''.git'' \<or> EqualFold (firstElement candidate) ''.agentdock''"

definition safeRelative :: "string \<Rightarrow> HelperFailure + string" where
  "safeRelative candidate =
     (if candidate = '''' \<or> IsAbs candidate \<or> CHR 0x00 \<in> set candidate then Inl UnsafePath
      else let clean = Clean candidate in
        if clean = ''..'' \<or> has_prefix clean ''../'' then Inl UnsafePath
        else if \<not> ValidPath clean then Inl UnsafePath
        else if reservedPath clean then Inl ReservedPath
        else Inr clean)"

section \<open>Walks\<close>

text \<open>
  A tree as \<open>fs.WalkDir\<close> sees it: a file or directory with its owner, the entries of a directory in the
  order of \<open>fs.ReadDir\<close> and whether they can be read.
\<close>

datatype wsNode = WFile int | WDir int "(string \<times> wsNode) list" bool | WLink | WOther

datatype walkAnswer = WalkOn | SkipDir | WalkFail

fun isDirNode :: "wsNode \<Rightarrow> bool" where
  "isDirNode (WDir _ _ _) = True"
| "isDirNode _ = False"

fun isRegularNode :: "wsNode \<Rightarrow> bool" where
  "isRegularNode (WFile _) = True"
| "isRegularNode _ = False"

definition joinName :: "string \<Rightarrow> string \<Rightarrow> string" where
  "joinName name entry = (if name = ''.'' then entry else name @ ''/'' @ entry)"

text \<open>\<open>fs.WalkDir\<close> with a callback that returns the error of a directory it cannot read.\<close>

fun walkDir :: "(string \<Rightarrow> wsNode \<Rightarrow> 's \<Rightarrow> walkAnswer \<times> 's) \<Rightarrow> string \<Rightarrow> wsNode \<Rightarrow> 's \<Rightarrow> walkAnswer \<times> 's"
  and walkEntries :: "(string \<Rightarrow> wsNode \<Rightarrow> 's \<Rightarrow> walkAnswer \<times> 's) \<Rightarrow> string \<Rightarrow> (string \<times> wsNode) list \<Rightarrow> 's \<Rightarrow> walkAnswer \<times> 's" where
  "walkDir visit name node s =
     (case visit name node s of
        (WalkFail, s1) \<Rightarrow> (WalkFail, s1)
      | (SkipDir, s1) \<Rightarrow> (if isDirNode node then WalkOn else SkipDir, s1)
      | (WalkOn, s1) \<Rightarrow>
          (case node of
             WDir _ entries readable \<Rightarrow> if \<not> readable then (WalkFail, s1) else walkEntries visit name entries s1
           | _ \<Rightarrow> (WalkOn, s1)))"
| "walkEntries visit name [] s = (WalkOn, s)"
| "walkEntries visit name ((entry, node) # entries) s =
     (case walkDir visit (joinName name entry) node s of
        (WalkFail, s1) \<Rightarrow> (WalkFail, s1)
      | (SkipDir, s1) \<Rightarrow> (WalkOn, s1)
      | (WalkOn, s1) \<Rightarrow> walkEntries visit name entries s1)"

text \<open>The walk from a name that \<open>root.FS\<close> can stat; \<open>SkipDir\<close> at the top ends it without an error.\<close>

definition WalkDir :: "(string \<Rightarrow> wsNode option) \<Rightarrow> (string \<Rightarrow> wsNode \<Rightarrow> 's \<Rightarrow> walkAnswer \<times> 's) \<Rightarrow> string \<Rightarrow> 's \<Rightarrow> bool \<times> 's" where
  "WalkDir stat visit name s =
     (case stat name of
        None \<Rightarrow> (False, s)
      | Some node \<Rightarrow> (case walkDir visit name node s of (answer, s') \<Rightarrow> (answer \<noteq> WalkFail, s')))"

text \<open>What a command prints, and how it fails.\<close>

type_synonym outcome = "string \<times> HelperFailure option"

definition println :: "string \<Rightarrow> string" where
  "println line = line @ [CHR 0x0A]"

definition listVisit :: "string \<Rightarrow> wsNode \<Rightarrow> string list \<Rightarrow> walkAnswer \<times> string list" where
  "listVisit name node paths =
     (if reservedPath name then (if isDirNode node then SkipDir else WalkOn, paths)
      else (WalkOn, if isRegularNode node then paths @ [name] else paths))"

definition runList :: "(string \<Rightarrow> wsNode option) \<Rightarrow> string \<Rightarrow> outcome" where
  "runList stat candidate =
     (case safeRelative candidate of
        Inl e \<Rightarrow> ('''', Some e)
      | Inr clean \<Rightarrow>
          (case WalkDir stat listVisit clean [] of
             (False, _) \<Rightarrow> ('''', Some ListFailed)
           | (True, paths) \<Rightarrow> (concat (map println (sort paths)), None)))"

section \<open>Lines\<close>

definition maxToken :: int where "maxToken = 1048576"

definition dropCR :: "string \<Rightarrow> string" where
  "dropCR line = (if line \<noteq> [] \<and> last line = CHR 0x0D then butlast line else line)"

text \<open>The pieces between line feeds; an empty one at the end is no line.\<close>

definition rawLines :: "string \<Rightarrow> string list" where
  "rawLines content = (let pieces = split_at (CHR 0x0A) '''' content in if last pieces = '''' then butlast pieces else pieces)"

text \<open>
  \<open>bufio.Scanner\<close> with \<open>ScanLines\<close>: the lines before the first that does not fit the buffer, and whether
  the scan ended without an error. A file is its content and whether it could be read to the end.
\<close>

definition scanLines :: "string \<times> bool \<Rightarrow> string list \<times> bool" where
  "scanLines file =
     (let raw = rawLines (fst file); fitting = takeWhile (\<lambda>line. int (length line) < maxToken) raw in
      (map dropCR fitting, length fitting = length raw \<and> snd file))"

text \<open>The loop of \<open>runRead\<close>; \<open>True\<close> when it ended by its own \<open>break\<close>.\<close>

fun readLoop :: "int \<Rightarrow> int \<Rightarrow> int \<Rightarrow> string list \<Rightarrow> string \<times> bool" where
  "readLoop line start stop [] = ('''', False)"
| "readLoop line start stop (text # texts) =
     (if line + 1 < start then readLoop (line + 1) start stop texts
      else if stop > 0 \<and> line + 1 > stop then ('''', True)
      else case readLoop (line + 1) start stop texts of (out, broke) \<Rightarrow> (println text @ out, broke))"

definition runRead :: "(string \<Rightarrow> (string \<times> bool) option) \<Rightarrow> string \<Rightarrow> int \<Rightarrow> int \<Rightarrow> outcome" where
  "runRead files candidate start stop =
     (case safeRelative candidate of
        Inl e \<Rightarrow> ('''', Some e)
      | Inr clean \<Rightarrow>
          (case files clean of
             None \<Rightarrow> ('''', Some ReadFailed)
           | Some file \<Rightarrow>
               (case scanLines file of (texts, fine) \<Rightarrow>
                case readLoop 0 start stop texts of (out, broke) \<Rightarrow> (out, if broke \<or> fine then None else Some ReadFailed))))"

fun matchLines :: "string \<Rightarrow> string \<Rightarrow> nat \<Rightarrow> string list \<Rightarrow> string" where
  "matchLines pattern name line [] = ''''"
| "matchLines pattern name line (text # texts) =
     (if contains text pattern then println (name @ '':'' @ show_nat (line + 1) @ '':'' @ text) else '''')
     @ matchLines pattern name (line + 1) texts"

definition searchVisit :: "(string \<Rightarrow> (string \<times> bool) option) \<Rightarrow> string \<Rightarrow> string \<Rightarrow> wsNode \<Rightarrow> string \<Rightarrow> walkAnswer \<times> string" where
  "searchVisit files pattern name node out =
     (if reservedPath name then (if isDirNode node then SkipDir else WalkOn, out)
      else if \<not> isRegularNode node then (WalkOn, out)
      else case files name of
          None \<Rightarrow> (WalkFail, out)
        | Some file \<Rightarrow> (case scanLines file of (texts, fine) \<Rightarrow>
            (if fine then WalkOn else WalkFail, out @ matchLines pattern name 0 texts)))"

definition runSearch :: "(string \<Rightarrow> wsNode option) \<Rightarrow> (string \<Rightarrow> (string \<times> bool) option) \<Rightarrow> string \<Rightarrow> string \<Rightarrow> outcome" where
  "runSearch stat files pattern candidate =
     (case safeRelative candidate of
        Inl e \<Rightarrow> ('''', Some e)
      | Inr clean \<Rightarrow>
          (case WalkDir stat (searchVisit files pattern) clean '''' of
             (fine, out) \<Rightarrow> (out, if fine then None else Some SearchFailed)))"


section \<open>Patches\<close>

record patchRequest =
  pq_Path :: string
  pq_Old :: string
  pq_New :: string

text \<open>\<open>strings.Count\<close> and \<open>strings.Replace\<close> of the first occurrence, for a text that is not empty.\<close>

function countOf :: "string \<Rightarrow> string \<Rightarrow> nat" where
  "countOf s p =
     (if s = [] \<or> p = [] then 0
      else if has_prefix s p then 1 + countOf (drop (length p) s) p
      else countOf (tl s) p)"
  by pat_completeness auto
termination
  by (relation "measure (length \<circ> fst)") auto

declare countOf.simps [simp del]

fun replaceFirst :: "string \<Rightarrow> string \<Rightarrow> string \<Rightarrow> string" where
  "replaceFirst [] p n = (if p = [] then n else [])"
| "replaceFirst (c # s) p n = (if has_prefix (c # s) p then n @ drop (length p) (c # s) else c # replaceFirst s p n)"

text \<open>The content after a patch, or why the content refuses it.\<close>

definition patchedContent :: "patchRequest \<Rightarrow> string \<Rightarrow> HelperFailure + string" where
  "patchedContent request content =
     (if countOf content (pq_Old request) \<noteq> 1 then Inl (PatchCount (countOf content (pq_Old request)))
      else let updated = replaceFirst content (pq_Old request) (pq_New request) in
        if contains updated (pq_Old request) then Inl PatchStillContains else Inr updated)"

text \<open>
  The workspace as a table of directory entries. \<open>rx_follow\<close> gives the entry a name leads to through all
  links, \<open>rx_place\<close> the entry a name itself stands for, both as \<open>os.Root\<close> resolves them in a given table;
  \<open>rx_faults\<close> tells which call of the file system fails. \<open>rx_clock\<close> is the time in the temporary name.
\<close>

datatype fsEntry = FsFile string int | FsLink string | FsDir

type_synonym fsTable = "string \<rightharpoonup> fsEntry"

record rootEnv =
  rx_follow :: "fsTable \<Rightarrow> string \<Rightarrow> string option"
  rx_place :: "fsTable \<Rightarrow> string \<Rightarrow> string option"
  rx_faults :: "nat \<Rightarrow> FileFault option"
  rx_umask :: int
  rx_clock :: string
  rx_decode :: "string \<Rightarrow> patchRequest option"

record rootState =
  rs_table :: fsTable
  rs_calls :: nat

definition rootCall :: "rootEnv \<Rightarrow> rootState \<Rightarrow> FileFault option \<times> rootState" where
  "rootCall R s = (rx_faults R (rs_calls s), s\<lparr>rs_calls := rs_calls s + 1\<rparr>)"

text \<open>\<open>root.ReadFile\<close> and \<open>root.Stat\<close>: content and permission bits of the regular file a name leads to.\<close>

definition root_Read :: "rootEnv \<Rightarrow> string \<Rightarrow> rootState \<Rightarrow> (string \<times> int) option \<times> rootState" where
  "root_Read R name s =
     (case rootCall R s of
        (None, s') \<Rightarrow>
          ((case rx_follow R (rs_table s) name of
              None \<Rightarrow> None
            | Some p \<Rightarrow> (case rs_table s p of Some (FsFile content mode) \<Rightarrow> Some (content, mode) | _ \<Rightarrow> None)), s')
      | (Some _, s') \<Rightarrow> (None, s'))"

definition root_Create :: "rootEnv \<Rightarrow> string \<Rightarrow> int \<Rightarrow> rootState \<Rightarrow> string option \<times> rootState" where
  "root_Create R name mode s =
     (case rootCall R s of
        (None, s') \<Rightarrow>
          (case rx_place R (rs_table s) name of
             None \<Rightarrow> (None, s')
           | Some p \<Rightarrow>
               if rs_table s p \<noteq> None then (None, s')
               else (Some p, s'\<lparr>rs_table := (rs_table s)(p \<mapsto> FsFile '''' (and mode (not (rx_umask R))))\<rparr>))
      | (Some _, s') \<Rightarrow> (None, s'))"

text \<open>A write through the open file; a write that fails may have stored a part.\<close>

definition file_Write :: "rootEnv \<Rightarrow> string \<Rightarrow> string \<Rightarrow> rootState \<Rightarrow> bool \<times> rootState" where
  "file_Write R p content s =
     (case rs_table s p of
        Some (FsFile _ mode) \<Rightarrow>
          (case rootCall R s of
             (None, s') \<Rightarrow> (True, s'\<lparr>rs_table := (rs_table s)(p \<mapsto> FsFile content mode)\<rparr>)
           | (Some FileRefused, s') \<Rightarrow> (False, s')
           | (Some (FilePartial n), s') \<Rightarrow> (False, s'\<lparr>rs_table := (rs_table s)(p \<mapsto> FsFile (take n content) mode)\<rparr>))
      | _ \<Rightarrow> (False, s))"

definition root_Remove :: "rootEnv \<Rightarrow> string \<Rightarrow> rootState \<Rightarrow> rootState" where
  "root_Remove R name s =
     (case (rootCall R s, rx_place R (rs_table s) name) of
        ((None, s'), Some p) \<Rightarrow> s'\<lparr>rs_table := (rs_table s)(p := None)\<rparr>
      | ((_, s'), _) \<Rightarrow> s')"

definition root_Rename :: "rootEnv \<Rightarrow> string \<Rightarrow> string \<Rightarrow> rootState \<Rightarrow> bool \<times> rootState" where
  "root_Rename R old new s =
     (case rootCall R s of
        (None, s') \<Rightarrow>
          (case (rx_place R (rs_table s) old, rx_place R (rs_table s) new) of
             (Some p, Some q) \<Rightarrow>
               (if rs_table s p = None \<or> rs_table s q = Some FsDir then (False, s')
                else (True, s'\<lparr>rs_table := (rs_table s)(p := None, q := rs_table s p)\<rparr>))
           | _ \<Rightarrow> (False, s'))
      | (Some _, s') \<Rightarrow> (False, s'))"

definition patchTemporary :: "rootEnv \<Rightarrow> string \<Rightarrow> string" where
  "patchTemporary R clean =
     (let dir = rev (dropWhile (\<lambda>c. c \<noteq> CHR ''/'') (rev clean)) in dir @ ''.agentdock-patch-'' @ rx_clock R)"

text \<open>The part of \<open>runApplyPatch\<close> after the new content is known.\<close>

definition failTemporary :: "rootEnv \<Rightarrow> string \<Rightarrow> HelperFailure \<Rightarrow> rootState \<Rightarrow> outcome \<times> rootState" where
  "failTemporary R temporary e s = (('''', Some e), root_Remove R temporary s)"

definition publishPatch :: "rootEnv \<Rightarrow> string \<Rightarrow> string \<Rightarrow> int \<Rightarrow> rootState \<Rightarrow> outcome \<times> rootState" where
  "publishPatch R clean updated mode s =
     (let temporary = patchTemporary R clean in
      case root_Create R temporary mode s of
        (None, s1) \<Rightarrow> (('''', Some TemporaryFailed), s1)
      | (Some p, s1) \<Rightarrow>
          (case file_Write R p updated s1 of
             (False, s2) \<Rightarrow> failTemporary R temporary WriteFailed s2
           | (True, s2) \<Rightarrow>
               (case rootCall R s2 of
                  (Some _, s3) \<Rightarrow> failTemporary R temporary SyncFailed s3
                | (None, s3) \<Rightarrow>
                    (case rootCall R s3 of
                       (Some _, s4) \<Rightarrow> failTemporary R temporary CloseFailed s4
                     | (None, s4) \<Rightarrow>
                         (case root_Rename R temporary clean s4 of
                            (False, s5) \<Rightarrow> failTemporary R temporary PublishFailed s5
                          | (True, s5) \<Rightarrow> ((println (''patched '' @ clean), None), s5))))))"

definition LimitReader :: "int \<Rightarrow> string \<Rightarrow> string" where
  "LimitReader n s = (if int (length s) \<le> n then s else take (nat n) s)"

definition runApplyPatch :: "rootEnv \<Rightarrow> string \<Rightarrow> rootState \<Rightarrow> outcome \<times> rootState" where
  "runApplyPatch R stdin s =
     (case rx_decode R (LimitReader 4194304 stdin) of
        None \<Rightarrow> (('''', Some DecodeFailed), s)
      | Some request \<Rightarrow>
          (case safeRelative (pq_Path request) of
             Inl e \<Rightarrow> (('''', Some e), s)
           | Inr clean \<Rightarrow>
               if pq_Old request = '''' then (('''', Some PatchOldEmpty), s)
               else if contains (pq_New request) (pq_Old request) then (('''', Some PatchRetainsOld), s)
               else case root_Read R clean s of
                   (None, s1) \<Rightarrow> (('''', Some PatchReadFailed), s1)
                 | (Some (content, _), s1) \<Rightarrow>
                     (case patchedContent request content of
                        Inl e \<Rightarrow> (('''', Some e), s1)
                      | Inr updated \<Rightarrow>
                          (case root_Read R clean s1 of
                             (None, s2) \<Rightarrow> (('''', Some PatchStatFailed), s2)
                           | (Some (_, mode), s2) \<Rightarrow> publishPatch R clean updated mode s2))))"


section \<open>Test runs\<close>

record testRequest =
  tq_Packages :: "string list"
  tq_Run :: string
  tq_Verbose :: bool

fun packageArguments :: "string list \<Rightarrow> HelperFailure + string list" where
  "packageArguments [] = Inr []"
| "packageArguments (name # names) =
     (if name \<noteq> ''.'' \<and> \<not> has_prefix name ''./'' then Inl PackageOutside
      else let trimmed = TrimSuffix name ''/...'' in
        bindE (safeRelative (if trimmed = '''' then ''.'' else trimmed)) (\<lambda>_.
          bindE (packageArguments names) (\<lambda>arguments. Inr (name # arguments))))"

definition testArguments :: "testRequest \<Rightarrow> HelperFailure + string list" where
  "testArguments request =
     bindE (if tq_Run request = '''' then Inr []
            else if has_prefix (tq_Run request) ''-'' \<or> CHR 0x00 \<in> set (tq_Run request) then Inl UnsafeRun
            else Inr [''-run'', tq_Run request])
       (\<lambda>runArguments. bindE (packageArguments (tq_Packages request))
         (\<lambda>packages. Inr ([''test'', ''-count=1''] @ (if tq_Verbose request then [''-v''] else []) @ runArguments @ packages)))"

definition testState :: "string list" where
  "testState = [''.agentdock'', ''.agentdock/home'', ''.agentdock/tmp'', ''.agentdock/go-cache'']"

text \<open>
  \<open>makes\<close> tells whether creating a directory of the test state and opening its permissions succeeded; the
  \<open>go\<close> command with its arguments gives its output and ends with an exit status or cannot be run.
\<close>

definition runTest :: "(string \<Rightarrow> testRequest option) \<Rightarrow> (string \<Rightarrow> bool) \<Rightarrow> (string list \<Rightarrow> string \<times> CommandError option) \<Rightarrow> string \<Rightarrow> outcome" where
  "runTest decode makes go stdin =
     (case decode (LimitReader 1048576 stdin) of
        None \<Rightarrow> ('''', Some DecodeFailed)
      | Some request \<Rightarrow>
          if tq_Packages request = [] then ('''', Some PackagesRequired)
          else if \<not> list_all makes testState then ('''', Some TestStateFailed)
          else case testArguments request of
              Inl e \<Rightarrow> ('''', Some e)
            | Inr arguments \<Rightarrow>
                (case go arguments of
                   (out, None) \<Rightarrow> (out, None)
                 | (out, Some (ExitStatus code)) \<Rightarrow> (out, Some (TestExit code))
                 | (out, Some CommandOther) \<Rightarrow> (out, Some TestRunFailed)))"

section \<open>Clean-up\<close>

text \<open>
  The changes of permissions the clean-up makes, in order; \<open>uid\<close> is the user of the helper and \<open>fails\<close>
  tells which of its calls fail.
\<close>

definition ownerOf :: "wsNode \<Rightarrow> int option" where
  "ownerOf node = (case node of WFile owner \<Rightarrow> Some owner | WDir owner _ _ \<Rightarrow> Some owner | _ \<Rightarrow> None)"

definition cleanupVisit :: "int \<Rightarrow> (nat \<Rightarrow> bool) \<Rightarrow> string \<Rightarrow> wsNode \<Rightarrow> nat \<times> (string \<times> int) list \<Rightarrow> walkAnswer \<times> nat \<times> (string \<times> int) list" where
  "cleanupVisit uid fails name node = (\<lambda>(calls, changes).
     if EqualFold (firstElement name) ''.git'' then (if isDirNode node then SkipDir else WalkOn, calls, changes)
     else if fails calls then (WalkFail, calls + 1, changes)
     else if ownerOf node \<noteq> Some uid then (WalkOn, calls + 1, changes)
     else if fails (calls + 1) then (WalkFail, calls + 2, changes)
     else (WalkOn, calls + 2, changes @ [(name, if isDirNode node then 511 else 438)]))"

definition runCleanup :: "(string \<Rightarrow> wsNode option) \<Rightarrow> int \<Rightarrow> (nat \<Rightarrow> bool) \<Rightarrow> outcome \<times> (string \<times> int) list" where
  "runCleanup stat uid fails =
     (case WalkDir stat (cleanupVisit uid fails) ''.'' (0, []) of
        (fine, _, changes) \<Rightarrow> (('''', if fine then None else Some CleanupFailed), changes))"

section \<open>Dispatch\<close>

definition argumentOrDefault :: "string list \<Rightarrow> nat \<Rightarrow> string \<Rightarrow> string" where
  "argumentOrDefault args index fallback = (if index < length args then args ! index else fallback)"

definition optionalPositiveInt :: "string list \<Rightarrow> nat \<Rightarrow> int \<Rightarrow> HelperFailure + int" where
  "optionalPositiveInt args index fallback =
     (if length args \<le> index then Inr fallback
      else case ParseInt (args ! index) of
          None \<Rightarrow> Inl LineNumberInvalid
        | Some v \<Rightarrow> if v < 0 then Inl LineNumberInvalid else Inr v)"

text \<open>\<open>main\<close> for the arguments of the process, with its name first; a probe is left to a parameter.\<close>

record helperEnv =
  hx_opens :: bool
  hx_stat :: "string \<Rightarrow> wsNode option"
  hx_files :: "string \<Rightarrow> (string \<times> bool) option"
  hx_root :: rootEnv
  hx_decodeTest :: "string \<Rightarrow> testRequest option"
  hx_makes :: "string \<Rightarrow> bool"
  hx_go :: "string list \<Rightarrow> string \<times> CommandError option"
  hx_uid :: int
  hx_fails :: "nat \<Rightarrow> bool"
  hx_probe :: "string \<Rightarrow> outcome"

definition helper_main :: "helperEnv \<Rightarrow> string list \<Rightarrow> string \<Rightarrow> rootState \<Rightarrow> outcome \<times> rootState" where
  "helper_main H args stdin s =
     (if length args < 2 then (('''', Some SubcommandRequired), s)
      else if \<not> hx_opens H then (('''', Some OpenRootFailed), s)
      else if args ! 1 = ''list'' then (runList (hx_stat H) (argumentOrDefault args 2 ''.''), s)
      else if args ! 1 = ''read'' then
        (if length args < 3 \<or> length args > 5 then (('''', Some UsageFailed), s)
         else (case bindE (optionalPositiveInt args 3 1) (\<lambda>start. bindE (optionalPositiveInt args 4 0) (\<lambda>stop. Inr (start, stop))) of
             Inl e \<Rightarrow> ('''', Some e)
           | Inr (start, stop) \<Rightarrow> runRead (hx_files H) (args ! 2) start stop, s))
      else if args ! 1 = ''search'' then
        (if length args \<noteq> 4 then (('''', Some UsageFailed), s) else (runSearch (hx_stat H) (hx_files H) (args ! 2) (args ! 3), s))
      else if args ! 1 = ''apply-patch'' then runApplyPatch (hx_root H) stdin s
      else if args ! 1 = ''test'' then (runTest (hx_decodeTest H) (hx_makes H) (hx_go H) stdin, s)
      else if args ! 1 = ''probe'' then (if length args \<noteq> 3 then (('''', Some UsageFailed), s) else (hx_probe H (args ! 2), s))
      else if args ! 1 = ''cleanup'' then
        (if length args \<noteq> 2 then (('''', Some UsageFailed), s) else (fst (runCleanup (hx_stat H) (hx_uid H) (hx_fails H)), s))
      else (('''', Some UnknownSubcommand), s))"

end
