(* ===== verification/Helper_Props.thy ===== *)
theory Helper_Props
  imports Sandbox_Helper
begin

text \<open>
  Properties of the program inside the container: its path check against the one of the host, what a
  listing and a reading print, and that a patch is applied exactly once or not at all.
\<close>

section \<open>Paths\<close>

lemma valid_normalized:
  assumes "normalizeLogicalPath candidate = Inr p"
  shows "ValidPath p \<longleftrightarrow> utf8_ValidString p"
proof -
  consider "p = ''.''" | ds where "ds \<noteq> []" "list_all plain ds" "p = join_slash ds" using normalizeLogicalPath_shape [OF assms] by blast
  then show ?thesis
  proof cases
    case 2
    then have "split_slash [] p = ds" using split_join by simp
    with 2 show ?thesis by (auto simp: ValidPath_def list_all_iff plain_def)
  qed (simp add: ValidPath_def)
qed

text \<open>
  (C31) The host and the container agree on paths: for every text, the helper accepts it exactly when the
  policy normalizes it and the result is valid UTF-8, and both then give the same path.
\<close>

theorem helper_path_agrees:
  "safeRelative candidate = Inr p \<longleftrightarrow> normalizeLogicalPath candidate = Inr p \<and> utf8_ValidString p"
proof -
  have "safeRelative candidate = Inr p \<longleftrightarrow> normalizeLogicalPath candidate = Inr p \<and> ValidPath p"
    by (auto simp: safeRelative_def normalizeLogicalPath_def reservedPath_def firstElement_def Let_def)
  with valid_normalized [of candidate p] show ?thesis by blast
qed

section \<open>Listing\<close>

text \<open>Every regular file of a tree by its name, in the order of the walk.\<close>

fun regularFiles :: "string \<Rightarrow> wsNode \<Rightarrow> string list"
  and entryFiles :: "string \<Rightarrow> (string \<times> wsNode) list \<Rightarrow> string list" where
  "regularFiles name (WDir _ entries _) = entryFiles name entries"
| "regularFiles name (WFile _) = [name]"
| "regularFiles name WLink = []"
| "regularFiles name WOther = []"
| "entryFiles name [] = []"
| "entryFiles name ((entry, node) # entries) = regularFiles (joinName name entry) node @ entryFiles name entries"

lemma dot_not_reserved: "\<not> reservedPath ''.''"
  by (simp add: reservedPath_def firstElement_def)

lemma reserved_below: "reservedPath name \<Longrightarrow> reservedPath (joinName name entry)"
proof -
  have "firstElement (name @ ''/'' @ entry) = firstElement name" by (induction name) (auto simp: firstElement_def)
  then show "reservedPath name \<Longrightarrow> reservedPath (joinName name entry)"
    using dot_not_reserved by (auto simp: reservedPath_def joinName_def)
qed

lemma reserved_files:
  "reservedPath name \<Longrightarrow> \<forall>f\<in>set (regularFiles name node). reservedPath f"
  "reservedPath name \<Longrightarrow> \<forall>f\<in>set (entryFiles name entries). reservedPath f"
  by (induction name node and name entries rule: regularFiles_entryFiles.induct) (auto simp: reserved_below)

text \<open>A walk that does not fail visits all of them, apart from the reserved ones.\<close>

lemma list_walk:
  "walkDir listVisit name node paths = (answer, paths') \<Longrightarrow> answer \<noteq> WalkFail \<Longrightarrow>
     answer = WalkOn \<and> paths' = paths @ filter (\<lambda>f. \<not> reservedPath f) (regularFiles name node)"
  "walkEntries listVisit name entries paths = (answer, paths') \<Longrightarrow> answer \<noteq> WalkFail \<Longrightarrow>
     answer = WalkOn \<and> paths' = paths @ filter (\<lambda>f. \<not> reservedPath f) (entryFiles name entries)"
proof (induction name node and name entries arbitrary: paths answer paths' and paths answer paths' rule: regularFiles_entryFiles.induct)
  case (1 name owner entries readable)
  have "filter (\<lambda>f. \<not> reservedPath f) (entryFiles name entries) = []" if "reservedPath name"
    using reserved_files(2) [OF that] by (auto simp: filter_empty_conv)
  with 1 show ?case by (auto simp: listVisit_def split: if_splits)
next
  case (6 name entry node entries)
  obtain a p where w: "walkDir listVisit (joinName name entry) node paths = (a, p)" by fastforce
  with 6(3,4) have "a \<noteq> WalkFail" by auto
  from 6(1) [OF w this] w 6(2) [of p answer paths'] 6(3,4) show ?case by auto
qed (auto simp: listVisit_def split: if_splits)

text \<open>
  A listing that does not fail prints the names of all regular files below the given path that are
  not under a reserved directory, each once, sorted.
\<close>

theorem helper_list_complete:
  assumes "runList stat candidate = (out, None)"
  shows "\<exists>clean node. safeRelative candidate = Inr clean \<and> stat clean = Some node
    \<and> out = concat (map println (sort (filter (\<lambda>f. \<not> reservedPath f) (regularFiles clean node))))"
proof -
  obtain clean paths where c: "safeRelative candidate = Inr clean" "WalkDir stat listVisit clean [] = (True, paths)"
    "out = concat (map println (sort paths))"
    using assms by (auto simp: runList_def split: sum.splits prod.splits bool.splits)
  obtain node answer where w: "stat clean = Some node" "walkDir listVisit clean node [] = (answer, paths)" "answer \<noteq> WalkFail"
    using c(2) by (auto simp: WalkDir_def split: option.splits prod.splits simp del: walkDir.simps)
  from list_walk(1) [OF w(2,3)] c w(1) show ?thesis by auto
qed

definition sampleStat :: "string \<Rightarrow> wsNode option" where
  "sampleStat name = (if name = ''.'' then Some (WDir 0 [(''.git'', WFile 0), (''b'', WDir 0 [(''c'', WFile 0)] True), (''a'', WFile 0), (''l'', WLink)] True) else None)"

theorem helper_list_complete_witness:
  "runList sampleStat ''x/..'' = (''a'' @ [CHR 0x0A] @ ''b/c'' @ [CHR 0x0A], None)
    \<and> (\<exists>clean node. safeRelative ''x/..'' = Inr clean \<and> sampleStat clean = Some node)"
proof
  show run: "runList sampleStat ''x/..'' = (''a'' @ [CHR 0x0A] @ ''b/c'' @ [CHR 0x0A], None)" by code_simp
  from helper_list_complete [OF run] show "\<exists>clean node. safeRelative ''x/..'' = Inr clean \<and> sampleStat clean = Some node" by blast
qed

section \<open>Reading\<close>

lemma read_loop:
  "0 \<le> line \<Longrightarrow> fst (readLoop line start stop texts) =
     concat (map println (drop (nat (start - 1 - line)) (if stop > 0 then take (nat (stop - line)) texts else texts)))"
proof (induction line start stop texts rule: readLoop.induct)
  case (2 line start stop t ts)
  have "nat (start - 1 - line) = (if line + 1 < start then Suc (nat (start - 1 - (line + 1))) else 0)"
    "nat (stop - line) = (if line + 1 \<le> stop then Suc (nat (stop - (line + 1))) else 0)" by auto
  with 2 show ?case by (auto split: prod.splits)
qed simp

text \<open>
  Reading: the lines printed are those of the file from the start line to the stop line, or to the
  end when the stop line is 0, of the lines before one that is too long; without such a line and an error
  of the file the reading does not fail.
\<close>

theorem helper_read_lines:
  assumes "safeRelative candidate = Inr clean" "files clean = Some file" "scanLines file = (texts, fine)"
  shows "fst (runRead files candidate start stop) =
      concat (map println (drop (nat (start - 1)) (if stop > 0 then take (nat stop) texts else texts)))
    \<and> (fine \<longrightarrow> snd (runRead files candidate start stop) = None)"
  using assms read_loop [of 0 start stop texts] by (auto simp: runRead_def split: prod.splits)


definition sampleFiles :: "string \<Rightarrow> (string \<times> bool) option" where
  "sampleFiles name = (if name = ''f'' then Some (''1'' @ [CHR 0x0D, CHR 0x0A] @ ''2'' @ [CHR 0x0A] @ ''3'', True) else None)"

theorem helper_read_lines_witness:
  "fst (runRead sampleFiles ''f'' 1 2) = ''1'' @ [CHR 0x0A] @ ''2'' @ [CHR 0x0A] \<and> snd (runRead sampleFiles ''f'' 1 2) = None"
proof -
  have "safeRelative ''f'' = Inr ''f''" by code_simp
  moreover have "sampleFiles ''f'' = Some (''1'' @ [CHR 0x0D, CHR 0x0A] @ ''2'' @ [CHR 0x0A] @ ''3'', True)" by (simp add: sampleFiles_def)
  moreover have "scanLines (''1'' @ [CHR 0x0D, CHR 0x0A] @ ''2'' @ [CHR 0x0A] @ ''3'', True) = ([''1'', ''2'', ''3''], True)" by code_simp
  ultimately show ?thesis using helper_read_lines [of "''f''" "''f''" sampleFiles _ "[''1'', ''2'', ''3'']" True 1 2]
    by (simp add: println_def)
qed

section \<open>Patches\<close>

lemma count_none: "p \<noteq> [] \<Longrightarrow> \<not> contains s p \<Longrightarrow> countOf s p = 0"
proof (induction s p rule: countOf.induct)
  case (1 s p)
  then have "s = [] \<or> \<not> has_prefix s p \<and> \<not> contains (tl s) p" by (cases s) auto
  with 1 show ?case by (subst countOf.simps) auto
qed

lemma replace_first:
  "contains s p \<Longrightarrow> p \<noteq> [] \<Longrightarrow> \<exists>pre post. s = pre @ p @ post \<and> replaceFirst s p n = pre @ n @ post"
proof (induction s)
  case (Cons c s)
  show ?case
  proof (cases "has_prefix (c # s) p")
    case True
    then obtain post where "c # s = p @ post" by (auto simp: has_prefix_iff)
    moreover from this have "replaceFirst (c # s) p n = n @ post" using True by (metis append_eq_conv_conj replaceFirst.simps(2))
    ultimately show ?thesis by (metis append_Nil)
  next
    case False
    with Cons obtain pre post where "s = pre @ p @ post" "replaceFirst s p n = pre @ n @ post" by auto
    with False show ?thesis by (intro exI [of _ "c # pre"] exI [of _ post]) simp
  qed
qed simp

lemma patched_content:
  assumes "patchedContent q content = Inr updated" "pq_Old q \<noteq> []"
  shows "\<exists>pre post. content = pre @ pq_Old q @ post \<and> updated = pre @ pq_New q @ post"
    and "patchedContent q updated = Inl (PatchCount 0)"
proof -
  have u: "countOf content (pq_Old q) = 1" "updated = replaceFirst content (pq_Old q) (pq_New q)" "\<not> contains updated (pq_Old q)"
    using assms(1) by (auto simp: patchedContent_def Let_def split: if_splits)
  then have "contains content (pq_Old q)" using count_none [OF assms(2)] by fastforce
  from replace_first [OF this assms(2)] u(2) show "\<exists>pre post. content = pre @ pq_Old q @ post \<and> updated = pre @ pq_New q @ post" by simp
  from count_none [OF assms(2) u(3)] show "patchedContent q updated = Inl (PatchCount 0)" by (simp add: patchedContent_def)
qed

text \<open>
  What a name stands for depends on the directories and links of the workspace only, not on its regular
  files.
\<close>

definition structureOf :: "fsTable \<Rightarrow> string \<Rightarrow> fsEntry option" where
  "structureOf t p = (case t p of Some (FsFile _ _) \<Rightarrow> None | e \<Rightarrow> e)"

definition namesStable :: "rootEnv \<Rightarrow> bool" where
  "namesStable R \<longleftrightarrow> (\<forall>t t'. structureOf t = structureOf t' \<longrightarrow> rx_place R t = rx_place R t')"

text \<open>
  A name whose entry is replaced by a regular file leads to that file, or nowhere when the entry was a
  link on the way to it.
\<close>

definition placesFollowed :: "rootEnv \<Rightarrow> bool" where
  "placesFollowed R \<longleftrightarrow> (\<forall>t name p content mode. rx_place R t name = Some p \<longrightarrow>
     rx_follow R (t(p \<mapsto> FsFile content mode)) name \<in> {Some p, None})"

lemma structure_file: "t p = None \<or> (\<exists>c m. t p = Some (FsFile c m)) \<Longrightarrow> structureOf (t(p := e)) = structureOf t
    \<longleftrightarrow> e = None \<or> (\<exists>c m. e = Some (FsFile c m))"
  by (auto simp: structureOf_def fun_eq_iff split: option.splits fsEntry.splits)

text \<open>The table with a regular file at the place of the temporary name, which was free.\<close>

definition withTemporary :: "rootEnv \<Rightarrow> string \<Rightarrow> fsTable \<Rightarrow> string \<Rightarrow> fsTable \<Rightarrow> bool" where
  "withTemporary R temporary t p t' \<longleftrightarrow> rx_place R t temporary = Some p \<and> (\<exists>c m. t' p = Some (FsFile c m)) \<and> t'(p := None) = t"

lemma temporary_place: "namesStable R \<Longrightarrow> withTemporary R temporary t p t' \<Longrightarrow> rx_place R t' = rx_place R t"
proof -
  assume stable: "namesStable R" and "withTemporary R temporary t p t'"
  then have "\<exists>c m. t' p = Some (FsFile c m)" "t'(p := None) = t" by (auto simp: withTemporary_def)
  then have "structureOf t = structureOf t'" using structure_file [of t' p None] by metis
  with stable show "rx_place R t' = rx_place R t" by (metis namesStable_def)
qed

lemma call_table: "rootCall R s = (r, s') \<Longrightarrow> rs_table s' = rs_table s"
  by (auto simp: rootCall_def)

lemma read_table: "root_Read R name s = (r, s') \<Longrightarrow> rs_table s' = rs_table s"
  by (auto simp: root_Read_def split: prod.splits option.splits dest!: call_table)

lemma create_table:
  "root_Create R name mode s = (r, s') \<Longrightarrow>
     (case r of None \<Rightarrow> rs_table s' = rs_table s
      | Some p \<Rightarrow> withTemporary R name (rs_table s) p (rs_table s') \<and> rs_table s' p = Some (FsFile '''' (and mode (not (rx_umask R)))))"
  by (auto simp: root_Create_def withTemporary_def split: prod.splits option.splits if_splits dest!: call_table)

lemma write_table:
  assumes "file_Write R p content s = (ok, s')" "withTemporary R name t p (rs_table s)" "rs_table s p = Some (FsFile c m)"
  shows "withTemporary R name t p (rs_table s')" "ok \<Longrightarrow> rs_table s' p = Some (FsFile content m)"
  using assms by (auto simp: file_Write_def rootCall_def withTemporary_def split: prod.splits option.splits FileFault.splits)

text \<open>Removing the temporary file leaves every entry as it was before the patch.\<close>

definition keepsEntries :: "fsTable \<Rightarrow> fsTable \<Rightarrow> bool" where
  "keepsEntries t t' \<longleftrightarrow> (\<forall>p e. t p = Some e \<longrightarrow> t' p = Some e)"

lemma fail_temporary:
  assumes "failTemporary R temporary e s = (r, s')" "namesStable R" "withTemporary R temporary t p (rs_table s)"
  shows "r = ('''', Some e) \<and> keepsEntries t (rs_table s')"
proof -
  have "rx_place R (rs_table s) temporary = Some p"
    using temporary_place [OF assms(2,3)] assms(3) by (simp add: withTemporary_def)
  with assms show ?thesis
    by (auto simp: failTemporary_def root_Remove_def rootCall_def withTemporary_def keepsEntries_def
      split: prod.splits option.splits if_splits)
qed


lemma rename_table:
  assumes "root_Rename R temporary clean s = (True, s')" "namesStable R" "withTemporary R temporary t p (rs_table s)"
  shows "\<exists>q. rx_place R t clean = Some q \<and> rs_table s' = t(q := rs_table s p)"
proof -
  have place: "rx_place R (rs_table s) = rx_place R t" by (rule temporary_place [OF assms(2,3)])
  have p: "rx_place R t temporary = Some p" "(rs_table s)(p := None) = t" using assms(3) by (auto simp: withTemporary_def)
  obtain q where "rx_place R t clean = Some q" "rs_table s' = (rs_table s)(p := None, q := rs_table s p)"
    using assms(1) p(1) place by (auto simp: root_Rename_def rootCall_def split: option.splits if_splits prod.splits)
  with p(2) show ?thesis by auto
qed

lemma rename_failed: "root_Rename R temporary clean s = (False, s') \<Longrightarrow> rs_table s' = rs_table s"
  by (auto simp: root_Rename_def rootCall_def split: option.splits if_splits prod.splits)

text \<open>Publishing either fails with every entry kept, or replaces the one entry the name stands for.\<close>

lemma publish_patch:
  assumes "publishPatch R clean updated mode s = ((out, err), s')" "namesStable R"
  shows "if err = None then \<exists>q. rx_place R (rs_table s) clean = Some q
           \<and> rs_table s' = (rs_table s)(q \<mapsto> FsFile updated (and mode (not (rx_umask R))))
         else keepsEntries (rs_table s) (rs_table s')"
proof -
  let ?tmp = "patchTemporary R clean" and ?t = "rs_table s"
  obtain c s1 where c: "root_Create R ?tmp mode s = (c, s1)" by fastforce
  show ?thesis
  proof (cases c)
    case None
    with create_table [OF c] assms(1) c show ?thesis by (auto simp: publishPatch_def Let_def keepsEntries_def)
  next
    case (Some p)
    have w1: "withTemporary R ?tmp ?t p (rs_table s1)" "rs_table s1 p = Some (FsFile '''' (and mode (not (rx_umask R))))"
      using create_table [OF c] Some by auto
    obtain ok s2 where w: "file_Write R p updated s1 = (ok, s2)" by fastforce
    note w2 = write_table [OF w w1]
    obtain b3 s3 where c3: "rootCall R s2 = (b3, s3)" by fastforce
    obtain b4 s4 where c4: "rootCall R s3 = (b4, s4)" by fastforce
    have same: "rs_table s3 = rs_table s2" "rs_table s4 = rs_table s2" using call_table [OF c3] call_table [OF c4] by simp_all
    obtain ok5 s5 where r: "root_Rename R ?tmp clean s4 = (ok5, s5)" by fastforce
    show ?thesis
    proof (cases "ok \<and> b3 = None \<and> b4 = None \<and> ok5")
      case True
      with assms(1) c Some w c3 c4 r have "err = None" "s' = s5" by (auto simp: publishPatch_def Let_def)
      with True rename_table [of R ?tmp clean s4 s5 ?t p] r assms(2) w2 same show ?thesis by auto
    next
      case False
      with assms(1) c Some w c3 c4 r
      have "\<exists>e u. failTemporary R ?tmp e u = ((out, err), s') \<and> rs_table u = rs_table s2"
        using same rename_failed [of R ?tmp clean s4 s5]
        by (cases ok; cases b3; cases b4; cases ok5) (auto simp: publishPatch_def Let_def)
      then obtain e u where u: "failTemporary R ?tmp e u = ((out, err), s')" "rs_table u = rs_table s2" by blast
      with fail_temporary [OF u(1) assms(2), of ?t p] w2(1) show ?thesis by simp
    qed
  qed
qed

text \<open>The same patch on a workspace in which the entry of the file holds the result, at any later call and with any faults.\<close>

definition replayRefused :: "rootEnv \<Rightarrow> string \<Rightarrow> rootState \<Rightarrow> bool" where
  "replayRefused R stdin s \<longleftrightarrow> (\<forall>faults n out err s'.
     runApplyPatch (R\<lparr>rx_faults := faults\<rparr>) stdin (s\<lparr>rs_calls := n\<rparr>) = ((out, err), s') \<longrightarrow> err \<noteq> None \<and> rs_table s' = rs_table s)"

lemma patch_replayed:
  assumes "placesFollowed R" "rx_decode R (LimitReader 4194304 stdin) = Some q" "safeRelative (pq_Path q) = Inr clean" "pq_Old q \<noteq> []"
    and "patchedContent q content = Inr updated" "rx_place R t clean = Some entry" "rs_table s = t(entry \<mapsto> FsFile updated mode)"
  shows "replayRefused R stdin s"
  unfolding replayRefused_def
proof (intro allI impI)
  fix faults n out err s'
  let ?R = "R\<lparr>rx_faults := faults\<rparr>" and ?s = "s\<lparr>rs_calls := n\<rparr>"
  assume run: "runApplyPatch ?R stdin ?s = ((out, err), s')"
  obtain r s1 where r: "root_Read ?R clean ?s = (r, s1)" by fastforce
  have "rx_follow R (rs_table s) clean \<in> {Some entry, None}" using assms(1,6,7) unfolding placesFollowed_def by metis
  then have "r = None \<or> r = Some (updated, mode)"
    using r assms(7) by (auto simp: root_Read_def split: prod.splits option.splits)
  with run r assms(2-4) patched_content(2) [OF assms(5,4)] read_table [OF r]
  show "err \<noteq> None \<and> rs_table s' = rs_table s" by (auto simp: runApplyPatch_def split: if_splits)
qed

text \<open>
  (C20) A patch changes the workspace exactly once or not at all. When the command fails, whatever call of
  the file system failed and however much of a write took place, every entry of the workspace is as it
  was. When it succeeds, one occurrence of the old text in the file was replaced by the new one, the entry
  of the named file holds the result with the permissions of the file, nothing else changed, and the
  same command repeated on the workspace it left, at any later moment and with any faults, is refused
  without a change. The file system is assumed to give a name a place that regular files do not affect,
  and to lead a name to the regular file that was put at its place.
\<close>

theorem patch_exactly_once:
  assumes "namesStable R" "placesFollowed R" and run: "runApplyPatch R stdin s = ((out, err), s')"
  shows "if err = None
    then \<exists>q clean pre post mode entry. rx_decode R (LimitReader 4194304 stdin) = Some q \<and> safeRelative (pq_Path q) = Inr clean
      \<and> fst (root_Read R clean s) = Some (pre @ pq_Old q @ post, mode) \<and> rx_place R (rs_table s) clean = Some entry
      \<and> rs_table s' = (rs_table s)(entry \<mapsto> FsFile (pre @ pq_New q @ post) (and mode (not (rx_umask R))))
      \<and> (\<forall>faults n out' err' s2. runApplyPatch (R\<lparr>rx_faults := faults\<rparr>) stdin (s'\<lparr>rs_calls := n\<rparr>) = ((out', err'), s2) \<longrightarrow>
            err' \<noteq> None \<and> rs_table s2 = rs_table s')
    else keepsEntries (rs_table s) (rs_table s')"
proof (cases "rs_table s' = rs_table s \<and> err \<noteq> None")
  case True
  then show ?thesis by (auto simp: keepsEntries_def)
next
  case False
  obtain q clean where q: "rx_decode R (LimitReader 4194304 stdin) = Some q" "safeRelative (pq_Path q) = Inr clean"
    "pq_Old q \<noteq> []" "\<not> contains (pq_New q) (pq_Old q)"
    using run False by (auto simp: runApplyPatch_def split: option.splits sum.splits if_splits)
  obtain r1 s1 where r1: "root_Read R clean s = (r1, s1)" by fastforce
  obtain content m where content: "r1 = Some (content, m)"
    using run False q r1 read_table [OF r1] by (auto simp: runApplyPatch_def split: option.splits)
  obtain updated where updated: "patchedContent q content = Inr updated"
    using run False q r1 content read_table [OF r1] by (auto simp: runApplyPatch_def split: sum.splits)
  obtain r2 s2 where r2: "root_Read R clean s1 = (r2, s2)" by fastforce
  have tables: "rs_table s1 = rs_table s" "rs_table s2 = rs_table s" using read_table [OF r1] read_table [OF r2] by simp_all
  obtain c2 mode where mode: "r2 = Some (c2, mode)"
    using run False q r1 content updated r2 tables by (auto simp: runApplyPatch_def split: option.splits)
  have same: "mode = m" using r1 r2 content mode tables
    by (auto simp: root_Read_def split: prod.splits option.splits fsEntry.splits)
  have p: "publishPatch R clean updated mode s2 = ((out, err), s')"
    using run q r1 content updated r2 mode by (simp add: runApplyPatch_def)
  obtain pre post where split: "content = pre @ pq_Old q @ post" "updated = pre @ pq_New q @ post"
    using patched_content(1) [OF updated q(3)] by blast
  note published = publish_patch [OF p assms(1), unfolded tables]
  show ?thesis
  proof (cases err)
    case None
    with published obtain entry where entry: "rx_place R (rs_table s) clean = Some entry"
      "rs_table s' = (rs_table s)(entry \<mapsto> FsFile updated (and mode (not (rx_umask R))))" by auto
    have "fst (root_Read R clean s) = Some (pre @ pq_Old q @ post, mode)" using r1 content split(1) same by simp
    with entry q(1,2) split(2) patch_replayed [OF assms(2) q(1-3) updated entry, unfolded replayRefused_def] None show ?thesis by auto
  next
    case (Some f)
    with published show ?thesis by simp
  qed
qed


text \<open>A workspace without links, in which one file holds an occurrence of the old text.\<close>

definition sampleRoot :: rootEnv where
  "sampleRoot = \<lparr>rx_follow = (\<lambda>t name. Some name), rx_place = (\<lambda>t name. Some name), rx_faults = (\<lambda>_. None), rx_umask = 18,
     rx_clock = ''7'', rx_decode = (\<lambda>_. Some \<lparr>pq_Path = ''d/f'', pq_Old = ''old'', pq_New = ''new''\<rparr>)\<rparr>"

definition sampleTable :: rootState where
  "sampleTable = \<lparr>rs_table = (\<lambda>p. if p = ''d/f'' then Some (FsFile ''an old text'' 438) else if p = ''d'' then Some FsDir else None), rs_calls = 0\<rparr>"

theorem patch_exactly_once_witness:
  "namesStable sampleRoot \<and> placesFollowed sampleRoot \<and> snd (fst (runApplyPatch sampleRoot '''' sampleTable)) = None
    \<and> rs_table (snd (runApplyPatch sampleRoot '''' sampleTable)) ''d/f'' = Some (FsFile ''an new text'' 420)
    \<and> (\<exists>entry content. rs_table (snd (runApplyPatch sampleRoot '''' sampleTable)) = (rs_table sampleTable)(entry \<mapsto> content))
    \<and> snd (fst (runApplyPatch sampleRoot '''' (snd (runApplyPatch sampleRoot '''' sampleTable)))) \<noteq> None"
proof (intro conjI)
  show stable: "namesStable sampleRoot" by (simp add: namesStable_def sampleRoot_def)
  show followed: "placesFollowed sampleRoot" by (simp add: placesFollowed_def sampleRoot_def)
  have run: "fst (runApplyPatch sampleRoot '''' sampleTable) = (''patched d/f'' @ [CHR 0x0A], None)" by code_simp
  then show "snd (fst (runApplyPatch sampleRoot '''' sampleTable)) = None" by simp
  show "rs_table (snd (runApplyPatch sampleRoot '''' sampleTable)) ''d/f'' = Some (FsFile ''an new text'' 420)" by code_simp
  let ?s = "snd (runApplyPatch sampleRoot '''' sampleTable)"
  have "runApplyPatch sampleRoot '''' sampleTable = ((''patched d/f'' @ [CHR 0x0A], None), ?s)"
    using run by (metis prod.collapse)
  note once = patch_exactly_once [OF stable followed this]
  then show "\<exists>entry content. rs_table ?s = (rs_table sampleTable)(entry \<mapsto> content)" by auto
  from once have "runApplyPatch (sampleRoot\<lparr>rx_faults := faults\<rparr>) '''' (?s\<lparr>rs_calls := n\<rparr>) = ((out, err), s2) \<Longrightarrow> err \<noteq> None"
    for faults n out err s2 by auto
  from this [of "rx_faults sampleRoot" "rs_calls ?s"] show "snd (fst (runApplyPatch sampleRoot '''' ?s)) \<noteq> None"
    by (cases "runApplyPatch sampleRoot '''' ?s") auto
qed

section \<open>Test runs\<close>

text \<open>The arguments of a test run: no flag besides the fixed ones can come from the request.\<close>

lemma package_arguments:
  "packageArguments names = Inr arguments \<Longrightarrow> arguments = names \<and> list_all (\<lambda>name. name = ''.'' \<or> has_prefix name ''./'') names"
  by (induction names arbitrary: arguments) (auto simp: Let_def bindE_def split: if_splits sum.splits)

lemma test_arguments_safe:
  assumes "testArguments request = Inr arguments"
  shows "\<exists>flags. arguments = [''test'', ''-count=1''] @ flags @ tq_Packages request
    \<and> set flags \<subseteq> {''-v'', ''-run'', tq_Run request} \<and> \<not> has_prefix (tq_Run request) ''-''
    \<and> list_all (\<lambda>name. \<not> has_prefix name ''-'') (tq_Packages request)"
proof -
  obtain ps where ps: "packageArguments (tq_Packages request) = Inr ps"
    using assms by (auto simp: testArguments_def bindE_def split: sum.splits if_splits)
  have "\<not> has_prefix name ''-''" if "name = ''.'' \<or> has_prefix name ''./''" for name
    using that by (cases name) (auto simp: has_prefix_def)
  with package_arguments [OF ps] have "list_all (\<lambda>name. \<not> has_prefix name ''-'') (tq_Packages request)" "ps = tq_Packages request"
    by (auto simp: list_all_iff)
  moreover have "\<not> has_prefix (tq_Run request) ''-''"
    using assms by (cases "tq_Run request") (auto simp: testArguments_def bindE_def has_prefix_def split: sum.splits if_splits)
  moreover have "\<exists>flags. arguments = [''test'', ''-count=1''] @ flags @ ps \<and> set flags \<subseteq> {''-v'', ''-run'', tq_Run request}"
    using assms ps by (cases "tq_Run request = ''''"; cases "tq_Verbose request") (auto simp: testArguments_def bindE_def split: sum.splits if_splits)
  ultimately show ?thesis by blast
qed

end
