(* ===== verification/Docker_Trace.thy ===== *)
theory Docker_Trace
  imports Docker_Sandbox
begin

text \<open>
  The commands a sandbox gives to Docker, as a trace: each operation extends the history by commands of
  known form, and every command that acts on a container directly follows an inspection that confirmed
  the container as owned.
\<close>

section \<open>Traces\<close>

text \<open>The container a command starts, kills or removes.\<close>

fun targetOf :: "string list \<Rightarrow> string option" where
  "targetOf [a, b, c, t] = (if a = ''start'' \<and> b = ''-a'' \<and> c = ''-i'' then Some t else None)"
| "targetOf [a, b, t] = (if a = ''rm'' \<and> b = ''-f'' then Some t else None)"
| "targetOf [a, t] = (if a = ''kill'' then Some t else None)"
| "targetOf _ = None"

definition confirms :: "'a dockerEnv \<Rightarrow> DockerCommand \<times> DockerAnswer \<Rightarrow> string \<Rightarrow> bool" where
  "confirms E p t \<longleftrightarrow> (\<exists>reference. cm_args (fst p) = inspectArgs reference) \<and> readInspection E (snd p) = Inr (t, True, True)"

fun ownedTrace :: "'a dockerEnv \<Rightarrow> (DockerCommand \<times> DockerAnswer) option \<Rightarrow> history \<Rightarrow> bool" where
  "ownedTrace E prev [] = True"
| "ownedTrace E prev (p # h) =
     ((case targetOf (cm_args (fst p)) of None \<Rightarrow> True | Some t \<Rightarrow> (\<exists>q. prev = Some q \<and> confirms E q t)) \<and> ownedTrace E (Some p) h)"

lemma ownedTrace_weaken: "ownedTrace E None h \<Longrightarrow> ownedTrace E prev h"
  by (cases h) (auto split: option.splits)

lemma ownedTrace_append: "ownedTrace E prev h \<Longrightarrow> ownedTrace E None h' \<Longrightarrow> ownedTrace E prev (h @ h')"
  by (induction E prev h rule: ownedTrace.induct) (auto intro: ownedTrace_weaken)

text \<open>The forms of commands an operation uses; \<open>Q\<close> holds the requests it may create containers for.\<close>

definition permitted :: "'a dockerEnv \<Rightarrow> SandboxRequest set \<Rightarrow> DockerCommand \<Rightarrow> bool" where
  "permitted E Q c \<longleftrightarrow> (\<exists>reference. cm_args c = inspectArgs reference) \<or> cm_args c = scanArgs E \<or> targetOf (cm_args c) \<noteq> None
     \<or> (\<exists>name q. q \<in> Q \<and> cm_args c = createArgs E name q)"

definition extends :: "'a dockerEnv \<Rightarrow> SandboxRequest set \<Rightarrow> history \<Rightarrow> history \<Rightarrow> bool" where
  "extends E Q h h' \<longleftrightarrow> (\<exists>g. h' = h @ g \<and> ownedTrace E None g \<and> list_all (\<lambda>p. permitted E Q (fst p)) g)"

lemma extends_refl [simp]: "extends E Q h h"
  by (simp add: extends_def)

lemma extends_trans [trans]:
  assumes "extends E Q h h1" "extends E Q h1 h2"
  shows "extends E Q h h2"
proof -
  obtain g g' where "h1 = h @ g" "h2 = h1 @ g'" "ownedTrace E None g" "ownedTrace E None g'"
    "list_all (\<lambda>p. permitted E Q (fst p)) g" "list_all (\<lambda>p. permitted E Q (fst p)) g'"
    using assms unfolding extends_def by blast
  then show ?thesis using ownedTrace_append unfolding extends_def
    by (intro exI [of _ "g @ g'"]) auto
qed

lemma extends_mono: "extends E Q h h' \<Longrightarrow> Q \<subseteq> R \<Longrightarrow> extends E R h h'"
  unfolding extends_def permitted_def list_all_iff by fastforce

named_theorems trace_rules

section \<open>Commands\<close>

lemma docker_history: "docker E args stdin s = (a, s') \<Longrightarrow> ds_history s' = ds_history s @ [(\<lparr>cm_args = args, cm_stdin = stdin\<rparr>, a)]"
  by (auto simp: docker_def Let_def)

lemma no_target [simp]:
  "targetOf (inspectArgs reference) = None" "targetOf (scanArgs E) = None" "targetOf (createArgs E name q) = None"
  by (simp_all add: inspectArgs_def scanArgs_def createArgs_def isolationArgs_def)

lemma inspect_trace:
  assumes "inspectContainer E reference s = (r, s')"
  obtains a where "ds_history s' = ds_history s @ [(\<lparr>cm_args = inspectArgs reference, cm_stdin = ''''\<rparr>, a)]" "r = readInspection E a"
  using assms that by (auto simp: inspectContainer_def split: prod.splits dest: docker_history)

lemma inspect_extends [trace_rules]: "inspectContainer E reference s = (r, s') \<Longrightarrow> extends E Q (ds_history s) (ds_history s')"
  by (erule inspect_trace) (auto simp: extends_def permitted_def)

text \<open>An inspection that confirms ownership, followed by the command on the container.\<close>

lemma confirmed_extends:
  assumes "inspectContainer E reference s = (Inr (t, True, True), s1)" "docker E args stdin s1 = (a, s2)" "targetOf args = Some t"
  shows "extends E Q (ds_history s) (ds_history s2)"
proof -
  obtain b where b: "ds_history s1 = ds_history s @ [(\<lparr>cm_args = inspectArgs reference, cm_stdin = ''''\<rparr>, b)]"
    "readInspection E b = Inr (t, True, True)" using inspect_trace [OF assms(1)] by metis
  with docker_history [OF assms(2)] assms(3) show ?thesis
    by (auto simp: extends_def permitted_def confirms_def)
qed

lemma updates_history [simp]:
  "ds_history (track name i s) = ds_history s" "ds_history (settle name s) = ds_history s" "ds_history (forget name s) = ds_history s"
  "ds_history (markContainerCreateUnknown name s) = ds_history s" "ds_history (forgetMatching name i s) = ds_history s"
proof -
  have "ds_history (foldl (\<lambda>s entry. forget (fst entry) s) s es) = ds_history s" for es
    by (induction es arbitrary: s) (simp_all add: forget_def settle_def)
  then show "ds_history (forgetMatching name i s) = ds_history s" by (simp add: forgetMatching_def)
qed (simp_all add: track_def settle_def forget_def markContainerCreateUnknown_def)

lemma create_extends [trace_rules]:
  assumes "createContainer E name q s = (r, s')" "q \<in> Q"
  shows "extends E Q (ds_history s) (ds_history s')"
proof -
  obtain a s1 where d: "docker E (createArgs E name q) '''' s = (a, s1)" by fastforce
  have "extends E Q (ds_history s) (ds_history s1)"
    using docker_history [OF d] assms(2) by (auto simp: extends_def permitted_def)
  moreover have "s' = s1 \<or> (\<exists>r reference. inspectContainer E reference s1 = (r, s'))"
    using assms(1) d by (auto simp: createContainer_def Let_def split: if_splits sum.splits prod.splits)
  ultimately show ?thesis using inspect_extends extends_trans by blast
qed


lemma start_extends [trace_rules]:
  assumes "startOwnedContainer E i stdin s = (r, s')"
  shows "extends E Q (ds_history s) (ds_history s')"
proof (cases "inspectContainer E i s")
  case (Pair r1 s1)
  show ?thesis
  proof (cases "r1 = Inr (i, True, True)")
    case True
    then obtain a where "docker E [''start'', ''-a'', ''-i'', i] stdin s1 = (a, s')"
      using assms Pair by (auto simp: startOwnedContainer_def split: prod.splits)
    with Pair True show ?thesis by (auto intro: confirmed_extends)
  next
    case False
    then have "s' = s1" using assms Pair by (auto simp: startOwnedContainer_def split: sum.splits if_splits)
    with inspect_extends [OF Pair] show ?thesis by simp
  qed
qed

lemma kill_extends [trace_rules]:
  assumes "killTrackedContainer E name s = (r, s')"
  shows "extends E Q (ds_history s) (ds_history s')"
proof (cases "s' = s")
  case False
  then obtain i r1 s1 where i: "tracked s name = Some i" "i \<noteq> ''''" "inspectContainer E i s = (r1, s1)"
    using assms by (cases "tracked s name"; cases "inspectContainer E (the (tracked s name)) s")
      (auto simp: killTrackedContainer_def split: if_splits)
  show ?thesis
  proof (cases "r1 = Inr (i, True, True)")
    case True
    with assms i obtain a where "docker E [''kill'', i] '''' s1 = (a, s')"
      by (auto simp: killTrackedContainer_def split: prod.splits)
    with i True show ?thesis by (auto intro: confirmed_extends)
  next
    case False
    then have "s' = s1" using assms i by (auto simp: killTrackedContainer_def split: sum.splits if_splits)
    with inspect_extends [OF i(3)] show ?thesis by simp
  qed
qed simp

lemma remove_owned_extends [trace_rules]:
  assumes "removeOwnedContainer E reference s = (r, s')"
  shows "extends E Q (ds_history s) (ds_history s')"
proof (cases "inspectContainer E reference s")
  case (Pair r1 s1)
  show ?thesis
  proof (cases "\<exists>i. r1 = Inr (i, True, True)")
    case True
    then obtain i where i: "r1 = Inr (i, True, True)" by blast
    with assms Pair obtain a where "docker E [''rm'', ''-f'', i] '''' s1 = (a, s')"
      by (auto simp: removeOwnedContainer_def split: prod.splits)
    with Pair i show ?thesis by (auto intro: confirmed_extends)
  next
    case False
    then have "s' = s1" using assms Pair by (auto simp: removeOwnedContainer_def split: sum.splits if_splits)
    with inspect_extends [OF Pair] show ?thesis by simp
  qed
qed

lemma remove_known_extends [trace_rules]:
  assumes "removeKnown E name i s = (r, s')"
  shows "extends E Q (ds_history s) (ds_history s')"
  using assms remove_owned_extends [of E i s _ _ Q]
  by (cases "removeOwnedContainer E i s") (auto simp: removeKnown_def split: sum.splits if_splits)

lemma remove_tracked_extends [trace_rules]:
  assumes "removeTrackedContainer E name s = (r, s')"
  shows "extends E Q (ds_history s) (ds_history s')"
proof (cases "\<exists>i. tracked s name = Some i \<and> i \<noteq> ''''")
  case True
  then obtain i where "tracked s name = Some i" "i \<noteq> ''''" by blast
  then have "removeKnown E name i s = (r, s')" using assms by (simp add: removeTrackedContainer_def)
  then show ?thesis by (rule trace_rules)
next
  case False
  obtain r1 s1 where i: "inspectContainer E name s = (r1, s1)" by fastforce
  have "s' = s \<or> ds_history s' = ds_history s1 \<or> (\<exists>i r. removeKnown E name i (settle name (track name i s1)) = (r, s'))"
    using assms False i by (auto simp: removeTrackedContainer_def split: option.splits sum.splits if_splits)
  then show ?thesis using inspect_extends [OF i, of Q] remove_known_extends [of E name _ "settle name (track name _ s1)"]
    by (metis extends_refl extends_trans updates_history(1,2))
qed

section \<open>Scans and loops\<close>

lemma scan_line_extends [trace_rules]:
  assumes "scanLine E line s = (r, s')"
  shows "extends E Q (ds_history s) (ds_history s')"
proof (cases "s' = s")
  case False
  then obtain i name r1 s1 where i: "cutTab line = Some (i, name)" "inspectContainer E i s = (r1, s1)"
    using assms by (cases "cutTab line"; cases "inspectContainer E (fst (the (cutTab line))) s")
      (auto simp: scanLine_def split: if_splits)
  have "s' = s1 \<or> (\<exists>r s2. removeOwnedContainer E i s1 = (r, s2) \<and> ds_history s' = ds_history s2)"
    using assms i False by (auto simp: scanLine_def split: sum.splits if_splits prod.splits)
  then show ?thesis using inspect_extends [OF i(2), of Q] remove_owned_extends extends_trans by metis
qed simp

lemma eachOf_extends:
  assumes "\<And>x s r s'. f x s = (r, s') \<Longrightarrow> extends E Q (ds_history s) (ds_history s')" "eachOf f xs s = (r, s')"
  shows "extends E Q (ds_history s) (ds_history s')"
  using assms(2)
proof (induction xs arbitrary: s r)
  case (Cons x xs)
  then show ?case using assms(1) extends_trans by (fastforce split: prod.splits)
qed simp

lemma scan_extends [trace_rules]:
  assumes "removeProviderOwnedContainers E s = (r, s')"
  shows "extends E Q (ds_history s) (ds_history s')"
proof -
  obtain a s1 where d: "docker E (scanArgs E) '''' s = (a, s1)" by fastforce
  have "extends E Q (ds_history s) (ds_history s1)" using docker_history [OF d] by (auto simp: extends_def permitted_def)
  moreover have "s' = s1 \<or> (\<exists>xs r. eachOf (scanLine E) xs s1 = (r, s'))"
    using assms d by (auto simp: removeProviderOwnedContainers_def Let_def split: if_splits)
  moreover have "extends E Q (ds_history s1) (ds_history s')" if "eachOf (scanLine E) xs s1 = (r, s')" for xs r
    using that by (rule eachOf_extends [rotated]) (rule scan_line_extends)
  ultimately show ?thesis using extends_trans by blast
qed

lemma reinspect_extends [trace_rules]:
  "reinspect E n name s = (r, s') \<Longrightarrow> extends E Q (ds_history s) (ds_history s')"
proof (induction n arbitrary: s r)
  case (Suc n)
  obtain r1 s1 where i: "inspectContainer E name s = (r1, s1)" by fastforce
  have "ds_history s' = ds_history s1 \<or> (\<exists>r. reinspect E n name s1 = (r, s'))
     \<or> (\<exists>i r. removeTrackedContainer E name (settle name (track name i s1)) = (r, s'))"
    using Suc.prems i by (auto split: sum.splits if_splits)
  then have "extends E Q (ds_history s1) (ds_history s')"
    using Suc.IH remove_tracked_extends [of E name "settle name (track name _ s1)"] by fastforce
  then show ?case using inspect_extends [OF i] extends_trans by blast
qed simp

lemma failed_create_extends [trace_rules]:
  "cleanupFailedCreate E name s = (r, s') \<Longrightarrow> extends E Q (ds_history s) (ds_history s')"
  unfolding cleanupFailedCreate_def by (rule trace_rules)


section \<open>Executions\<close>

lemma audit_history:
  "auditD X event s = (r, s') \<Longrightarrow> ds_history s' = ds_history s"
  "recordTruncation X request n limit s = (r, s') \<Longrightarrow> ds_history s' = ds_history s"
  "recordContainerCleanupFailure X request timeout limit s = (r, s') \<Longrightarrow> ds_history s' = ds_history s"
  "recordDenied X request cause s = (r, s') \<Longrightarrow> ds_history s' = ds_history s"
  "interruptedBeforeStart X request timeout limit ctxErr es s = (r', s') \<Longrightarrow> ds_history s' = ds_history s"
  by (auto simp: auditD_def recordTruncation_def recordContainerCleanupFailure_def recordDenied_def interruptedBeforeStart_def Let_def
    split: prod.splits ContextError.splits)

text \<open>After the container has ended: at most a kill and a removal, the rest is audit.\<close>

lemma terminate_extends:
  assumes "terminateContainer X request name timeout limit n result kind reason cause s = (r, s')"
  shows "extends (sx_docker X) Q (ds_history s) (ds_history s')"
proof -
  obtain k s1 where k: "killTrackedContainer (sx_docker X) name s = (k, s1)" by fastforce
  obtain m s2 where m: "removeTrackedContainer (sx_docker X) name s1 = (m, s2)" by fastforce
  have "ds_history s' = ds_history s2"
    using assms k m by (auto simp: terminateContainer_def split: prod.splits if_splits dest!: audit_history)
  with kill_extends [OF k] remove_tracked_extends [OF m] show ?thesis by (metis extends_trans)
qed

lemma finish_extends:
  assumes "finishContainer X request name timeout limit n result es s = (r, s')"
  shows "extends (sx_docker X) Q (ds_history s) (ds_history s')"
proof -
  obtain m s1 where m: "removeTrackedContainer (sx_docker X) name s = (m, s1)" by fastforce
  have "ds_history s' = ds_history s1"
    using assms m by (auto simp: finishContainer_def split: prod.splits if_splits dest!: audit_history)
  with remove_tracked_extends [OF m] show ?thesis by simp
qed

lemma run_extends:
  assumes "runContainer X request name i timeout limit s = (r, s')"
  shows "extends (sx_docker X) Q (ds_history s) (ds_history s')"
proof -
  obtain st s1 where st: "startOwnedContainer (sx_docker X) i (sq_Stdin request) s = (st, s1)" by fastforce
  obtain started ws where "st = (started, ws)" by fastforce
  then have "extends (sx_docker X) Q (ds_history s1) (ds_history s')"
    using assms st by (auto simp: runContainer_def Let_def split: option.splits ContextError.splits
      intro: terminate_extends finish_extends)
  with start_extends [OF st] show ?thesis by (rule extends_trans)
qed

lemma name_history: "nextContainerName X purpose s = (name, s') \<Longrightarrow> ds_history s' = ds_history s"
  by (auto simp: nextContainerName_def Let_def)

text \<open>Whatever happens to the creation of a container for the request, it is only cleaned up or run.\<close>

definition validRequests :: "'a dockerEnv \<Rightarrow> SandboxRequest set" where
  "validRequests E = {q. validateContainerCommand (sq_Command q) \<and> validateEnvironment E (sq_Environment q)}"

lemma execute_refused: "request \<notin> validRequests (sx_docker X) \<Longrightarrow> docker_Execute X request s = (r, s') \<Longrightarrow> ds_history s' = ds_history s"
  by (auto simp: docker_Execute_def validRequests_def Let_def split: if_splits prod.splits dest!: audit_history)

lemma execute_extends:
  assumes "docker_Execute X request s = (r, s')"
  shows "extends (sx_docker X) (validRequests (sx_docker X)) (ds_history s) (ds_history s')"
proof (cases "ds_history s' = ds_history s")
  case False
  obtain name s0 where n: "nextContainerName X ''exec'' s = (name, s0)" by fastforce
  obtain c s1 where c: "createContainer (sx_docker X) name request (track name '''' s0) = (c, s1)" by fastforce
  obtain e s2 where e: "cleanupFailedCreate (sx_docker X) name (markContainerCreateUnknown name s1) = (e, s2)" by fastforce
  have "extends (sx_docker X) (validRequests (sx_docker X)) (ds_history s1) (ds_history s')"
  proof (cases c)
    case (Inl f)
    then have "ds_history s' = ds_history s2" using assms False n c e
      by (auto simp: docker_Execute_def Let_def split: if_splits option.splits prod.splits dest!: audit_history)
    then show ?thesis using failed_create_extends [OF e] by simp
  next
    case (Inr i)
    with assms False n c have "\<exists>timeout limit. runContainer X request name i timeout limit (settle name (track name i s1)) = (r, s')"
      by (auto simp: docker_Execute_def Let_def split: if_splits option.splits prod.splits dest!: audit_history)
    then show ?thesis using run_extends by (metis updates_history(1,2))
  qed
  then show ?thesis using create_extends [OF c, of "validRequests (sx_docker X)"] name_history [OF n] extends_trans
      execute_refused [OF _ assms] False by fastforce
qed simp

section \<open>Destruction\<close>

lemma workspace_extends:
  assumes "cleanupWorkspace X s = (r, s')"
  shows "extends (sx_docker X) {cleanupRequest} (ds_history s) (ds_history s')"
proof -
  let ?E = "sx_docker X"
  obtain name s0 where n: "nextContainerName X ''cleanup'' s = (name, s0)" by fastforce
  obtain c s1 where c: "createContainer ?E name cleanupRequest (track name '''' s0) = (c, s1)" by fastforce
  have "extends ?E {cleanupRequest} (ds_history s1) (ds_history s')"
  proof (cases c)
    case (Inl e)
    with assms n c show ?thesis using failed_create_extends [of ?E name "markContainerCreateUnknown name s1"]
      by (auto simp: cleanupWorkspace_def Let_def split: prod.splits)
  next
    case (Inr i)
    obtain st s2 where st: "startOwnedContainer ?E i '''' (settle name (track name i s1)) = (st, s2)" by fastforce
    obtain m s3 where m: "removeTrackedContainer ?E name s2 = (m, s3)" by fastforce
    have "s' = s3" using assms n c Inr st m by (auto simp: cleanupWorkspace_def Let_def split: prod.splits)
    then show ?thesis using start_extends [OF st] remove_tracked_extends [OF m] extends_trans by fastforce
  qed
  then show ?thesis using create_extends [OF c, of "{cleanupRequest}"] name_history [OF n] extends_trans by fastforce
qed

lemma kill_and_remove_extends:
  assumes "killAndRemove E name s = (r, s')"
  shows "extends E Q (ds_history s) (ds_history s')"
proof -
  obtain k s1 where k: "killTrackedContainer E name s = (k, s1)" by fastforce
  obtain m where "removeTrackedContainer E name s1 = (m, s')" using assms k by (auto simp: killAndRemove_def split: prod.splits)
  from extends_trans [OF kill_extends [OF k] remove_tracked_extends [OF this]] show ?thesis .
qed

lemma containers_extends:
  assumes "removeContainers E s = (r, s')"
  shows "extends E Q (ds_history s) (ds_history s')"
proof -
  obtain e1 s1 where 1: "eachOf (killAndRemove E) (dx_order E (map fst (ds_containers s))) s = (e1, s1)" by fastforce
  obtain e2 s2 where 2: "removeProviderOwnedContainers E s1 = (e2, s2)" by fastforce
  obtain e3 where 3: "eachOf (removeTrackedContainer E) (dx_order E (map fst (ds_containers s2))) s2 = (e3, s')"
    using assms 1 2 by (auto simp: removeContainers_def split: prod.splits)
  have "extends E Q (ds_history s) (ds_history s1)" using 1 by (rule eachOf_extends [rotated]) (rule kill_and_remove_extends)
  also have "extends E Q (ds_history s1) (ds_history s2)" using 2 by (rule scan_extends)
  also have "extends E Q (ds_history s2) (ds_history s')" using 3 by (rule eachOf_extends [rotated]) (rule remove_tracked_extends)
  finally show ?thesis .
qed

lemma pointer_history:
  "writePointer X content mode s = (r, s') \<Longrightarrow> ds_history s' = ds_history s"
  "chmodPointer X mode s = (r, s') \<Longrightarrow> ds_history s' = ds_history s"
  "protectRoot X s = (b, s') \<Longrightarrow> ds_history s' = ds_history s"
  by (auto simp: writePointer_def chmodPointer_def protectRoot_def fileCall_def Let_def split: option.splits FileFault.splits)


lemma hide_history: "hideWorktreeGitPointer X s = (r, s') \<Longrightarrow> ds_history s' = ds_history s"
  by (auto simp: hideWorktreeGitPointer_def rollbackPointer_def fileCall_def split: option.splits if_splits prod.splits list.splits bool.splits
    dest!: pointer_history)

lemma removal_history:
  "restorePointer X s = (r, s') \<Longrightarrow> ds_history s' = ds_history s"
  "hideAgain X s = (r, s') \<Longrightarrow> ds_history s' = ds_history s"
  "auditedEnd X s = (r, s') \<Longrightarrow> ds_history s' = ds_history s"
  "recordDestroyFailed X cause s = (r, s') \<Longrightarrow> ds_history s' = ds_history s"
  by (auto simp: restorePointer_def restoreWorktreeGitPointer_def hideAgain_def auditedEnd_def recordDestroy_def recordDestroyFailed_def
      forgetProviderOwnership_def
    split: option.splits if_splits prod.splits list.splits dest!: pointer_history hide_history audit_history)

lemma worktree_history: "removeWorktree X s = (r, s') \<Longrightarrow> ds_history s' = ds_history s"
  by (auto simp: removeWorktree_def split: prod.splits bool.splits dest!: removal_history)

lemma destroy_extends:
  assumes "docker_Destroy X s = (r, s')"
  shows "extends (sx_docker X) {cleanupRequest} (ds_history s) (ds_history s')"
proof (cases "ds_destroyed s")
  case True
  with assms show ?thesis by (auto simp: docker_Destroy_def forgetProviderOwnership_def split: if_splits dest!: removal_history)
next
  case False
  let ?E = "sx_docker X"
  obtain e1 s1 where 1: "removeContainers ?E (s\<lparr>ds_destroying := True\<rparr>) = (e1, s1)" by fastforce
  obtain e2 s2 where 2: "cleanupWorkspace X s1 = (e2, s2)" by fastforce
  have "ds_history s' = ds_history s1 \<or> ds_history s' = ds_history s2"
    using assms False 1 2 by (auto simp: docker_Destroy_def destroySteps_def split: prod.splits if_splits list.splits
      dest!: removal_history worktree_history)
  moreover have "extends ?E {cleanupRequest} (ds_history s) (ds_history s1)" using containers_extends [OF 1] by simp
  ultimately show ?thesis using workspace_extends [OF 2] extends_trans by metis
qed

end
