(* ===== verification/Docker_Lifecycle.thy ===== *)
theory Docker_Lifecycle
  imports Docker_Trace
begin

text \<open>
  The lifecycle of a Docker sandbox. What the container operations leave alone is proved once, in a
  locale over the primitive updates they are made of; the order of use, creation, executions and
  destruction, is an interface with its own laws.
\<close>

section \<open>What container operations are made of\<close>

locale container_steps =
  fixes R :: "('a, 'z) dockerState_scheme \<Rightarrow> ('a, 'z) dockerState_scheme \<Rightarrow> bool"
  assumes stay: "R s s"
    and chain: "R s s1 \<Longrightarrow> R s1 s2 \<Longrightarrow> R s s2"
    and command: "docker E args stdin s = (a, s') \<Longrightarrow> R s s'"
    and tracking: "R s (track name i s)"
    and settling: "R s (settle name s)"
    and forgetting: "R s (forget name s)"
begin

lemma inspects: "inspectContainer E reference s = (r, s') \<Longrightarrow> R s s'"
  by (auto simp: inspectContainer_def split: prod.splits intro: command)

lemma creates: "createContainer E name q s = (r, s') \<Longrightarrow> R s s'"
  by (auto simp: createContainer_def Let_def split: prod.splits if_splits sum.splits dest!: command inspects intro: chain)

lemma starts: "startOwnedContainer E i stdin s = (r, s') \<Longrightarrow> R s s'"
  by (auto simp: startOwnedContainer_def split: prod.splits if_splits sum.splits dest!: command inspects intro: chain)

lemma kills: "killTrackedContainer E name s = (r, s') \<Longrightarrow> R s s'"
  by (auto simp: killTrackedContainer_def split: prod.splits if_splits sum.splits option.splits dest!: command inspects intro: chain stay)

lemma removes_owned: "removeOwnedContainer E reference s = (r, s') \<Longrightarrow> R s s'"
  by (auto simp: removeOwnedContainer_def split: prod.splits if_splits sum.splits dest!: command inspects intro: chain)

lemma removes_known: "removeKnown E name i s = (r, s') \<Longrightarrow> R s s'"
  by (auto simp: removeKnown_def split: prod.splits if_splits sum.splits dest!: removes_owned intro: chain forgetting)

lemma settles: "R s1 s \<Longrightarrow> R s1 (settle name (track name i s))"
  by (rule chain [OF _ chain [OF tracking settling]])

lemma removes_tracked: "removeTrackedContainer E name s = (r, s') \<Longrightarrow> R s s'"
  by (auto simp: removeTrackedContainer_def split: prod.splits if_splits sum.splits option.splits
    dest!: inspects removes_known intro: chain stay forgetting chain [OF settles])

lemma forgets_matching: "R s (forgetMatching name i s)"
proof -
  have "R s (foldl (\<lambda>s entry. forget (fst entry) s) s es)" for es
    by (induction es arbitrary: s) (auto intro: stay chain forgetting)
  then show ?thesis by (simp add: forgetMatching_def)
qed

lemma scans_line: "scanLine E line s = (r, s') \<Longrightarrow> R s s'"
  by (auto simp: scanLine_def split: prod.splits if_splits sum.splits option.splits
    dest!: inspects removes_owned intro: chain stay forgets_matching chain [OF _ forgets_matching])

lemma eaches: "(\<And>x s r s'. f x s = (r, s') \<Longrightarrow> R s s') \<Longrightarrow> eachOf f xs s = (r, s') \<Longrightarrow> R s s'"
  by (induction xs arbitrary: s r) (fastforce split: prod.splits intro: stay chain)+

lemma scans: "removeProviderOwnedContainers E s = (r, s') \<Longrightarrow> R s s'"
  by (auto simp: removeProviderOwnedContainers_def Let_def split: prod.splits if_splits
    dest!: command eaches [OF scans_line, rotated] intro: chain)

lemma reinspects: "reinspect E n name s = (r, s') \<Longrightarrow> R s s'"
proof (induction n arbitrary: s r)
  case (Suc n)
  obtain r1 s1 where i: "inspectContainer E name s = (r1, s1)" by fastforce
  have "R s1 s'" using Suc.prems i Suc.IH
    by (auto split: sum.splits if_splits dest!: removes_tracked intro: forgetting stay chain [OF settles [OF stay]])
  with inspects [OF i] show ?case by (rule chain)
qed (simp add: stay)

lemma cleans_failed: "cleanupFailedCreate E name s = (r, s') \<Longrightarrow> R s s'"
  unfolding cleanupFailedCreate_def by (rule reinspects)

lemma kills_and_removes: "killAndRemove E name s = (r, s') \<Longrightarrow> R s s'"
  by (auto simp: killAndRemove_def split: prod.splits dest!: kills removes_tracked intro: chain)

lemma removes_all: "removeContainers E s = (r, s') \<Longrightarrow> R s s'"
proof -
  assume "removeContainers E s = (r, s')"
  then obtain xs ys e1 s1 e2 s2 e3 where "eachOf (killAndRemove E) xs s = (e1, s1)" "removeProviderOwnedContainers E s1 = (e2, s2)"
    "eachOf (removeTrackedContainer E) ys s2 = (e3, s')" by (auto simp: removeContainers_def split: prod.splits)
  with kills_and_removes removes_tracked eaches [of "killAndRemove E"] eaches [of "removeTrackedContainer E"] scans
  show ?thesis by (metis chain)
qed

end

text \<open>A state without the containers, their uncertain creations and the history of Docker.\<close>

definition frame :: "('a, 'z) dockerState_scheme \<Rightarrow> ('a, 'z) dockerState_scheme" where
  "frame s = s\<lparr>ds_containers := [], ds_uncertain := [], ds_history := []\<rparr>"

lemma frame_updates [simp]:
  "frame (track name i s) = frame s" "frame (settle name s) = frame s" "frame (forget name s) = frame s"
  "frame (markContainerCreateUnknown name s) = frame s" "docker E args stdin s = (a, s') \<Longrightarrow> frame s' = frame s"
  by (auto simp: frame_def track_def settle_def forget_def markContainerCreateUnknown_def docker_def Let_def)

interpretation framed: container_steps "\<lambda>s s'. frame s' = frame s"
  by unfold_locales simp_all

text \<open>Names are tracked once, and an uncertain creation is tracked.\<close>

definition tracksWell :: "('a, 'z) dockerState_scheme \<Rightarrow> bool" where
  "tracksWell s \<longleftrightarrow> distinct (map fst (ds_containers s)) \<and> set (ds_uncertain s) \<subseteq> fst ` set (ds_containers s)"

lemma fst_delete: "fst ` set (AList.delete k al) = fst ` set al - {k}"
  by (metis delete_keys set_map set_removeAll)

lemma tracksWell_updates:
  "tracksWell s \<Longrightarrow> tracksWell (track name i s)" "tracksWell s \<Longrightarrow> tracksWell (settle name s)"
  "tracksWell s \<Longrightarrow> tracksWell (forget name s)" "tracksWell s \<Longrightarrow> docker E args stdin s = (a, s') \<Longrightarrow> tracksWell s'"
  by (auto simp: tracksWell_def track_def settle_def forget_def docker_def Let_def distinct_update dom_update delete_keys distinct_removeAll fst_delete)

interpretation well_tracked: container_steps "\<lambda>s s'. tracksWell s \<longrightarrow> tracksWell s'"
  by unfold_locales (auto intro: tracksWell_updates)

section \<open>What sandbox operations are made of\<close>

locale sandbox_steps = container_steps R for R :: "('a, 't) sandboxState \<Rightarrow> ('a, 't) sandboxState \<Rightarrow> bool" +
  assumes auditing: "auditD X event s = (r, s') \<Longrightarrow> R s s'"
    and naming: "nextContainerName X purpose s = (name, s') \<Longrightarrow> R s s'"
    and marking: "name \<in> fst ` set (ds_containers s) \<Longrightarrow> R s (markContainerCreateUnknown name s)"
begin

lemma records: "recordTruncation X q n limit s = (r, s') \<Longrightarrow> R s s'"
  "recordContainerCleanupFailure X q timeout limit s = (r, s') \<Longrightarrow> R s s'"
  unfolding recordTruncation_def recordContainerCleanupFailure_def by (erule auditing)+

lemma denies: "recordDenied X q cause s = (r, s') \<Longrightarrow> R s s'"
  by (auto simp: recordDenied_def Let_def split: prod.splits dest: auditing)

lemma interrupts: "interruptedBeforeStart X q timeout limit ctxErr es s = (r', s') \<Longrightarrow> R s s'"
  by (auto simp: interruptedBeforeStart_def split: prod.splits ContextError.splits dest: auditing)

lemma optional: "(if b then f s else ([], s)) = (r, s') \<Longrightarrow> (\<And>r. f s = (r, s') \<Longrightarrow> R s s') \<Longrightarrow> R s s'"
  by (auto split: if_splits intro: stay)

lemma terminates:
  assumes "terminateContainer X q name timeout limit n result kind reason cause s = (r', s')"
  shows "R s s'"
proof -
  obtain k s1 m s2 a1 s3 a2 s4 a3 where "killTrackedContainer (sx_docker X) name s = (k, s1)"
    "removeTrackedContainer (sx_docker X) name s1 = (m, s2)"
    "auditD X ((executionAuditEvent X kind q timeout limit reason)\<lparr>ae_OutputBytes := n\<rparr>) s2 = (a1, s3)"
    "(if sr_Truncated result then recordTruncation X q n limit s3 else ([], s3)) = (a2, s4)"
    "(if m \<noteq> [] then recordContainerCleanupFailure X q timeout limit s4 else ([], s4)) = (a3, s')"
    using assms by (auto simp: terminateContainer_def split: prod.splits)
  then have "R s s1" "R s1 s2" "R s2 s3" "R s3 s4" "R s4 s'"
    by (auto dest: kills removes_tracked auditing elim!: optional intro: records)
  then show ?thesis by (meson chain)
qed

lemma finishes:
  assumes "finishContainer X q name timeout limit n result es s = (r', s')"
  shows "R s s'"
proof -
  obtain m s1 a s2 where 1: "removeTrackedContainer (sx_docker X) name s = (m, s1)"
    "(if sr_Truncated result then recordTruncation X q n limit s1 else ([], s1)) = (a, s2)" by fastforce
  then have "R s s1" "R s1 s2" by (auto dest: removes_tracked elim!: optional intro: records)
  moreover have "R s2 s'" using assms 1
    by (auto simp: finishContainer_def split: prod.splits if_splits dest!: auditing records intro: chain stay)
  ultimately show ?thesis by (meson chain)
qed

lemma runs:
  assumes "runContainer X q name i timeout limit s = (r', s')"
  shows "R s s'"
proof -
  obtain st ws s1 where st: "startOwnedContainer (sx_docker X) i (sq_Stdin q) s = ((st, ws), s1)" by (metis prod.exhaust)
  with assms have "R s1 s'" by (auto simp: runContainer_def Let_def split: option.splits ContextError.splits intro: terminates finishes)
  with starts [OF st] show ?thesis by (rule chain)
qed

text \<open>The creation of a container under a fresh name, with its clean-up after a failure.\<close>

lemma fresh_create:
  assumes "nextContainerName X purpose s = (name, s0)" "createContainer E name q (track name '''' s0) = (c, s1)"
  shows "R s s1" "R s (markContainerCreateUnknown name s1)"
proof -
  show s1: "R s s1" using naming [OF assms(1)] creates [OF assms(2)] tracking by (meson chain)
  have "ds_containers s1 = ds_containers (track name '''' s0)"
    using assms(2) by (auto simp: createContainer_def inspectContainer_def docker_def Let_def split: prod.splits if_splits sum.splits)
  then have "name \<in> fst ` set (ds_containers s1)" by (simp add: track_def dom_update)
  then show "R s (markContainerCreateUnknown name s1)" using s1 marking chain by blast
qed

lemma executes:
  assumes "docker_Execute X q s = (r', s')"
  shows "R s s'"
proof -
  obtain name s0 where n: "nextContainerName X ''exec'' s = (name, s0)" by fastforce
  obtain c s1 where c: "createContainer (sx_docker X) name q (track name '''' s0) = (c, s1)" by fastforce
  have deny: "R s s'" if "(case recordDenied X q cause s of (e, s') \<Rightarrow> ((result_zero, e), s')) = (r', s')" for cause
    using that by (auto split: prod.splits dest: denies)
  obtain e s2 where e: "cleanupFailedCreate (sx_docker X) name (markContainerCreateUnknown name s1) = (e, s2)" by fastforce
  have failed: "R s s2" using fresh_create [OF n c] cleans_failed [OF e] chain by blast
  show ?thesis
  proof (cases c)
    case (Inl f)
    with assms n c e show ?thesis
      by (auto simp: docker_Execute_def Let_def split: if_splits option.splits prod.splits dest!: auditing interrupts denies
        intro: chain [OF failed])
  next
    case (Inr i)
    with assms n c show ?thesis
      by (auto simp: docker_Execute_def Let_def split: if_splits option.splits prod.splits dest!: runs interrupts denies
        intro: chain [OF settles [OF fresh_create(1) [OF n c]]])
  qed
qed

lemma cleans_workspace:
  assumes "cleanupWorkspace X s = (r, s')"
  shows "R s s'"
proof -
  obtain name s0 where n: "nextContainerName X ''cleanup'' s = (name, s0)" by fastforce
  obtain c s1 where c: "createContainer (sx_docker X) name cleanupRequest (track name '''' s0) = (c, s1)" by fastforce
  note fresh = fresh_create [OF n c]
  from assms n c show ?thesis
    by (auto simp: cleanupWorkspace_def Let_def split: sum.splits prod.splits dest!: cleans_failed starts removes_tracked
      intro: chain [OF fresh(2)] chain [OF settles [OF fresh(1)] chain])
qed

end

definition flags :: "('a, 'z) dockerState_scheme \<Rightarrow> bool \<times> bool \<times> bool \<times> bool \<times> bool" where
  "flags s = (ds_provisioningFailed s, ds_destroying s, ds_destroyed s, ds_destroyAudited s, ds_owned s)"

interpretation flagged: sandbox_steps "\<lambda>s s'. flags s' = flags s"
  by unfold_locales (auto simp: flags_def docker_def track_def settle_def forget_def auditD_def nextContainerName_def
    markContainerCreateUnknown_def Let_def split: prod.splits)

interpretation tracking: sandbox_steps "\<lambda>s s'. tracksWell s \<longrightarrow> tracksWell s'"
  by unfold_locales (auto simp: tracksWell_def markContainerCreateUnknown_def nextContainerName_def auditD_def Let_def split: prod.splits)


section \<open>The state of a sandbox\<close>

text \<open>
  A destroyed sandbox has no container left, its end is audited only after that, and the provider lists
  it as owned until the audit is written.
\<close>

definition sandboxWF :: "('a, 't) sandboxState \<Rightarrow> bool" where
  "sandboxWF s \<longleftrightarrow> tracksWell s \<and> (ds_destroyed s \<longrightarrow> ds_destroying s \<and> ds_containers s = [])
     \<and> (ds_destroyAudited s \<longrightarrow> ds_destroyed s) \<and> (ds_owned s \<or> ds_destroyAudited s)"

definition released :: "('a, 't) sandboxState \<Rightarrow> bool" where
  "released s \<longleftrightarrow> ds_destroyed s \<and> ds_destroyAudited s \<and> \<not> ds_owned s \<and> ds_containers s = [] \<and> ds_uncertain s = []"

lemma execute_ended:
  assumes "ds_destroying s" "docker_Execute X q s = ((r, e), s')"
  shows "r = result_zero" "e \<noteq> []" "hd e = DockerDestroyed" "\<exists>a. s' = s\<lparr>ds_audit := a\<rparr>"
  using assms by (auto simp: docker_Execute_def recordDenied_def auditD_def Let_def split: prod.splits)

lemma execute_wf: "sandboxWF s \<Longrightarrow> docker_Execute X q s = (r, s') \<Longrightarrow> sandboxWF s'"
proof (cases "ds_destroying s")
  case True
  assume "sandboxWF s" "docker_Execute X q s = (r, s')"
  with True execute_ended(4) [of s X q] show ?thesis by (cases r) (force simp: sandboxWF_def tracksWell_def)
next
  case False
  assume "sandboxWF s" "docker_Execute X q s = (r, s')"
  with False flagged.executes [of X q s r s'] tracking.executes [of X q s r s']
  show ?thesis by (auto simp: sandboxWF_def flags_def)
qed

lemma tracked_identity: "createContainer E name q s = (Inr i, s') \<Longrightarrow> i \<noteq> '''' \<and> ds_containers s' = ds_containers s"
  by (auto simp: createContainer_def inspectContainer_def docker_def Let_def split: prod.splits if_splits sum.splits)

lemma start_containers: "startOwnedContainer E i stdin s = (r, s') \<Longrightarrow> ds_containers s' = ds_containers s"
  by (auto simp: startOwnedContainer_def inspectContainer_def docker_def Let_def split: prod.splits if_splits sum.splits)

lemma remove_known_forgets:
  "removeKnown E name i s = ([], s') \<Longrightarrow> ds_containers s' = AList.delete name (ds_containers s)"
  by (auto simp: removeKnown_def removeOwnedContainer_def inspectContainer_def docker_def forget_def settle_def Let_def
    split: prod.splits if_splits sum.splits)

lemma cleanup_leaves_none:
  assumes "cleanupWorkspace X s = ([], s')" "ds_containers s = []"
  shows "ds_containers s' = []"
proof -
  let ?E = "sx_docker X"
  obtain name s0 where n: "nextContainerName X ''cleanup'' s = (name, s0)" by fastforce
  obtain i s1 where c: "createContainer ?E name cleanupRequest (track name '''' s0) = (Inr i, s1)"
    using assms n by (auto simp: cleanupWorkspace_def Let_def split: prod.splits sum.splits)
  obtain st ws s2 where st: "startOwnedContainer ?E i '''' (settle name (track name i s1)) = ((st, ws), s2)" by (metis prod.exhaust)
  have m: "removeTrackedContainer ?E name s2 = ([], s')"
    using assms n c st by (auto simp: cleanupWorkspace_def Let_def split: prod.splits)
  have "ds_containers s2 = [(name, i)]"
    using n assms(2) tracked_identity [OF c] start_containers [OF st] by (auto simp: nextContainerName_def settle_def track_def Let_def)
  then have "removeKnown ?E name i s2 = ([], s')"
    using m tracked_identity [OF c] by (simp add: removeTrackedContainer_def tracked_def)
  from remove_known_forgets [OF this] \<open>ds_containers s2 = [(name, i)]\<close> show ?thesis by (simp add: AList.delete_eq)
qed

end
