(* ===== verification/Docker_Props.thy ===== *)
theory Docker_Props
  imports Docker_Lifecycle
begin

text \<open>
  The properties of the Docker sandbox: what its destruction leaves behind, that no command is given to
  Docker on a container that was not just confirmed as owned, and that a sandbox once being
  destroyed executes nothing.
\<close>

section \<open>Destroy\<close>

text \<open>The file-system steps and the worktree change nothing that the lifecycle depends on.\<close>

definition core :: "('a, 't) sandboxState \<Rightarrow> (string \<times> string) list \<times> string list \<times> bool \<times> bool \<times> bool \<times> bool" where
  "core s = (ds_containers s, ds_uncertain s, ds_destroying s, ds_destroyed s, ds_destroyAudited s, ds_owned s)"

lemma core_updates [simp]:
  "core (s\<lparr>ds_pointerFile := p\<rparr>) = core s" "core (s\<lparr>ds_fileCalls := n\<rparr>) = core s" "core (s\<lparr>ds_rootMode := m\<rparr>) = core s"
  "core (s\<lparr>ds_gitPointer := g\<rparr>) = core s" "core (s\<lparr>ds_worktree := t\<rparr>) = core s" "core (s\<lparr>ds_audit := a\<rparr>) = core s"
  "core (s\<lparr>ds_provisioningFailed := b\<rparr>) = core s"
  by (simp_all add: core_def)

lemma pointer_core:
  "writePointer X content mode s = (r, s') \<Longrightarrow> core s' = core s"
  "chmodPointer X mode s = (r, s') \<Longrightarrow> core s' = core s"
  "protectRoot X s = (b, s') \<Longrightarrow> core s' = core s"
  "auditD X event s = (r, s') \<Longrightarrow> core s' = core s"
  by (auto simp: writePointer_def chmodPointer_def protectRoot_def fileCall_def auditD_def Let_def
    split: option.splits FileFault.splits prod.splits)

lemma hide_core: "hideWorktreeGitPointer X s = (r, s') \<Longrightarrow> core s' = core s"
  by (auto simp: hideWorktreeGitPointer_def rollbackPointer_def fileCall_def split: option.splits if_splits prod.splits list.splits bool.splits
    dest!: pointer_core)

lemma restore_core:
  "restorePointer X s = (r, s') \<Longrightarrow> core s' = core s"
  "hideAgain X s = (r, s') \<Longrightarrow> core s' = core s"
  "recordDestroyFailed X cause s = (r, s') \<Longrightarrow> core s' = core s"
  by (auto simp: restorePointer_def restoreWorktreeGitPointer_def hideAgain_def recordDestroyFailed_def
    split: option.splits prod.splits list.splits dest!: pointer_core hide_core)

lemma wf_core: "core s' = core s \<Longrightarrow> sandboxWF s' = sandboxWF s \<and> released s' = released s \<and> ds_destroying s' = ds_destroying s
    \<and> ds_destroyed s' = ds_destroyed s"
  by (auto simp: core_def sandboxWF_def tracksWell_def released_def)

lemma wf_released: "sandboxWF s \<Longrightarrow> ds_destroyed s \<Longrightarrow> ds_destroyAudited s \<Longrightarrow> \<not> ds_owned s \<Longrightarrow> released s"
  by (auto simp: sandboxWF_def released_def tracksWell_def)

lemma audited_end:
  assumes "auditedEnd X s = (e, s')" "sandboxWF s" "ds_destroyed s"
  shows "sandboxWF s'" "ds_destroyed s'" "e = [] \<Longrightarrow> released s'"
proof -
  obtain r s1 where a: "auditD X (sandboxEvent X AuditSandboxDestroyed ''container set and disposable worktree removed'') s = (r, s1)"
    by fastforce
  with pointer_core(4) [OF a] assms show "sandboxWF s'" "ds_destroyed s'" "e = [] \<Longrightarrow> released s'"
    by (auto simp: auditedEnd_def recordDestroy_def forgetProviderOwnership_def core_def sandboxWF_def tracksWell_def released_def
      split: if_splits)
qed

lemma remove_worktree:
  assumes "removeWorktree X s = (e, s')" "sandboxWF s" "ds_destroying s" "ds_containers s = []"
  shows "sandboxWF s'" "ds_destroying s'" "e = [] \<Longrightarrow> released s'"
proof -
  obtain r s1 where r: "restorePointer X s = (r, s1)" by fastforce
  obtain ok t where t: "sx_worktreeDestroy X (ds_worktree s1) = (ok, t)" by fastforce
  note c = restore_core(1) [OF r]
  show "sandboxWF s'" "ds_destroying s'" "e = [] \<Longrightarrow> released s'"
  proof (atomize (full), cases ok)
    case True
    obtain a where a: "auditedEnd X (s1\<lparr>ds_worktree := t, ds_destroyed := True\<rparr>) = (a, s')" "e = r @ a"
      using assms(1) r t True by (auto simp: removeWorktree_def split: prod.splits)
    have "sandboxWF (s1\<lparr>ds_worktree := t, ds_destroyed := True\<rparr>)"
      using c assms by (auto simp: core_def sandboxWF_def tracksWell_def)
    from audited_end [OF a(1) this] a(2) show "sandboxWF s' \<and> ds_destroying s' \<and> (e = [] \<longrightarrow> released s')"
      by (auto simp: sandboxWF_def)
  next
    case False
    with assms(1) r t obtain h where "hideAgain X (s1\<lparr>ds_worktree := t\<rparr>) = (h, s')" "e \<noteq> []"
      by (auto simp: removeWorktree_def split: prod.splits)
    with restore_core(2) c wf_core assms(2,3) show "sandboxWF s' \<and> ds_destroying s' \<and> (e = [] \<longrightarrow> released s')"
      by (metis core_updates(5))
  qed
qed

lemma destroy_steps:
  assumes "destroySteps X s = (e, s')" "sandboxWF s" "\<not> ds_destroyed s"
  shows "sandboxWF s' \<and> ds_destroying s' \<and> (e = [] \<longrightarrow> released s')"
proof -
  obtain e1 s1 where 1: "removeContainers (sx_docker X) (s\<lparr>ds_destroying := True\<rparr>) = (e1, s1)" by fastforce
  obtain e2 s2 where 2: "cleanupWorkspace X s1 = (e2, s2)" by fastforce
  have wf0: "sandboxWF (s\<lparr>ds_destroying := True\<rparr>)" using assms(2,3) by (auto simp: sandboxWF_def tracksWell_def)
  have f1: "flags s1 = flags (s\<lparr>ds_destroying := True\<rparr>)" by (rule flagged.removes_all [OF 1])
  have wf1: "sandboxWF s1" using wf0 f1 well_tracked.removes_all [OF 1] assms(3) by (auto simp: sandboxWF_def flags_def)
  have f2: "flags s2 = flags s1" by (rule flagged.cleans_workspace [OF 2])
  have wf2: "sandboxWF s2" using wf1 f1 f2 tracking.cleans_workspace [OF 2] assms(3) by (auto simp: sandboxWF_def flags_def)
  have d: "ds_destroying s1" "ds_destroying s2" using f1 f2 by (auto simp: flags_def)
  show ?thesis
  proof (cases "e1 = [] \<and> ds_containers s1 = []")
    case True
    with cleanup_leaves_none [of X s1 s2] 2 have "e2 = [] \<Longrightarrow> ds_containers s2 = []" by simp
    with True assms(1) 1 2 remove_worktree [OF _ wf1 d(1)] remove_worktree [OF _ wf2 d(2)] wf2 d(2) show ?thesis
      by (auto simp: destroySteps_def split: if_splits list.splits)
  next
    case False
    with assms(1) 1 wf1 d show ?thesis by (auto simp: destroySteps_def split: if_splits)
  qed
qed

lemma destroy_result:
  assumes "docker_Destroy X s = (e, s')" "sandboxWF s"
  shows "sandboxWF s' \<and> ds_destroying s' \<and> (e = [] \<longrightarrow> released s')"
proof (cases "ds_destroyed s")
  case True
  show ?thesis
  proof (cases "ds_destroyAudited s")
    case True
    with assms \<open>ds_destroyed s\<close> show ?thesis
      by (auto simp: docker_Destroy_def forgetProviderOwnership_def sandboxWF_def tracksWell_def released_def)
  next
    case False
    with assms True have a: "auditedEnd X s = (e, s')" by (simp add: docker_Destroy_def)
    from audited_end [OF a assms(2) True] show ?thesis by (auto simp: sandboxWF_def)
  qed
next
  case False
  obtain e1 s1 where 1: "destroySteps X s = (e1, s1)" by fastforce
  note facts = destroy_steps [OF 1 assms(2) False]
  show ?thesis
  proof (cases "e1 \<noteq> [] \<and> \<not> ds_destroyed s1")
    case True
    with assms(1) False 1 obtain a where "recordDestroyFailed X e1 s1 = (a, s')" "e = e1 @ a"
      by (auto simp: docker_Destroy_def split: prod.splits)
    with restore_core(3) wf_core facts True show ?thesis by (metis Nil_is_append_conv)
  next
    case nothing: False
    with assms(1) False 1 have "e = e1" "s' = s1" by (auto simp: docker_Destroy_def split: prod.splits if_splits)
    with facts show ?thesis by simp
  qed
qed

section \<open>Sequences of operations\<close>

text \<open>
  The interface a user of a sandbox relies on: executions and ends in any order. \<open>trace\<close> is what the
  object has done to the outside, \<open>refused\<close> tells a result that refuses an execution.
\<close>

locale lifecycle =
  fixes perform :: "'q \<Rightarrow> 's \<Rightarrow> 'r \<times> 's"
    and finish :: "'s \<Rightarrow> 'e list \<times> 's"
    and inv :: "'s \<Rightarrow> bool"
    and ended :: "'s \<Rightarrow> bool"
    and gone :: "'s \<Rightarrow> bool"
    and refused :: "'r \<Rightarrow> bool"
    and trace :: "'s \<Rightarrow> 'h"
  assumes perform_inv: "perform q s = (r, s') \<Longrightarrow> inv s \<Longrightarrow> inv s'"
    and perform_ended: "perform q s = (r, s') \<Longrightarrow> ended s \<Longrightarrow> refused r \<and> trace s' = trace s \<and> ended s' \<and> gone s' = gone s"
    and finish_inv: "finish s = (e, s') \<Longrightarrow> inv s \<Longrightarrow> inv s' \<and> ended s' \<and> (e = [] \<longrightarrow> gone s')"
    and finish_gone: "finish s = (e, s') \<Longrightarrow> inv s \<Longrightarrow> gone s \<Longrightarrow> e = [] \<and> trace s' = trace s"
begin

text \<open>\<open>Some q\<close> is an execution, \<open>None\<close> an end; the results of the executions are collected.\<close>

primrec use :: "'q option list \<Rightarrow> 's \<Rightarrow> 'r list \<times> 's" where
  "use [] s = ([], s)"
| "use (op # ops) s =
     (case op of
        None \<Rightarrow> use ops (snd (finish s))
      | Some q \<Rightarrow> (case perform q s of (r, s1) \<Rightarrow> case use ops s1 of (rs, s2) \<Rightarrow> (r # rs, s2)))"

lemma use_inv: "use ops s = (rs, s') \<Longrightarrow> inv s \<Longrightarrow> inv s'"
proof (induction ops arbitrary: s rs)
  case (Cons op ops)
  then show ?case
  proof (cases op)
    case None
    with Cons finish_inv [of s "fst (finish s)" "snd (finish s)"] show ?thesis by simp
  next
    case (Some q)
    with Cons show ?thesis by (auto split: prod.splits dest: perform_inv)
  qed
qed simp

lemma use_ended:
  "use ops s = (rs, s') \<Longrightarrow> inv s \<Longrightarrow> ended s \<Longrightarrow> list_all refused rs \<and> ended s' \<and> (gone s \<longrightarrow> gone s' \<and> trace s' = trace s)"
proof (induction ops arbitrary: s rs)
  case (Cons op ops)
  show ?case
  proof (cases op)
    case None
    obtain e s1 where f: "finish s = (e, s1)" by fastforce
    with Cons.prems None have "use ops s1 = (rs, s')" by simp
    from Cons.IH [OF this] finish_inv [OF f] finish_gone [OF f] Cons.prems show ?thesis by auto
  next
    case (Some q)
    obtain r s1 where p: "perform q s = (r, s1)" by fastforce
    with Cons.prems Some obtain rs' where u: "use ops s1 = (rs', s')" "rs = r # rs'" by (auto split: prod.splits)
    from Cons.IH [OF u(1)] perform_inv [OF p] perform_ended [OF p] u(2) Cons.prems show ?thesis by auto
  qed
qed simp

end

definition refusedExecution :: "SandboxResult \<times> errs \<Rightarrow> bool" where
  "refusedExecution r \<longleftrightarrow> fst r = result_zero \<and> (\<exists>es. snd r = DockerDestroyed # es)"

fun useSandbox :: "('a, 't) sandboxEnv \<Rightarrow> SandboxRequest option list \<Rightarrow> ('a, 't) sandboxState \<Rightarrow> (SandboxResult \<times> errs) list \<times> ('a, 't) sandboxState" where
  "useSandbox X [] s = ([], s)"
| "useSandbox X (None # ops) s = useSandbox X ops (snd (docker_Destroy X s))"
| "useSandbox X (Some q # ops) s = (case docker_Execute X q s of (r, s1) \<Rightarrow> case useSandbox X ops s1 of (rs, s2) \<Rightarrow> (r # rs, s2))"

interpretation docker_lifecycle: lifecycle "docker_Execute X" "docker_Destroy X" sandboxWF ds_destroying released refusedExecution ds_history for X
proof unfold_locales
  fix q r s' and s :: "('a, 'b) sandboxState"
  assume p: "docker_Execute X q s = (r, s')"
  show "sandboxWF s \<Longrightarrow> sandboxWF s'" using p execute_wf by blast
  assume d: "ds_destroying s"
  obtain res e where r: "r = (res, e)" by fastforce
  from execute_ended [OF d p [unfolded r]]
  show "refusedExecution r \<and> ds_history s' = ds_history s \<and> ds_destroying s' \<and> released s' = released s"
    using d r by (cases e) (auto simp: refusedExecution_def released_def)
next
  fix e s' and s :: "('a, 'b) sandboxState"
  assume f: "docker_Destroy X s = (e, s')" and wf: "sandboxWF s"
  show "sandboxWF s' \<and> ds_destroying s' \<and> (e = [] \<longrightarrow> released s')" using destroy_result [OF f wf] .
  assume "released s"
  then show "e = [] \<and> ds_history s' = ds_history s" using f by (auto simp: docker_Destroy_def released_def forgetProviderOwnership_def)
qed

lemma use_sandbox: "useSandbox X ops s = docker_lifecycle.use X ops s"
  by (induction X ops s rule: useSandbox.induct) (auto split: prod.splits)


section \<open>From the creation on\<close>

lemma cleanup_valid: "cleanupRequest \<in> validRequests E"
  by (simp add: validRequests_def cleanupRequest_def validateContainerCommand_def helperCommands_def validateEnvironment_def)

lemma fail_provisioning:
  assumes "failProvisioning X stage cause s = ((handle, e), s')" "sandboxWF s"
  shows "sandboxWF s' \<and> (handle \<or> released s') \<and> extends (sx_docker X) (validRequests (sx_docker X)) (ds_history s) (ds_history s')"
proof -
  obtain c s1 where d: "docker_Destroy X s = (c, s1)" by fastforce
  obtain event r where "auditD X event s1 = (r, s')" "handle = (c \<noteq> [])"
    using assms(1) d by (auto simp: failProvisioning_def recordCreateFailed_def split: prod.splits)
  moreover have "extends (sx_docker X) (validRequests (sx_docker X)) (ds_history s) (ds_history s1)"
    using extends_mono [OF destroy_extends [OF d], of "validRequests (sx_docker X)"] cleanup_valid by auto
  ultimately show ?thesis using destroy_result [OF d assms(2)] wf_core pointer_core(4) audit_history(1) by metis
qed

lemma provision_result:
  assumes "provision X prepared s = ((handle, e), s')" "sandboxWF s"
  shows "sandboxWF s' \<and> (handle \<or> released s') \<and> extends (sx_docker X) (validRequests (sx_docker X)) (ds_history s) (ds_history s')"
proof (cases prepared)
  case False
  with assms(1) have "failProvisioning X ''workspace permission setup'' [DockerFiles] s = ((handle, e), s')" by (simp add: provision_def)
  from fail_provisioning [OF this assms(2)] show ?thesis .
next
  case True
  obtain r s1 where h: "hideWorktreeGitPointer X s = (r, s1)" by fastforce
  have 1: "sandboxWF s1" "ds_history s1 = ds_history s" using wf_core [OF hide_core [OF h]] hide_history [OF h] assms(2) by auto
  show ?thesis
  proof (cases r)
    case (Inl f)
    with assms(1) True h 1 fail_provisioning [of X _ _ s1] show ?thesis by (fastforce simp: provision_def)
  next
    case (Inr original)
    let ?s2 = "s1\<lparr>ds_gitPointer := Some original\<rparr>"
    obtain a s3 where a: "auditD X (sandboxEvent X AuditSandboxCreated ''disposable worktree provisioned; no execution container started'') ?s2 = (a, s3)"
      by fastforce
    have "core s3 = core s1" "ds_history s3 = ds_history s" using pointer_core(4) [OF a] audit_history(1) [OF a] 1(2) by simp_all
    with wf_core [of "s3\<lparr>ds_provisioningFailed := False\<rparr>" s1] wf_core [of s3 s1] 1(1)
    have "sandboxWF s3" "sandboxWF (s3\<lparr>ds_provisioningFailed := False\<rparr>)" by simp_all
    with assms(1) True h Inr a fail_provisioning [of X _ _ s3] \<open>ds_history s3 = ds_history s\<close> show ?thesis
      by (fastforce simp: provision_def Let_def split: list.splits)
  qed
qed

lemma pending_wf: "sandboxWF (newPendingSandbox counter h recorded pointer rootMode t)"
  by (simp add: newPendingSandbox_def sandboxWF_def tracksWell_def)

text \<open>A sandbox that the provider made: well formed, and one image inspection and owned commands in its history.\<close>

lemma create_result:
  assumes "docker_Create X cpuValid token worktree prepared pointer rootMode counter h a = Created Y s handle e"
  obtains answer where "sandboxWF s" "handle \<or> released s"
    "extends (sx_docker Y) (validRequests (sx_docker Y))
       (h @ [(\<lparr>cm_args = imageArgs (dc_Image (dx_config (sx_docker X))), cm_stdin = ''''\<rparr>, answer)]) (ds_history s)"
proof -
  define c where "c = \<lparr>cm_args = imageArgs (dc_Image (dx_config (sx_docker X))), cm_stdin = ''''\<rparr>"
  define answer where "answer = dx_daemon (sx_docker X) h c"
  obtain t ok where t: "worktree = (Some t, ok)"
    using assms by (auto simp: docker_Create_def createFailed_def Let_def split: if_splits option.splits prod.splits)
  let ?s = "newPendingSandbox counter (h @ [(c, answer)]) a pointer rootMode t"
  have "\<not> ok \<and> handle \<and> (\<exists>e. recordCreateFailed Y ''disposable worktree creation'' [DockerWorktree] ?s = (e, s))
      \<or> provision Y prepared ?s = ((handle, e), s)"
    using assms t unfolding docker_Create_def c_def answer_def
    by (auto simp: createFailed_def Let_def split: if_splits option.splits prod.splits)
  then show thesis
  proof
    assume p: "provision Y prepared ?s = ((handle, e), s)"
    from provision_result [OF p pending_wf] that show thesis by (auto simp: c_def newPendingSandbox_def)
  next
    assume "\<not> ok \<and> handle \<and> (\<exists>e. recordCreateFailed Y ''disposable worktree creation'' [DockerWorktree] ?s = (e, s))"
    then obtain event r where "handle" "auditD Y event ?s = (r, s)" by (auto simp: recordCreateFailed_def split: prod.splits)
    with wf_core pointer_core(4) audit_history(1) pending_wf that show thesis
      by (metis (no_types, lifting) c_def extends_refl dockerState.select_convs(9) newPendingSandbox_def)
  qed
qed

lemma use_extends:
  "useSandbox X ops s = (rs, s') \<Longrightarrow> extends (sx_docker X) (validRequests (sx_docker X)) (ds_history s) (ds_history s')"
proof (induction X ops s arbitrary: rs rule: useSandbox.induct)
  case (2 X ops s)
  obtain e s1 where d: "docker_Destroy X s = (e, s1)" by fastforce
  have "extends (sx_docker X) (validRequests (sx_docker X)) (ds_history s) (ds_history s1)"
    using extends_mono [OF destroy_extends [OF d], of "validRequests (sx_docker X)"] cleanup_valid by auto
  with 2 d show ?case by (auto intro: extends_trans)
next
  case (3 X q ops s)
  obtain r s1 where x: "docker_Execute X q s = (r, s1)" by fastforce
  with 3 have "extends (sx_docker X) (validRequests (sx_docker X)) (ds_history s1) (ds_history s')" by (auto split: prod.splits)
  with execute_extends [OF x] show ?case by (rule extends_trans)
qed simp


section \<open>Properties\<close>

text \<open>
  (C16) Whatever the Docker daemon answers, and whatever sequence of executions and destructions a sandbox
  goes through after its creation: its commands are the inspection of the image followed only by
  inspections, scans, creations for requests whose command and environment are allowed, and commands that
  start, kill or remove a container, each directly after an inspection that confirmed the container with
  that identity as existing and owned by this sandbox.
\<close>

theorem docker_commands_owned:
  assumes "docker_Create X cpuValid token worktree prepared pointer rootMode counter h a = Created Y s handle e"
    and "useSandbox Y ops s = (rs, s')"
  shows "\<exists>image g. ds_history s' = h @ image # g \<and> cm_args (fst image) = imageArgs (dc_Image (dx_config (sx_docker X)))
    \<and> ownedTrace (sx_docker Y) None g \<and> list_all (\<lambda>p. permitted (sx_docker Y) (validRequests (sx_docker Y)) (fst p)) g"
proof -
  obtain answer where "extends (sx_docker Y) (validRequests (sx_docker Y))
      (h @ [(\<lparr>cm_args = imageArgs (dc_Image (dx_config (sx_docker X))), cm_stdin = ''''\<rparr>, answer)]) (ds_history s)"
    using create_result [OF assms(1)] by blast
  from extends_trans [OF this use_extends [OF assms(2)]] show ?thesis by (auto simp: extends_def)
qed

text \<open>
  (C17) In every state a sandbox reaches, container names are tracked once and uncertain creations stay
  tracked; it is listed as owned until its end is audited, audited only when destroyed and destroyed only
  without containers. A creation that hands out no sandbox has released everything. Once a destruction
  was started, even if it failed, and whatever executions and further destructions followed, an execution
  is refused and the history of Docker commands is the same after it as before; after a destruction that
  reports no error the sandbox stays released and never gives a Docker command again.
\<close>

theorem sandbox_lifecycle:
  assumes "docker_Create X cpuValid token worktree prepared pointer rootMode counter h a = Created Y s handle e"
    and "useSandbox Y ops s = (rs, s1)" "docker_Destroy Y s1 = (err, s2)" "useSandbox Y later s2 = (rs', s3)"
  shows "(handle \<or> released s) \<and> sandboxWF s1 \<and> sandboxWF s3 \<and> list_all refusedExecution rs'
    \<and> (\<forall>q r s4. docker_Execute Y q s3 = (r, s4) \<longrightarrow> refusedExecution r \<and> ds_history s4 = ds_history s3)
    \<and> (err = [] \<longrightarrow> released s3 \<and> ds_history s3 = ds_history s2)"
proof -
  have s: "sandboxWF s" "handle \<or> released s" using create_result [OF assms(1)] by blast+
  have s1: "sandboxWF s1" using docker_lifecycle.use_inv assms(2) s(1) by (metis use_sandbox)
  note s2 = destroy_result [OF assms(3) s1]
  have "list_all refusedExecution rs' \<and> ds_destroying s3 \<and> (released s2 \<longrightarrow> released s3 \<and> ds_history s3 = ds_history s2)"
    using docker_lifecycle.use_ended assms(4) s2 by (metis use_sandbox)
  moreover have "sandboxWF s3" using docker_lifecycle.use_inv assms(4) s2 by (metis use_sandbox)
  ultimately show ?thesis using s s1 s2 docker_lifecycle.perform_ended by blast
qed

section \<open>A daemon that works\<close>

definition sampleID :: string where "sampleID = replicate 64 (CHR ''a'')"

definition sampleDaemon :: "history \<Rightarrow> DockerCommand \<Rightarrow> DockerAnswer" where
  "sampleDaemon h c = \<lparr>da_err = None, da_writes =
     (if hd (cm_args c) = ''image'' then [(False, ''sha256:'' @ sampleID)]
      else if hd (cm_args c) = ''create'' then [(False, sampleID)] else [])\<rparr>"

definition sampleScope :: Scope where "sampleScope = \<lparr>sc_RunID = ''r'', sc_AttemptID = ''a''\<rparr>"

definition sampleSandbox :: "(AuditEvent list, unit) sandboxEnv" where
  "sampleSandbox = \<lparr>sx_docker = \<lparr>dx_config = \<lparr>dc_Image = ''i'', dc_CPU = ''1'', dc_Memory = ''1m'', dc_PIDs = 8, dc_CommandTimeout = 9,
       dc_OutputLimit = 9, dc_EnvAllowlist = []\<rparr>, dx_scope = sampleScope, dx_ownerToken = ''0'', dx_workspace = ''/w'',
       dx_daemon = sampleDaemon,
       dx_decode = (\<lambda>_. Some (sampleID, [(''agentdock.phase'', ''4''), (''agentdock.run_id'', ''r''), (''agentdock.attempt_id'', ''a''), (''agentdock.owner_token'', ''0'')])),
       dx_context = (\<lambda>_. None), dx_order = (\<lambda>names. names), dx_record = (\<lambda>event events. (Inr (), event # events))\<rparr>,
     sx_files = (\<lambda>_. None), sx_worktreeDestroy = (\<lambda>t. (True, t))\<rparr>"

definition sampleCreation :: "(AuditEvent list, unit) creation" where
  "sampleCreation = docker_Create sampleSandbox (\<lambda>_. True) (Some ''0'') (Some (), True) True
     (Some \<lparr>pf_regular = True, pf_content = ''gitdir: /g'', pf_mode = 420\<rparr>) 493 0 [] []"

text \<open>The creation, a listing of the workspace, the destruction and one more execution, with the numbers of Docker commands after each.\<close>

definition listRequest :: SandboxRequest where
  "listRequest = cleanupRequest\<lparr>sq_Command := [helper, ''list'']\<rparr>"

definition sampleRun :: "nat list \<times> errs \<times> errs list" where
  "sampleRun = (case sampleCreation of
      NotCreated es h a \<Rightarrow> ([], es, [])
    | Created Y s handle e \<Rightarrow>
       (case useSandbox Y [Some listRequest] s of (rs, s1) \<Rightarrow>
        case docker_Destroy Y s1 of (err, s2) \<Rightarrow>
        case useSandbox Y [Some listRequest] s2 of (rs', s3) \<Rightarrow>
          (map (length \<circ> ds_history) [s, s1, s2, s3], err, map snd (rs @ rs'))))"

lemma sample_sandbox_run: "sampleRun = ([1, 7, 14, 14], [], [[], [DockerDestroyed]])"
  by code_simp


lemma sample_creation: "\<exists>Y s handle e. sampleCreation = Created Y s handle e"
proof -
  have "(case sampleCreation of NotCreated _ _ _ \<Rightarrow> False | Created _ _ _ _ \<Rightarrow> True)" by code_simp
  then show ?thesis by (metis creation.case creation.exhaust)
qed

theorem docker_commands_owned_witness:
  "\<exists>Y s handle e rs s' image g. sampleCreation = Created Y s handle e \<and> useSandbox Y [Some listRequest, None] s = (rs, s')
    \<and> ds_history s' = image # g \<and> ownedTrace (sx_docker Y) None g"
proof -
  obtain Y s handle e where c: "sampleCreation = Created Y s handle e" using sample_creation by blast
  obtain rs s' where u: "useSandbox Y [Some listRequest, None] s = (rs, s')" by fastforce
  from docker_commands_owned [OF c [unfolded sampleCreation_def] u] c u show ?thesis by fastforce
qed

theorem sandbox_lifecycle_witness:
  "sampleRun = ([1, 7, 14, 14], [], [[], [DockerDestroyed]]) \<and>
   (\<exists>Y s handle e rs s1 err s2 rs' s3. sampleCreation = Created Y s handle e \<and> useSandbox Y [Some listRequest] s = (rs, s1)
     \<and> docker_Destroy Y s1 = (err, s2) \<and> useSandbox Y [Some listRequest] s2 = (rs', s3)
     \<and> sandboxWF s3 \<and> list_all refusedExecution rs' \<and> ds_history (snd (docker_Execute Y listRequest s3)) = ds_history s3
     \<and> released s3)"
proof
  show "sampleRun = ([1, 7, 14, 14], [], [[], [DockerDestroyed]])" by (rule sample_sandbox_run)
  obtain Y s handle e where c: "sampleCreation = Created Y s handle e" using sample_creation by blast
  obtain rs s1 where u: "useSandbox Y [Some listRequest] s = (rs, s1)" by fastforce
  obtain err s2 where d: "docker_Destroy Y s1 = (err, s2)" by fastforce
  obtain rs' s3 where v: "useSandbox Y [Some listRequest] s2 = (rs', s3)" by fastforce
  have "err = []" using sample_sandbox_run [unfolded sampleRun_def c] u d v by (simp del: useSandbox.simps)
  moreover have "docker_Execute Y listRequest s3 = (fst (docker_Execute Y listRequest s3), snd (docker_Execute Y listRequest s3))" by simp
  ultimately show "\<exists>Y s handle e rs s1 err s2 rs' s3. sampleCreation = Created Y s handle e \<and> useSandbox Y [Some listRequest] s = (rs, s1)
     \<and> docker_Destroy Y s1 = (err, s2) \<and> useSandbox Y [Some listRequest] s2 = (rs', s3)
     \<and> sandboxWF s3 \<and> list_all refusedExecution rs' \<and> ds_history (snd (docker_Execute Y listRequest s3)) = ds_history s3
     \<and> released s3"
    using sandbox_lifecycle [OF c [unfolded sampleCreation_def] u d v] c u d v by blast
qed

end
