(* ===== verification/Worktree.thy ===== *)
theory Worktree
  imports Sandbox_Helper
begin

text \<open>
  The disposable Git worktrees of \<open>src/internal/sandbox/worktree.go\<close>. The host, its file system and the git
  command are a parameter: any function of the history of calls that gives the next answer. Calls that
  change the host are recorded in the history with their answers; what only reads it is a function of the
  history. An operation is a function of the state that returns an error or a value.
\<close>

section \<open>Host\<close>

text \<open>The calls on a root opened at a workspace carry the workspace first.\<close>

datatype hostCall =
    HostGit string "string list" | HostMkdirAll string | HostMkdir string | HostRemove string | HostRemoveAll string
  | RootOpen string | RootMkdirAll string string | RootOpenFile string string int | RootClose string string
  | RootSymlink string string string | RootRemove string string

text \<open>\<open>ha_exist\<close>: the error is \<open>fs.ErrExist\<close>. \<open>ha_writes\<close>: what a command writes.\<close>

record hostAnswer =
  ha_ok :: bool
  ha_exist :: bool
  ha_writes :: writes

type_synonym hostHistory = "(hostCall \<times> hostAnswer) list"

datatype pathInfo = InfoMissing | InfoError | InfoDir int int | InfoLink | InfoOther

record worktreeEnv =
  wx_host :: "hostHistory \<Rightarrow> hostCall \<Rightarrow> hostAnswer"
  wx_abs :: "string \<Rightarrow> string option"
  wx_eval :: "hostHistory \<Rightarrow> string \<Rightarrow> string option"
  wx_lstat :: "hostHistory \<Rightarrow> string \<Rightarrow> pathInfo"
  wx_same :: "hostHistory \<Rightarrow> string \<Rightarrow> string \<Rightarrow> bool"
  wx_token :: "nat \<Rightarrow> string option"
  wx_tempDir :: string
  wx_uid :: int
  wx_root :: string

record gitWorktree =
  gw_repository :: string
  gw_root :: string
  gw_workspace :: string
  gw_scope :: Scope

text \<open>\<open>wt_pending\<close> are the worktrees the provider owns; one that is destroyed is no longer pending.\<close>

record worktreeState =
  wt_history :: hostHistory
  wt_tokens :: nat
  wt_pending :: "(string \<times> gitWorktree) list"

datatype WorktreeError =
    SpecInvalid | ResolveFailed | GitFailed | GitOutputTooLong | NotTopLevel | RootInsideRepository | RootCreateFailed | RootUnsafe
  | TokenFailed | PathEscaped | AllocateFailed | AllocateExhausted | NotPrivate | PrepareFailed | InvalidObjectID
  | TreeMalformed | TreeUnsupported | TreeUnsafePath | MaterializeFailed | CleanupOutside | StillRegistered | RemoveAllFailed

type_synonym 'a act = "worktreeState \<Rightarrow> (WorktreeError + 'a) \<times> worktreeState"

definition ret :: "'a \<Rightarrow> 'a act" where
  "ret x s = (Inr x, s)"

definition throw :: "WorktreeError \<Rightarrow> 'a act" where
  "throw e s = (Inl e, s)"

definition bindW :: "'a act \<Rightarrow> ('a \<Rightarrow> 'b act) \<Rightarrow> 'b act" where
  "bindW m f s = (case m s of (Inl e, s') \<Rightarrow> (Inl e, s') | (Inr x, s') \<Rightarrow> f x s')"

definition check :: "bool \<Rightarrow> WorktreeError \<Rightarrow> unit act" where
  "check b e = (if b then ret () else throw e)"

definition reading :: "(hostHistory \<Rightarrow> 'a) \<Rightarrow> 'a act" where
  "reading f s = (Inr (f (wt_history s)), s)"

definition given :: "'a option \<Rightarrow> WorktreeError \<Rightarrow> 'a act" where
  "given x e = (case x of None \<Rightarrow> throw e | Some v \<Rightarrow> ret v)"

definition host :: "worktreeEnv \<Rightarrow> hostCall \<Rightarrow> hostAnswer act" where
  "host W c s = (let a = wx_host W (wt_history s) c in (Inr a, s\<lparr>wt_history := wt_history s @ [(c, a)]\<rparr>))"

text \<open>A call whose failure ends the operation.\<close>

definition must :: "worktreeEnv \<Rightarrow> hostCall \<Rightarrow> WorktreeError \<Rightarrow> unit act" where
  "must W c e = bindW (host W c) (\<lambda>a. check (ha_ok a) e)"

section \<open>Git\<close>

definition safeGitArguments :: "string list \<Rightarrow> string list" where
  "safeGitArguments arguments =
     [''-c'', ''core.hooksPath=/dev/null'', ''-c'', ''core.fsmonitor=false'', ''-c'', ''protocol.allow=never'',
      ''-c'', ''protocol.ext.allow=never''] @ arguments"

definition gitCall :: "string \<Rightarrow> string list \<Rightarrow> hostCall" where
  "gitCall repository arguments = HostGit repository (safeGitArguments arguments)"

definition stdoutOf :: "writes \<Rightarrow> writes" where
  "stdoutOf ws = filter (\<lambda>w. \<not> fst w) ws"

definition gitOutput :: "worktreeEnv \<Rightarrow> string \<Rightarrow> string list \<Rightarrow> string act" where
  "gitOutput W repository arguments =
     bindW (host W (gitCall repository arguments)) (\<lambda>a.
       let out = limitedOutput 16777216 (stdoutOf (ha_writes a)) in
       if \<not> ha_ok a then throw GitFailed
       else if lb_truncated out then throw GitOutputTooLong
       else ret (lb_buffer out))"

section \<open>Paths\<close>

text \<open>The path and its parents up to the root, as the loop of \<open>pathWithin\<close> visits them.\<close>

definition ancestors :: "string \<Rightarrow> string list" where
  "ancestors candidate = map rooted (rev (prefixes (components candidate)))"

definition pathWithin :: "worktreeEnv \<Rightarrow> hostHistory \<Rightarrow> string \<Rightarrow> string \<Rightarrow> bool" where
  "pathWithin W h base candidate \<longleftrightarrow> withinRoot base candidate \<or> list_ex (wx_same W h base) (ancestors candidate)"

text \<open>\<open>canonicalProspectivePath\<close>: the nearest parent that exists, made canonical, with the missing names after it.\<close>

fun prospective :: "worktreeEnv \<Rightarrow> hostHistory \<Rightarrow> string list \<Rightarrow> string list \<Rightarrow> string option" where
  "prospective W h reversed missing =
     (case wx_lstat W h (rooted (rev reversed)) of
        InfoError \<Rightarrow> None
      | InfoMissing \<Rightarrow> (case reversed of [] \<Rightarrow> None | c # cs \<Rightarrow> prospective W h cs (c # missing))
      | _ \<Rightarrow> map_option (\<lambda>canonical. foldl (\<lambda>p name. Clean (p @ ''/'' @ name)) canonical missing)
               (wx_eval W h (rooted (rev reversed))))"

definition canonicalProspectivePath :: "worktreeEnv \<Rightarrow> hostHistory \<Rightarrow> string \<Rightarrow> string option" where
  "canonicalProspectivePath W h candidate = prospective W h (rev (components candidate)) []"

definition validateTreePath :: "string \<Rightarrow> bool" where
  "validateTreePath name \<longleftrightarrow> ValidPath name \<and> name \<noteq> ''.'' \<and> \<not> reservedPath name"

definition pathDir :: "string \<Rightarrow> string" where
  "pathDir name = Clean (rev (dropWhile (\<lambda>c. c \<noteq> CHR ''/'') (rev name)))"

section \<open>Materialization\<close>

definition makeMaterializedDirectory :: "worktreeEnv \<Rightarrow> string \<Rightarrow> string \<Rightarrow> unit act" where
  "makeMaterializedDirectory W workspace name =
     bindW (check (validateTreePath name) TreeUnsafePath) (\<lambda>_. must W (RootMkdirAll workspace name) MaterializeFailed)"

definition materializeBlob :: "worktreeEnv \<Rightarrow> string \<Rightarrow> string \<Rightarrow> string \<Rightarrow> string \<Rightarrow> int \<Rightarrow> unit act" where
  "materializeBlob W repository workspace name objectID mode =
     bindW (must W (RootOpenFile workspace name mode) MaterializeFailed) (\<lambda>_.
     bindW (host W (gitCall repository [''cat-file'', ''blob'', objectID])) (\<lambda>run.
     bindW (host W (RootClose workspace name)) (\<lambda>close.
       if \<not> ha_ok run \<or> \<not> ha_ok close then bindW (host W (RootRemove workspace name)) (\<lambda>_. throw MaterializeFailed)
       else ret ())))"

text \<open>The octal modes 0600 and 0700 are 384 and 448.\<close>

definition materializeFile :: "worktreeEnv \<Rightarrow> string \<Rightarrow> string \<Rightarrow> string \<Rightarrow> string \<Rightarrow> string \<Rightarrow> int \<Rightarrow> unit act" where
  "materializeFile W repository workspace name mode objectID bytes =
     (if mode = ''100644'' \<or> mode = ''100755'' then
        materializeBlob W repository workspace name objectID (if mode = ''100755'' then 448 else 384)
      else if mode = ''120000'' then
        bindW (check (bytes \<le> 4096) MaterializeFailed) (\<lambda>_.
        bindW (gitOutput W repository [''cat-file'', ''blob'', objectID]) (\<lambda>target.
        bindW (check (int (length target) = bytes) MaterializeFailed) (\<lambda>_.
          must W (RootSymlink workspace target name) MaterializeFailed)))
      else throw TreeUnsupported)"

definition materializeEntry :: "worktreeEnv \<Rightarrow> string \<Rightarrow> string \<Rightarrow> string \<Rightarrow> unit act" where
  "materializeEntry W repository workspace encoded =
     (if encoded = '''' then ret ()
      else case cutTab encoded of
          None \<Rightarrow> throw TreeMalformed
        | Some (metadata, name) \<Rightarrow>
            (case Fields metadata of
               [mode, kind, objectID, sizeText] \<Rightarrow>
                 if kind = ''blob'' \<and> isObjectID objectID then
                   bindW (given (ParseInt sizeText) TreeUnsupported) (\<lambda>bytes.
                   bindW (check (0 \<le> bytes) TreeUnsupported) (\<lambda>_.
                   bindW (check (validateTreePath name) TreeUnsafePath) (\<lambda>_.
                   bindW (must W (RootMkdirAll workspace (pathDir name)) MaterializeFailed) (\<lambda>_.
                     materializeFile W repository workspace name mode objectID bytes))))
                 else if kind = ''commit'' then makeMaterializedDirectory W workspace name
                 else throw TreeUnsupported
             | fs \<Rightarrow>
                 if length fs \<ge> 2 \<and> fs ! 1 = ''commit'' then makeMaterializedDirectory W workspace name
                 else throw TreeUnsupported))"

fun eachEntry :: "('x \<Rightarrow> unit act) \<Rightarrow> 'x list \<Rightarrow> unit act" where
  "eachEntry f [] = ret ()"
| "eachEntry f (x # xs) = bindW (f x) (\<lambda>_. eachEntry f xs)"

definition materializeGitTree :: "worktreeEnv \<Rightarrow> string \<Rightarrow> string \<Rightarrow> string \<Rightarrow> unit act" where
  "materializeGitTree W repository workspace revision =
     bindW (gitOutput W repository [''ls-tree'', ''-r'', ''-z'', ''--full-tree'', ''-l'', revision]) (\<lambda>tree.
     bindW (must W (RootOpen workspace) MaterializeFailed) (\<lambda>_.
       eachEntry (materializeEntry W repository workspace) (split_at (CHR 0x00) '''' tree)))"


section \<open>Removal\<close>

definition worktreeRegistered :: "worktreeEnv \<Rightarrow> string \<Rightarrow> string \<Rightarrow> bool act" where
  "worktreeRegistered W repository workspace =
     bindW (gitOutput W repository [''worktree'', ''list'', ''--porcelain'']) (\<lambda>output.
       ret (list_ex (\<lambda>line. has_prefix line ''worktree '' \<and> Clean (drop 9 line) = Clean workspace) (split_at (CHR 0x0A) '''' output)))"

text \<open>
  The workspace is deleted only when git no longer lists it; the outcome of \<open>git worktree remove\<close> itself
  only shows in the text of an error.
\<close>

definition cleanupKnownWorktree :: "worktreeEnv \<Rightarrow> gitWorktree \<Rightarrow> unit act" where
  "cleanupKnownWorktree W tree =
     bindW (reading (\<lambda>h. pathWithin W h (gw_root tree) (gw_workspace tree) \<and> gw_workspace tree \<noteq> gw_root tree)) (\<lambda>inside.
     bindW (check inside CleanupOutside) (\<lambda>_.
     bindW (host W (gitCall (gw_repository tree) [''worktree'', ''remove'', ''--force'', gw_workspace tree])) (\<lambda>_.
     bindW (worktreeRegistered W (gw_repository tree) (gw_workspace tree)) (\<lambda>registered.
     bindW (check (\<not> registered) StillRegistered) (\<lambda>_.
       must W (HostRemoveAll (gw_workspace tree)) RemoveAllFailed)))))"

definition dropPending :: "string \<Rightarrow> unit act" where
  "dropPending workspace s = (Inr (), s\<lparr>wt_pending := AList.delete workspace (wt_pending s)\<rparr>)"

text \<open>\<open>Destroy\<close> of a worktree; \<open>destroyed\<close> is the field of the handle, the result its new value.\<close>

definition worktree_Destroy :: "worktreeEnv \<Rightarrow> bool \<Rightarrow> gitWorktree \<Rightarrow> unit act" where
  "worktree_Destroy W destroyed tree =
     (if destroyed then ret ()
      else bindW (cleanupKnownWorktree W tree) (\<lambda>_. dropPending (gw_workspace tree)))"

text \<open>\<open>Cleanup\<close> of the provider, in the order of the list; an error of one worktree does not stop the others.\<close>

fun cleanupAll :: "worktreeEnv \<Rightarrow> gitWorktree list \<Rightarrow> worktreeState \<Rightarrow> WorktreeError list \<times> worktreeState" where
  "cleanupAll W [] s = ([], s)"
| "cleanupAll W (tree # trees) s =
     (case worktree_Destroy W False tree s of (r, s1) \<Rightarrow>
      case cleanupAll W trees s1 of (es, s2) \<Rightarrow> ((case r of Inl e \<Rightarrow> e # es | Inr _ \<Rightarrow> es), s2))"

definition worktree_Cleanup :: "worktreeEnv \<Rightarrow> worktreeState \<Rightarrow> WorktreeError list \<times> worktreeState" where
  "worktree_Cleanup W s = cleanupAll W (map snd (wt_pending s)) s"

definition PendingWorktrees :: "worktreeState \<Rightarrow> string list" where
  "PendingWorktrees s = sort (map fst (wt_pending s))"

section \<open>Creation\<close>

record worktreeSpec =
  sp_RunID :: string
  sp_AttemptID :: string
  sp_Repository :: string
  sp_Revision :: string

definition newOwnerToken :: "worktreeEnv \<Rightarrow> string act" where
  "newOwnerToken W s =
     ((case wx_token W (wt_tokens s) of None \<Rightarrow> Inl TokenFailed | Some token \<Rightarrow> Inr token), s\<lparr>wt_tokens := wt_tokens s + 1\<rparr>)"

definition addPending :: "gitWorktree \<Rightarrow> unit act" where
  "addPending tree s = (Inr (), s\<lparr>wt_pending := (gw_workspace tree, tree) # wt_pending s\<rparr>)"

definition isPending :: "string \<Rightarrow> bool act" where
  "isPending workspace s = (Inr (map_of (wt_pending s) workspace \<noteq> None), s)"

text \<open>The worktree for a token, with its workspace below the root.\<close>

definition worktreeFor :: "string \<Rightarrow> string \<Rightarrow> worktreeSpec \<Rightarrow> string \<Rightarrow> gitWorktree" where
  "worktreeFor repository base spec token =
     \<lparr>gw_repository = repository, gw_root = base,
      gw_workspace = Clean (base @ ''/'' @ safeName (sp_RunID spec) @ ''-'' @ safeName (sp_AttemptID spec) @ ''-'' @ token),
      gw_scope = \<lparr>sc_RunID = sp_RunID spec, sc_AttemptID = sp_AttemptID spec\<rparr>\<rparr>"

text \<open>A name is claimed before its directory is made; a directory that exists already is never owned.\<close>

fun allocate :: "worktreeEnv \<Rightarrow> nat \<Rightarrow> string \<Rightarrow> string \<Rightarrow> worktreeSpec \<Rightarrow> gitWorktree act" where
  "allocate W 0 repository base spec = throw AllocateExhausted"
| "allocate W (Suc attempts) repository base spec =
     bindW (newOwnerToken W) (\<lambda>token.
       let tree = worktreeFor repository base spec token; workspace = gw_workspace tree in
       bindW (reading (\<lambda>h. pathWithin W h base workspace \<and> workspace \<noteq> base)) (\<lambda>inside.
       bindW (check inside PathEscaped) (\<lambda>_.
       bindW (isPending workspace) (\<lambda>loaded.
         if loaded then allocate W attempts repository base spec
         else bindW (addPending tree) (\<lambda>_.
           bindW (host W (HostMkdir workspace)) (\<lambda>made.
             if ha_ok made then ret tree
             else bindW (dropPending workspace) (\<lambda>_.
               if ha_exist made then allocate W attempts repository base spec else throw AllocateFailed)))))))"

definition allocatePendingWorktree :: "worktreeEnv \<Rightarrow> string \<Rightarrow> string \<Rightarrow> worktreeSpec \<Rightarrow> gitWorktree act" where
  "allocatePendingWorktree W repository base spec = allocate W 8 repository base spec"

definition validateAllocatedWorktree :: "worktreeEnv \<Rightarrow> hostHistory \<Rightarrow> string \<Rightarrow> bool" where
  "validateAllocatedWorktree W h workspace \<longleftrightarrow>
     (case wx_lstat W h workspace of InfoDir mode _ \<Rightarrow> mode = 448 | _ \<Rightarrow> False) \<and> wx_eval W h workspace = Some workspace"

definition containsAny :: "string \<Rightarrow> bool" where
  "containsAny s \<longleftrightarrow> list_ex (\<lambda>c. c \<in> {CHR 0x00, CHR 0x0D, CHR 0x0A, CHR 0x09}) s"

definition specValid :: "worktreeSpec \<Rightarrow> bool" where
  "specValid spec \<longleftrightarrow> sp_RunID spec \<noteq> '''' \<and> sp_AttemptID spec \<noteq> '''' \<and> sp_Repository spec \<noteq> '''' \<and> sp_Revision spec \<noteq> ''''
     \<and> \<not> has_prefix (sp_Revision spec) ''-'' \<and> \<not> containsAny (sp_RunID spec) \<and> \<not> containsAny (sp_AttemptID spec)
     \<and> CHR 0x00 \<notin> set (sp_Revision spec)"

text \<open>The canonical repository, which must be the top level of its Git checkout.\<close>

definition canonicalRepository :: "worktreeEnv \<Rightarrow> worktreeSpec \<Rightarrow> string act" where
  "canonicalRepository W spec =
     bindW (given (wx_abs W (sp_Repository spec)) ResolveFailed) (\<lambda>repository.
     bindW (gitOutput W repository [''rev-parse'', ''--show-toplevel'']) (\<lambda>topLevel.
     bindW (reading (\<lambda>h. wx_eval W h repository)) (\<lambda>canonical.
     bindW (given canonical ResolveFailed) (\<lambda>repo.
     bindW (reading (\<lambda>h. wx_eval W h (TrimSpace topLevel))) (\<lambda>canonicalTop.
     bindW (given canonicalTop ResolveFailed) (\<lambda>top.
     bindW (check (repo = top) NotTopLevel) (\<lambda>_. ret repo)))))))"

text \<open>The canonical worktree root: outside the repository, private and owned by the user.\<close>

definition canonicalRoot :: "worktreeEnv \<Rightarrow> string \<Rightarrow> string act" where
  "canonicalRoot W repository =
     bindW (given (wx_abs W (if wx_root W = '''' then Clean (wx_tempDir W @ ''/agentdock-worktrees'') else wx_root W)) ResolveFailed) (\<lambda>absolute.
     bindW (reading (\<lambda>h. canonicalProspectivePath W h absolute)) (\<lambda>found.
     bindW (given found ResolveFailed) (\<lambda>prospect.
     bindW (reading (\<lambda>h. pathWithin W h repository prospect)) (\<lambda>inside.
     bindW (check (\<not> inside) RootInsideRepository) (\<lambda>_.
     bindW (must W (HostMkdirAll absolute) RootCreateFailed) (\<lambda>_.
     bindW (reading (\<lambda>h. wx_lstat W h absolute)) (\<lambda>info.
     bindW (check (case info of InfoDir mode owner \<Rightarrow> owner = wx_uid W \<and> mode = 448 | _ \<Rightarrow> False) RootUnsafe) (\<lambda>_.
     bindW (reading (\<lambda>h. wx_eval W h absolute)) (\<lambda>canonical.
     bindW (given canonical ResolveFailed) (\<lambda>base.
     bindW (reading (\<lambda>h. pathWithin W h repository base)) (\<lambda>nested.
     bindW (check (\<not> nested) RootInsideRepository) (\<lambda>_. ret base))))))))))))"

text \<open>What happens after the directory exists; every failure of it is followed by a destruction.\<close>

definition checkoutWorktree :: "worktreeEnv \<Rightarrow> worktreeSpec \<Rightarrow> gitWorktree \<Rightarrow> unit act" where
  "checkoutWorktree W spec tree =
     bindW (reading (\<lambda>h. validateAllocatedWorktree W h (gw_workspace tree))) (\<lambda>valid.
     bindW (check valid NotPrivate) (\<lambda>_.
     bindW (must W (HostRemove (gw_workspace tree)) PrepareFailed) (\<lambda>_.
     bindW (gitOutput W (gw_repository tree) [''rev-parse'', ''--verify'', sp_Revision spec @ ''^{commit}'']) (\<lambda>output.
     bindW (check (isObjectID (TrimSpace output)) InvalidObjectID) (\<lambda>_.
     bindW (gitOutput W (gw_repository tree)
         [''worktree'', ''add'', ''--no-checkout'', ''--detach'', gw_workspace tree, TrimSpace output]) (\<lambda>_.
       materializeGitTree W (gw_repository tree) (gw_workspace tree) (TrimSpace output)))))))"

text \<open>\<open>Create\<close>: the handle, if the caller gets one, and the errors.\<close>

definition worktree_Create :: "worktreeEnv \<Rightarrow> worktreeSpec \<Rightarrow> worktreeState \<Rightarrow> (gitWorktree option \<times> WorktreeError list) \<times> worktreeState" where
  "worktree_Create W spec s =
     (case bindW (check (specValid spec) SpecInvalid) (\<lambda>_.
           bindW (canonicalRepository W spec) (\<lambda>repository.
           bindW (canonicalRoot W repository) (\<lambda>base.
             allocatePendingWorktree W repository base spec))) s of
        (Inl e, s1) \<Rightarrow> ((None, [e]), s1)
      | (Inr tree, s1) \<Rightarrow>
          (case checkoutWorktree W spec tree s1 of
             (Inr _, s2) \<Rightarrow> ((Some tree, []), s2)
           | (Inl cause, s2) \<Rightarrow>
               (case worktree_Destroy W False tree s2 of
                  (Inr _, s3) \<Rightarrow> ((None, [cause]), s3)
                | (Inl e, s3) \<Rightarrow> ((Some tree, [cause, e]), s3))))"

end
