(* ===== verification/Worktree_Props.thy ===== *)
theory Worktree_Props
  imports Worktree
begin

text \<open>
  What the worktree provider does to the host, as a trace: it works in and deletes only directories that
  it made exclusively before, and it forgets none of them.
\<close>

section \<open>Traces\<close>

text \<open>The directories made so far: \<open>mkdir\<close> fails on a path that exists.\<close>

definition madeBy :: "hostHistory \<Rightarrow> string set" where
  "madeBy h = {w. \<exists>a. (HostMkdir w, a) \<in> set h \<and> ha_ok a}"

definition removedBy :: "hostHistory \<Rightarrow> string set" where
  "removedBy h = {w. \<exists>a. (HostRemoveAll w, a) \<in> set h \<and> ha_ok a}"

lemma made_append [simp]: "madeBy (h @ g) = madeBy h \<union> madeBy g" "removedBy (h @ g) = removedBy h \<union> removedBy g"
  by (auto simp: madeBy_def removedBy_def)

text \<open>The workspace a call deletes, registers or writes to.\<close>

fun workspaceOf :: "hostCall \<Rightarrow> string option" where
  "workspaceOf (HostGit repository arguments) =
     (case drop 8 arguments of
        [a, b, c, w] \<Rightarrow> if a = ''worktree'' \<and> b = ''remove'' then Some w else None
      | [a, b, c, d, w, r] \<Rightarrow> if a = ''worktree'' \<and> b = ''add'' then Some w else None
      | _ \<Rightarrow> None)"
| "workspaceOf (HostRemove w) = Some w"
| "workspaceOf (HostRemoveAll w) = Some w"
| "workspaceOf (RootOpen w) = Some w"
| "workspaceOf (RootMkdirAll w name) = Some w"
| "workspaceOf (RootOpenFile w name mode) = Some w"
| "workspaceOf (RootClose w name) = Some w"
| "workspaceOf (RootSymlink w target name) = Some w"
| "workspaceOf (RootRemove w name) = Some w"
| "workspaceOf (HostMkdirAll p) = None"
| "workspaceOf (HostMkdir p) = None"

fun ownedWork :: "string set \<Rightarrow> hostHistory \<Rightarrow> bool" where
  "ownedWork M [] = True"
| "ownedWork M ((c, a) # h) =
     ((case workspaceOf c of None \<Rightarrow> True | Some w \<Rightarrow> w \<in> M) \<and> ownedWork (M \<union> madeBy [(c, a)]) h)"

lemma ownedWork_append: "ownedWork M (h @ g) \<longleftrightarrow> ownedWork M h \<and> ownedWork (M \<union> madeBy h) g"
proof (induction M h rule: ownedWork.induct)
  case (2 M c a h)
  have "madeBy ((c, a) # h) = madeBy [(c, a)] \<union> madeBy h" by (auto simp: madeBy_def)
  with 2 show ?case by (simp add: Un_assoc)
qed (simp add: madeBy_def)

text \<open>Names written below a workspace are valid tree paths or their directories; git always gets its safe configuration.\<close>

fun safeCall :: "hostCall \<Rightarrow> bool" where
  "safeCall (HostGit repository arguments) = (\<exists>rest. arguments = safeGitArguments rest)"
| "safeCall (RootMkdirAll w name) = (validateTreePath name \<or> (\<exists>below. validateTreePath below \<and> name = pathDir below))"
| "safeCall (RootOpenFile w name mode) = validateTreePath name"
| "safeCall (RootClose w name) = validateTreePath name"
| "safeCall (RootSymlink w target name) = validateTreePath name"
| "safeCall (RootRemove w name) = validateTreePath name"
| "safeCall _ = True"

definition grows :: "worktreeState \<Rightarrow> worktreeState \<Rightarrow> bool" where
  "grows s s' \<longleftrightarrow> (\<exists>g. wt_history s' = wt_history s @ g \<and> ownedWork (madeBy (wt_history s)) g \<and> list_all (\<lambda>p. safeCall (fst p)) g)"

lemma host_grows_refl [simp]: "grows s s"
  by (simp add: grows_def)

lemma host_grows_trans: "grows s s1 \<Longrightarrow> grows s1 s2 \<Longrightarrow> grows s s2"
  unfolding grows_def by (clarsimp simp: ownedWork_append)

lemma host_grows_made: "grows s s' \<Longrightarrow> madeBy (wt_history s) \<subseteq> madeBy (wt_history s')"
  by (auto simp: grows_def)

section \<open>Actions on a workspace\<close>

text \<open>
  An action that works on the workspaces \<open>V\<close> only: when they have been made, its calls are owned and safe,
  makes no other directory and it leaves the pending worktrees alone.
\<close>

definition worksOn :: "string set \<Rightarrow> 'a act \<Rightarrow> bool" where
  "worksOn V m \<longleftrightarrow> (\<forall>s r s'. m s = (r, s') \<longrightarrow> V \<subseteq> madeBy (wt_history s) \<longrightarrow>
     grows s s' \<and> wt_pending s' = wt_pending s \<and> madeBy (wt_history s') = madeBy (wt_history s))"

named_theorems works

lemma works_bind [works]: "worksOn V m \<Longrightarrow> (\<And>x. worksOn V (f x)) \<Longrightarrow> worksOn V (bindW m f)"
  unfolding worksOn_def bindW_def
  by (fastforce split: prod.splits sum.splits intro: host_grows_trans)

lemma works_pure [works]:
  "worksOn V (ret x)" "worksOn V (throw e)" "worksOn V (check b e)" "worksOn V (reading f)" "worksOn V (given v e)"
  by (auto simp: worksOn_def ret_def throw_def check_def reading_def given_def split: option.splits if_splits)

lemma works_host:
  assumes "safeCall c" "\<forall>w. workspaceOf c = Some w \<longrightarrow> w \<in> V" "\<forall>p. c \<noteq> HostMkdir p"
  shows "worksOn V (host W c)"
  using assms by (auto simp: worksOn_def host_def grows_def madeBy_def Let_def split: option.splits)

lemma works_must [works]: "worksOn V (host W c) \<Longrightarrow> worksOn V (must W c e)"
  unfolding must_def by (intro works)

lemma works_if [works]: "worksOn V m \<Longrightarrow> worksOn V n \<Longrightarrow> worksOn V (if b then m else n)"
  by simp

lemma safe_git [simp]: "safeCall (gitCall repository arguments)"
  by (auto simp: gitCall_def)

lemma git_workspace [simp]:
  "workspaceOf (gitCall repository arguments) = (case arguments of
     [a, b, c, w] \<Rightarrow> if a = ''worktree'' \<and> b = ''remove'' then Some w else None
   | [a, b, c, d, w, r] \<Rightarrow> if a = ''worktree'' \<and> b = ''add'' then Some w else None
   | _ \<Rightarrow> None)"
  by (simp add: gitCall_def safeGitArguments_def)

lemma git_not_mkdir [simp]: "gitCall repository arguments \<noteq> HostMkdir p"
  by (simp add: gitCall_def)

lemma works_git [works]: "worksOn V (host W (gitCall repository arguments)) \<Longrightarrow> worksOn V (gitOutput W repository arguments)"
  unfolding gitOutput_def Let_def by (intro works)

lemma works_read_only_git: "length arguments < 4 \<Longrightarrow> worksOn V (host W (gitCall repository arguments))"
  by (rule works_host) (auto split: list.splits)

lemma works_blob:
  assumes "validateTreePath name"
  shows "worksOn {w} (materializeBlob W repository w name objectID mode)"
  unfolding materializeBlob_def using assms by (intro works works_read_only_git works_host) auto

lemma works_file:
  assumes "validateTreePath name"
  shows "worksOn {w} (materializeFile W repository w name mode objectID bytes)"
  unfolding materializeFile_def using assms by (intro works works_blob works_read_only_git works_host) auto

lemma works_checked: "(b \<Longrightarrow> worksOn V m) \<Longrightarrow> worksOn V (bindW (check b e) (\<lambda>_. m))"
  by (cases b) (auto simp: worksOn_def bindW_def check_def ret_def throw_def)

lemma works_directory: "worksOn {w} (makeMaterializedDirectory W w name)"
  unfolding makeMaterializedDirectory_def by (intro works_checked works works_host) auto

lemma works_entry: "worksOn {w} (materializeEntry W repository w encoded)"
proof -
  have "worksOn {w} (bindW (given (ParseInt sizeText) TreeUnsupported) (\<lambda>bytes.
      bindW (check (0 \<le> bytes) TreeUnsupported) (\<lambda>_.
      bindW (check (validateTreePath name) TreeUnsafePath) (\<lambda>_.
      bindW (must W (RootMkdirAll w (pathDir name)) MaterializeFailed) (\<lambda>_.
        materializeFile W repository w name mode objectID bytes)))))" for sizeText name mode objectID
    by (intro works_bind works_pure works_checked works_must works_host works_file) auto
  then show ?thesis unfolding materializeEntry_def
    by (auto split: option.splits list.splits intro!: works_pure works_directory)
qed

lemma works_each: "(\<And>x. worksOn V (f x)) \<Longrightarrow> worksOn V (eachEntry f xs)"
  by (induction xs) (auto intro: works)

lemma works_tree: "worksOn {w} (materializeGitTree W repository w revision)"
proof -
  have "worksOn {w} (host W (gitCall repository [''ls-tree'', ''-r'', ''-z'', ''--full-tree'', ''-l'', revision]))"
    by (rule works_host) auto
  then show ?thesis unfolding materializeGitTree_def by (intro works works_each works_entry works_host) auto
qed

lemma works_checkout: "worksOn {gw_workspace tree} (checkoutWorktree W spec tree)"
proof -
  have "worksOn {gw_workspace tree} (host W (gitCall (gw_repository tree)
      [''worktree'', ''add'', ''--no-checkout'', ''--detach'', gw_workspace tree, revision]))" for revision
    by (rule works_host) auto
  then show ?thesis unfolding checkoutWorktree_def by (intro works works_read_only_git works_tree works_host) auto
qed

lemma works_cleanup: "worksOn {gw_workspace tree} (cleanupKnownWorktree W tree)"
proof -
  have "worksOn {gw_workspace tree} (host W (gitCall (gw_repository tree) [''worktree'', ''remove'', ''--force'', gw_workspace tree]))"
    by (rule works_host) auto
  then show ?thesis unfolding cleanupKnownWorktree_def worktreeRegistered_def by (intro works works_read_only_git works_host) auto
qed

lemma works_canonical: "worksOn {} (canonicalRepository W spec)" "worksOn {} (canonicalRoot W repository)"
  unfolding canonicalRepository_def canonicalRoot_def by (intro works works_read_only_git works_host; simp)+

section \<open>Pending worktrees\<close>

text \<open>
  Every pending worktree is keyed by its workspace, which was made, and every workspace that was made is
  pending or was deleted.
\<close>

definition accounted :: "worktreeState \<Rightarrow> bool" where
  "accounted s \<longleftrightarrow> distinct (map fst (wt_pending s)) \<and> (\<forall>(w, tree)\<in>set (wt_pending s). gw_workspace tree = w \<and> w \<in> madeBy (wt_history s))
     \<and> madeBy (wt_history s) \<subseteq> fst ` set (wt_pending s) \<union> removedBy (wt_history s)"

lemma accounted_grows:
  assumes "accounted s" "grows s s'" "wt_pending s' = wt_pending s" "madeBy (wt_history s') = madeBy (wt_history s)"
  shows "accounted s'"
  using assms by (auto simp: accounted_def grows_def)

lemma works_accounted:
  assumes "worksOn V m" "m s = (r, s')" "accounted s" "V \<subseteq> fst ` set (wt_pending s)"
  shows "grows s s' \<and> wt_pending s' = wt_pending s \<and> accounted s'"
proof -
  have "V \<subseteq> madeBy (wt_history s)" using assms(3,4) by (fastforce simp: accounted_def)
  with assms(1,2) have "grows s s'" "wt_pending s' = wt_pending s" "madeBy (wt_history s') = madeBy (wt_history s)"
    unfolding worksOn_def by blast+
  with accounted_grows [OF assms(3)] show ?thesis by blast
qed


lemma must_removed: "must W (HostRemoveAll w) e s = (Inr x, s') \<Longrightarrow> w \<in> removedBy (wt_history s')"
  by (auto simp: must_def bindW_def host_def check_def ret_def throw_def removedBy_def Let_def split: if_splits)

lemma bind_last: "bindW m f s = (Inr x, s') \<Longrightarrow> \<exists>y s1. f y s1 = (Inr x, s')"
  by (auto simp: bindW_def split: prod.splits sum.splits)

lemma cleanup_removed:
  assumes "cleanupKnownWorktree W tree s = (Inr x, s')"
  shows "gw_workspace tree \<in> removedBy (wt_history s')"
proof -
  obtain s1 y where "must W (HostRemoveAll (gw_workspace tree)) RemoveAllFailed s1 = (Inr y, s')"
    using assms unfolding cleanupKnownWorktree_def by (auto dest!: bind_last)
  then show ?thesis by (rule must_removed)
qed

lemma destroy_accounted:
  assumes "worktree_Destroy W False tree s = (r, s')" "accounted s" "gw_workspace tree \<in> fst ` set (wt_pending s)"
  shows "grows s s' \<and> accounted s'
    \<and> wt_pending s' = (if isl r then wt_pending s else AList.delete (gw_workspace tree) (wt_pending s))"
proof -
  obtain r1 s1 where c: "cleanupKnownWorktree W tree s = (r1, s1)" by fastforce
  have w: "grows s s1" "wt_pending s1 = wt_pending s" "accounted s1"
    using works_accounted [OF works_cleanup c assms(2)] assms(3) by auto
  show ?thesis
  proof (cases r1)
    case (Inl e)
    with assms(1) c w show ?thesis by (auto simp: worktree_Destroy_def bindW_def)
  next
    case (Inr u)
    let ?w = "gw_workspace tree"
    have s': "s' = s1\<lparr>wt_pending := AList.delete ?w (wt_pending s1)\<rparr>" "\<not> isl r"
      using assms(1) c Inr by (auto simp: worktree_Destroy_def bindW_def dropPending_def)
    have keys: "fst ` set (AList.delete ?w (wt_pending s1)) = fst ` set (wt_pending s1) - {?w}"
      by (metis delete_keys set_map set_removeAll)
    have "accounted s'" using w(3) cleanup_removed [OF c [unfolded Inr]] keys unfolding accounted_def s'(1)
      by (auto simp: AList.delete_eq distinct_map_filter)
    with w s' show ?thesis by (auto simp: grows_def)
  qed
qed

lemma mkdir_made:
  "ha_ok a \<Longrightarrow> madeBy (h @ [(HostMkdir w, a)]) = insert w (madeBy h)" "\<not> ha_ok a \<Longrightarrow> madeBy (h @ [(HostMkdir w, a)]) = madeBy h"
  by (auto simp: madeBy_def)

text \<open>An allocation either leaves the pending worktrees as they were or adds one whose directory it made.\<close>

lemma allocate_accounted:
  assumes "allocate W n repository base spec s = (r, s')" "accounted s"
  shows "grows s s' \<and> accounted s' \<and> (case r of Inl e \<Rightarrow> wt_pending s' = wt_pending s
    | Inr tree \<Rightarrow> wt_pending s' = (gw_workspace tree, tree) # wt_pending s)"
  using assms
proof (induction n arbitrary: s)
  case 0
  then show ?case by (auto simp: throw_def)
next
  case (Suc n)
  let ?s1 = "s\<lparr>wt_tokens := wt_tokens s + 1\<rparr>"
  have s1: "grows s ?s1" "accounted ?s1" using Suc.prems(2) by (auto simp: grows_def accounted_def)
  show ?case
  proof (cases "wx_token W (wt_tokens s)")
    case None
    with Suc.prems s1 show ?thesis by (auto simp: bindW_def newOwnerToken_def)
  next
    case (Some token)
    define tree where "tree = worktreeFor repository base spec token"
    define w where "w = gw_workspace tree"
    define a where "a = wx_host W (wt_history s) (HostMkdir w)"
    let ?s2 = "?s1\<lparr>wt_history := wt_history s @ [(HostMkdir w, a)]\<rparr>"
    let ?inside = "pathWithin W (wt_history s) base w \<and> w \<noteq> base"
    have step: "allocate W (Suc n) repository base spec s =
      (if \<not> ?inside then (Inl PathEscaped, ?s1)
       else if map_of (wt_pending s) w \<noteq> None then allocate W n repository base spec ?s1
       else if ha_ok a then (Inr tree, ?s2\<lparr>wt_pending := (w, tree) # wt_pending s\<rparr>)
       else if ha_exist a then allocate W n repository base spec (?s2\<lparr>wt_pending := AList.delete w ((w, tree) # wt_pending s)\<rparr>)
       else (Inl AllocateFailed, ?s2\<lparr>wt_pending := AList.delete w ((w, tree) # wt_pending s)\<rparr>))"
      using Some unfolding w_def a_def tree_def
      by (simp add: bindW_def newOwnerToken_def reading_def check_def isPending_def addPending_def host_def dropPending_def ret_def throw_def
        Let_def)
    have g2: "grows s (?s2\<lparr>wt_pending := q\<rparr>)" for q by (simp add: grows_def)
    show ?thesis
    proof (cases "map_of (wt_pending s) w")
      case None
      then have new: "w \<notin> fst ` set (wt_pending s)" by (simp add: map_of_eq_None_iff)
      then have del: "AList.delete w ((w, tree) # wt_pending s) = wt_pending s" by (simp add: AList.delete_eq filter_id_conv) force
      have made: "ha_ok a \<Longrightarrow> accounted (?s2\<lparr>wt_pending := (w, tree) # wt_pending s\<rparr>)"
        using Suc.prems(2) new by (auto simp: accounted_def w_def [symmetric] mkdir_made madeBy_def [of "[_]"] removedBy_def [of "[_]"])
      have unmade: "\<not> ha_ok a \<Longrightarrow> accounted (?s2\<lparr>wt_pending := wt_pending s\<rparr>)"
        using Suc.prems(2) by (auto simp: accounted_def madeBy_def [of "[_]"] removedBy_def [of "[_]"])
      define s3 where "s3 = ?s2\<lparr>wt_pending := wt_pending s\<rparr>"
      have s3: "grows s s3" "wt_pending s3 = wt_pending s" "\<not> ha_ok a \<Longrightarrow> accounted s3"
        using g2 [of "wt_pending s"] unmade by (simp_all add: s3_def)
      have run: "(r, s') = (if \<not> ?inside then (Inl PathEscaped, ?s1)
          else if ha_ok a then (Inr tree, ?s2\<lparr>wt_pending := (w, tree) # wt_pending s\<rparr>)
          else if ha_exist a then allocate W n repository base spec s3 else (Inl AllocateFailed, s3))"
        using Suc.prems(1) step None unfolding del s3_def by simp
      consider "\<not> ?inside" | "?inside" "ha_ok a" | "?inside" "\<not> ha_ok a" "ha_exist a" | "?inside" "\<not> ha_ok a" "\<not> ha_exist a" by blast
      then show ?thesis
      proof cases
        case 1
        with run s1 show ?thesis by simp
      next
        case 2
        with run made g2 [of "(w, tree) # wt_pending s"] show ?thesis by (simp add: w_def)
      next
        case 3
        with run have "allocate W n repository base spec s3 = (r, s')" by simp
        from Suc.IH [OF this s3(3) [OF 3(2)]] s3(1,2) host_grows_trans show ?thesis by (auto split: sum.splits)
      next
        case 4
        with run s3 show ?thesis by simp
      qed
    next
      case found: (Some t)
      then have run: "(r, s') = (if \<not> ?inside then (Inl PathEscaped, ?s1) else allocate W n repository base spec ?s1)"
        using Suc.prems(1) step by simp
      show ?thesis
      proof (cases "?inside")
        case True
        with run have "allocate W n repository base spec ?s1 = (r, s')" by simp
        from Suc.IH [OF this s1(2)] s1(1) host_grows_trans show ?thesis by (auto split: sum.splits)
      next
        case False
        with run s1 show ?thesis by simp
      qed
    qed
  qed
qed


section \<open>Creation and use\<close>

lemma create_accounted:
  assumes "worktree_Create W spec s = ((handle, es), s')" "accounted s"
  shows "grows s s' \<and> accounted s' \<and> (case handle of None \<Rightarrow> es \<noteq> [] \<and> wt_pending s' = wt_pending s
    | Some tree \<Rightarrow> wt_pending s' = (gw_workspace tree, tree) # wt_pending s)"
proof -
  define prepare where "prepare = bindW (check (specValid spec) SpecInvalid) (\<lambda>_. bindW (canonicalRepository W spec) (\<lambda>repository.
    bindW (canonicalRoot W repository) (\<lambda>base. allocatePendingWorktree W repository base spec)))"
  obtain r s1 where p: "prepare s = (r, s1)" by fastforce
  have 1: "grows s s1 \<and> accounted s1 \<and> (case r of Inl e \<Rightarrow> wt_pending s1 = wt_pending s
    | Inr tree \<Rightarrow> wt_pending s1 = (gw_workspace tree, tree) # wt_pending s)"
    (is "?ok s s1 r")
  proof -
    obtain r0 t0 where c0: "check (specValid spec) SpecInvalid s = (r0, t0)" by fastforce
    have 0: "t0 = s" using c0 by (auto simp: check_def ret_def throw_def split: if_splits)
    obtain r1 t1 where c1: "canonicalRepository W spec s = (r1, t1)" by fastforce
    note a1 = works_accounted [OF works_canonical(1) c1 assms(2), simplified]
    show ?thesis
    proof (cases "isl r0 \<or> isl r1")
      case True
      with p c0 0 c1 a1 assms(2) show ?thesis by (auto simp: prepare_def bindW_def isl_def split: sum.splits)
    next
      case False
      then obtain repository where r1: "r1 = Inr repository" "\<not> isl r0" by (cases r1) auto
      obtain r2 t2 where c2: "canonicalRoot W repository t1 = (r2, t2)" by fastforce
      have a2: "grows t1 t2 \<and> wt_pending t2 = wt_pending t1 \<and> accounted t2"
        using works_accounted [OF works_canonical(2) c2] a1 by simp
      show ?thesis
      proof (cases r2)
        case (Inl e)
        with p c0 0 c1 r1 c2 a1 a2 host_grows_trans show ?thesis by (auto simp: prepare_def bindW_def split: sum.splits)
      next
        case (Inr base)
        have al: "allocate W 8 repository base spec t2 = (r, s1)"
          using p c0 0 c1 r1 c2 Inr by (auto simp: prepare_def bindW_def allocatePendingWorktree_def split: sum.splits)
        from allocate_accounted [OF al] a1 a2 show ?thesis by (auto intro: host_grows_trans split: sum.splits)
      qed
    qed
  qed
  show ?thesis
  proof (cases r)
    case (Inl e)
    with assms(1) p 1 show ?thesis by (auto simp: worktree_Create_def prepare_def)
  next
    case (Inr tree)
    obtain r2 s2 where c: "checkoutWorktree W spec tree s1 = (r2, s2)" by fastforce
    have 2: "grows s s2" "wt_pending s2 = (gw_workspace tree, tree) # wt_pending s" "accounted s2"
      using works_accounted [OF works_checkout c] 1 Inr host_grows_trans by auto
    obtain r3 s3 where d: "worktree_Destroy W False tree s2 = (r3, s3)" by fastforce
    have 3: "grows s s3" "accounted s3"
      "wt_pending s3 = (if isl r3 then wt_pending s2 else AList.delete (gw_workspace tree) (wt_pending s2))"
      using destroy_accounted [OF d 2(3)] 2 host_grows_trans by auto
    have "gw_workspace tree \<notin> fst ` set (wt_pending s)" using 2(2,3) by (auto simp: accounted_def)
    then have "AList.delete (gw_workspace tree) (wt_pending s2) = wt_pending s"
      unfolding 2(2) by (simp add: AList.delete_eq filter_id_conv) force
    with assms(1) p Inr c d 2 3 show ?thesis
      by (auto simp: worktree_Create_def prepare_def split: sum.splits)
  qed
qed

text \<open>Any use of a provider: creations, destructions of pending worktrees and clean-ups.\<close>

datatype worktreeOp = OpCreate worktreeSpec | OpDestroy string | OpCleanup

fun worktreeStep :: "worktreeEnv \<Rightarrow> worktreeOp \<Rightarrow> worktreeState \<Rightarrow> worktreeState" where
  "worktreeStep W (OpCreate spec) s = snd (worktree_Create W spec s)"
| "worktreeStep W (OpDestroy workspace) s =
     (case map_of (wt_pending s) workspace of None \<Rightarrow> s | Some tree \<Rightarrow> snd (worktree_Destroy W False tree s))"
| "worktreeStep W OpCleanup s = snd (worktree_Cleanup W s)"

definition newProvider :: worktreeState where
  "newProvider = \<lparr>wt_history = [], wt_tokens = 0, wt_pending = []\<rparr>"

definition useProvider :: "worktreeEnv \<Rightarrow> worktreeOp list \<Rightarrow> worktreeState" where
  "useProvider W ops = foldl (\<lambda>s op. worktreeStep W op s) newProvider ops"

lemma cleanup_accounted:
  assumes "cleanupAll W trees s = (es, s')" "accounted s" "distinct (map gw_workspace trees)" "gw_workspace ` set trees \<subseteq> fst ` set (wt_pending s)"
  shows "grows s s' \<and> accounted s'"
  using assms
proof (induction trees arbitrary: s es)
  case (Cons tree trees)
  obtain r s1 where d: "worktree_Destroy W False tree s = (r, s1)" by fastforce
  have 1: "grows s s1" "accounted s1" "wt_pending s1 = (if isl r then wt_pending s else AList.delete (gw_workspace tree) (wt_pending s))"
    using destroy_accounted [OF d Cons.prems(2)] Cons.prems(4) by auto
  have "fst ` set (AList.delete (gw_workspace tree) (wt_pending s)) = fst ` set (wt_pending s) - {gw_workspace tree}"
    by (metis delete_keys set_map set_removeAll)
  moreover have "gw_workspace tree \<notin> gw_workspace ` set trees" "gw_workspace ` set trees \<subseteq> fst ` set (wt_pending s)"
    using Cons.prems(3,4) by simp_all
  ultimately have "gw_workspace ` set trees \<subseteq> fst ` set (wt_pending s1)" using 1(3) by (cases "isl r") (simp, simp, blast)
  moreover obtain es1 where "cleanupAll W trees s1 = (es1, s')" using Cons.prems(1) d by (auto split: prod.splits)
  ultimately show ?case using Cons.IH [of s1 es1] 1 Cons.prems(3) host_grows_trans by auto
qed simp

lemma step_accounted: "accounted s \<Longrightarrow> grows s (worktreeStep W op s) \<and> accounted (worktreeStep W op s)"
proof (cases op)
  case (OpCreate spec)
  assume "accounted s"
  moreover obtain handle es s' where c: "worktree_Create W spec s = ((handle, es), s')" by (metis prod.exhaust)
  ultimately show ?thesis using create_accounted [OF c] OpCreate by simp
next
  case (OpDestroy w)
  assume a: "accounted s"
  show ?thesis
  proof (cases "map_of (wt_pending s) w")
    case (Some tree)
    then have "(w, tree) \<in> set (wt_pending s)" by (rule map_of_SomeD)
    moreover from this have "gw_workspace tree = w" using a by (auto simp: accounted_def)
    ultimately have "gw_workspace tree \<in> fst ` set (wt_pending s)" by (auto intro: rev_image_eqI)
    moreover obtain r s' where d: "worktree_Destroy W False tree s = (r, s')" by fastforce
    ultimately show ?thesis using destroy_accounted [OF d a] Some OpDestroy by simp
  qed (use OpDestroy a in simp)
next
  case OpCleanup
  assume a: "accounted s"
  then have "map gw_workspace (map snd (wt_pending s)) = map fst (wt_pending s)" by (auto simp: accounted_def)
  then have "distinct (map gw_workspace (map snd (wt_pending s)))" "gw_workspace ` set (map snd (wt_pending s)) \<subseteq> fst ` set (wt_pending s)"
    using a by (metis accounted_def, metis set_map subset_refl)
  moreover obtain es s' where c: "cleanupAll W (map snd (wt_pending s)) s = (es, s')" by fastforce
  ultimately show ?thesis using cleanup_accounted [OF c a] OpCleanup by (simp add: worktree_Cleanup_def)
qed

lemma use_provider: "grows newProvider (useProvider W ops) \<and> accounted (useProvider W ops)"
  unfolding useProvider_def
proof (induction ops rule: rev_induct)
  case (snoc op ops)
  then show ?case using step_accounted host_grows_trans by fastforce
qed (simp add: accounted_def newProvider_def madeBy_def)

text \<open>
  (C19) Whatever the host and git answer, and whatever sequence of creations, destructions and clean-ups a
  provider goes through: every call that deletes a path, registers or removes a worktree or writes below
  one concerns a directory that the provider itself made exclusively before; what it writes there has
  valid names outside \<open>.git\<close> and \<open>.agentdock\<close>, git always runs with hooks and protocols disabled; and every
  directory it made is still pending or was deleted.
\<close>

theorem worktree_calls_owned:
  "ownedWork {} (wt_history (useProvider W ops)) \<and> list_all (\<lambda>p. safeCall (fst p)) (wt_history (useProvider W ops))
    \<and> madeBy (wt_history (useProvider W ops)) \<subseteq> set (PendingWorktrees (useProvider W ops)) \<union> removedBy (wt_history (useProvider W ops))"
  using use_provider [of W ops] by (auto simp: newProvider_def grows_def accounted_def PendingWorktrees_def madeBy_def [of "[]"])

text \<open>A host on which a repository with one file can be checked out and removed again.\<close>

definition sampleAnswer :: "hostCall \<Rightarrow> hostAnswer" where
  "sampleAnswer c = \<lparr>ha_ok = True, ha_exist = False, ha_writes =
     (case c of
        HostGit repository arguments \<Rightarrow>
          [(False, if arguments ! 9 = ''--show-toplevel'' then ''/r'' @ [CHR 0x0A]
             else if arguments ! 9 = ''--verify'' then replicate 40 (CHR ''a'')
             else if arguments ! 8 = ''ls-tree'' then ''100644 blob '' @ replicate 40 (CHR ''b'') @ '' 1'' @ [CHR 0x09] @ ''d/f'' @ [CHR 0x00]
             else '''')]
      | _ \<Rightarrow> [])\<rparr>"

definition sampleHost :: worktreeEnv where
  "sampleHost = \<lparr>wx_host = (\<lambda>_. sampleAnswer), wx_abs = Some, wx_eval = (\<lambda>_. Some), wx_lstat = (\<lambda>_ _. InfoDir 448 1000),
     wx_same = (\<lambda>_ _ _. False), wx_token = (\<lambda>n. Some ''t''), wx_tempDir = ''/t'', wx_uid = 1000, wx_root = ''/w''\<rparr>"

definition sampleSpec :: worktreeSpec where
  "sampleSpec = \<lparr>sp_RunID = ''r'', sp_AttemptID = ''a'', sp_Repository = ''/r'', sp_Revision = ''main''\<rparr>"

lemma sample_worktree:
  "map fst (filter (\<lambda>p. workspaceOf (fst p) \<noteq> None) (wt_history (useProvider sampleHost [OpCreate sampleSpec])))
     = [HostRemove ''/w/r-a-t'',
        gitCall ''/r'' [''worktree'', ''add'', ''--no-checkout'', ''--detach'', ''/w/r-a-t'', replicate 40 (CHR ''a'')],
        RootOpen ''/w/r-a-t'', RootMkdirAll ''/w/r-a-t'' ''d'', RootOpenFile ''/w/r-a-t'' ''d/f'' 384, RootClose ''/w/r-a-t'' ''d/f'']"
  "PendingWorktrees (useProvider sampleHost [OpCreate sampleSpec]) = [''/w/r-a-t'']"
  "PendingWorktrees (useProvider sampleHost [OpCreate sampleSpec, OpCleanup]) = []"
  by code_simp+

end
