(* ===== verification/Sandbox_System.thy ===== *)
theory Sandbox_System
  imports Docker_Props Worktree_Props
begin

text \<open>
  The Docker sandbox over the Git worktrees: the worktree handle that the sandbox destroys is one of the
  worktree provider, and the provider of sandboxes retries and lists what it still owns.
\<close>

section \<open>Provider\<close>

text \<open>
  The sandboxes of a provider with their environments. They share the history of Docker, the audit and
  the counter of container names, which the one that acted last hands over.
\<close>

definition handOver :: "('a, 't) sandboxState \<Rightarrow> ('a, 't) sandboxState \<Rightarrow> ('a, 't) sandboxState" where
  "handOver s t = t\<lparr>ds_history := ds_history s, ds_audit := ds_audit s, ds_counter := ds_counter s\<rparr>"

function provider_Cleanup :: "(('a, 't) sandboxEnv \<times> ('a, 't) sandboxState) list \<Rightarrow> errs \<times> (('a, 't) sandboxEnv \<times> ('a, 't) sandboxState) list" where
  "provider_Cleanup [] = ([], [])"
| "provider_Cleanup ((X, s) # sandboxes) =
     (if \<not> ds_owned s then (case provider_Cleanup sandboxes of (es, rest) \<Rightarrow> (es, (X, s) # rest))
      else case docker_Destroy X s of (e, s1) \<Rightarrow>
        case provider_Cleanup (map (\<lambda>(Y, t). (Y, handOver s1 t)) sandboxes) of (es, rest) \<Rightarrow> (e @ es, (X, s1) # rest))"
  by pat_completeness auto
termination
  by (relation "measure length") auto

lemma hand_over: "sandboxWF (handOver s t) = sandboxWF t" "released (handOver s t) = released t"
  by (auto simp: handOver_def sandboxWF_def tracksWell_def released_def)

text \<open>A clean-up without an error leaves every sandbox of the provider released.\<close>

lemma cleanup_releases:
  "provider_Cleanup xs = ([], ys) \<Longrightarrow> \<forall>(X, s)\<in>set xs. sandboxWF s \<Longrightarrow> \<forall>(X, s)\<in>set ys. released s"
proof (induction xs arbitrary: ys rule: provider_Cleanup.induct)
  case (2 X s xs)
  show ?case
  proof (cases "ds_owned s")
    case True
    obtain e s1 where d: "docker_Destroy X s = (e, s1)" by fastforce
    obtain rest where r: "provider_Cleanup (map (\<lambda>(Y, t). (Y, handOver s1 t)) xs) = ([], rest)" "e = []" "ys = (X, s1) # rest"
      using 2(3) True d by (auto split: prod.splits)
    have "\<forall>(Y, t)\<in>set (map (\<lambda>(Y, t). (Y, handOver s1 t)) xs). sandboxWF t" using 2(4) by (auto simp: hand_over)
    from 2(2) [OF _ d [symmetric] r(1) this] True destroy_result [OF d] 2(4) r(2,3) show ?thesis by auto
  next
    case False
    then have "released s" using 2(4) by (auto simp: sandboxWF_def released_def tracksWell_def)
    moreover obtain rest where "provider_Cleanup xs = ([], rest)" "ys = (X, s) # rest" using 2(3) False by (auto split: prod.splits)
    ultimately show ?thesis using 2(1) [OF _ \<open>provider_Cleanup xs = ([], rest)\<close>] False 2(4) by auto
  qed
qed simp

text \<open>The names of the running containers that belong to a known owner and its Run and Attempt.\<close>

fun SplitN4 :: "nat \<Rightarrow> string \<Rightarrow> string list" where
  "SplitN4 0 s = [s]"
| "SplitN4 (Suc n) s = (case cutTab s of None \<Rightarrow> [s] | Some (a, b) \<Rightarrow> a # SplitN4 n b)"

definition activeLine :: "(string \<times> Scope) list \<Rightarrow> string \<Rightarrow> string list" where
  "activeLine owners line =
     (case SplitN4 3 (TrimSpace line) of
        [token, run, attempt, name] \<Rightarrow>
          (case map_of owners token of
             None \<Rightarrow> []
           | Some scope \<Rightarrow> if sc_RunID scope = run \<and> sc_AttemptID scope = attempt \<and> name \<noteq> '''' then [name] else [])
      | _ \<Rightarrow> [])"

definition ActiveContainers :: "(string \<times> Scope) list \<Rightarrow> DockerAnswer \<Rightarrow> string list" where
  "ActiveContainers owners answer =
     (if da_err answer \<noteq> None then [''<docker-query-failed>'']
      else sort (concat (map (activeLine owners) (split_at (CHR 0x0A) '''' (concat (map snd (filter (\<lambda>w. \<not> fst w) (da_writes answer))))))))"

section \<open>Sandboxes over worktrees\<close>

definition gitDestroy :: "worktreeEnv \<Rightarrow> gitWorktree \<Rightarrow> worktreeState \<Rightarrow> bool \<times> worktreeState" where
  "gitDestroy W tree t = (case worktree_Destroy W False tree t of (r, t') \<Rightarrow> (\<not> isl r, t'))"

text \<open>What a sandbox and its worktree agree on.\<close>

definition worktreeAgrees :: "gitWorktree \<Rightarrow> ('a, worktreeState) sandboxState \<Rightarrow> bool" where
  "worktreeAgrees tree s \<longleftrightarrow> accounted (ds_worktree s)
     \<and> (if ds_destroyed s then gw_workspace tree \<in> removedBy (wt_history (ds_worktree s)) \<and> gw_workspace tree \<notin> set (PendingWorktrees (ds_worktree s))
        else map_of (wt_pending (ds_worktree s)) (gw_workspace tree) = Some tree)"

interpretation settled: sandbox_steps "\<lambda>s s'. ds_worktree s' = ds_worktree s"
  by unfold_locales (auto simp: docker_def track_def settle_def forget_def auditD_def nextContainerName_def
    markContainerCreateUnknown_def Let_def split: prod.splits)

lemma settled_execute: "docker_Execute X q s = (r, s') \<Longrightarrow> ds_worktree s' = ds_worktree s \<and> ds_destroyed s' = ds_destroyed s"
  using settled.executes [of X q s r s'] flagged.executes [of X q s r s'] by (auto simp: flags_def)

lemma pointer_worktree:
  "writePointer X content mode s = (r, s') \<Longrightarrow> ds_worktree s' = ds_worktree s"
  "chmodPointer X mode s = (r, s') \<Longrightarrow> ds_worktree s' = ds_worktree s"
  "protectRoot X s = (b, s') \<Longrightarrow> ds_worktree s' = ds_worktree s"
  "auditD X event s = (r, s') \<Longrightarrow> ds_worktree s' = ds_worktree s"
  by (auto simp: writePointer_def chmodPointer_def protectRoot_def fileCall_def auditD_def Let_def
    split: option.splits FileFault.splits prod.splits)

lemma hide_worktree: "hideWorktreeGitPointer X s = (r, s') \<Longrightarrow> ds_worktree s' = ds_worktree s"
  by (auto simp: hideWorktreeGitPointer_def rollbackPointer_def fileCall_def split: option.splits if_splits prod.splits list.splits bool.splits
    dest!: pointer_worktree)

lemma settled_rest:
  "restorePointer X s = (r, s') \<Longrightarrow> ds_worktree s' = ds_worktree s"
  "hideAgain X s = (r, s') \<Longrightarrow> ds_worktree s' = ds_worktree s"
  "recordDestroyFailed X cause s = (r, s') \<Longrightarrow> ds_worktree s' = ds_worktree s"
  "auditedEnd X s = (r, s') \<Longrightarrow> ds_worktree s' = ds_worktree s"
  by (auto simp: restorePointer_def restoreWorktreeGitPointer_def hideAgain_def recordDestroyFailed_def auditedEnd_def recordDestroy_def
      forgetProviderOwnership_def
    split: option.splits prod.splits list.splits if_splits dest!: pointer_worktree hide_worktree)

lemma agrees_same:
  "worktreeAgrees tree s \<Longrightarrow> ds_worktree s' = ds_worktree s \<Longrightarrow> ds_destroyed s' = ds_destroyed s \<Longrightarrow> worktreeAgrees tree s'"
  by (simp add: worktreeAgrees_def)

lemma git_destroy:
  assumes "gitDestroy W tree t = (ok, t')" "accounted t" "map_of (wt_pending t) (gw_workspace tree) = Some tree"
  shows "accounted t'" "ok \<Longrightarrow> gw_workspace tree \<in> removedBy (wt_history t') \<and> gw_workspace tree \<notin> set (PendingWorktrees t')"
    "\<not> ok \<Longrightarrow> wt_pending t' = wt_pending t"
proof -
  let ?w = "gw_workspace tree"
  obtain r where d: "worktree_Destroy W False tree t = (r, t')" "ok = (\<not> isl r)" using assms(1) by (auto simp: gitDestroy_def split: prod.splits)
  have p: "?w \<in> fst ` set (wt_pending t)" using map_of_SomeD [OF assms(3)] by (auto intro: rev_image_eqI)
  note a = destroy_accounted [OF d(1) assms(2) p]
  from a show "accounted t'" by blast
  from a d(2) show "\<not> ok \<Longrightarrow> wt_pending t' = wt_pending t" by simp
  assume ok
  have "?w \<in> madeBy (wt_history t)" using assms(2) map_of_SomeD [OF assms(3)] by (auto simp: accounted_def)
  then have "?w \<in> madeBy (wt_history t')" using a host_grows_made by blast
  moreover have gone: "?w \<notin> fst ` set (wt_pending t')" using a d(2) \<open>ok\<close> by (simp add: AList.delete_eq) force
  ultimately show "?w \<in> removedBy (wt_history t') \<and> ?w \<notin> set (PendingWorktrees t')"
    using a by (auto simp: accounted_def PendingWorktrees_def)
qed

lemma remove_worktree_agrees:
  assumes "removeWorktree X s = (e, s')" "worktreeAgrees tree s" "\<not> ds_destroyed s" "sx_worktreeDestroy X = gitDestroy W tree"
  shows "worktreeAgrees tree s'"
proof -
  obtain r s1 where r: "restorePointer X s = (r, s1)" by fastforce
  have s1: "ds_worktree s1 = ds_worktree s" "ds_destroyed s1 = ds_destroyed s"
    using settled_rest(1) [OF r] wf_core [OF restore_core(1) [OF r]] by simp_all
  obtain ok t where t: "gitDestroy W tree (ds_worktree s1) = (ok, t)" by fastforce
  have g: "accounted t" "ok \<Longrightarrow> gw_workspace tree \<in> removedBy (wt_history t) \<and> gw_workspace tree \<notin> set (PendingWorktrees t)"
    "\<not> ok \<Longrightarrow> wt_pending t = wt_pending (ds_worktree s)"
    using git_destroy [OF t] assms(2,3) s1 by (auto simp: worktreeAgrees_def)
  show ?thesis
  proof (cases ok)
    case True
    with assms(1,4) r t obtain a where a: "auditedEnd X (s1\<lparr>ds_worktree := t, ds_destroyed := True\<rparr>) = (a, s')"
      by (auto simp: removeWorktree_def split: prod.splits)
    have "ds_destroyed s'" using a by (auto simp: auditedEnd_def recordDestroy_def auditD_def forgetProviderOwnership_def split: prod.splits if_splits)
    with settled_rest(4) [OF a] g True show ?thesis by (simp add: worktreeAgrees_def)
  next
    case False
    with assms(1,4) r t obtain h where h: "hideAgain X (s1\<lparr>ds_worktree := t\<rparr>) = (h, s')"
      by (auto simp: removeWorktree_def split: prod.splits)
    have "ds_destroyed s' = ds_destroyed s" using wf_core [OF restore_core(2) [OF h]] s1 by simp
    with settled_rest(2) [OF h] g False assms(2,3) show ?thesis by (simp add: worktreeAgrees_def)
  qed
qed

lemma destroy_agrees:
  assumes "docker_Destroy X s = (e, s')" "worktreeAgrees tree s" "sx_worktreeDestroy X = gitDestroy W tree"
  shows "worktreeAgrees tree s'"
proof (cases "ds_destroyed s")
  case True
  then have "(\<exists>e. auditedEnd X s = (e, s')) \<or> s' = forgetProviderOwnership s" using assms(1) by (auto simp: docker_Destroy_def split: if_splits)
  moreover have "ds_destroyed s' = ds_destroyed s \<and> ds_worktree s' = ds_worktree s" if "auditedEnd X s = (e, s')" for e
    using that by (auto simp: auditedEnd_def recordDestroy_def auditD_def forgetProviderOwnership_def split: prod.splits if_splits)
  ultimately show ?thesis using agrees_same [OF assms(2), of s'] by (auto simp: forgetProviderOwnership_def)
next
  case False
  obtain e1 s1 where 1: "removeContainers (sx_docker X) (s\<lparr>ds_destroying := True\<rparr>) = (e1, s1)" by fastforce
  obtain e2 s2 where 2: "cleanupWorkspace X s1 = (e2, s2)" by fastforce
  have s1: "ds_worktree s1 = ds_worktree s" "ds_destroyed s1 = ds_destroyed s"
    using settled.removes_all [OF 1] flagged.removes_all [OF 1] by (simp_all add: flags_def)
  have s2: "ds_worktree s2 = ds_worktree s" "ds_destroyed s2 = ds_destroyed s"
    using settled.cleans_workspace [OF 2] flagged.cleans_workspace [OF 2] s1 by (simp_all add: flags_def)
  note a1 = agrees_same [OF assms(2) s1] and a2 = agrees_same [OF assms(2) s2]
  obtain e3 s3 where 3: "destroySteps X s = (e3, s3)" by fastforce
  have "s3 = s1 \<or> s3 = s2 \<or> (\<exists>e. removeWorktree X s1 = (e, s3)) \<or> (\<exists>e. removeWorktree X s2 = (e, s3))"
    using 3 1 2 by (auto simp: destroySteps_def split: if_splits list.splits)
  then have a3: "worktreeAgrees tree s3" using a1 a2 remove_worktree_agrees [OF _ a1 _ assms(3)] remove_worktree_agrees [OF _ a2 _ assms(3)]
      s1(2) s2(2) False by auto
  have "s' = s3 \<or> (\<exists>c r. recordDestroyFailed X c s3 = (r, s'))"
    using assms(1) False 3 by (auto simp: docker_Destroy_def split: if_splits prod.splits)
  then show ?thesis
  proof
    assume "\<exists>c r. recordDestroyFailed X c s3 = (r, s')"
    then obtain c r where r: "recordDestroyFailed X c s3 = (r, s')" by blast
    from settled_rest(3) [OF r] wf_core [OF restore_core(3) [OF r]] show ?thesis by (intro agrees_same [OF a3]) simp_all
  qed (use a3 in simp)
qed


section \<open>Properties\<close>

lemma create_agrees:
  assumes "docker_Create X cpuValid token (Some t, ok) prepared pointer rootMode counter h a = Created Y s handle e"
    "sx_worktreeDestroy X = gitDestroy W tree" "accounted t" "map_of (wt_pending t) (gw_workspace tree) = Some tree"
  shows "worktreeAgrees tree s \<and> sx_worktreeDestroy Y = gitDestroy W tree"
proof -
  define c where "c = \<lparr>cm_args = imageArgs (dc_Image (dx_config (sx_docker X))), cm_stdin = ''''\<rparr>"
  define h1 where "h1 = h @ [(c, dx_daemon (sx_docker X) h c)]"
  have h1: "sx_worktreeDestroy Y = gitDestroy W tree
      \<and> ((\<exists>r. recordCreateFailed Y ''disposable worktree creation'' [DockerWorktree] (newPendingSandbox counter h1 a pointer rootMode t) = (r, s))
        \<or> provision Y prepared (newPendingSandbox counter h1 a pointer rootMode t) = ((handle, e), s))"
    using assms(1,2) unfolding docker_Create_def h1_def c_def
    by (auto simp: createFailed_def Let_def split: if_splits option.splits prod.splits)
  let ?s = "newPendingSandbox counter h1 a pointer rootMode t"
  have new: "worktreeAgrees tree ?s" using assms(3,4) by (simp add: worktreeAgrees_def newPendingSandbox_def)
  have audit: "worktreeAgrees tree u'" if "auditD Y event u = (r, u')" "worktreeAgrees tree u" for event u r u'
    using agrees_same [OF that(2) pointer_worktree(4) [OF that(1)]] wf_core [OF pointer_core(4) [OF that(1)]] by blast
  have failed: "worktreeAgrees tree u'" if fp: "failProvisioning Y stage c u = (r, u')" and ag: "worktreeAgrees tree u" for stage c u r u'
  proof -
    obtain e1 u1 where d: "docker_Destroy Y u = (e1, u1)" by fastforce
    obtain event r1 where "auditD Y event u1 = (r1, u')" using fp d by (auto simp: failProvisioning_def recordCreateFailed_def split: prod.splits)
    with audit destroy_agrees [OF d ag] h1 show ?thesis by blast
  qed
  have "worktreeAgrees tree s" using h1
  proof (elim conjE disjE exE)
    fix r
    assume "recordCreateFailed Y ''disposable worktree creation'' [DockerWorktree] ?s = (r, s)"
    with audit new show ?thesis by (auto simp: recordCreateFailed_def split: prod.splits)
  next
    assume p: "provision Y prepared ?s = ((handle, e), s)"
    obtain r1 s1 where h: "hideWorktreeGitPointer Y ?s = (r1, s1)" by fastforce
    have 1: "worktreeAgrees tree s1" using agrees_same [OF new hide_worktree [OF h]] wf_core [OF hide_core [OF h]] by blast
    then have 2: "worktreeAgrees tree (s1\<lparr>ds_gitPointer := g\<rparr>)" for g by (simp add: worktreeAgrees_def)
    show ?thesis
    proof (cases "prepared \<and> (\<exists>original. r1 = Inr original)")
      case True
      then obtain original where original: "r1 = Inr original" "prepared" by blast
      obtain event a3 s3 where a3: "event = sandboxEvent Y AuditSandboxCreated ''disposable worktree provisioned; no execution container started''"
        "auditD Y event (s1\<lparr>ds_gitPointer := Some original\<rparr>) = (a3, s3)" by fastforce
      have 3: "worktreeAgrees tree s3" using audit [OF a3(2) 2] .
      then have "worktreeAgrees tree (s3\<lparr>ds_provisioningFailed := False\<rparr>)" by (simp add: worktreeAgrees_def)
      with p original h a3 failed [OF _ 3] show ?thesis by (auto simp: provision_def Let_def split: list.splits)
    next
      case False
      with p h failed [OF _ new] failed [OF _ 1] show ?thesis by (auto simp: provision_def split: if_splits sum.splits)
    qed
  qed
  with h1 show ?thesis by blast
qed

lemma use_agrees:
  "useSandbox X ops s = (rs, s') \<Longrightarrow> worktreeAgrees tree s \<Longrightarrow> sx_worktreeDestroy X = gitDestroy W tree \<Longrightarrow> worktreeAgrees tree s'"
proof (induction X ops s arbitrary: rs rule: useSandbox.induct)
  case (2 X ops s)
  obtain e s1 where d: "docker_Destroy X s = (e, s1)" by fastforce
  with 2 destroy_agrees [OF d] show ?case by auto
next
  case (3 X q ops s)
  obtain r s1 where x: "docker_Execute X q s = (r, s1)" by fastforce
  have "worktreeAgrees tree s1" using agrees_same [OF 3(3)] settled_execute [OF x] by blast
  with 3 x show ?case by (auto split: prod.splits)
qed simp

text \<open>
  (C18) A sandbox and the worktree below it, from the creation of the worktree by a provider in any state,
  over the creation of the sandbox, through any sequence of executions and destructions, for every host,
  git, Docker daemon, audit and file system: the workspace of a sandbox that counts as destroyed was
  deleted and is no longer pending at the worktree provider, and the workspace of one that does not is
  still pending there, so that it can be cleaned up.
\<close>

theorem sandbox_worktree_accounted:
  assumes "worktree_Create W spec (useProvider W before) = ((Some tree, es), t)"
    and "docker_Create X cpuValid token (Some t, es = []) prepared pointer rootMode counter h a = Created Y s handle e"
    and "sx_worktreeDestroy X = gitDestroy W tree" "useSandbox Y ops s = (rs, s')"
  shows "if ds_destroyed s' then gw_workspace tree \<in> removedBy (wt_history (ds_worktree s'))
      \<and> gw_workspace tree \<notin> set (PendingWorktrees (ds_worktree s'))
    else gw_workspace tree \<in> set (PendingWorktrees (ds_worktree s'))"
proof -
  have t: "accounted t" "map_of (wt_pending t) (gw_workspace tree) = Some tree"
    using create_accounted [OF assms(1)] use_provider by auto
  have "worktreeAgrees tree s'"
    using use_agrees [OF assms(4)] create_agrees [OF assms(2,3) t] by blast
  moreover have "gw_workspace tree \<in> set (PendingWorktrees t)" if "map_of (wt_pending t) (gw_workspace tree) = Some tree" for t
    using map_of_SomeD [OF that] by (auto simp: PendingWorktrees_def intro: rev_image_eqI)
  ultimately show ?thesis by (auto simp: worktreeAgrees_def split: if_splits)
qed


text \<open>The sample daemon over the sample host.\<close>

definition sampleTree :: gitWorktree where
  "sampleTree = worktreeFor ''/r'' ''/w'' sampleSpec ''t''"

definition sampleOver :: "(AuditEvent list, worktreeState) sandboxEnv" where
  "sampleOver = \<lparr>sx_docker = sx_docker sampleSandbox, sx_files = (\<lambda>_. None), sx_worktreeDestroy = gitDestroy sampleHost sampleTree\<rparr>"

definition createdOver :: "worktreeState \<Rightarrow> (AuditEvent list, worktreeState) creation" where
  "createdOver t = docker_Create sampleOver (\<lambda>_. True) (Some ''0'') (Some t, True) True
     (Some \<lparr>pf_regular = True, pf_content = ''gitdir: /g'', pf_mode = 420\<rparr>) 493 0 [] []"

definition destroyedOver :: bool where
  "destroyedOver = (case createdOver (snd (worktree_Create sampleHost sampleSpec (useProvider sampleHost []))) of
      NotCreated _ _ _ \<Rightarrow> False
    | Created Y s _ _ \<Rightarrow> ds_destroyed (snd (useSandbox Y [None] s)))"

theorem sandbox_worktree_accounted_witness:
  "\<exists>t Y s handle e rs s'. worktree_Create sampleHost sampleSpec (useProvider sampleHost []) = ((Some sampleTree, []), t)
     \<and> createdOver t = Created Y s handle e \<and> useSandbox Y [None] s = (rs, s') \<and> ds_destroyed s'
     \<and> gw_workspace sampleTree \<in> removedBy (wt_history (ds_worktree s')) \<and> gw_workspace sampleTree \<notin> set (PendingWorktrees (ds_worktree s'))"
proof -
  define t where "t = snd (worktree_Create sampleHost sampleSpec (useProvider sampleHost []))"
  have "fst (worktree_Create sampleHost sampleSpec (useProvider sampleHost [])) = (Some sampleTree, [])" by code_simp
  then have w: "worktree_Create sampleHost sampleSpec (useProvider sampleHost []) = ((Some sampleTree, []), t)"
    unfolding t_def by (metis prod.collapse)
  have destroyed: destroyedOver by code_simp
  then obtain Y s handle e where c: "createdOver t = Created Y s handle e"
    unfolding destroyedOver_def t_def by (metis creation.case(1) creation.exhaust)
  obtain rs s' where u: "useSandbox Y [None] s = (rs, s')" by fastforce
  have d: "ds_destroyed s'" using destroyed u c unfolding destroyedOver_def t_def by simp
  have over: "sx_worktreeDestroy sampleOver = gitDestroy sampleHost sampleTree" by (simp add: sampleOver_def)
  have "docker_Create sampleOver (\<lambda>_. True) (Some ''0'') (Some t, ([]::WorktreeError list) = []) True
     (Some \<lparr>pf_regular = True, pf_content = ''gitdir: /g'', pf_mode = 420\<rparr>) 493 0 [] [] = Created Y s handle e"
    using c by (simp add: createdOver_def)
  from sandbox_worktree_accounted [OF w this over u] d w c u show ?thesis by auto
qed

end
