(* ===== verification/Spec2Isabelle.thy ===== *)
theory Spec2Isabelle
  imports Store_Memory Storage_Properties Tool_Contract_Props Reasoner_Props Reasoner_Prompt Cli Worker_Props Coding_Agent_Props
    Docker_Boundary Helper_Props Sandbox_System
begin

text \<open>
  AgentDock Verify is a durable control plane for coding-agent Runs. This development models its Go code
  under \<open>src/internal\<close> and \<open>src/cmd/sandbox-helper\<close> and proves what makes the parts correct, alone and together.

  \<^bold>\<open>The program.\<close> A Run is an append-only log of events; its State is the reduction of the log, and the next
  command is decided from the State. A controller performs one command per call and appends the outcome;
  in the leased mode workers hold a lease with a fencing token, plan an action durably before it is
  executed and keep a receipt of its effect, so that a crashed worker can be replaced. The log lives in an
  in-memory store or in PostgreSQL, with artifacts in the file system beside it. A coding agent is a bounded loop
  over a language model, reached through the Reasoner port, whose tool calls go through a tool service: it checks the
  contract of the tool, the paths, and a policy, audits every step, and executes in a sandbox. The sandbox is
  a container per command over a disposable Git worktree, with a small helper program inside.

  \<^bold>\<open>Conventions.\<close> A Go function is a \<open>fun\<close> or \<open>definition\<close> of the same name (prefixed when two types share a
  method name: \<open>pg_Append\<close>, \<open>mem_Append\<close>, \<open>docker_Execute\<close>); a struct is a \<open>record\<close>, an enumeration a \<open>datatype\<close>; an
  error return is the \<open>Inl\<close> side of a sum, or a list where the source joins errors. Strings are byte lists.
  What is not in the repository, the operating system, PostgreSQL's failures, the Docker daemon, git, clocks,
  random tokens, the language model, SHA-256, YAML, is a parameter; nothing is assumed of it unless a
  theorem names the hypothesis. Go's standard library is modelled where its result matters: JSON, UTF-8,
  decimal and floating-point text, paths, durations, regular expressions of the screens, scanners and walks.

  \<^bold>\<open>Shared ground.\<close> \<open>Prelude\<close>: error combinators, decimal text, string search. \<open>Go_Json\<close>: \<open>encoding/json\<close>.

  \<^bold>\<open>Domain\<close> (\<open>src/internal/domain\<close>). \<open>Domain_Types\<close> (\<open>types.go\<close>), \<open>Domain_Decide\<close> (\<open>decide.go\<close>), \<open>Domain_Receipt\<close>
  (\<open>receipt.go\<close>), \<open>Domain_Reducer\<close> (\<open>reducer.go\<close>: every handler, the transition table, both fold loops).
  \<open>Domain_Invariants\<close>, \<open>Domain_Evidence\<close>, \<open>Domain_Progress\<close> and \<open>Domain_Properties\<close> show the invariant of accepted
  logs, the evidence behind a success, terminal states and the stage measure of a Run.

  \<^bold>\<open>Stores and leases\<close> (\<open>src/internal/store\<close>, \<open>src/internal/lease\<close>, \<open>src/migrations\<close>). \<open>Store_Validation\<close> (the
  credential screen), \<open>Event_Store\<close> (the interface as a locale), \<open>Store_Memory\<close>, \<open>Pg_Database\<close> (tables, transactions,
  constraints), \<open>Store_Postgres\<close>, \<open>Store_Artifact\<close>, \<open>Lease_Manager\<close>. \<open>Store_Postgres_Props\<close> shows the refinement of
  the log by the rows, \<open>Storage_System\<close> is the step relation of all writers with its reachable states,
  \<open>Storage_Properties\<close> what holds in them: fencing, authority, deposed workers, lost commits, receipts.

  \<^bold>\<open>Control\<close> (\<open>src/internal/controller\<close>, \<open>cli\<close>, \<open>worker\<close>). \<open>Controller\<close> and \<open>Managed\<close> are written against abstract
  collaborators; \<open>Controller_Contract\<close>, \<open>Managed_Contract\<close> and \<open>Worker_Contract\<close> are the locales with what they rely on
  and give; \<open>World\<close> interprets them on the two stores, where a schedule (other clients, faults, cancelled contexts)
  is a function of the number of calls made, so a theorem for all worlds is one for all interleavings.
  \<open>Worker_Loop\<close> is the process with its three goroutines as a state machine. \<open>Controller_Props\<close>, \<open>Managed_Props\<close>,
  \<open>Worker_Props\<close> and \<open>Cli\<close> hold the guarantees over PostgreSQL (among them the plan
  and the receipt behind every completion, and recovery from a receipt) and the life of a Run over the in-memory store.

  \<^bold>\<open>Tools and policy\<close> (\<open>src/internal/tools\<close>, \<open>src/internal/policy\<close>). \<open>Tool_Contract\<close> (schemas, registry, built-in
  contracts) with \<open>Tool_Contract_Props\<close> (which registries are accepted, the inputs of the five tools); \<open>Policy_Path\<close> (lexical rules, symlink walk over a file tree), \<open>Policy\<close>
  (parsing, decision), \<open>Policy_Audit\<close> (the audit file with partial writes); \<open>Tool_Service\<close> with every gate in
  order, and \<open>Tool_Service_Props\<close>: nothing executes that one of the gates refuses.

  \<^bold>\<open>Reasoner\<close> (\<open>src/internal/reasoner\<close>). \<open>Reasoner\<close> (streams, \<open>Collect\<close>, the scripted Reasoner), \<open>Reasoner_Prompt\<close>,
  \<open>Pattern_Search\<close>, \<open>Reasoner_Replay\<close> (cassettes), \<open>Coding_Agent\<close>; \<open>Reasoner_Props\<close>, \<open>Replay_Props\<close> and
  \<open>Coding_Agent_Props\<close> show well-formed turns, faithful replay, and that a run is bounded, ends on recorded
  turns and acts only through the tool service.

  \<^bold>\<open>Sandbox\<close> (\<open>src/internal/sandbox\<close>, \<open>src/cmd/sandbox-helper\<close>). \<open>Sandbox_Output\<close> (bounded capture), \<open>Docker_Containers\<close>
  and \<open>Docker_Sandbox\<close> (\<open>docker.go\<close>), \<open>Worktree\<close> (\<open>worktree.go\<close>), \<open>Sandbox_Helper\<close> (\<open>main.go\<close> of the helper). The daemon and
  the host answer as any function of the history of calls. \<open>Docker_Trace\<close>, \<open>Docker_Lifecycle\<close>, \<open>Docker_Props\<close> and
  \<open>Docker_Boundary\<close> show that only owned containers are touched, the one-way lifecycle, the environment and the Git
  pointer; \<open>Worktree_Props\<close> that only directories made by the provider are touched and none is forgotten;
  \<open>Helper_Props\<close> that a patch happens once or not at all, for a file system in which names lead to the files put at
  their places, and that host and container agree on paths;
  \<open>Sandbox_System\<close> puts the sandbox on the worktree and shows that a destroyed sandbox left no workspace behind.

  \<^bold>\<open>Loops, bounds and widths.\<close> Loops over data are structural recursions or have a termination proof. Loops that need
  not end (collecting a stream, the agent loop, the driving loops of the command line) are partial functions
  into options, with theorems that they return where they do. Bounds come from the source: 255 links of a
  symlink walk, the JSON nesting limit and the depth of the credential screen, 8 as the largest stage of a Run, 8 tries to
  allocate a worktree, 5 inspections after a failed creation, 1 MiB lines of the helper. Token counts,
  sequence numbers and durations wrap or are checked where the source does so; other Go integers are \<open>int\<close>.

  \<^bold>\<open>Not modelled.\<close> \<open>src/internal/reasoner/eino\<close> translates to the types of a third-party package. \<open>src/internal/migration\<close>
  calls a migration library; the schema it installs is in \<open>Pg_Database\<close>. The programs under \<open>src/cmd\<close> other than the
  helper, and the scripts, parse flags and wire components. The probes of the helper only exercise the isolation
  of a container. Texts of error messages and of terminal output, test seams, delays and the checks for nil
  collaborators are left out, opening the audit file succeeds, and an operation
  under a mutex is one step.
\<close>

end
